(* ===== verification/Prelude.thy ===== *)
theory Prelude
  imports Main "HOL-Library.Word"
begin

text \<open>
  The shared prelude of the development: the machine types and error numbers the C code
  uses, decimal output as \<^verbatim>\<open>printf\<close> does it, the return-code accumulator
  \<^verbatim>\<open>RET_GATHER\<close>, string tables (\<^verbatim>\<open>src/basic/string-table.[ch]\<close>) with the
  contract every enum table of the daemon relies on, and the list lemmas that the component theories
  share. The contracts that several components have in common are locales: printing and reading
  back, frames of steps, and invariants of transition systems.
\<close>

unbundle bit_operations_syntax

named_theorems frame \<open>which parts of the daemon's state an operation leaves alone\<close>

type_synonym u8 = "8 word"
type_synonym u32 = "32 word"
type_synonym u64 = "64 word"

subsection \<open>Error numbers (Linux, as the C library defines them)\<close>

abbreviation (input) EPERM :: int where "EPERM \<equiv> 1"
abbreviation (input) ENOENT :: int where "ENOENT \<equiv> 2"
abbreviation (input) ESRCH :: int where "ESRCH \<equiv> 3"
abbreviation (input) EIO :: int where "EIO \<equiv> 5"
abbreviation (input) ENXIO :: int where "ENXIO \<equiv> 6"
abbreviation (input) EBADF :: int where "EBADF \<equiv> 9"
abbreviation (input) EAGAIN :: int where "EAGAIN \<equiv> 11"
abbreviation (input) ENOMEM :: int where "ENOMEM \<equiv> 12"
abbreviation (input) EBUSY :: int where "EBUSY \<equiv> 16"
abbreviation (input) EEXIST :: int where "EEXIST \<equiv> 17"
abbreviation (input) ENODEV :: int where "ENODEV \<equiv> 19"
abbreviation (input) EINVAL :: int where "EINVAL \<equiv> 22"
abbreviation (input) ENOTTY :: int where "ENOTTY \<equiv> 25"
abbreviation (input) EPIPE :: int where "EPIPE \<equiv> 32"
abbreviation (input) ERANGE :: int where "ERANGE \<equiv> 34"
abbreviation (input) EOPNOTSUPP :: int where "EOPNOTSUPP \<equiv> 95"
abbreviation (input) EALREADY :: int where "EALREADY \<equiv> 114"
abbreviation (input) ESTALE :: int where "ESTALE \<equiv> 116"

subsection \<open>Characters and decimal output\<close>

text \<open>A C \<^verbatim>\<open>char\<close> is an Isabelle \<^typ>\<open>char\<close>; \<open>code c\<close> is its value as an
  unsigned byte. A C string is the list of its characters before the terminating NUL.\<close>

abbreviation code :: "char \<Rightarrow> nat" where "code c \<equiv> of_char c"

lemma code_less: "code c < 256"
  by (rule nat_of_char_less_256)

lemma code_inject: "code c = code d \<longleftrightarrow> c = d"
  by simp

text \<open>The characters the C sources name by escape sequences, and the classes of
  \<^verbatim>\<open>string-util.h\<close>.\<close>

abbreviation NL :: char where "NL \<equiv> CHR 0x0A"
abbreviation CR :: char where "CR \<equiv> CHR 0x0D"
abbreviation TAB :: char where "TAB \<equiv> CHR 0x09"
abbreviation BACKSLASH :: char where "BACKSLASH \<equiv> CHR 0x5C"
abbreviation DQUOTE :: char where "DQUOTE \<equiv> CHR 0x22"
abbreviation SQUOTE :: char where "SQUOTE \<equiv> CHR 0x27"

definition WHITESPACE :: string where
  "WHITESPACE = [CHR '' '', TAB, NL, CR]"

definition NEWLINE :: string where
  "NEWLINE = [NL, CR]"

definition COMMENTS :: string where
  "COMMENTS = ''#;''"

lemmas char_class_defs = WHITESPACE_def NEWLINE_def COMMENTS_def

definition ascii_isdigit :: "char \<Rightarrow> bool" where
  "ascii_isdigit a \<longleftrightarrow> 48 \<le> code a \<and> code a \<le> 57"

definition ascii_isalpha :: "char \<Rightarrow> bool" where
  "ascii_isalpha a \<longleftrightarrow> (97 \<le> code a \<and> code a \<le> 122) \<or> (65 \<le> code a \<and> code a \<le> 90)"

definition digit_char :: "nat \<Rightarrow> char" where
  "digit_char n = char_of (48 + n)"

fun dec :: "nat \<Rightarrow> string" where
  "dec n = (if n < 10 then [digit_char n] else dec (n div 10) @ [digit_char (n mod 10)])"

declare dec.simps [simp del]

lemma code_digit_char: "n < 10 \<Longrightarrow> code (digit_char n) = 48 + n"
  by (simp add: digit_char_def)

lemma dec_not_Nil [simp]: "dec n \<noteq> []"
  by (subst dec.simps) simp

lemma dec_digits: "c \<in> set (dec n) \<Longrightarrow> 48 \<le> code c \<and> code c \<le> 57"
proof (induction n rule: dec.induct)
  case (1 n)
  show ?case
  proof (cases "n < 10")
    case True
    with "1.prems" show ?thesis by (simp add: dec.simps [of n] code_digit_char)
  next
    case False
    with "1.prems" have "c \<in> set (dec (n div 10)) \<or> c = digit_char (n mod 10)"
      by (auto simp: dec.simps [of n])
    then show ?thesis
      using "1.IH" [OF False] by (auto simp: code_digit_char)
  qed
qed

text \<open>Reading decimal digits back.\<close>

definition undec :: "string \<Rightarrow> nat" where
  "undec s = foldl (\<lambda>v c. 10 * v + (code c - 48)) 0 s"

lemma undec_dec [simp]: "undec (dec n) = n"
proof (induction n rule: dec.induct)
  case (1 n)
  show ?case
  proof (cases "n < 10")
    case True
    then show ?thesis by (simp add: undec_def dec.simps [of n] code_digit_char)
  next
    case False
    with 1 have "undec (dec (n div 10)) = n div 10" by simp
    with False show ?thesis
      by (simp add: undec_def dec.simps [of n] code_digit_char)
  qed
qed

lemma dec_inject [simp]: "dec m = dec n \<longleftrightarrow> m = n"
  by (metis undec_dec)

subsection \<open>Masks\<close>

lemma int_and_7: "(x :: int) AND 7 = x mod 8"
  using take_bit_eq_mask [of 3 x] by (simp add: mask_eq_exp_minus_1 take_bit_eq_mod)

lemma int_and_15: "(x :: int) AND 15 = x mod 16"
  using take_bit_eq_mask [of 4 x] by (simp add: mask_eq_exp_minus_1 take_bit_eq_mod)

lemma nat_and_7: "(x :: nat) AND 7 = x mod 8"
  using take_bit_eq_mask [of 3 x] by (simp add: mask_eq_exp_minus_1 take_bit_eq_mod)

lemma nat_and_31: "(x :: nat) AND 31 = x mod 32"
  using take_bit_eq_mask [of 5 x] by (simp add: mask_eq_exp_minus_1 take_bit_eq_mod)

lemma nat_and_63: "(x :: nat) AND 63 = x mod 64"
  using take_bit_eq_mask [of 6 x] by (simp add: mask_eq_exp_minus_1 take_bit_eq_mod)

lemma nat_and_15: "(x :: nat) AND 15 = x mod 16"
  using take_bit_eq_mask [of 4 x] by (simp add: mask_eq_exp_minus_1 take_bit_eq_mod)

lemmas and_masks = int_and_7 int_and_15 nat_and_7 nat_and_15 nat_and_31 nat_and_63

subsection \<open>Accumulating return codes: RET_GATHER\<close>

definition ret_gather :: "int \<Rightarrow> int \<Rightarrow> int" where
  "ret_gather acc e = (if 0 \<le> acc \<and> e < 0 then e else acc)"

text \<open>The accumulator keeps the first error: folding it over the results of a loop gives the
  first negative one, or the start value when there is none.\<close>

lemma foldl_ret_gather_error: "acc < 0 \<Longrightarrow> foldl ret_gather acc rs = acc"
  by (induction rs) (auto simp: ret_gather_def)

lemma foldl_ret_gather:
  "0 \<le> acc \<Longrightarrow>
   foldl ret_gather acc rs = (case find (\<lambda>r. r < 0) rs of None \<Rightarrow> acc | Some r \<Rightarrow> r)"
  by (induction rs) (auto simp: ret_gather_def foldl_ret_gather_error)

subsection \<open>String tables\<close>

text \<open>
  A C table \<^verbatim>\<open>static const char* const name_table[MAX] = { [E1] = "e1", ... }\<close> is the list of
  its entries in index order. \<^verbatim>\<open>string_table_lookup\<close> returns the first index whose string
  equals the key and \<^verbatim>\<open>-EINVAL\<close> for no match or a NULL key: here the enumerator, or
  \<open>None\<close> for the negative value.
\<close>

fun string_table_lookup :: "('e \<times> string) list \<Rightarrow> string option \<Rightarrow> 'e option" where
  "string_table_lookup table None = None"
| "string_table_lookup [] (Some key) = None"
| "string_table_lookup ((e, name) # table) (Some key) =
     (if name = key then Some e else string_table_lookup table (Some key))"

definition string_table_to_string :: "('e \<times> string) list \<Rightarrow> 'e \<Rightarrow> string option" where
  "string_table_to_string table e = map_of table e"

lemma string_table_lookup_in:
  "string_table_lookup table (Some key) = Some e \<Longrightarrow> (e, key) \<in> set table"
  by (induction table) (auto split: if_splits)

lemma string_table_lookup_distinct:
  "distinct (map snd table) \<Longrightarrow> (e, key) \<in> set table \<Longrightarrow>
   string_table_lookup table (Some key) = Some e"
  by (induction table) (auto simp: image_iff)

text \<open>The contract of a pair of functions that print values and read them back: what is printed for a valid
  value is read as that value, so no two valid values are printed alike.\<close>

locale codec =
  fixes print :: "'a \<Rightarrow> 's"
    and read :: "'s \<Rightarrow> 'a option"
    and valid :: "'a \<Rightarrow> bool"
  assumes read_print: "valid x \<Longrightarrow> read (print x) = Some x"
begin

lemma print_eq_iff: "valid x \<Longrightarrow> valid y \<Longrightarrow> print x = print y \<longleftrightarrow> x = y"
  by (metis read_print option.inject)

lemma distinct_prints: "\<forall>x \<in> set xs. valid x \<Longrightarrow> distinct (map print xs) \<longleftrightarrow> distinct xs"
  by (induction xs) (auto simp: print_eq_iff)

end

text \<open>A reader that fails with an error number, as a partial function.\<close>

fun success :: "'e + 'a \<Rightarrow> 'a option" where
  "success (Inl e) = None"
| "success (Inr x) = Some x"

text \<open>The contract of an enum table: it names every enumerator, and no two alike.\<close>

locale string_table =
  fixes table :: "('e \<times> string) list"
  assumes total: "e \<in> fst ` set table"
    and distinct_keys: "distinct (map fst table)"
    and distinct_names: "distinct (map snd table)"
begin

lemma to_string_iff: "string_table_to_string table e = Some s \<longleftrightarrow> (e, s) \<in> set table"
  using distinct_keys by (simp add: string_table_to_string_def map_of_eq_Some_iff)

lemma to_string_total: "\<exists>s. string_table_to_string table e = Some s"
  using total [of e] by (auto simp: to_string_iff)

lemma from_string_iff:
  "string_table_lookup table (Some s) = Some e \<longleftrightarrow> string_table_to_string table e = Some s"
  using string_table_lookup_in string_table_lookup_distinct [OF distinct_names]
  by (auto simp: to_string_iff)

lemma roundtrip:
  "string_table_lookup table (string_table_to_string table e) = Some e"
  using to_string_total [of e] from_string_iff by fastforce

end

sublocale string_table \<subseteq> codec "string_table_to_string table" "string_table_lookup table" "\<lambda>_. True"
  by unfold_locales (rule roundtrip)

subsection \<open>Steps of a state\<close>

text \<open>A relation that says what a step leaves alone, or keeps. A loop leaves alone what its body does.\<close>

locale step_frame =
  fixes rel :: "'m \<Rightarrow> 'm \<Rightarrow> bool"
  assumes rel_refl: "rel m m"
    and rel_trans: "rel m m' \<Longrightarrow> rel m' m'' \<Longrightarrow> rel m m''"
begin

lemma fold_rel:
  assumes "\<And>x m'. x \<in> set l \<Longrightarrow> rel m m' \<Longrightarrow> rel m' (f x m')"
  shows "rel m (fold f l m)"
proof -
  have "rel m (fold f l m')" if "rel m m'" for m'
    using that assms
  proof (induction l arbitrary: m')
    case (Cons x l)
    have "rel m (f x m')" using rel_trans [of m m' "f x m'"] Cons.prems by simp
    then show ?case using Cons by simp
  qed simp
  then show ?thesis using rel_refl by blast
qed

end

text \<open>A predicate that every step of a transition system keeps holds in every state it reaches.\<close>

locale step_invariant =
  fixes step :: "'m \<Rightarrow> 'm \<Rightarrow> bool"
    and inv :: "'m \<Rightarrow> bool"
  assumes step_keeps: "step m m' \<Longrightarrow> inv m \<Longrightarrow> inv m'"
begin

lemma steps_keep: "step\<^sup>*\<^sup>* m m' \<Longrightarrow> inv m \<Longrightarrow> inv m'"
  by (induction rule: rtranclp_induct) (auto intro: step_keeps)

end

subsection \<open>Lists\<close>

text \<open>\<^verbatim>\<open>LIST_REMOVE\<close> takes an element out of an intrusive list, in which it occurs once.\<close>

lemma set_remove1_distinct: "distinct xs \<Longrightarrow> set (remove1 x xs) = set xs - {x}"
  by (simp add: set_remove1_eq)

lemma append_single [simp]: "(@) [c] = (#) c"
  by (rule ext) simp

lemma find_Some_in: "find P xs = Some x \<Longrightarrow> x \<in> set xs \<and> P x"
  by (induction xs) (auto split: if_splits)

end
