(* ===== verification/Login_Types.thy ===== *)
theory Login_Types
  imports Prelude
begin

text \<open>
  The enumerations of the login daemon with their string tables
  (\<^verbatim>\<open>logind-session.[ch]\<close>, \<^verbatim>\<open>logind-user.[ch]\<close>, \<^verbatim>\<open>logind-inhibit.[ch]\<close>,
  \<^verbatim>\<open>logind-action.[ch]\<close>, \<^verbatim>\<open>logind-session-device.h\<close>) and the predicates on session
  classes and types. Every table is shown to satisfy the contract \<open>string_table\<close>, which
  gives the print/parse round trip for all of them at once.
\<close>

subsection \<open>Sessions\<close>

datatype SessionState = SESSION_OPENING | SESSION_ONLINE | SESSION_ACTIVE | SESSION_CLOSING

datatype SessionClass =
    SESSION_USER | SESSION_USER_EARLY | SESSION_USER_INCOMPLETE | SESSION_GREETER
  | SESSION_LOCK_SCREEN | SESSION_BACKGROUND | SESSION_BACKGROUND_LIGHT
  | SESSION_MANAGER | SESSION_MANAGER_EARLY

datatype SessionType =
    SESSION_UNSPECIFIED | SESSION_TTY | SESSION_X11 | SESSION_WAYLAND | SESSION_MIR | SESSION_WEB

datatype KillWhom = KILL_LEADER | KILL_ALL

datatype TTYValidity = TTY_FROM_PAM | TTY_FROM_UTMP | TTY_UTMP_INCONSISTENT

definition SESSION_CLASS_PIN_USER :: "SessionClass \<Rightarrow> bool" where
  "SESSION_CLASS_PIN_USER c \<longleftrightarrow> c \<notin> {SESSION_MANAGER, SESSION_MANAGER_EARLY}"

definition SESSION_CLASS_CAN_IDLE :: "SessionClass \<Rightarrow> bool" where
  "SESSION_CLASS_CAN_IDLE c \<longleftrightarrow> c \<in> {SESSION_USER, SESSION_USER_EARLY, SESSION_GREETER}"

definition SESSION_CLASS_CAN_LOCK :: "SessionClass \<Rightarrow> bool" where
  "SESSION_CLASS_CAN_LOCK c \<longleftrightarrow> c \<in> {SESSION_USER, SESSION_USER_EARLY}"

definition SESSION_CLASS_CAN_DISPLAY :: "SessionClass \<Rightarrow> bool" where
  "SESSION_CLASS_CAN_DISPLAY c \<longleftrightarrow> c \<in> {SESSION_USER, SESSION_USER_EARLY, SESSION_GREETER}"

definition SESSION_CLASS_CAN_STOP_ON_IDLE :: "SessionClass \<Rightarrow> bool" where
  "SESSION_CLASS_CAN_STOP_ON_IDLE c \<longleftrightarrow> c \<in> {SESSION_USER, SESSION_USER_EARLY}"

definition SESSION_CLASS_CAN_TAKE_DEVICE :: "SessionClass \<Rightarrow> bool" where
  "SESSION_CLASS_CAN_TAKE_DEVICE c \<longleftrightarrow>
     c \<in> {SESSION_USER, SESSION_USER_EARLY, SESSION_GREETER, SESSION_LOCK_SCREEN}"

definition SESSION_CLASS_CAN_CHANGE_TYPE :: "SessionClass \<Rightarrow> bool" where
  "SESSION_CLASS_CAN_CHANGE_TYPE c \<longleftrightarrow>
     c \<in> {SESSION_USER, SESSION_USER_EARLY, SESSION_GREETER, SESSION_LOCK_SCREEN}"

definition SESSION_TYPE_IS_GRAPHICAL :: "SessionType \<Rightarrow> bool" where
  "SESSION_TYPE_IS_GRAPHICAL t \<longleftrightarrow> t \<in> {SESSION_X11, SESSION_WAYLAND, SESSION_MIR}"

lemmas session_class_defs =
  SESSION_CLASS_PIN_USER_def SESSION_CLASS_CAN_IDLE_def SESSION_CLASS_CAN_LOCK_def
  SESSION_CLASS_CAN_DISPLAY_def SESSION_CLASS_CAN_STOP_ON_IDLE_def
  SESSION_CLASS_CAN_TAKE_DEVICE_def SESSION_CLASS_CAN_CHANGE_TYPE_def

definition session_state_table :: "(SessionState \<times> string) list" where
  "session_state_table =
    [(SESSION_OPENING, ''opening''), (SESSION_ONLINE, ''online''),
     (SESSION_ACTIVE, ''active''), (SESSION_CLOSING, ''closing'')]"

definition session_type_table :: "(SessionType \<times> string) list" where
  "session_type_table =
    [(SESSION_UNSPECIFIED, ''unspecified''), (SESSION_TTY, ''tty''), (SESSION_X11, ''x11''),
     (SESSION_WAYLAND, ''wayland''), (SESSION_MIR, ''mir''), (SESSION_WEB, ''web'')]"

definition session_class_table :: "(SessionClass \<times> string) list" where
  "session_class_table =
    [(SESSION_USER, ''user''), (SESSION_USER_EARLY, ''user-early''),
     (SESSION_USER_INCOMPLETE, ''user-incomplete''), (SESSION_GREETER, ''greeter''),
     (SESSION_LOCK_SCREEN, ''lock-screen''), (SESSION_BACKGROUND, ''background''),
     (SESSION_BACKGROUND_LIGHT, ''background-light''), (SESSION_MANAGER, ''manager''),
     (SESSION_MANAGER_EARLY, ''manager-early'')]"

definition kill_whom_table :: "(KillWhom \<times> string) list" where
  "kill_whom_table = [(KILL_LEADER, ''leader''), (KILL_ALL, ''all'')]"

definition tty_validity_table :: "(TTYValidity \<times> string) list" where
  "tty_validity_table =
    [(TTY_FROM_PAM, ''from-pam''), (TTY_FROM_UTMP, ''from-utmp''),
     (TTY_UTMP_INCONSISTENT, ''utmp-inconsistent'')]"

subsection \<open>Users\<close>

datatype UserState =
    USER_OFFLINE | USER_OPENING | USER_LINGERING | USER_ONLINE | USER_ACTIVE | USER_CLOSING

datatype UserGCMode = USER_GC_BY_ANY | USER_GC_BY_PIN

definition user_state_table :: "(UserState \<times> string) list" where
  "user_state_table =
    [(USER_OFFLINE, ''offline''), (USER_OPENING, ''opening''), (USER_LINGERING, ''lingering''),
     (USER_ONLINE, ''online''), (USER_ACTIVE, ''active''), (USER_CLOSING, ''closing'')]"

definition user_gc_mode_table :: "(UserGCMode \<times> string) list" where
  "user_gc_mode_table = [(USER_GC_BY_ANY, ''any''), (USER_GC_BY_PIN, ''pin'')]"

subsection \<open>Inhibitors, session devices\<close>

datatype InhibitMode = INHIBIT_BLOCK | INHIBIT_BLOCK_WEAK | INHIBIT_DELAY

definition inhibit_mode_table :: "(InhibitMode \<times> string) list" where
  "inhibit_mode_table =
    [(INHIBIT_BLOCK, ''block''), (INHIBIT_BLOCK_WEAK, ''block-weak''), (INHIBIT_DELAY, ''delay'')]"

datatype DeviceType = DEVICE_TYPE_UNKNOWN | DEVICE_TYPE_DRM | DEVICE_TYPE_EVDEV | DEVICE_TYPE_HIDRAW

subsection \<open>Power and key actions\<close>

datatype HandleAction =
    HANDLE_IGNORE | HANDLE_POWEROFF | HANDLE_REBOOT | HANDLE_HALT | HANDLE_KEXEC
  | HANDLE_SUSPEND | HANDLE_HIBERNATE | HANDLE_HYBRID_SLEEP | HANDLE_SUSPEND_THEN_HIBERNATE
  | HANDLE_SLEEP | HANDLE_SECURE_ATTENTION_KEY | HANDLE_LOCK | HANDLE_FACTORY_RESET

definition handle_action_table :: "(HandleAction \<times> string) list" where
  "handle_action_table =
    [(HANDLE_IGNORE, ''ignore''), (HANDLE_POWEROFF, ''poweroff''), (HANDLE_REBOOT, ''reboot''),
     (HANDLE_HALT, ''halt''), (HANDLE_KEXEC, ''kexec''), (HANDLE_SUSPEND, ''suspend''),
     (HANDLE_HIBERNATE, ''hibernate''), (HANDLE_HYBRID_SLEEP, ''hybrid-sleep''),
     (HANDLE_SUSPEND_THEN_HIBERNATE, ''suspend-then-hibernate''), (HANDLE_SLEEP, ''sleep''),
     (HANDLE_SECURE_ATTENTION_KEY, ''secure-attention-key''), (HANDLE_LOCK, ''lock''),
     (HANDLE_FACTORY_RESET, ''factory-reset'')]"

subsection \<open>The tables satisfy the contract\<close>

lemmas login_tables =
  session_state_table_def session_type_table_def session_class_table_def kill_whom_table_def
  tty_validity_table_def user_state_table_def user_gc_mode_table_def inhibit_mode_table_def
  handle_action_table_def

interpretation session_state: string_table session_state_table
proof
  show "e \<in> fst ` set session_state_table" for e
    by (cases e) (simp_all add: session_state_table_def)
qed (simp_all add: session_state_table_def)

interpretation session_type: string_table session_type_table
proof
  show "e \<in> fst ` set session_type_table" for e
    by (cases e) (simp_all add: session_type_table_def)
qed (simp_all add: session_type_table_def)

interpretation session_class: string_table session_class_table
proof
  show "e \<in> fst ` set session_class_table" for e
    by (cases e) (simp_all add: session_class_table_def)
qed (simp_all add: session_class_table_def)

interpretation kill_whom: string_table kill_whom_table
proof
  show "e \<in> fst ` set kill_whom_table" for e
    by (cases e) (simp_all add: kill_whom_table_def)
qed (simp_all add: kill_whom_table_def)

interpretation tty_validity: string_table tty_validity_table
proof
  show "e \<in> fst ` set tty_validity_table" for e
    by (cases e) (simp_all add: tty_validity_table_def)
qed (simp_all add: tty_validity_table_def)

interpretation user_state: string_table user_state_table
proof
  show "e \<in> fst ` set user_state_table" for e
    by (cases e) (simp_all add: user_state_table_def)
qed (simp_all add: user_state_table_def)

interpretation user_gc_mode: string_table user_gc_mode_table
proof
  show "e \<in> fst ` set user_gc_mode_table" for e
    by (cases e) (simp_all add: user_gc_mode_table_def)
qed (simp_all add: user_gc_mode_table_def)

interpretation inhibit_mode: string_table inhibit_mode_table
proof
  show "e \<in> fst ` set inhibit_mode_table" for e
    by (cases e) (simp_all add: inhibit_mode_table_def)
qed (simp_all add: inhibit_mode_table_def)

interpretation handle_action: string_table handle_action_table
proof
  show "e \<in> fst ` set handle_action_table" for e
    by (cases e) (simp_all add: handle_action_table_def)
qed (simp_all add: handle_action_table_def)

text \<open>The lookups the daemon generates with \<^verbatim>\<open>DEFINE_STRING_TABLE_LOOKUP\<close>. The tables name
  every enumerator, so \<^verbatim>\<open>_to_string\<close> of a valid one is never NULL.\<close>

definition session_state_to_string :: "SessionState \<Rightarrow> string" where
  "session_state_to_string x = the (string_table_to_string session_state_table x)"

definition session_type_to_string :: "SessionType \<Rightarrow> string" where
  "session_type_to_string x = the (string_table_to_string session_type_table x)"

definition session_type_from_string :: "string option \<Rightarrow> SessionType option" where
  "session_type_from_string s = string_table_lookup session_type_table s"

definition session_class_to_string :: "SessionClass \<Rightarrow> string" where
  "session_class_to_string x = the (string_table_to_string session_class_table x)"

definition session_class_from_string :: "string option \<Rightarrow> SessionClass option" where
  "session_class_from_string s = string_table_lookup session_class_table s"

definition tty_validity_to_string :: "TTYValidity \<Rightarrow> string" where
  "tty_validity_to_string x = the (string_table_to_string tty_validity_table x)"

definition tty_validity_from_string :: "string option \<Rightarrow> TTYValidity option" where
  "tty_validity_from_string s = string_table_lookup tty_validity_table s"

definition user_state_to_string :: "UserState \<Rightarrow> string" where
  "user_state_to_string x = the (string_table_to_string user_state_table x)"

definition user_gc_mode_to_string :: "UserGCMode \<Rightarrow> string" where
  "user_gc_mode_to_string x = the (string_table_to_string user_gc_mode_table x)"

definition user_gc_mode_from_string :: "string option \<Rightarrow> UserGCMode option" where
  "user_gc_mode_from_string s = string_table_lookup user_gc_mode_table s"

definition inhibit_mode_to_string :: "InhibitMode \<Rightarrow> string" where
  "inhibit_mode_to_string x = the (string_table_to_string inhibit_mode_table x)"

definition inhibit_mode_from_string :: "string option \<Rightarrow> InhibitMode option" where
  "inhibit_mode_from_string s = string_table_lookup inhibit_mode_table s"

definition handle_action_to_string :: "HandleAction \<Rightarrow> string" where
  "handle_action_to_string x = the (string_table_to_string handle_action_table x)"

definition handle_action_from_string :: "string option \<Rightarrow> HandleAction option" where
  "handle_action_from_string s = string_table_lookup handle_action_table s"

lemma handle_action_from_to_string:
  "handle_action_from_string (Some (handle_action_to_string a)) = Some a"
  using handle_action.to_string_total [of a] handle_action.roundtrip [of a]
  by (auto simp: handle_action_from_string_def handle_action_to_string_def)

end
