(* ===== verification/Time_Util.thy ===== *)
theory Time_Util
  imports Prelude
begin

text \<open>
  \<^verbatim>\<open>src/basic/time-util.[ch]\<close>: microsecond arithmetic that saturates at
  \<^verbatim>\<open>USEC_INFINITY\<close>, the mapping of a point in time from one clock to another, and the
  conversion from and to \<^verbatim>\<open>struct timespec\<close>. A \<^verbatim>\<open>usec_t\<close> is a natural number up to
  \<open>USEC_INFINITY\<close>.
\<close>

record dual_timestamp =
  ts_realtime :: nat
  ts_monotonic :: nat

definition DUAL_TIMESTAMP_NULL :: dual_timestamp where
  "DUAL_TIMESTAMP_NULL = \<lparr>ts_realtime = 0, ts_monotonic = 0\<rparr>"

definition USEC_INFINITY :: nat where
  "USEC_INFINITY = 2 ^ 64 - 1"

definition USEC_PER_SEC :: nat where "USEC_PER_SEC = 1000000"
definition NSEC_PER_USEC :: nat where "NSEC_PER_USEC = 1000"
definition TIME_T_MAX :: nat where "TIME_T_MAX = 2 ^ 63 - 1"

definition usec_add :: "nat \<Rightarrow> nat \<Rightarrow> nat" where
  "usec_add a b = (if USEC_INFINITY - b < a then USEC_INFINITY else a + b)"

definition usec_sub_unsigned :: "nat \<Rightarrow> nat \<Rightarrow> nat" where
  "usec_sub_unsigned timestamp delta =
     (if timestamp = USEC_INFINITY then USEC_INFINITY
      else if timestamp < delta then 0
      else timestamp - delta)"

definition timestamp_is_set :: "nat \<Rightarrow> bool" where
  "timestamp_is_set timestamp \<longleftrightarrow> timestamp > 0 \<and> timestamp \<noteq> USEC_INFINITY"

definition dual_timestamp_is_set :: "dual_timestamp \<Rightarrow> bool" where
  "dual_timestamp_is_set ts \<longleftrightarrow>
     timestamp_is_set (ts_realtime ts) \<or> timestamp_is_set (ts_monotonic ts)"

definition map_clock_usec_raw :: "nat \<Rightarrow> nat \<Rightarrow> nat \<Rightarrow> nat" where
  "map_clock_usec_raw from from_base to_base =
     (if from_base \<le> from then
        let delta = from - from_base
        in if USEC_INFINITY - delta \<le> to_base then USEC_INFINITY else to_base + delta
      else
        let delta = from_base - from
        in if to_base \<le> delta then 0 else to_base - delta)"

text \<open>Mapping between two different clocks, which read \<open>from_now\<close> and \<open>to_now\<close>.\<close>

definition map_clock_usec :: "nat \<Rightarrow> nat \<Rightarrow> nat \<Rightarrow> nat" where
  "map_clock_usec from from_now to_now =
     (if from = USEC_INFINITY then from else map_clock_usec_raw from from_now to_now)"

definition dual_timestamp_from_realtime :: "nat \<Rightarrow> nat \<Rightarrow> nat \<Rightarrow> dual_timestamp" where
  "dual_timestamp_from_realtime u now_real now_mono =
     (if \<not> timestamp_is_set u then \<lparr>ts_realtime = u, ts_monotonic = u\<rparr>
      else \<lparr>ts_realtime = u, ts_monotonic = map_clock_usec u now_real now_mono\<rparr>)"

text \<open>\<^verbatim>\<open>struct timespec\<close> as seconds and nanoseconds.\<close>

definition timespec_load :: "int \<times> int \<Rightarrow> nat" where
  "timespec_load ts =
     (case ts of (tv_sec, tv_nsec) \<Rightarrow>
        if tv_sec < 0 \<or> tv_nsec < 0 then USEC_INFINITY
        else if nat tv_sec > (USEC_INFINITY - nat tv_nsec div NSEC_PER_USEC) div USEC_PER_SEC
          then USEC_INFINITY
        else nat tv_sec * USEC_PER_SEC + nat tv_nsec div NSEC_PER_USEC)"

definition timespec_store :: "nat \<Rightarrow> int \<times> int" where
  "timespec_store u =
     (if u = USEC_INFINITY \<or> u div USEC_PER_SEC \<ge> TIME_T_MAX then (- 1, - 1)
      else (int (u div USEC_PER_SEC), int (u mod USEC_PER_SEC * NSEC_PER_USEC)))"

lemmas usec_defs = USEC_INFINITY_def USEC_PER_SEC_def NSEC_PER_USEC_def TIME_T_MAX_def

subsection \<open>Saturation\<close>

text \<open>Addition is exact below infinity and never leaves the type; infinity absorbs.\<close>

lemma usec_add_min:
  "a \<le> USEC_INFINITY \<Longrightarrow> b \<le> USEC_INFINITY \<Longrightarrow> usec_add a b = min (a + b) USEC_INFINITY"
  by (auto simp: usec_add_def)

lemma usec_add_infinity: "a \<le> USEC_INFINITY \<Longrightarrow> usec_add a USEC_INFINITY = USEC_INFINITY"
  by (simp add: usec_add_def)

lemma map_clock_usec_raw_le:
  "to_base \<le> USEC_INFINITY \<Longrightarrow> map_clock_usec_raw from from_base to_base \<le> USEC_INFINITY"
  by (auto simp: map_clock_usec_raw_def Let_def)

text \<open>Where neither bound is hit, the mapped time has the same distance from the base.\<close>

lemma map_clock_usec_raw_exact:
  assumes "0 < int from - int from_base + int to_base"
    "int from - int from_base + int to_base < int USEC_INFINITY"
  shows "int (map_clock_usec_raw from from_base to_base) = int from - int from_base + int to_base"
  using assms by (auto simp: map_clock_usec_raw_def Let_def)

lemma map_clock_usec_raw_inverse:
  assumes "0 < int from - int from_base + int to_base"
    "int from - int from_base + int to_base < int USEC_INFINITY"
    "0 < from" "from < USEC_INFINITY"
  shows "map_clock_usec_raw (map_clock_usec_raw from from_base to_base) to_base from_base = from"
proof -
  let ?x = "map_clock_usec_raw from from_base to_base"
  have x: "int ?x = int from - int from_base + int to_base"
    using assms(1,2) by (rule map_clock_usec_raw_exact)
  have "int (map_clock_usec_raw ?x to_base from_base) = int ?x - int to_base + int from_base"
    by (rule map_clock_usec_raw_exact) (use assms x in auto)
  with x show ?thesis by simp
qed

lemma map_clock_usec_raw_mono:
  assumes "from \<le> from'" "to_base \<le> USEC_INFINITY"
  shows "map_clock_usec_raw from from_base to_base \<le> map_clock_usec_raw from' from_base to_base"
  using assms by (auto simp: map_clock_usec_raw_def Let_def)

lemma timespec_load_store:
  assumes "u < USEC_INFINITY"
  shows "timespec_load (timespec_store u) = u"
proof -
  have u: "u div USEC_PER_SEC < TIME_T_MAX"
    using assms by (simp add: usec_defs)
  have n: "u mod USEC_PER_SEC * NSEC_PER_USEC div NSEC_PER_USEC = u mod USEC_PER_SEC"
    by (simp add: usec_defs)
  have "u div USEC_PER_SEC \<le> (USEC_INFINITY - u mod USEC_PER_SEC) div USEC_PER_SEC"
  proof -
    have "u div USEC_PER_SEC * USEC_PER_SEC + u mod USEC_PER_SEC \<le> USEC_INFINITY"
      using assms by simp
    then have "u div USEC_PER_SEC * USEC_PER_SEC \<le> USEC_INFINITY - u mod USEC_PER_SEC"
      by linarith
    then show ?thesis
      by (simp add: less_eq_div_iff_mult_less_eq usec_defs)
  qed
  then show ?thesis
    using assms u n
    by (simp add: timespec_load_def timespec_store_def nat_mult_distrib NSEC_PER_USEC_def
        del: of_nat_mod of_nat_mult)
qed

end
