(* ===== verification/Path_Util.thy ===== *)
theory Path_Util
  imports Prelude
begin

text \<open>
  \<^verbatim>\<open>src/basic/path-util.c\<close>: reading a path component by component, the prefix test on paths
  and joining paths.
\<close>

definition NAME_MAX :: nat where
  "NAME_MAX = 255"

abbreviation SLASH :: char where "SLASH \<equiv> CHR ''/''"
abbreviation DOT :: char where "DOT \<equiv> CHR ''.''"

fun skip_slash_or_dot :: "string \<Rightarrow> string" where
  "skip_slash_or_dot [] = []"
| "skip_slash_or_dot [c] = (if c = SLASH then [] else [c])"
| "skip_slash_or_dot (c # d # p) =
     (if c = SLASH then skip_slash_or_dot (d # p)
      else if c = DOT \<and> d = SLASH then skip_slash_or_dot p
      else c # d # p)"

text \<open>The result: the return value, the pointer to the component (\<open>None\<close> for NULL) and the new
  value of \<^verbatim>\<open>*p\<close>.\<close>

definition path_find_first_component ::
  "string \<Rightarrow> bool \<Rightarrow> int \<times> string option \<times> string" where
  "path_find_first_component p accept_dot_dot =
     (let first = skip_slash_or_dot p
      in if first = [] then (0, None, first)
         else if first = [DOT] then (0, None, [])
         else let len = length (takeWhile (\<lambda>c. c \<noteq> SLASH) first);
                  end_first = drop len first
              in if NAME_MAX < len then (- EINVAL, None, p)
                 else if \<not> accept_dot_dot \<and> len = 2 \<and> take 2 first = [DOT, DOT]
                   then (- EINVAL, None, p)
                 else let next = skip_slash_or_dot end_first
                      in (int len, Some first, if next = [DOT] then [] else next))"

lemma skip_slash_or_dot_length: "length (skip_slash_or_dot p) \<le> length p"
  by (induction p rule: skip_slash_or_dot.induct) auto

lemma skip_slash_or_dot_hd: "skip_slash_or_dot p = c # q \<Longrightarrow> c \<noteq> SLASH"
  by (induction p rule: skip_slash_or_dot.induct) (auto split: if_splits)

text \<open>A component that is found is not empty, lies in the string, and what follows is shorter.\<close>

lemma path_find_first_component_found:
  assumes "path_find_first_component p a = (r, ret, p')" "0 < r"
  obtains q where "ret = Some q" "nat r \<le> length q" "length q \<le> length p"
    "length p' < length p" "int (nat r) = r"
proof -
  let ?first = "skip_slash_or_dot p"
  obtain c q where first: "?first = c # q"
    using assms by (cases ?first) (auto simp: path_find_first_component_def)
  have c: "c \<noteq> SLASH"
    using skip_slash_or_dot_hd [OF first] .
  let ?len = "length (takeWhile (\<lambda>c. c \<noteq> SLASH) ?first)"
  have res: "r = int ?len" "ret = Some ?first"
      "p' = (if skip_slash_or_dot (drop ?len ?first) = [DOT] then []
             else skip_slash_or_dot (drop ?len ?first))"
    using assms by (auto simp: path_find_first_component_def Let_def split: if_splits)
  have len: "0 < ?len" "?len \<le> length ?first"
    using c by (simp_all add: first length_takeWhile_le)
  have "length p' \<le> length (drop ?len ?first)"
    using skip_slash_or_dot_length [of "drop ?len ?first"] by (simp add: res)
  moreover have "length ?first \<le> length p"
    by (rule skip_slash_or_dot_length)
  ultimately have "length p' < length p"
    using len by (simp only: length_drop)
  then show thesis
    using that [of ?first] res(1,2) len skip_slash_or_dot_length [of p] by simp
qed

lemma path_find_first_component_less:
  "(r, ret, p') = path_find_first_component p a \<Longrightarrow> 0 < r \<Longrightarrow> length p' < length p"
  by (rule path_find_first_component_found) (rule sym)

text \<open>\<^verbatim>\<open>path_startswith_full\<close>: \<open>None\<close> for NULL, else the rest of the path.\<close>

function path_startswith_loop :: "string \<Rightarrow> string \<Rightarrow> bool \<Rightarrow> string option" where
  "path_startswith_loop path prefix accept_dot_dot =
     (case path_find_first_component path accept_dot_dot of (r, p, path') \<Rightarrow>
      if r < 0 then None
      else case path_find_first_component prefix accept_dot_dot of (k, q, prefix') \<Rightarrow>
      if k < 0 then None
      else if k = 0 then Some (case p of None \<Rightarrow> path' | Some first \<Rightarrow> first)
      else if r \<noteq> k then None
      else if take (nat r) (the p) \<noteq> take (nat r) (the q) then None
      else path_startswith_loop path' prefix' accept_dot_dot)"
  by pat_completeness auto
termination
  by (relation "measure (\<lambda>(_, prefix, _). length prefix)")
    (force intro: path_find_first_component_less)+

declare path_startswith_loop.simps [simp del]

definition path_startswith_full :: "string \<Rightarrow> string \<Rightarrow> bool \<Rightarrow> string option" where
  "path_startswith_full path prefix accept_dot_dot =
     (if (path \<noteq> [] \<and> hd path = SLASH) \<noteq> (prefix \<noteq> [] \<and> hd prefix = SLASH) then None
      else path_startswith_loop path prefix accept_dot_dot)"

definition path_startswith :: "string \<Rightarrow> string \<Rightarrow> string option" where
  "path_startswith path prefix = path_startswith_full path prefix True"

definition path_is_absolute :: "string \<Rightarrow> bool" where
  "path_is_absolute p \<longleftrightarrow> p \<noteq> [] \<and> hd p = SLASH"

text \<open>\<^verbatim>\<open>path_extend_internal\<close> on the strings \<open>ps\<close>, starting from nothing as \<^verbatim>\<open>path_join\<close>
  does; \<open>slash\<close> says whether what has been written ends in a slash or is empty.\<close>

fun path_extend_loop :: "bool \<Rightarrow> string list \<Rightarrow> string" where
  "path_extend_loop slash [] = []"
| "path_extend_loop slash (p # ps) =
     (if p = [] then path_extend_loop slash ps
      else (if \<not> slash \<and> hd p \<noteq> SLASH then [SLASH] else []) @ p @
           path_extend_loop (last p = SLASH) ps)"

definition path_join :: "string list \<Rightarrow> string" where
  "path_join ps = path_extend_loop True ps"

subsection \<open>The prefix test compares components\<close>

text \<open>The components of a path, or \<open>None\<close> when one is too long (or is \<^verbatim>\<open>..\<close> where that is not
  accepted).\<close>

function path_components :: "bool \<Rightarrow> string \<Rightarrow> string list option" where
  "path_components a p =
     (case path_find_first_component p a of (r, first, p') \<Rightarrow>
        if r < 0 then None
        else if r = 0 then Some []
        else map_option (\<lambda>cs. take (nat r) (the first) # cs) (path_components a p'))"
  by pat_completeness auto
termination
  by (relation "measure (\<lambda>(_, p). length p)") (force intro: path_find_first_component_less)+

declare path_components.simps [simp del]

lemma path_find_first_component_zero:
  "path_find_first_component p a = (r, first, p') \<Longrightarrow> 0 \<le> r \<Longrightarrow> (first = None) = (r = 0)"
proof -
  assume a: "path_find_first_component p a = (r, first, p')" "0 \<le> r"
  show ?thesis
  proof (cases "r = 0")
    case True
    show ?thesis
    proof (cases "skip_slash_or_dot p")
      case Nil
      with a True show ?thesis by (simp add: path_find_first_component_def)
    next
      case (Cons c q)
      with skip_slash_or_dot_hd [OF Cons] a True show ?thesis
        by (auto simp: path_find_first_component_def Let_def split: if_splits)
    qed
  next
    case False
    with a show ?thesis by (auto elim: path_find_first_component_found)
  qed
qed

lemma path_startswith_loop_components:
  assumes "path_components a path = Some cs" "path_components a prefix = Some ds"
  shows "path_startswith_loop path prefix a \<noteq> None \<longleftrightarrow> take (length ds) cs = ds"
  using assms
proof (induction path prefix a arbitrary: cs ds rule: path_startswith_loop.induct)
  case (1 path prefix a)
  obtain r p path' where f: "path_find_first_component path a = (r, p, path')"
    by (cases "path_find_first_component path a") auto
  obtain k q prefix' where g: "path_find_first_component prefix a = (k, q, prefix')"
    by (cases "path_find_first_component prefix a") auto
  have nn: "0 \<le> r" "0 \<le> k"
    using "1.prems" f g path_components.simps [of a path] path_components.simps [of a prefix]
    by (auto split: if_splits)
  note loop = path_startswith_loop.simps [of path prefix a]
  show ?case
  proof (cases "k = 0")
    case True
    then have "ds = []"
      using "1.prems"(2) g path_components.simps [of a prefix] by simp
    then show ?thesis using True nn f g loop by simp
  next
    case k: False
    then obtain ds' where ds: "ds = take (nat k) (the q) # ds'" "path_components a prefix' = Some ds'"
      using "1.prems"(2) g nn path_components.simps [of a prefix] by auto
    show ?thesis
    proof (cases "r = 0")
      case True
      then have "cs = []"
        using "1.prems"(1) f path_components.simps [of a path] by simp
      then show ?thesis using True k nn f g loop ds by simp
    next
      case r: False
      then obtain cs' where cs: "cs = take (nat r) (the p) # cs'" "path_components a path' = Some cs'"
        using "1.prems"(1) f nn path_components.simps [of a path] by auto
      have len: "length (take (nat r) (the p)) = nat r" "length (take (nat k) (the q)) = nat k"
        using f g r k nn by (auto elim!: path_find_first_component_found)
      show ?thesis
      proof (cases "r = k \<and> take (nat r) (the p) = take (nat r) (the q)")
        case True
        then show ?thesis
          using "1.IH" [OF f [symmetric] refl _ g [symmetric] refl] r k nn f g loop cs ds by simp
      next
        case False
        then have "take (nat r) (the p) \<noteq> take (nat k) (the q)"
          using len nn by (metis eq_nat_nat_iff)
        then show ?thesis
          using False k nn f g loop cs ds by auto
      qed
    qed
  qed
qed

end
