(* ===== verification/Parse_Util.thy ===== *)
theory Parse_Util
  imports Path_Util
begin

text \<open>
  \<^verbatim>\<open>src/basic/parse-util.c\<close>, \<^verbatim>\<open>user-util.c\<close>, \<^verbatim>\<open>devnum-util.c\<close> and
  \<^verbatim>\<open>terminal-util.c\<close>: reading booleans, numbers, process and user ids, device and terminal
  numbers. The C library's \<^verbatim>\<open>strtoul\<close> family is modelled as POSIX describes it: blanks, a
  sign, a base prefix, then as many digits as there are.
\<close>

subsection \<open>strtoul and strtol\<close>

definition c_isspace :: "char \<Rightarrow> bool" where
  "c_isspace c \<longleftrightarrow> code c = 32 \<or> (9 \<le> code c \<and> code c \<le> 13)"

definition digit_value :: "char \<Rightarrow> nat" where
  "digit_value c =
     (if 48 \<le> code c \<and> code c \<le> 57 then code c - 48
      else if 97 \<le> code c \<and> code c \<le> 122 then code c - 87
      else if 65 \<le> code c \<and> code c \<le> 90 then code c - 55
      else 36)"

definition strto_sign :: "string \<Rightarrow> bool \<times> string" where
  "strto_sign s =
     (case s of
        [] \<Rightarrow> (False, [])
      | c # s' \<Rightarrow> if c = CHR ''-'' then (True, s') else if c = CHR ''+'' then (False, s') else (False, s))"

definition strto_base :: "string \<Rightarrow> nat \<Rightarrow> nat \<times> string" where
  "strto_base s base =
     (if (base = 0 \<or> base = 16) \<and> length s \<ge> 3 \<and> s ! 0 = CHR ''0'' \<and>
         (s ! 1 = CHR ''x'' \<or> s ! 1 = CHR ''X'') \<and> digit_value (s ! 2) < 16
        then (16, drop 2 s)
      else if base = 0 \<and> s \<noteq> [] \<and> hd s = CHR ''0'' then (8, s)
      else if base = 0 then (10, s)
      else (base, s))"

text \<open>The sign, the magnitude and the rest of the string; the rest is the whole string when there is
  no number.\<close>

definition strto :: "string \<Rightarrow> nat \<Rightarrow> bool \<times> nat \<times> string" where
  "strto s base =
     (let (neg, s2) = strto_sign (dropWhile c_isspace s);
          (b, s3) = strto_base s2 base;
          ds = takeWhile (\<lambda>c. digit_value c < b) s3
      in if ds = [] then (False, 0, s)
         else (neg, foldl (\<lambda>v c. b * v + digit_value c) 0 ds, drop (length ds) s3))"

subsection \<open>Numbers\<close>

datatype ato_flag =
  SAFE_ATO_REFUSE_PLUS_MINUS | SAFE_ATO_REFUSE_LEADING_ZERO | SAFE_ATO_REFUSE_LEADING_WHITESPACE

text \<open>\<^verbatim>\<open>mangle_base\<close>: the string after the prefix, and the base.\<close>

definition mangle_base :: "string \<Rightarrow> nat \<Rightarrow> string \<times> nat" where
  "mangle_base s base =
     (if base \<noteq> 0 then (s, base)
      else if take 2 s = ''0b'' \<or> take 2 s = ''0B'' then (drop 2 s, 2)
      else if take 2 s = ''0o'' \<or> take 2 s = ''0O'' then (drop 2 s, 8)
      else (s, base))"

text \<open>The part that \<^verbatim>\<open>safe_atou_full\<close> and \<^verbatim>\<open>safe_atollu_full\<close> share; the value is that of an
  \<^verbatim>\<open>unsigned long\<close> of 64 bits, in which a negative number wraps.\<close>

definition safe_ato_unsigned :: "string \<Rightarrow> nat \<Rightarrow> ato_flag set \<Rightarrow> int + nat" where
  "safe_ato_unsigned s base flags =
     (if SAFE_ATO_REFUSE_LEADING_WHITESPACE \<in> flags \<and> (s = [] \<or> hd s \<in> set WHITESPACE)
        then Inl (- EINVAL)
      else
      let s = dropWhile (\<lambda>c. c \<in> set WHITESPACE) s
      in if SAFE_ATO_REFUSE_PLUS_MINUS \<in> flags \<and> s \<noteq> [] \<and> hd s \<in> set ''+-'' then Inl (- EINVAL)
      else if SAFE_ATO_REFUSE_LEADING_ZERO \<in> flags \<and> s \<noteq> [] \<and> hd s = CHR ''0'' \<and> s \<noteq> ''0''
        then Inl (- EINVAL)
      else
      let (s, base) = mangle_base s base;
          (neg, v, x) = strto s base
      in if v \<ge> 2 ^ 64 then Inl (- ERANGE)
         else if x = s \<or> x \<noteq> [] then Inl (- EINVAL)
         else let l = (if neg then (2 ^ 64 - v) mod 2 ^ 64 else v)
              in if l \<noteq> 0 \<and> hd s = CHR ''-'' then Inl (- ERANGE)
                 else Inr l)"

definition safe_atou_full :: "string \<Rightarrow> nat \<Rightarrow> ato_flag set \<Rightarrow> int + nat" where
  "safe_atou_full s base flags =
     (case safe_ato_unsigned s base flags of
        Inl r \<Rightarrow> Inl r
      | Inr l \<Rightarrow> if l mod 2 ^ 32 \<noteq> l then Inl (- ERANGE) else Inr l)"

definition safe_atou :: "string \<Rightarrow> int + nat" where
  "safe_atou s = safe_atou_full s 0 {}"

definition safe_atollu_full :: "string \<Rightarrow> nat \<Rightarrow> ato_flag set \<Rightarrow> int + nat" where
  "safe_atollu_full s base flags = safe_ato_unsigned s base flags"

definition safe_atou64 :: "string \<Rightarrow> int + nat" where
  "safe_atou64 s = safe_atollu_full s 0 {}"

definition safe_atoi :: "string \<Rightarrow> int + int" where
  "safe_atoi s =
     (let (s, base) = mangle_base (dropWhile (\<lambda>c. c \<in> set WHITESPACE) s) 0;
          (neg, v, x) = strto s base
      in if (if neg then 2 ^ 63 < v else 2 ^ 63 \<le> v) then Inl (- ERANGE)
         else if x = s \<or> x \<noteq> [] then Inl (- EINVAL)
         else let l = (if neg then - int v else int v)
              in if l < - (2 ^ 31) \<or> 2 ^ 31 \<le> l then Inl (- ERANGE) else Inr l)"

subsection \<open>Booleans, ids, terminals\<close>

definition ascii_tolower :: "char \<Rightarrow> char" where
  "ascii_tolower c = (if 65 \<le> code c \<and> code c \<le> 90 then char_of (code c + 32) else c)"

definition parse_boolean :: "string option \<Rightarrow> int" where
  "parse_boolean v =
     (case v of
        None \<Rightarrow> - EINVAL
      | Some s \<Rightarrow>
          let t = map ascii_tolower s
          in if t \<in> {''1'', ''yes'', ''y'', ''true'', ''t'', ''on''} then 1
             else if t \<in> {''0'', ''no'', ''n'', ''false'', ''f'', ''off''} then 0
             else - EINVAL)"

definition uid_is_valid :: "nat \<Rightarrow> bool" where
  "uid_is_valid uid \<longleftrightarrow> uid \<noteq> 0xFFFFFFFF \<and> uid \<noteq> 0xFFFF"

definition parse_uid :: "string \<Rightarrow> int + nat" where
  "parse_uid s =
     (case safe_atou_full s 10 {SAFE_ATO_REFUSE_PLUS_MINUS, SAFE_ATO_REFUSE_LEADING_ZERO,
                                SAFE_ATO_REFUSE_LEADING_WHITESPACE} of
        Inl r \<Rightarrow> Inl r
      | Inr uid \<Rightarrow> if \<not> uid_is_valid uid then Inl (- ENXIO) else Inr uid)"

text \<open>A \<^verbatim>\<open>pid_t\<close> is a signed 32-bit number and has to be positive.\<close>

definition parse_pid :: "string \<Rightarrow> int + nat" where
  "parse_pid s =
     (case safe_atollu_full s 0 {} of
        Inl r \<Rightarrow> Inl r
      | Inr ul \<Rightarrow> if 2 ^ 31 \<le> ul \<or> ul = 0 then Inl (- ERANGE) else Inr ul)"

text \<open>Device numbers as pairs of major and minor number.\<close>

definition parse_devnum :: "string \<Rightarrow> int + nat \<times> nat" where
  "parse_devnum s =
     (let ds = takeWhile ascii_isdigit s; n = length ds
      in if n = 0 then Inl (- EINVAL)
         else if n > 21 then Inl (- EINVAL)
         else if take 1 (drop n s) \<noteq> '':'' then Inl (- EINVAL)
         else case safe_atou ds of
                Inl r \<Rightarrow> Inl r
              | Inr x \<Rightarrow>
                  case safe_atou (drop (n + 1) s) of
                    Inl r \<Rightarrow> Inl r
                  | Inr y \<Rightarrow> if x \<ge> 2 ^ 12 \<or> y \<ge> 2 ^ 20 then Inl (- ERANGE) else Inr (x, y))"

definition format_devnum :: "nat \<times> nat \<Rightarrow> string" where
  "format_devnum d = dec (fst d) @ '':'' @ dec (snd d)"

definition skip_dev_prefix :: "string \<Rightarrow> string" where
  "skip_dev_prefix p = (case path_startswith p ''/dev/'' of None \<Rightarrow> p | Some e \<Rightarrow> e)"

definition vtnr_from_tty :: "string \<Rightarrow> int + nat" where
  "vtnr_from_tty tty =
     (let tty = skip_dev_prefix tty
      in if take 3 tty \<noteq> ''tty'' then Inl (- EINVAL)
         else if length tty \<le> 3 \<or> \<not> ascii_isdigit (tty ! 3) then Inl (- EINVAL)
         else case safe_atoi (drop 3 tty) of
                Inl r \<Rightarrow> Inl r
              | Inr i \<Rightarrow> if i < 0 \<or> i > 63 then Inl (- EINVAL) else Inr (nat i))"

definition truncate_nl :: "string \<Rightarrow> string" where
  "truncate_nl s = takeWhile (\<lambda>c. c \<notin> set NEWLINE) s"

definition session_id_valid :: "string \<Rightarrow> bool" where
  "session_id_valid s \<longleftrightarrow> s \<noteq> [] \<and> (\<forall>c \<in> set s. ascii_isalpha c \<or> ascii_isdigit c)"

subsection \<open>Printed numbers are read back\<close>

lemma hd_dec_nonzero: "0 < n \<Longrightarrow> hd (dec n) \<noteq> CHR ''0''"
proof (induction n rule: dec.induct)
  case (1 n)
  show ?case
  proof (cases "n < 10")
    case True
    then have "code (hd (dec n)) = 48 + n"
      by (simp add: dec.simps [of n] code_digit_char)
    with "1.prems" show ?thesis by auto
  next
    case False
    with 1 show ?thesis by (simp add: dec.simps [of n])
  qed
qed

lemma dec_0: "dec 0 = ''0''"
proof -
  have "code (digit_char 0) = code (CHR ''0'')"
    by (simp add: code_digit_char)
  then have "digit_char 0 = CHR ''0''"
    by (simp only: code_inject)
  then show ?thesis by (simp add: dec.simps [of 0])
qed

lemma dec_char:
  assumes "c \<in> set (dec n)"
  shows "digit_value c = code c - 48" "digit_value c < 10" "\<not> c_isspace c" "c \<notin> set WHITESPACE"
    "c \<notin> set ''+-xXbBoO:''" "ascii_isdigit c"
  using dec_digits [OF assms]
  by (auto simp: digit_value_def c_isspace_def WHITESPACE_def ascii_isdigit_def)

lemma dec_hd: "hd (dec n) \<in> set (dec n)"
  by simp

lemma dropWhile_dec: "(\<And>c. c \<in> set (dec n) \<Longrightarrow> \<not> P c) \<Longrightarrow> dropWhile P (dec n) = dec n"
  by (metis dropWhile_eq_self_iff dec_hd)

lemma takeWhile_dec: "(\<And>c. c \<in> set (dec n) \<Longrightarrow> P c) \<Longrightarrow> takeWhile P (dec n) = dec n"
  by (simp add: takeWhile_eq_all_conv)

lemma foldl_dec: "foldl (\<lambda>v c. 10 * v + digit_value c) 0 (dec n) = n"
proof -
  have "foldl (\<lambda>v c. 10 * v + digit_value c) a xs = foldl (\<lambda>v c. 10 * v + (code c - 48)) a xs"
    if "set xs \<subseteq> set (dec n)" for a xs
    using that by (induction xs arbitrary: a) (auto simp: dec_char(1))
  from this [of "dec n" 0] show ?thesis
    using undec_dec [of n] by (simp add: undec_def)
qed

lemma dec_nth_1: "length (dec n) \<ge> 2 \<Longrightarrow> dec n ! 1 \<notin> set ''xX''"
  using dec_char(5) [of "dec n ! 1" n] by auto

lemma strto_dec:
  assumes "base = 0 \<or> base = 10"
  shows "strto (dec n) base = (False, n, [])"
proof -
  have sign: "strto_sign (dec n) = (False, dec n)"
    using dec_char(5) [OF dec_hd, of n] by (cases "dec n") (auto simp: strto_sign_def)
  have drop: "dropWhile c_isspace (dec n) = dec n"
    by (rule dropWhile_dec) (rule dec_char)
  show ?thesis
  proof (cases "n = 0 \<and> base = 0")
    case True
    then show ?thesis
      by (simp add: strto_def dec_0 strto_sign_def strto_base_def digit_value_def c_isspace_def)
  next
    case False
    then have "strto_base (dec n) base = (10, dec n)"
      using assms hd_dec_nonzero [of n] dec_nth_1 [of n] by (auto simp: strto_base_def dec_0)
    moreover have "takeWhile (\<lambda>c. digit_value c < 10) (dec n) = dec n"
      by (rule takeWhile_dec) (rule dec_char)
    ultimately show ?thesis
      using sign drop by (simp add: strto_def foldl_dec Let_def del: takeWhile_eq_all_conv)
  qed
qed

lemma mangle_base_dec: "mangle_base (dec n) base = (dec n, base)"
proof -
  have "take 2 (dec n) \<noteq> [CHR ''0'', c]" if "c \<in> set ''bBoO''" for c
  proof
    assume t: "take 2 (dec n) = [CHR ''0'', c]"
    then have "c \<in> set (dec n)"
      by (metis in_set_takeD list.set_intros(1) list.set_intros(2))
    with that dec_char(5) show False by auto
  qed
  then show ?thesis
    by (simp add: mangle_base_def)
qed

lemma safe_ato_unsigned_dec:
  assumes "n < 2 ^ 64" "base = 0 \<or> base = 10"
  shows "safe_ato_unsigned (dec n) base flags = Inr n"
proof -
  have hd: "hd (dec n) \<notin> set WHITESPACE" "hd (dec n) \<notin> set ''+-''"
    using dec_char(4,5) [OF dec_hd, of n] by auto
  have drop: "dropWhile (\<lambda>c. c \<in> set WHITESPACE) (dec n) = dec n"
    by (rule dropWhile_dec) (rule dec_char)
  have zero: "\<not> (hd (dec n) = CHR ''0'' \<and> dec n \<noteq> ''0'')"
    using hd_dec_nonzero [of n] dec_0 by (cases "n = 0") auto
  show ?thesis
    using assms hd drop zero dec_not_Nil [of n, symmetric]
    by (simp add: safe_ato_unsigned_def mangle_base_dec strto_dec Let_def)
qed

lemma safe_atou_dec: "n < 2 ^ 32 \<Longrightarrow> safe_atou (dec n) = Inr n"
  by (simp add: safe_atou_def safe_atou_full_def safe_ato_unsigned_dec)

lemma safe_atou64_dec: "n < 2 ^ 64 \<Longrightarrow> safe_atou64 (dec n) = Inr n"
  by (simp add: safe_atou64_def safe_atollu_full_def safe_ato_unsigned_dec)

lemma parse_uid_dec: "u < 2 ^ 32 \<Longrightarrow> uid_is_valid u \<Longrightarrow> parse_uid (dec u) = Inr u"
  by (simp add: parse_uid_def safe_atou_full_def safe_ato_unsigned_dec)

lemma parse_pid_dec: "0 < p \<Longrightarrow> p < 2 ^ 31 \<Longrightarrow> parse_pid (dec p) = Inr p"
  by (simp add: parse_pid_def safe_atollu_full_def safe_ato_unsigned_dec)

lemma dec_length: "n < 10 ^ k \<Longrightarrow> 0 < k \<Longrightarrow> length (dec n) \<le> k"
proof (induction k arbitrary: n)
  case (Suc k)
  show ?case
  proof (cases "n < 10")
    case True
    then show ?thesis by (simp add: dec.simps [of n])
  next
    case False
    with Suc.prems have "n div 10 < 10 ^ k" "0 < k"
      by (auto intro: gr0I)
    with Suc.IH [of "n div 10"] False show ?thesis
      by (simp add: dec.simps [of n])
  qed
qed simp

lemma parse_devnum_format:
  assumes "x < 2 ^ 12" "y < 2 ^ 20"
  shows "parse_devnum (format_devnum (x, y)) = Inr (x, y)"
proof -
  have tw: "takeWhile ascii_isdigit (dec x @ '':'' @ dec y) = dec x"
    using dec_char(6) [of _ x] by (simp add: takeWhile_append2 ascii_isdigit_def)
  have len: "length (dec x) \<le> 21"
    using dec_length [of x 21] assms by simp
  show ?thesis
    using assms len safe_atou_dec [of x] safe_atou_dec [of y] tw
    by (simp add: parse_devnum_def format_devnum_def Let_def)
qed

text \<open>The numbers that the daemon prints and reads back.\<close>

interpretation print_unsigned: codec dec "\<lambda>s. success (safe_atou s)" "\<lambda>n. n < 2 ^ 32"
  by unfold_locales (simp add: safe_atou_dec)

interpretation print_uid: codec dec "\<lambda>s. success (parse_uid s)" "\<lambda>u. u < 2 ^ 32 \<and> uid_is_valid u"
  by unfold_locales (simp add: parse_uid_dec)

interpretation print_pid: codec dec "\<lambda>s. success (parse_pid s)" "\<lambda>p. 0 < p \<and> p < 2 ^ 31"
  by unfold_locales (simp add: parse_pid_dec)

interpretation print_devnum: codec format_devnum "\<lambda>s. success (parse_devnum s)" "\<lambda>(x, y). x < 2 ^ 12 \<and> y < 2 ^ 20"
  by unfold_locales (auto simp: parse_devnum_format)

end
