(* ===== verification/Logind_State.thy ===== *)
theory Logind_State
  imports Login_Types Time_Util Parse_Util
begin

text \<open>
  The state of the login daemon: the structures of \<^verbatim>\<open>logind.h\<close>, \<^verbatim>\<open>logind-session.h\<close>,
  \<^verbatim>\<open>logind-seat.h\<close>, \<^verbatim>\<open>logind-user.h\<close>, \<^verbatim>\<open>logind-device.h\<close>,
  \<^verbatim>\<open>logind-session-device.h\<close>, \<^verbatim>\<open>logind-inhibit.h\<close> and \<^verbatim>\<open>logind-button.h\<close> as records, and
  the way the code talks to the system.

  Objects refer to each other by pointers in C. Every object is entered into one hash table of
  the manager under a key when it is created and leaves it when it is freed, so the key stands
  for the pointer here (a session's or seat's id, a user's UID, a device's sysfs path). A device number is the pair
  of its major and minor number. The
  objects live in heaps, total functions from keys, and the hash tables are the lists of the
  keys that are present, in iteration order. Only keys that are present denote objects.
\<close>

subsection \<open>Objects\<close>

type_synonym devt = "nat \<times> nat"
type_synonym pid = nat
type_synonym uid = nat

text \<open>A process reference: a PID, 0 when unset, a pidfd, negative when there is none, and the inode
  number of the pidfd where it can be acquired.\<close>

record pidref =
  pid_pid :: pid
  pid_fd :: int
  pid_fd_id :: "nat option"

definition PIDREF_NULL :: pidref where
  "PIDREF_NULL = \<lparr>pid_pid = 0, pid_fd = - EBADF, pid_fd_id = None\<rparr>"

definition pidref_is_set :: "pidref \<Rightarrow> bool" where
  "pidref_is_set p \<longleftrightarrow> pid_pid p > 0"

definition pidref_equal :: "pidref \<Rightarrow> pidref \<Rightarrow> bool" where
  "pidref_equal a b \<longleftrightarrow>
     (if \<not> pidref_is_set a then \<not> pidref_is_set b
      else if \<not> pidref_is_set b then False
      else if pid_pid a \<noteq> pid_pid b then False
      else if pid_fd_id a = None \<or> pid_fd_id b = None then True
      else pid_fd_id a = pid_fd_id b)"

text \<open>\<^verbatim>\<open>struct Session\<close>. Event sources and bus messages are only ever set, cleared and tested,
  so they are flags.\<close>

record session =
  s_position :: nat
  s_type :: SessionType
  s_original_type :: SessionType
  s_class :: SessionClass
  s_user :: "uid option"
  s_timestamp :: dual_timestamp
  s_display :: "string option"
  s_tty :: "string option"
  s_tty_validity :: "TTYValidity option"
  s_remote :: bool
  s_remote_user :: "string option"
  s_remote_host :: "string option"
  s_service :: "string option"
  s_desktop :: "string option"
  s_scope :: "string option"
  s_seat :: "string option"
  s_vtnr :: nat
  s_vtfd :: int
  s_leader :: pidref
  s_leader_fd_saved :: bool
  s_deserialized_pid :: pid
  s_audit_id :: nat
  s_fifo_fd :: int
  s_fifo_path :: "string option"
  s_fifo_event_source :: bool
  s_leader_pidfd_event_source :: bool
  s_in_gc_queue :: bool
  s_started :: bool
  s_stopping :: bool
  s_was_active :: bool
  s_locked_hint :: bool
  s_idle_hint :: bool
  s_idle_hint_timestamp :: dual_timestamp
  s_create_message :: bool
  s_upgrade_message :: bool
  s_timer_event_source :: bool
  s_cgroup_control_inotify_wd :: int
  s_cgroup_path :: "string option"
  s_cgroup_leaf_path :: "string option"
  s_controller :: "string option"
  s_devices :: "devt list"
  s_track :: bool
  s_stop_on_idle_event_source :: bool

text \<open>\<^verbatim>\<open>struct Seat\<close>; \<open>st_positions\<close> has \<^verbatim>\<open>MALLOC_ELEMENTSOF(positions)\<close> slots.\<close>

record seat =
  st_active :: "string option"
  st_pending_switch :: "string option"
  st_positions :: "string option list"
  st_sessions :: "string list"
  st_devices :: "string list"
  st_started :: bool
  st_in_gc_queue :: bool

text \<open>\<^verbatim>\<open>struct User\<close> with the fields of its user record that the daemon reads.\<close>

record user =
  u_user_name :: string
  u_kill_processes :: int
  u_stop_delay_usec :: nat
  u_removable :: int
  u_display :: "string option"
  u_timestamp :: dual_timestamp
  u_last_session_timestamp :: nat
  u_timer_event_source :: bool
  u_gc_mode :: UserGCMode
  u_in_gc_queue :: bool
  u_started :: bool
  u_stopping :: bool
  u_sessions :: "string list"

record device =
  d_seat :: "string option"
  d_master :: bool
  d_timestamp :: dual_timestamp
  d_session_devices :: "(string \<times> devt) list"

record session_device =
  sd_device :: string
  sd_node :: string
  sd_fd :: int
  sd_type :: DeviceType
  sd_active :: bool
  sd_pushed_fd :: bool

text \<open>The set of locks of an inhibitor is a bit mask, negative when invalid.\<close>

record inhibitor =
  i_event_source :: bool
  i_started :: bool
  i_what :: int
  i_who :: "string option"
  i_why :: "string option"
  i_mode :: "InhibitMode option"
  i_pid :: pidref
  i_uid :: uid
  i_since :: dual_timestamp
  i_fifo_path :: "string option"
  i_fifo_fd :: int

record button =
  b_io_event_source :: bool
  b_check_event_source :: bool
  b_seat :: "string option"
  b_fd :: int
  b_modifier_mask :: int
  b_lid_closed :: bool
  b_docked :: bool

text \<open>A process that writes the brightness of a device, and the messages that wait for it, by their
  serial numbers.\<close>

record brightness_writer =
  bw_child :: pid
  bw_brightness :: nat
  bw_again :: bool
  bw_current_messages :: "nat list"
  bw_pending_messages :: "nat list"
  bw_child_event_source :: bool

text \<open>The fields of \<^verbatim>\<open>struct Manager\<close> about a shutdown that is scheduled for later and what users are told
  of it. An invalid action is \<open>None\<close>; the calendar specification of the maintenance time is what
  \<^verbatim>\<open>calendar_spec_next_usec\<close> makes of it.\<close>

record schedule =
  sch_action :: "HandleAction option"
  sch_timeout :: nat
  sch_timeout_source :: bool
  sch_uid :: uid
  sch_tty :: "string option"
  sch_dry_run :: bool
  sch_nologin_source :: bool
  sch_unlink_nologin :: bool
  sch_wall_message :: "string option"
  sch_enable_wall_messages :: bool
  sch_wall_source :: bool
  sch_sleep_uid :: uid
  sch_maintenance_time :: "(nat \<Rightarrow> int + nat) option"

text \<open>A question to polkit about one message: \<^verbatim>\<open>struct AsyncPolkitQuery\<close>. An action is its name with the
  details that go with it.\<close>

record polkit_query =
  q_n_ref :: nat
  q_action :: "(string \<times> string list) option"
  q_slot :: bool
  q_in_registry :: bool
  q_defer_event_source :: bool
  q_authorized_actions :: "(string \<times> string list) list"
  q_denied_action :: "(string \<times> string list) option"
  q_absent_action :: "(string \<times> string list) option"
  q_error_action :: "(string \<times> string list) option"
  q_error :: "string option"

subsection \<open>The system below the daemon\<close>

datatype notification =
  SESSION_DEVICE_RESUME | SESSION_DEVICE_TRY_PAUSE | SESSION_DEVICE_PAUSE | SESSION_DEVICE_RELEASE

datatype bus_object = Bus_Manager | Bus_Session string | Bus_Seat string | Bus_User uid

text \<open>The system calls and library calls the daemon makes. Every call that has an effect is
  recorded in the manager's \<open>m_trace\<close>, latest first, and answered by \<open>m_env\<close>, which sees the calls
  before it: a negative answer is \<^verbatim>\<open>-errno\<close>. Calls that only look (the clock, the life of a
  process, a file's time stamp) are answered without being recorded.\<close>

datatype (plugins only: size code) syscall =
    Sys_mkdir string
  | Sys_fopen_temporary string
  | Sys_fflush string string
  | Sys_rename string
  | Sys_unlink string
  | Sys_open_device string
  | Sys_open_read string
  | Sys_open_write string
  | Sys_open_terminal string
  | Sys_mkfifo string
  | Sys_close int
  | Sys_fchown int uid
  | Sys_ioctl int string
  | Sys_usleep
  | Sys_chvt nat
  | Sys_vt_restore int
  | Sys_vt_release int
  | Sys_devnode_acl_all string "uid option" "uid option"
  | Sys_send_changed bus_object "string list"
  | Sys_send_signal bus_object bool
  | Sys_device_notify string devt notification int
  | Sys_push_fd string int
  | Sys_remove_fd string
  | Sys_add_io string
  | Sys_add_time string nat
  | Sys_event_source string
  | Sys_track_new
  | Sys_track_add_name string
  | Sys_kill_cgroup string int
  | Sys_kill_pid pid int
  | Sys_cg_create string
  | Sys_cg_attach string pid
  | Sys_cg_trim string
  | Sys_cg_set_access string uid nat
  | Sys_cg_enable string string
  | Sys_inotify_add_watch string
  | Sys_inotify_rm_watch int
  | Sys_pidfd_open pid
  | Sys_user_runtime_dir string uid
  | Sys_clean_ipc uid
  | Sys_run string
  | Sys_sleep string
  | Sys_emit string
  | Sys_reply nat int
  | Sys_fork_brightness string nat
  | Sys_wall string uid "string option"
  | Sys_trigger_devices "string option"
  | Sys_write_file string string
  | Sys_check_authorization nat string "string list" nat
  | Sys_polkit string nat
  | Ask_monotonic
  | Ask_realtime
  | Ask_fstat_uid int
  | Ask_atime string
  | Ask_pid_alive pid
  | Ask_pid_verify pid
  | Ask_pipe_eof int
  | Ask_access string
  | Ask_cg_all_unified
  | Ask_cg_path string
  | Ask_cg_unified_controller
  | Ask_cg_populated string
  | Ask_cg_is_empty string
  | Ask_gid uid
  | Ask_audit pid
  | Ask_name_has_owner string
  | Ask_event_finished
  | Ask_can_sleep string
  | Ask_can_shutdown string
  | Ask_on_ac_power
  | Ask_system_uid_max
  | Ask_pidfd_id int
  | Ask_pidfd_pid int
  | Ask_fd_is_device int devt
  | Ask_sleep_config string
  | Ask_event_time string
  | Ask_child_exited int
  | Ask_physical_memory
  | Ask_ppid pid
  | Ask_getpid
  | Ask_open_flags int
  | Ask_container

text \<open>A device of the udev database, as the daemon reads it.\<close>

record udev =
  ud_syspath :: "string option"
  ud_devname :: "string option"
  ud_sysname :: "string option"
  ud_subsystem :: "string option"
  ud_input_parent :: "string option"
  ud_removed :: bool
  ud_tags :: "string list"
  ud_id_seat :: "string option"
  ud_id_for_seat :: "string option"
  ud_processed :: bool

text \<open>A display connector of the kernel; the user record, which comes from the user database; and an
  entry of \<^verbatim>\<open>utmp\<close>.\<close>

record drm_device =
  dr_parent_subsystem :: "string option"
  dr_sysname :: "string option"
  dr_enabled :: "string option"
  dr_status :: "string option"

record user_record =
  ur_user_name :: "string option"
  ur_uid :: uid
  ur_kill_processes :: int
  ur_stop_delay_usec :: nat
  ur_removable :: int

record utmp =
  ut_user_process :: bool
  ut_pid :: int
  ut_line :: string

text \<open>What the daemon looks up outside: the regular files of a directory, the devices with a tag and
  by their path, the display connectors, the user database, the names of the file descriptors passed to it from 3 on,
  the bit arrays an input device reports (the words of C's \<^verbatim>\<open>unsigned long\<close> arrays, by file
  descriptor and request) and \<^verbatim>\<open>utmp\<close>; devices by subsystem and name, the names of users, the users and
  the number of their active sessions as the library \<^verbatim>\<open>sd-login\<close> reads them, the terminal behind a descriptor,
  and how a time is written for people. An error is negative.\<close>

record world =
  w_dirs :: "string \<Rightarrow> int + string list"
  w_udev_by_tag :: "string \<Rightarrow> int + udev list"
  w_udev_by_syspath :: "string \<Rightarrow> udev"
  w_drm :: "int + drm_device list"
  w_userdb_by_name :: "string \<Rightarrow> int + user_record"
  w_userdb_by_uid :: "uid \<Rightarrow> int + user_record"
  w_fd_names :: "int + string list"
  w_input_bits :: "int \<Rightarrow> string \<Rightarrow> 64 word list"
  w_utmp :: "utmp list"
  w_udev_by_sysname :: "string \<Rightarrow> string \<Rightarrow> int + udev"
  w_getpwuid :: "uid \<Rightarrow> int + string"
  w_get_uids :: "uid list"
  w_uid_get_sessions :: "uid \<Rightarrow> int"
  w_ttyname :: "int \<Rightarrow> int + string"
  w_format_timestamp :: "nat \<Rightarrow> string"

subsection \<open>The manager\<close>

text \<open>\<^verbatim>\<open>struct Manager\<close> with the heaps. The last fields, from \<open>m_world\<close> on, are not in the C
  structure: they are the system around the daemon and its answers; \<open>m_uninit_ts\<close> and \<open>m_uninit_unsigned\<close>, what
  an uninitialised local reads as; \<open>m_malloc\<close>, how many elements the allocator really provides when so many are
  asked for; \<open>m_abort\<close>, set when an
  \<^verbatim>\<open>assert\<close> fails or memory is accessed outside an object, after which nothing is claimed.\<close>

record manager =
  ses :: "string \<Rightarrow> session"
  sts :: "string \<Rightarrow> seat"
  usr :: "uid \<Rightarrow> user"
  dev :: "string \<Rightarrow> device"
  sdv :: "string \<times> devt \<Rightarrow> session_device"
  inh :: "string \<Rightarrow> inhibitor"
  btn :: "string \<Rightarrow> button"
  m_devices :: "string list"
  m_seats :: "string list"
  m_sessions :: "string list"
  m_sessions_by_leader :: "(pid \<times> string) list"
  m_users :: "uid list"
  m_inhibitors :: "string list"
  m_buttons :: "string list"
  m_seat_gc_queue :: "string list"
  m_session_gc_queue :: "string list"
  m_user_gc_queue :: "uid list"
  m_console_active_fd :: int
  m_do_interrupt :: bool
  m_seat0 :: "string option"
  m_kill_only_users :: "string list"
  m_kill_exclude_users :: "string list"
  m_kill_user_processes :: bool
  m_delegate_session_cgroups :: bool
  m_session_counter :: nat
  m_inhibit_counter :: nat
  m_inhibit_delay_max :: nat
  m_user_stop_delay :: nat
  m_delayed_action :: "HandleAction option"
  m_action_job :: "string option"
  m_inhibit_timeout_source :: bool
  m_idle_action_usec :: nat
  m_idle_action_not_before_usec :: nat
  m_idle_action :: HandleAction
  m_was_idle :: bool
  m_stop_idle_session_usec :: nat
  m_handle_action_sleep_mask :: nat
  m_handle_power_key :: HandleAction
  m_handle_power_key_long_press :: HandleAction
  m_handle_reboot_key :: HandleAction
  m_handle_reboot_key_long_press :: HandleAction
  m_handle_suspend_key :: HandleAction
  m_handle_suspend_key_long_press :: HandleAction
  m_handle_hibernate_key :: HandleAction
  m_handle_hibernate_key_long_press :: HandleAction
  m_handle_secure_attention_key :: HandleAction
  m_handle_lid_switch :: HandleAction
  m_handle_lid_switch_ep :: "HandleAction option"
  m_handle_lid_switch_docked :: HandleAction
  m_power_key_ignore_inhibited :: bool
  m_suspend_key_ignore_inhibited :: bool
  m_hibernate_key_ignore_inhibited :: bool
  m_lid_switch_ignore_inhibited :: bool
  m_reboot_key_ignore_inhibited :: bool
  m_remove_ipc :: bool
  m_holdoff_timeout_usec :: nat
  m_lid_switch_ignore_event_source :: bool
  m_power_key_long_press_event_source :: bool
  m_reboot_key_long_press_event_source :: bool
  m_suspend_key_long_press_event_source :: bool
  m_hibernate_key_long_press_event_source :: bool
  m_runtime_dir_size :: nat
  m_runtime_dir_inodes :: nat
  m_sessions_max :: nat
  m_inhibitors_max :: nat
  m_eviocrevoke_warned :: bool
  m_hidiocrevoke_warned :: bool
  m_cgroup_inotify_fd :: int
  m_cgroup_control_inotify_wd_session :: "(int \<times> string) list"
  m_sleep_fork_action :: "HandleAction option"
  m_sleep_fork_pid :: int
  m_tool_fork_pid :: int
  m_idle_action_event_source :: bool
  m_brightness_writers :: "(string \<times> brightness_writer) list"
  m_schedule :: schedule
  m_polkit_registry :: "(nat \<times> polkit_query) list"
  m_utmp_event_source :: bool
  m_world :: world
  m_trace :: "syscall list"
  m_env :: "syscall list \<Rightarrow> syscall \<Rightarrow> int"
  m_console :: "syscall list \<Rightarrow> int + string"
  m_cgroup_session :: "pid \<Rightarrow> int + string"
  m_ctty :: "pid \<Rightarrow> int + string"
  m_udev :: "devt \<Rightarrow> udev option"
  m_files :: "string \<Rightarrow> int + string"
  m_uninit_ts :: dual_timestamp
  m_uninit_unsigned :: nat
  m_malloc :: "nat \<Rightarrow> nat"
  m_abort :: bool

text \<open>Calls with an effect, calls that only look, and failed assertions.\<close>

definition sys :: "syscall \<Rightarrow> manager \<Rightarrow> int \<times> manager" where
  "sys e m = (m_env m (m_trace m) e, m\<lparr>m_trace := e # m_trace m\<rparr>)"

definition emit :: "syscall \<Rightarrow> manager \<Rightarrow> manager" where
  "emit e m = m\<lparr>m_trace := e # m_trace m\<rparr>"

definition ask :: "syscall \<Rightarrow> manager \<Rightarrow> int" where
  "ask e m = m_env m (m_trace m) e"

definition assert_that :: "bool \<Rightarrow> manager \<Rightarrow> manager" where
  "assert_that b m = (if b then m else m\<lparr>m_abort := True\<rparr>)"

definition now_monotonic :: "manager \<Rightarrow> nat" where
  "now_monotonic m = nat (ask Ask_monotonic m)"

definition now_realtime :: "manager \<Rightarrow> nat" where
  "now_realtime m = nat (ask Ask_realtime m)"

definition dual_timestamp_now :: "manager \<Rightarrow> dual_timestamp" where
  "dual_timestamp_now m = \<lparr>ts_realtime = now_realtime m, ts_monotonic = now_monotonic m\<rparr>"

text \<open>Updating one object of a heap.\<close>

definition upd_ses :: "string \<Rightarrow> (session \<Rightarrow> session) \<Rightarrow> manager \<Rightarrow> manager" where
  "upd_ses s f m = m\<lparr>ses := (ses m)(s := f (ses m s))\<rparr>"

definition upd_seat :: "string \<Rightarrow> (seat \<Rightarrow> seat) \<Rightarrow> manager \<Rightarrow> manager" where
  "upd_seat s f m = m\<lparr>sts := (sts m)(s := f (sts m s))\<rparr>"

definition upd_user :: "uid \<Rightarrow> (user \<Rightarrow> user) \<Rightarrow> manager \<Rightarrow> manager" where
  "upd_user u f m = m\<lparr>usr := (usr m)(u := f (usr m u))\<rparr>"

definition upd_dev :: "string \<Rightarrow> (device \<Rightarrow> device) \<Rightarrow> manager \<Rightarrow> manager" where
  "upd_dev d f m = m\<lparr>dev := (dev m)(d := f (dev m d))\<rparr>"

definition upd_sd :: "string \<times> devt \<Rightarrow> (session_device \<Rightarrow> session_device) \<Rightarrow> manager \<Rightarrow> manager" where
  "upd_sd k f m = m\<lparr>sdv := (sdv m)(k := f (sdv m k))\<rparr>"

definition upd_inh :: "string \<Rightarrow> (inhibitor \<Rightarrow> inhibitor) \<Rightarrow> manager \<Rightarrow> manager" where
  "upd_inh i f m = m\<lparr>inh := (inh m)(i := f (inh m i))\<rparr>"

definition upd_btn :: "string \<Rightarrow> (button \<Rightarrow> button) \<Rightarrow> manager \<Rightarrow> manager" where
  "upd_btn b f m = m\<lparr>btn := (btn m)(b := f (btn m b))\<rparr>"

lemmas upd_defs =
  upd_ses_def upd_seat_def upd_user_def upd_dev_def upd_sd_def upd_inh_def upd_btn_def

lemmas sys_defs = sys_def emit_def ask_def assert_that_def

subsection \<open>Names and files\<close>

definition session_state_file :: "string \<Rightarrow> string" where
  "session_state_file name = ''/run/systemd/sessions/'' @ name"

definition seat_state_file :: "string \<Rightarrow> string" where
  "seat_state_file name = ''/run/systemd/seats/'' @ name"

definition user_state_file :: "uid \<Rightarrow> string" where
  "user_state_file u = ''/run/systemd/users/'' @ dec u"

definition inhibitor_state_file :: "string \<Rightarrow> string" where
  "inhibitor_state_file name = ''/run/systemd/inhibit/'' @ name"

text \<open>Writing a state file: make the directory, write a temporary file, rename it. Any failure
  removes the old state file. \<open>ok\<close> says that what is written does not need a pointer that is NULL.\<close>

definition save_file :: "string \<Rightarrow> string \<Rightarrow> bool \<Rightarrow> string \<Rightarrow> manager \<Rightarrow> int \<times> manager" where
  "save_file dir path ok contents m =
     (let (r, m) = sys (Sys_mkdir dir) m
      in if r < 0 then (r, emit (Sys_unlink path) m) else
      let (r, m) = sys (Sys_fopen_temporary path) m
      in if r < 0 then (r, emit (Sys_unlink path) m) else
      let (r, m) = sys (Sys_fflush path contents) (assert_that ok m)
      in if r < 0 then (r, emit (Sys_unlink path) m) else
      let (r, m) = sys (Sys_rename path) m
      in if r < 0 then (r, emit (Sys_unlink path) m) else (0, m))"

text \<open>Signals on the bus. The senders of \<^verbatim>\<open>PropertiesChanged\<close> are silent for an object that
  has not been started.\<close>

definition session_send_changed :: "string \<Rightarrow> string list \<Rightarrow> manager \<Rightarrow> manager" where
  "session_send_changed s props m =
     (if s_started (ses m s) then emit (Sys_send_changed (Bus_Session s) props) m else m)"

definition seat_send_changed :: "string \<Rightarrow> string list \<Rightarrow> manager \<Rightarrow> manager" where
  "seat_send_changed s props m =
     (if st_started (sts m s) then emit (Sys_send_changed (Bus_Seat s) props) m else m)"

definition user_send_changed :: "uid \<Rightarrow> string list \<Rightarrow> manager \<Rightarrow> manager" where
  "user_send_changed u props m =
     (if u_started (usr m u) then emit (Sys_send_changed (Bus_User u) props) m else m)"

definition manager_send_changed :: "string list \<Rightarrow> manager \<Rightarrow> manager" where
  "manager_send_changed props m = emit (Sys_send_changed Bus_Manager props) m"

definition session_send_signal :: "string \<Rightarrow> bool \<Rightarrow> manager \<Rightarrow> manager" where
  "session_send_signal s new m = emit (Sys_send_signal (Bus_Session s) new) m"

definition seat_send_signal :: "string \<Rightarrow> bool \<Rightarrow> manager \<Rightarrow> manager" where
  "seat_send_signal s new m = emit (Sys_send_signal (Bus_Seat s) new) m"

definition user_send_signal :: "uid \<Rightarrow> bool \<Rightarrow> manager \<Rightarrow> manager" where
  "user_send_signal u new m = emit (Sys_send_signal (Bus_User u) new) m"

end
