(* ===== verification/Hexdecoct.thy ===== *)
theory Hexdecoct
  imports Prelude
begin

text \<open>
  \<^verbatim>\<open>src/basic/hexdecoct.c\<close>: the digit conversions, and hexadecimal dumps of byte strings
  with their decoder. A negative return value is kept as the negative errno it is.
\<close>

subsection \<open>Digits\<close>

definition octchar :: "int \<Rightarrow> char" where
  "octchar x = char_of (48 + nat (x AND 7))"

definition unoctchar :: "char \<Rightarrow> int" where
  "unoctchar c = (if 48 \<le> code c \<and> code c \<le> 55 then int (code c) - 48 else - EINVAL)"

definition undecchar :: "char \<Rightarrow> int" where
  "undecchar c = (if 48 \<le> code c \<and> code c \<le> 57 then int (code c) - 48 else - EINVAL)"

definition hexchar :: "int \<Rightarrow> char" where
  "hexchar x = ''0123456789abcdef'' ! nat (x AND 15)"

definition unhexchar :: "char \<Rightarrow> int" where
  "unhexchar c =
     (if 48 \<le> code c \<and> code c \<le> 57 then int (code c) - 48
      else if 97 \<le> code c \<and> code c \<le> 102 then int (code c) - 97 + 10
      else if 65 \<le> code c \<and> code c \<le> 70 then int (code c) - 65 + 10
      else - EINVAL)"

lemma code_octchar: "code (octchar x) = 48 + nat (x mod 8)"
  by (simp add: octchar_def and_masks)

lemma unoctchar_octchar [simp]: "unoctchar (octchar x) = x mod 8"
proof -
  have "nat (x mod 8) \<le> 7" by auto
  then show ?thesis by (simp add: unoctchar_def code_octchar)
qed

lemma mod_16_cases:
  "(x :: int) mod 16 \<in> {0, 1, 2, 3, 4, 5, 6, 7, 8, 9, 10, 11, 12, 13, 14, 15}"
  by auto presburger

lemma unhexchar_hexchar [simp]: "unhexchar (hexchar x) = x mod 16"
  using mod_16_cases [of x] unfolding hexchar_def and_masks
  by (elim insertE emptyE) (simp_all add: unhexchar_def)

lemma unhexchar_range: "unhexchar c = - EINVAL \<or> (0 \<le> unhexchar c \<and> unhexchar c < 16)"
  by (auto simp: unhexchar_def)

lemma unoctchar_range: "unoctchar c = - EINVAL \<or> (0 \<le> unoctchar c \<and> unoctchar c < 8)"
  by (auto simp: unoctchar_def)

lemma hexchar_not_whitespace [simp]: "hexchar x \<notin> set WHITESPACE"
  using mod_16_cases [of x] unfolding hexchar_def and_masks WHITESPACE_def
  by (elim insertE emptyE) simp_all

subsection \<open>Hexadecimal dumps\<close>

definition hexmem :: "u8 list \<Rightarrow> string" where
  "hexmem p = concat (map (\<lambda>x. [hexchar (uint (drop_bit 4 x)), hexchar (uint (x AND 15))]) p)"

text \<open>\<^verbatim>\<open>unhex_next\<close> skips white space, decodes one digit and skips the white space after it;
  it returns the digit or a negative errno, and the rest of the input.\<close>

fun unhex_next :: "string \<Rightarrow> int \<times> string" where
  "unhex_next [] = (- EPIPE, [])"
| "unhex_next (c # p) =
     (if c \<in> set WHITESPACE then unhex_next p
      else if unhexchar c < 0 then (unhexchar c, c # p)
      else (unhexchar c, dropWhile (\<lambda>d. d \<in> set WHITESPACE) p))"

lemma unhex_next_length:
  "unhex_next p = (a, q) \<Longrightarrow> 0 \<le> a \<Longrightarrow> length q < length p"
  by (induction p) (auto split: if_splits simp: less_Suc_eq_le length_dropWhile_le)

function unhexmem :: "string \<Rightarrow> int + u8 list" where
  "unhexmem p =
     (case unhex_next p of (a, q) \<Rightarrow>
        if a = - EPIPE then Inr []
        else if a < 0 then Inl a
        else case unhex_next q of (b, q') \<Rightarrow>
          if b < 0 then Inl b
          else case unhexmem q' of
            Inl e \<Rightarrow> Inl e
          | Inr bs \<Rightarrow> Inr ((push_bit 4 (word_of_int a) OR word_of_int b) # bs))"
  by pat_completeness auto
termination
proof (relation "measure length", simp)
  fix p a q b q'
  assume "(a, q) = unhex_next p" "a \<noteq> - EPIPE" "\<not> a < 0" "(b, q') = unhex_next q" "\<not> b < 0"
  then have "length q < length p" "length q' < length q"
    by (metis unhex_next_length not_less)+
  then show "(q', p) \<in> measure length" by simp
qed

declare unhexmem.simps [simp del]

lemma unhex_next_hexchar:
  "unhex_next (hexchar x # p) = (x mod 16, dropWhile (\<lambda>d. d \<in> set WHITESPACE) p)"
  by simp

lemma hexmem_Cons [simp]:
  "hexmem (x # xs) = hexchar (uint (drop_bit 4 x)) # hexchar (uint (x AND 15)) # hexmem xs"
  by (simp add: hexmem_def)

lemma hexmem_Nil [simp]: "hexmem [] = []"
  by (simp add: hexmem_def)

lemma dropWhile_hexmem [simp]: "dropWhile (\<lambda>d. d \<in> set WHITESPACE) (hexmem xs) = hexmem xs"
  by (cases xs) simp_all

lemma nibbles_recombine:
  "push_bit 4 (word_of_int (uint (drop_bit 4 (x :: u8)) mod 16)) OR
   word_of_int (uint (x AND 15) mod 16) = x"
proof -
  have "uint (drop_bit 4 x) < 16"
    using uint_bounded [of x] by transfer (simp add: drop_bit_eq_div take_bit_eq_mod)
  moreover have "uint (x AND 15) < 16"
    by (simp add: uint_and and_masks)
  moreover have "push_bit 4 (drop_bit 4 x) OR take_bit 4 x = x"
    by (rule bit_word_eqI) (auto simp: bit_simps)
  then have "push_bit 4 (drop_bit 4 x) OR (x AND 15) = x"
    by (simp add: take_bit_eq_mask mask_eq_exp_minus_1)
  ultimately show ?thesis by simp
qed

lemma hexmem_roundtrip: "unhexmem (hexmem xs) = Inr xs"
proof (induction xs)
  case Nil
  show ?case by (simp add: unhexmem.simps)
next
  case (Cons x xs)
  have not_neg: "\<not> y mod 16 < 0" "y mod 16 \<noteq> - 32" for y :: int
    using pos_mod_sign [of 16 y] by simp_all
  have "unhexmem (hexmem (x # xs)) =
    (case unhexmem (hexmem xs) of
       Inl e \<Rightarrow> Inl e
     | Inr bs \<Rightarrow> Inr ((push_bit 4 (word_of_int (uint (drop_bit 4 x) mod 16)) OR
                          word_of_int (uint (x AND 15) mod 16)) # bs))"
    by (subst unhexmem.simps) (simp del: unhex_next.simps add: unhex_next_hexchar not_neg)
  then show ?case by (simp add: Cons.IH nibbles_recombine)
qed

interpretation hexmem: codec hexmem "\<lambda>s. success (unhexmem s)" "\<lambda>_. True"
  by unfold_locales (simp add: hexmem_roundtrip)

end
