(* ===== verification/Utf8.thy ===== *)
theory Utf8
  imports Hexdecoct
begin

text \<open>
  \<^verbatim>\<open>src/basic/utf8.c\<close>: encoding a code point as UTF-8, decoding and validating the first
  character of a string, and the validity check of a whole string that the readers of the
  state files apply to every key and value. Code points are \<^typ>\<open>nat\<close> below \<open>2 ^ 32\<close>.
\<close>

definition unichar_is_valid :: "nat \<Rightarrow> bool" where
  "unichar_is_valid ch =
     (if 0x110000 \<le> ch then False
      else if ch AND 0xFFFFF800 = 0xD800 then False
      else if 0xFDD0 \<le> ch \<and> ch \<le> 0xFDEF then False
      else if ch AND 0xFFFE = 0xFFFE then False
      else True)"

definition utf8_encode_unichar :: "nat \<Rightarrow> string" where
  "utf8_encode_unichar g =
     (if g < 2 ^ 7 then [char_of (g AND 127)]
      else if g < 2 ^ 11 then
        [char_of (192 OR (drop_bit 6 g AND 31)), char_of (128 OR (g AND 63))]
      else if g < 2 ^ 16 then
        [char_of (224 OR (drop_bit 12 g AND 15)), char_of (128 OR (drop_bit 6 g AND 63)),
         char_of (128 OR (g AND 63))]
      else if g < 2 ^ 21 then
        [char_of (240 OR (drop_bit 18 g AND 7)), char_of (128 OR (drop_bit 12 g AND 63)),
         char_of (128 OR (drop_bit 6 g AND 63)), char_of (128 OR (g AND 63))]
      else [])"

definition utf8_encoded_expected_len :: "nat \<Rightarrow> nat" where
  "utf8_encoded_expected_len c =
     (if c < 128 then 1
      else if c AND 224 = 192 then 2
      else if c AND 240 = 224 then 3
      else if c AND 248 = 240 then 4
      else if c AND 252 = 248 then 5
      else if c AND 254 = 252 then 6
      else 0)"

text \<open>The continuation bytes: each must be \<open>10xxxxxx\<close>. Reading past the end of the string
  reads its NUL, which is not of that form.\<close>

fun utf8_continuation :: "nat \<Rightarrow> nat \<Rightarrow> string \<Rightarrow> nat option" where
  "utf8_continuation 0 u s = Some u"
| "utf8_continuation (Suc n) u [] = None"
| "utf8_continuation (Suc n) u (c # s) =
     (if code c AND 192 \<noteq> 128 then None
      else utf8_continuation n (push_bit 6 u OR (code c AND 63)) s)"

definition utf8_encoded_to_unichar :: "string \<Rightarrow> (nat \<times> nat) option" where
  "utf8_encoded_to_unichar s =
     (let c0 = (case s of [] \<Rightarrow> 0 | c # _ \<Rightarrow> code c);
          len = utf8_encoded_expected_len c0
      in if len = 1 then Some (c0, 1)
         else if len = 0 then None
         else map_option (\<lambda>u. (u, len))
           (utf8_continuation (len - 1)
             (c0 AND (if len = 2 then 31 else if len = 3 then 15 else if len = 4 then 7
                      else if len = 5 then 3 else 1)) (tl s)))"

definition utf8_unichar_to_encoded_len :: "nat \<Rightarrow> nat" where
  "utf8_unichar_to_encoded_len u =
     (if u < 0x80 then 1 else if u < 0x800 then 2 else if u < 0x10000 then 3
      else if u < 0x200000 then 4 else if u < 0x4000000 then 5 else 6)"

text \<open>\<^verbatim>\<open>utf8_encoded_valid_unichar\<close> on a non-empty string: the length of its first
  character, or \<open>None\<close> for \<^verbatim>\<open>-EINVAL\<close>.\<close>

definition utf8_encoded_valid_unichar :: "string \<Rightarrow> nat option" where
  "utf8_encoded_valid_unichar s =
     (let len = utf8_encoded_expected_len (case s of [] \<Rightarrow> 0 | c # _ \<Rightarrow> code c)
      in if len = 0 then None
         else if length s < len then None
         else if len = 1 then Some 1
         else if \<exists>c \<in> set (take len s). code c AND 128 \<noteq> 128 then None
         else case utf8_encoded_to_unichar s of
                None \<Rightarrow> None
              | Some (u, _) \<Rightarrow>
                  if utf8_unichar_to_encoded_len u \<noteq> len then None
                  else if \<not> unichar_is_valid u then None
                  else Some len)"

lemma utf8_encoded_valid_unichar_pos:
  "utf8_encoded_valid_unichar s = Some n \<Longrightarrow> 0 < n"
  by (auto simp: utf8_encoded_valid_unichar_def Let_def split: if_splits option.splits prod.splits)

lemma utf8_encoded_valid_unichar_le:
  "utf8_encoded_valid_unichar s = Some n \<Longrightarrow> n \<le> length s"
  by (cases s) (auto simp: utf8_encoded_valid_unichar_def Let_def split: if_splits option.splits prod.splits)

function utf8_is_valid :: "string \<Rightarrow> bool" where
  "utf8_is_valid s =
     (if s = [] then True
      else case utf8_encoded_valid_unichar s of
             None \<Rightarrow> False
           | Some n \<Rightarrow> utf8_is_valid (drop n s))"
  by pat_completeness auto
termination
  by (relation "measure length") (auto dest: utf8_encoded_valid_unichar_pos)

declare utf8_is_valid.simps [simp del]

lemma utf8_encode_unichar_length: "length (utf8_encode_unichar g) \<le> 4"
  by (simp add: utf8_encode_unichar_def)

lemma utf8_encode_unichar_ascii:
  "g < 128 \<Longrightarrow> utf8_encode_unichar g = [char_of g]"
proof -
  assume g: "g < 128"
  have "g AND 127 = g mod 128"
    using take_bit_eq_mask [of 7 g] by (simp add: mask_eq_exp_minus_1 take_bit_eq_mod)
  with g show ?thesis by (simp add: utf8_encode_unichar_def)
qed

text \<open>An ASCII string is valid UTF-8.\<close>

lemma utf8_is_valid_ascii: "\<forall>c \<in> set s. code c < 128 \<Longrightarrow> utf8_is_valid s"
proof (induction s)
  case Nil
  show ?case by (simp add: utf8_is_valid.simps)
next
  case (Cons c s)
  then have "utf8_encoded_valid_unichar (c # s) = Some 1"
    by (simp add: utf8_encoded_valid_unichar_def utf8_encoded_expected_len_def)
  with Cons show ?case by (subst utf8_is_valid.simps) simp
qed

end
