(* ===== verification/Escape.thy ===== *)
theory Escape
  imports Utf8
begin

text \<open>
  \<^verbatim>\<open>src/basic/escape.c\<close>: C-style escaping and unescaping, which the daemon uses for the free
  text in its state files and for the file names of lingering users.
\<close>

definition cescape_char :: "char \<Rightarrow> string" where
  "cescape_char c =
     (if code c = 7 then [BACKSLASH, CHR ''a'']
      else if code c = 8 then [BACKSLASH, CHR ''b'']
      else if code c = 12 then [BACKSLASH, CHR ''f'']
      else if code c = 10 then [BACKSLASH, CHR ''n'']
      else if code c = 13 then [BACKSLASH, CHR ''r'']
      else if code c = 9 then [BACKSLASH, CHR ''t'']
      else if code c = 11 then [BACKSLASH, CHR ''v'']
      else if code c = 92 then [BACKSLASH, BACKSLASH]
      else if code c = 34 then [BACKSLASH, DQUOTE]
      else if code c = 39 then [BACKSLASH, SQUOTE]
      else if code c < 32 \<or> 127 \<le> code c then
        [BACKSLASH, octchar (drop_bit 6 (int (code c))), octchar (drop_bit 3 (int (code c))),
         octchar (int (code c))]
      else [c])"

definition cescape :: "string \<Rightarrow> string" where
  "cescape s = concat (map cescape_char s)"

text \<open>\<^verbatim>\<open>xescape\<close>, that is \<^verbatim>\<open>xescape_full\<close> with no limit on the width and no flags.\<close>

definition xescape_char :: "string \<Rightarrow> char \<Rightarrow> string" where
  "xescape_char bad c =
     (if code c < 32 \<or> 127 \<le> code c \<or> c = BACKSLASH \<or> c \<in> set bad
      then [BACKSLASH, CHR ''x'', hexchar (drop_bit 4 (int (code c))), hexchar (int (code c))] else [c])"

definition xescape :: "string \<Rightarrow> string \<Rightarrow> string" where
  "xescape s bad = concat (map (xescape_char bad) s)"

text \<open>\<^verbatim>\<open>cunescape_one\<close> on the characters after a backslash: how many of them the escape takes,
  its code point, and whether it is to be stored as a single byte; \<open>None\<close> is
  \<^verbatim>\<open>-EINVAL\<close>. Where the C code checks the length before it reads a digit, the missing
  digit makes the list pattern fail.\<close>

definition hex_value :: "string \<Rightarrow> nat option" where
  "hex_value ds =
     (if \<exists>d \<in> set ds. unhexchar d < 0 then None
      else Some (foldl (\<lambda>v d. push_bit 4 v OR nat (unhexchar d)) 0 ds))"

definition cunescape_one :: "string \<Rightarrow> bool \<Rightarrow> (nat \<times> nat \<times> bool) option" where
  "cunescape_one p accept_nul =
     (case p of
        [] \<Rightarrow> None
      | c # q \<Rightarrow>
          if c = CHR ''a'' then Some (1, 7, False)
          else if c = CHR ''b'' then Some (1, 8, False)
          else if c = CHR ''f'' then Some (1, 12, False)
          else if c = CHR ''n'' then Some (1, 10, False)
          else if c = CHR ''r'' then Some (1, 13, False)
          else if c = CHR ''t'' then Some (1, 9, False)
          else if c = CHR ''v'' then Some (1, 11, False)
          else if c = BACKSLASH then Some (1, 92, False)
          else if c = DQUOTE then Some (1, 34, False)
          else if c = SQUOTE then Some (1, 39, False)
          else if c = CHR ''s'' then Some (1, 32, False)
          else if c = CHR ''x'' then
            (if length p < 3 then None
             else case hex_value (take 2 q) of
                    None \<Rightarrow> None
                  | Some v \<Rightarrow> if v = 0 \<and> \<not> accept_nul then None else Some (3, v, True))
          else if c = CHR ''u'' then
            (if length p < 5 then None
             else case hex_value (take 4 q) of
                    None \<Rightarrow> None
                  | Some v \<Rightarrow> if v = 0 \<and> \<not> accept_nul then None else Some (5, v, False))
          else if c = CHR ''U'' then
            (if length p < 9 then None
             else case hex_value (take 8 q) of
                    None \<Rightarrow> None
                  | Some v \<Rightarrow> if v = 0 \<and> \<not> accept_nul then None
                              else if \<not> unichar_is_valid v then None else Some (9, v, False))
          else if 48 \<le> code c \<and> code c \<le> 55 then
            (case q of
               d # e # _ \<Rightarrow>
                 if unoctchar d < 0 \<or> unoctchar e < 0 then None
                 else if unoctchar c = 0 \<and> unoctchar d = 0 \<and> unoctchar e = 0 \<and> \<not> accept_nul
                   then None
                 else let m = push_bit 6 (nat (unoctchar c)) OR push_bit 3 (nat (unoctchar d))
                                OR nat (unoctchar e)
                      in if 255 < m then None else Some (3, m, True)
             | _ \<Rightarrow> None)
          else None)"

lemma cunescape_one_bounds:
  "cunescape_one p a = Some (n, u, eb) \<Longrightarrow> 1 \<le> n \<and> n \<le> length p"
  by (auto simp: cunescape_one_def Let_def split: list.splits if_splits option.splits)

text \<open>\<^verbatim>\<open>cunescape_length_with_prefix\<close>; the flags are \<open>relax\<close> (\<^verbatim>\<open>UNESCAPE_RELAX\<close>) and
  \<open>accept_nul\<close> (\<^verbatim>\<open>UNESCAPE_ACCEPT_NUL\<close>).\<close>

function cunescape_loop :: "bool \<Rightarrow> bool \<Rightarrow> string \<Rightarrow> string option" where
  "cunescape_loop relax accept_nul [] = Some []"
| "cunescape_loop relax accept_nul (f # s) =
     (if f \<noteq> BACKSLASH then map_option (Cons f) (cunescape_loop relax accept_nul s)
      else if s = [] then (if relax then Some [f] else None)
      else case cunescape_one s accept_nul of
             None \<Rightarrow>
               if relax then map_option (Cons BACKSLASH) (cunescape_loop relax accept_nul s)
               else None
           | Some (r, u, eight_bit) \<Rightarrow>
               map_option (\<lambda>t. (if eight_bit then [char_of u] else utf8_encode_unichar u) @ t)
                 (cunescape_loop relax accept_nul (drop r s)))"
  by pat_completeness auto
termination
  by (relation "measure (\<lambda>(_, _, s). length s)") auto

definition cunescape_length_with_prefix ::
  "string \<Rightarrow> string \<Rightarrow> bool \<Rightarrow> bool \<Rightarrow> string option" where
  "cunescape_length_with_prefix s prefix relax accept_nul =
     map_option (\<lambda>t. prefix @ t) (cunescape_loop relax accept_nul s)"

definition cunescape :: "string \<Rightarrow> string option" where
  "cunescape s = cunescape_length_with_prefix s [] False False"

subsection \<open>Buffer bounds\<close>

text \<open>\<^verbatim>\<open>cescape_length\<close> allocates four bytes per input character,
  \<^verbatim>\<open>cunescape_length_with_prefix\<close> one: neither writes past its buffer.\<close>

lemma cescape_char_length: "1 \<le> length (cescape_char c) \<and> length (cescape_char c) \<le> 4"
  by (simp add: cescape_char_def)

lemma cescape_Nil [simp]: "cescape [] = []"
  by (simp add: cescape_def)

lemma cescape_Cons [simp]: "cescape (c # s) = cescape_char c @ cescape s"
  by (simp add: cescape_def)

lemma cescape_length_le: "length (cescape s) \<le> 4 * length s"
proof (induction s)
  case (Cons c s)
  with cescape_char_length [of c] show ?case by simp
qed simp

lemma cunescape_one_encoding:
  "cunescape_one p a = Some (n, u, False) \<Longrightarrow> length (utf8_encode_unichar u) \<le> n + 1"
  using utf8_encode_unichar_length [of u]
  by (auto simp: cunescape_one_def Let_def utf8_encode_unichar_ascii
      split: list.splits if_splits option.splits)

lemma cunescape_loop_length:
  "cunescape_loop relax a s = Some t \<Longrightarrow> length t \<le> length s"
proof (induction relax a s arbitrary: t rule: cunescape_loop.induct)
  case (2 relax a f s)
  show ?case
  proof (cases "f = BACKSLASH \<and> s \<noteq> []")
    case False
    with 2 show ?thesis by (fastforce split: if_splits)
  next
    case True
    show ?thesis
    proof (cases "cunescape_one s a")
      case None
      with True 2 show ?thesis by (fastforce split: if_splits)
    next
      case (Some x)
      then obtain r u eb where one: "cunescape_one s a = Some (r, u, eb)"
        by (cases x) auto
      with True "2.prems" obtain t' where t': "cunescape_loop relax a (drop r s) = Some t'"
        and t: "t = (if eb then [char_of u] else utf8_encode_unichar u) @ t'"
        by auto
      have "length t' \<le> length (drop r s)"
        using "2.IH"(3) True one t' by auto
      moreover have "length (if eb then [char_of u] else utf8_encode_unichar u) \<le> r + 1"
        using cunescape_one_encoding [of s a r u] one by (cases eb) auto
      moreover have "r \<le> length s"
        using cunescape_one_bounds [OF one] by simp
      ultimately show ?thesis by (simp add: t)
    qed
  qed
qed simp

subsection \<open>Escaping is undone by unescaping\<close>

lemma octal_recombine_nat:
  assumes "n < 256"
  shows "push_bit 6 (n div 64 mod 8) OR push_bit 3 (n div 8 mod 8) OR (n mod 8) = (n :: nat)"
proof -
  have "push_bit 6 (take_bit 3 (drop_bit 6 n)) OR push_bit 3 (take_bit 3 (drop_bit 3 n)) OR
      take_bit 3 n = take_bit 9 n"
  proof (rule bit_eqI)
    fix k
    show "bit (push_bit 6 (take_bit 3 (drop_bit 6 n)) OR push_bit 3 (take_bit 3 (drop_bit 3 n)) OR
        take_bit 3 n) k \<longleftrightarrow> bit (take_bit 9 n) k"
      by (cases "k < 3"; cases "k < 6") (auto simp: bit_simps)
  qed
  moreover have "take_bit 9 n = n"
    using assms by (simp add: take_bit_eq_mod)
  ultimately show ?thesis
    by (simp add: take_bit_eq_mod drop_bit_eq_div)
qed

lemma cunescape_one_octal_digits:
  assumes "x < 8" "y < 8" "z < 8"
    and m: "push_bit 6 x OR push_bit 3 y OR z = m" and "m < 256" and "m \<noteq> 0 \<or> a"
  shows "cunescape_one (char_of (48 + x) # char_of (48 + y) # char_of (48 + z) # t) a
    = Some (3, m, True)"
proof -
  have cd: "code (char_of (48 + k)) = 48 + k" if "k < 8" for k :: nat
    using that by simp
  have ne: "char_of (48 + k) \<noteq> e" if "k < 8" "code e < 48 \<or> 55 < code e" for k :: nat and e
    using that cd [of k] by auto
  have un: "unoctchar (char_of (48 + k)) = int k" if "k < 8" for k :: nat
    using that cd [of k] by (simp add: unoctchar_def)
  have "x = 0 \<and> y = 0 \<and> z = 0 \<longrightarrow> m = 0"
    using m by auto
  with assms show ?thesis
    unfolding cunescape_one_def by (auto simp: ne un cd Let_def simp del: of_char_of push_bit_of_nat)
qed

lemma cunescape_one_octal:
  assumes "code c \<noteq> 0 \<or> a"
  shows "cunescape_one (octchar (drop_bit 6 (int (code c))) # octchar (drop_bit 3 (int (code c)))
           # octchar (int (code c)) # t) a = Some (3, code c, True)"
proof -
  let ?n = "code c"
  have "octchar (drop_bit 6 (int ?n)) = char_of (48 + ?n div 64 mod 8)"
    and "octchar (drop_bit 3 (int ?n)) = char_of (48 + ?n div 8 mod 8)"
    and "octchar (int ?n) = char_of (48 + ?n mod 8)"
    by (simp_all add: octchar_def and_masks drop_bit_eq_div nat_mod_distrib nat_div_distrib)
  note digits = this
  show ?thesis
    unfolding digits using assms code_less [of c]
    by (intro cunescape_one_octal_digits octal_recombine_nat) auto
qed

lemma cunescape_loop_short:
  "cunescape_one (d # t) a = Some (1, k, False) \<Longrightarrow> k < 128 \<Longrightarrow>
   cunescape_loop relax a (BACKSLASH # d # t) = map_option (Cons (char_of k)) (cunescape_loop relax a t)"
  by (simp add: utf8_encode_unichar_ascii)

lemma cescape_char_short:
  assumes "c \<in> {CHR 0x07, CHR 0x08, CHR 0x0C, NL, CR, TAB, CHR 0x0B, BACKSLASH, DQUOTE, SQUOTE}"
  obtains d where "cescape_char c = [BACKSLASH, d]" "\<And>t a. cunescape_one (d # t) a = Some (1, code c, False)"
    "code c < 128"
  using assms
proof (elim insertE emptyE)
qed (simp_all add: cescape_char_def cunescape_one_def)

lemma cunescape_loop_cescape_char:
  assumes "code c \<noteq> 0 \<or> a"
  shows "cunescape_loop relax a (cescape_char c @ t) = map_option (Cons c) (cunescape_loop relax a t)"
proof -
  let ?special = "[CHR 0x07, CHR 0x08, CHR 0x0C, NL, CR, TAB, CHR 0x0B, BACKSLASH, DQUOTE, SQUOTE]"
  show ?thesis
  proof (cases "c \<in> set ?special")
    case True
    then obtain d where "cescape_char c = [BACKSLASH, d]"
      "\<And>t a. cunescape_one (d # t) a = Some (1, code c, False)" "code c < 128"
      using cescape_char_short [of c] by auto
    then show ?thesis
      using cunescape_loop_short [of d t a "code c" relax] by simp
  next
    case False
    then have "code c \<noteq> code d" if "d \<in> set ?special" for d
      using that by (metis code_inject)
    from this [of "CHR 0x07"] this [of "CHR 0x08"] this [of "CHR 0x0C"] this [of NL] this [of CR]
      this [of TAB] this [of "CHR 0x0B"] this [of BACKSLASH] this [of DQUOTE] this [of SQUOTE]
    have "code c \<notin> {7, 8, 12, 10, 13, 9, 11, 92, 34, 39}"
      by simp
    with False show ?thesis
      using cunescape_one_octal [OF assms] by (auto simp: cescape_char_def)
  qed
qed

text \<open>Every C string (a string without NUL) survives escaping and unescaping.\<close>

lemma cunescape_cescape:
  "\<forall>c \<in> set s. code c \<noteq> 0 \<Longrightarrow> cunescape (cescape s) = Some s"
proof -
  have "\<forall>c \<in> set s. code c \<noteq> 0 \<Longrightarrow> cunescape_loop False False (cescape s) = Some s"
    by (induction s) (simp_all add: cunescape_loop_cescape_char)
  then show "\<forall>c \<in> set s. code c \<noteq> 0 \<Longrightarrow> ?thesis"
    by (simp add: cunescape_def cunescape_length_with_prefix_def)
qed

lemma hex_recombine:
  assumes "n < 256"
  shows "push_bit 4 (n div 16 mod 16) OR n mod 16 = (n :: nat)"
proof -
  have "\<forall>n \<in> set [0..<256]. push_bit 4 (n div 16 mod 16) OR n mod 16 = (n :: nat)" by code_simp
  with assms show ?thesis by simp
qed

lemma cunescape_one_hex:
  assumes "code c \<noteq> 0"
  shows "cunescape_one (CHR ''x'' # hexchar (drop_bit 4 (int (code c))) # hexchar (int (code c)) # t) a = Some (3, code c, True)"
proof -
  have "nat (drop_bit 4 (int (code c)) mod 16) = code c div 16 mod 16" "nat (int (code c) mod 16) = code c mod 16"
    by (simp_all add: drop_bit_eq_div nat_div_distrib nat_mod_distrib)
  then have "hex_value [hexchar (drop_bit 4 (int (code c))), hexchar (int (code c))] = Some (code c)"
    using hex_recombine [OF code_less] by (simp add: hex_value_def not_less)
  with assms show ?thesis by (simp add: cunescape_one_def)
qed

lemma cunescape_xescape:
  assumes "\<forall>c \<in> set s. code c \<noteq> 0"
  shows "cunescape (xescape s bad) = Some s"
proof -
  have "cunescape_loop False False (xescape s bad) = Some s"
    using assms by (induction s) (simp_all add: xescape_def xescape_char_def cunescape_one_hex)
  then show ?thesis by (simp add: cunescape_def cunescape_length_with_prefix_def)
qed

interpretation xescape: codec "\<lambda>s. xescape s bad" cunescape "\<lambda>s. \<forall>c \<in> set s. code c \<noteq> 0" for bad
  by unfold_locales (rule cunescape_xescape)

interpretation cescape: codec cescape cunescape "\<lambda>s. \<forall>c \<in> set s. code c \<noteq> 0"
  by unfold_locales (rule cunescape_cescape)

end
