(* ===== verification/Login_Queries.thy ===== *)
theory Login_Queries
  imports Logind_State Escape
begin

text \<open>
  The questions the components ask about the state without changing it: who is active, in which
  state a session or user is, since when something is idle, what may be collected, which
  session represents a user, whose processes are to be killed (\<^verbatim>\<open>logind-session.c\<close>,
  \<^verbatim>\<open>logind-seat.c\<close>, \<^verbatim>\<open>logind-user.c\<close>, \<^verbatim>\<open>logind-core.c\<close>).
\<close>

subsection \<open>Processes\<close>

definition pidref_verify :: "pidref \<Rightarrow> manager \<Rightarrow> int" where
  "pidref_verify p m =
     (if \<not> pidref_is_set p then - ESRCH
      else if pid_pid p = 1 then 1
      else if pid_fd p < 0 then 0
      else let r = ask (Ask_pid_verify (pid_pid p)) m in if r < 0 then r else 1)"

definition pidref_is_alive :: "pidref \<Rightarrow> manager \<Rightarrow> int" where
  "pidref_is_alive p m =
     (if \<not> pidref_is_set p then - ESRCH
      else let result = ask (Ask_pid_alive (pid_pid p)) m
           in if result < 0 then result
              else let r = pidref_verify p m
                   in if r = - ESRCH then 0 else if r < 0 then r else result)"

subsection \<open>Seats\<close>

definition seat_is_seat0 :: "string \<Rightarrow> manager \<Rightarrow> bool" where
  "seat_is_seat0 s m \<longleftrightarrow> m_seat0 m = Some s"

definition seat_has_vts :: "string \<Rightarrow> manager \<Rightarrow> bool" where
  "seat_has_vts s m \<longleftrightarrow> seat_is_seat0 s m \<and> m_console_active_fd m \<ge> 0"

definition seat_can_tty :: "string \<Rightarrow> manager \<Rightarrow> bool" where
  "seat_can_tty s m \<longleftrightarrow> seat_has_vts s m"

definition seat_has_master_device :: "string \<Rightarrow> manager \<Rightarrow> bool" where
  "seat_has_master_device s m \<longleftrightarrow>
     (case st_devices (sts m s) of [] \<Rightarrow> False | d # _ \<Rightarrow> d_master (dev m d))"

definition seat_can_graphical :: "string \<Rightarrow> manager \<Rightarrow> bool" where
  "seat_can_graphical s m \<longleftrightarrow> seat_has_master_device s m"

definition seat_may_gc :: "string \<Rightarrow> bool \<Rightarrow> manager \<Rightarrow> bool" where
  "seat_may_gc s drop_not_started m \<longleftrightarrow>
     (if drop_not_started \<and> \<not> st_started (sts m s) then True
      else if seat_is_seat0 s m then False
      else \<not> seat_has_master_device s m)"

definition seat_name_valid_char :: "char \<Rightarrow> bool" where
  "seat_name_valid_char c \<longleftrightarrow> ascii_isalpha c \<or> ascii_isdigit c \<or> c = CHR ''-'' \<or> c = CHR ''_''"

definition seat_name_is_valid :: "string \<Rightarrow> bool" where
  "seat_name_is_valid name \<longleftrightarrow>
     take 4 name = ''seat'' \<and> length name > 4 \<and> (\<forall>c \<in> set name. seat_name_valid_char c) \<and>
     length name \<le> 255"

subsection \<open>Sessions\<close>

definition session_is_active :: "string \<Rightarrow> manager \<Rightarrow> bool" where
  "session_is_active s m \<longleftrightarrow>
     (case s_seat (ses m s) of None \<Rightarrow> True | Some st \<Rightarrow> st_active (sts m st) = Some s)"

definition session_get_state :: "string \<Rightarrow> manager \<Rightarrow> SessionState" where
  "session_get_state s m =
     (if s_stopping (ses m s) \<or> s_timer_event_source (ses m s) then SESSION_CLOSING
      else if \<not> pidref_is_set (s_leader (ses m s)) \<and> s_fifo_fd (ses m s) < 0 then SESSION_OPENING
      else if session_is_active s m then SESSION_ACTIVE
      else SESSION_ONLINE)"

definition session_may_gc :: "string \<Rightarrow> bool \<Rightarrow> manager \<Rightarrow> bool" where
  "session_may_gc s drop_not_started m =
     (let r = pidref_is_alive (s_leader (ses m s)) m;
          fifo_open = (s_fifo_fd (ses m s) \<ge> 0 \<and> ask (Ask_pipe_eof (s_fifo_fd (ses m s))) m \<le> 0)
      in if drop_not_started \<and> \<not> s_started (ses m s) then
           (if r > 0 then False else if fifo_open then False else True)
         else if s_user (ses m s) = None then True
         else if r = - ESRCH then True
         else if r > 0 then False
         else if fifo_open then False
         else drop_not_started \<or> s_stopping (ses m s))"

text \<open>The access time of a terminal: negative answers of \<^verbatim>\<open>lstat\<close> are errors.\<close>

definition get_tty_atime :: "string \<Rightarrow> manager \<Rightarrow> int + nat" where
  "get_tty_atime tty m =
     (let stat = (\<lambda>p. let r = ask (Ask_atime p) m in if r < 0 then Inl r else Inr (nat r))
      in if \<not> path_is_absolute tty then stat (path_join [''/dev'', tty])
         else if path_startswith tty ''/dev/'' = None then Inl (- ENOENT)
         else stat tty)"

definition get_process_ctty_atime :: "pid \<Rightarrow> manager \<Rightarrow> int + nat" where
  "get_process_ctty_atime p m =
     (case m_ctty m p of Inl r \<Rightarrow> Inl r | Inr tty \<Rightarrow> get_tty_atime tty m)"

text \<open>The time from which a terminal counts as idle.\<close>

definition idle_delay :: "manager \<Rightarrow> nat option" where
  "idle_delay m =
     (if m_idle_action_usec m > 0 \<and> m_stop_idle_session_usec m \<noteq> USEC_INFINITY
        then Some (min (m_idle_action_usec m) (m_stop_idle_session_usec m))
      else if m_idle_action_usec m > 0 then Some (m_idle_action_usec m)
      else if m_stop_idle_session_usec m \<noteq> USEC_INFINITY then Some (m_stop_idle_session_usec m)
      else None)"

text \<open>\<^verbatim>\<open>session_get_idle_hint\<close> gives the answer and what is stored in \<^verbatim>\<open>*t\<close>: \<open>None\<close> when
  nothing is, which is the case for classes that do not know idleness.\<close>

definition session_get_idle_hint :: "string \<Rightarrow> manager \<Rightarrow> bool \<times> dual_timestamp option" where
  "session_get_idle_hint s m =
     (let x = ses m s
      in if \<not> SESSION_CLASS_CAN_IDLE (s_class x) then (False, None)
         else if SESSION_TYPE_IS_GRAPHICAL (s_type x)
           then (s_idle_hint x, Some (s_idle_hint_timestamp x))
         else
         let by_tty = (case s_tty x of
                         None \<Rightarrow> None
                       | Some t \<Rightarrow> (case get_tty_atime t m of Inl _ \<Rightarrow> None | Inr a \<Rightarrow> Some a));
             by_ctty = (if pidref_is_set (s_leader x) then
                          (case get_process_ctty_atime (pid_pid (s_leader x)) m of
                             Inl _ \<Rightarrow> None | Inr a \<Rightarrow> Some a)
                        else None);
             found = (if s_type x = SESSION_TTY then
                        (case by_tty of Some a \<Rightarrow> Some a | None \<Rightarrow> by_ctty)
                      else None)
         in case found of
              None \<Rightarrow> (False, Some DUAL_TIMESTAMP_NULL)
            | Some atime \<Rightarrow>
                (case idle_delay m of
                   None \<Rightarrow> False
                 | Some dtime \<Rightarrow> usec_add atime dtime \<le> now_realtime m,
                 Some (dual_timestamp_from_realtime atime (now_realtime m) (now_monotonic m))))"

text \<open>What a caller finds in its variable: the stored time stamp, or what the variable held.\<close>

definition stored :: "manager \<Rightarrow> dual_timestamp option \<Rightarrow> dual_timestamp" where
  "stored m k = (case k of None \<Rightarrow> m_uninit_ts m | Some t \<Rightarrow> t)"

text \<open>Merging the hints of several sessions. The loops of the seat and of the user and the manager
  differ in which busy time they keep: the latest and the earliest.\<close>

definition idle_merge :: "(nat \<Rightarrow> nat \<Rightarrow> bool) \<Rightarrow> bool \<times> dual_timestamp \<Rightarrow> bool \<times> dual_timestamp \<Rightarrow>
  bool \<times> dual_timestamp" where
  "idle_merge better acc h =
     (case acc of (idle_hint, ts) \<Rightarrow> case h of (ih, k) \<Rightarrow>
        if \<not> ih then
          (if \<not> idle_hint then
             (if better (ts_monotonic k) (ts_monotonic ts) then (idle_hint, k) else (idle_hint, ts))
           else (False, k))
        else if idle_hint \<and> ts_monotonic k > ts_monotonic ts then (idle_hint, k)
        else (idle_hint, ts))"

definition seat_get_idle_hint :: "string \<Rightarrow> manager \<Rightarrow> bool \<times> dual_timestamp" where
  "seat_get_idle_hint st m =
     foldl (\<lambda>acc s. case session_get_idle_hint s m of (ih, k) \<Rightarrow>
              idle_merge (>) acc (ih, stored m k))
       (True, DUAL_TIMESTAMP_NULL) (st_sessions (sts m st))"

definition user_get_idle_hint :: "uid \<Rightarrow> manager \<Rightarrow> bool \<times> dual_timestamp" where
  "user_get_idle_hint u m =
     foldl (\<lambda>acc s. if \<not> SESSION_CLASS_CAN_IDLE (s_class (ses m s)) then acc
              else case session_get_idle_hint s m of (ih, k) \<Rightarrow>
                idle_merge (<) acc (ih, stored m k))
       (True, DUAL_TIMESTAMP_NULL) (u_sessions (usr m u))"

subsection \<open>Users\<close>

definition linger_path :: "string \<Rightarrow> string" where
  "linger_path user_name = ''/var/lib/elogind/linger/'' @ cescape user_name"

definition user_check_linger_file :: "uid \<Rightarrow> manager \<Rightarrow> int" where
  "user_check_linger_file u m =
     (let r = ask (Ask_access (linger_path (u_user_name (usr m u)))) m
      in if r < 0 then (if r \<noteq> - ENOENT then r else 0) else 1)"

definition user_get_stop_delay :: "uid \<Rightarrow> manager \<Rightarrow> nat" where
  "user_get_stop_delay u m =
     (if u_stop_delay_usec (usr m u) \<noteq> USEC_INFINITY then u_stop_delay_usec (usr m u)
      else if u_removable (usr m u) > 0 then 0
      else m_user_stop_delay m)"

definition user_pinned_by_sessions :: "uid \<Rightarrow> manager \<Rightarrow> bool" where
  "user_pinned_by_sessions u m \<longleftrightarrow>
     (case u_gc_mode (usr m u) of
        USER_GC_BY_ANY \<Rightarrow> u_sessions (usr m u) \<noteq> []
      | USER_GC_BY_PIN \<Rightarrow> (\<exists>s \<in> set (u_sessions (usr m u)). SESSION_CLASS_PIN_USER (s_class (ses m s))))"

definition user_may_gc :: "uid \<Rightarrow> bool \<Rightarrow> manager \<Rightarrow> bool" where
  "user_may_gc u drop_not_started m =
     (let x = usr m u; delay = user_get_stop_delay u m
      in if drop_not_started \<and> \<not> u_started x then True
         else if user_pinned_by_sessions u m then False
         else if u_last_session_timestamp x \<noteq> USEC_INFINITY \<and> delay = USEC_INFINITY then False
         else if u_last_session_timestamp x \<noteq> USEC_INFINITY \<and> delay > 0 \<and>
                 now_monotonic m < usec_add (u_last_session_timestamp x) delay then False
         else if user_check_linger_file u m > 0 then False
         else drop_not_started \<or> u_stopping x)"

text \<open>The loop of \<^verbatim>\<open>user_get_state\<close>: \<open>None\<close> when it returned \<open>USER_ACTIVE\<close>, else whether all
  sessions that count are closing.\<close>

fun user_state_loop :: "manager \<Rightarrow> UserGCMode \<Rightarrow> string list \<Rightarrow> bool \<Rightarrow> bool option" where
  "user_state_loop m gc_mode [] all_closing = Some all_closing"
| "user_state_loop m gc_mode (i # is) all_closing =
     (let pinned = SESSION_CLASS_PIN_USER (s_class (ses m i))
      in if gc_mode = USER_GC_BY_PIN \<and> \<not> pinned then user_state_loop m gc_mode is all_closing
         else let state = session_get_state i m
              in if state = SESSION_ACTIVE \<and> pinned then None
                 else user_state_loop m gc_mode is (all_closing \<and> state = SESSION_CLOSING))"

definition user_get_state :: "uid \<Rightarrow> manager \<Rightarrow> UserState" where
  "user_get_state u m =
     (let x = usr m u
      in if u_stopping x then USER_CLOSING
         else if \<not> u_started x then USER_OPENING
         else case user_state_loop m (u_gc_mode x) (u_sessions x) True of
                None \<Rightarrow> USER_ACTIVE
              | Some all_closing \<Rightarrow>
                  if user_check_linger_file u m > 0 then USER_LINGERING
                  else if all_closing then USER_CLOSING else USER_ONLINE)"

subsection \<open>The display of a user\<close>

definition elect_display_filter :: "session \<Rightarrow> bool" where
  "elect_display_filter s \<longleftrightarrow> SESSION_CLASS_CAN_DISPLAY (s_class s) \<and> s_started s \<and> \<not> s_stopping s"

fun type_rank :: "SessionType \<Rightarrow> int" where
  "type_rank SESSION_UNSPECIFIED = 0"
| "type_rank SESSION_TTY = -2"
| "type_rank SESSION_X11 = -3"
| "type_rank SESSION_WAYLAND = -3"
| "type_rank SESSION_MIR = -3"
| "type_rank SESSION_WEB = -1"

definition elect_display_compare :: "session option \<Rightarrow> session option \<Rightarrow> int" where
  "elect_display_compare s1 s2 =
     (case (s1, s2) of
        (None, None) \<Rightarrow> 0
      | (None, Some _) \<Rightarrow> 1
      | (Some _, None) \<Rightarrow> - 1
      | (Some a, Some b) \<Rightarrow>
          if s_stopping a \<noteq> s_stopping b then of_bool (s_stopping a) - of_bool (s_stopping b)
          else if (s_class a \<noteq> SESSION_USER) \<noteq> (s_class b \<noteq> SESSION_USER)
            then of_bool (s_class a \<noteq> SESSION_USER) - of_bool (s_class b \<noteq> SESSION_USER)
          else if (s_class a \<noteq> SESSION_USER_EARLY) \<noteq> (s_class b \<noteq> SESSION_USER_EARLY)
            then of_bool (s_class a \<noteq> SESSION_USER_EARLY) - of_bool (s_class b \<noteq> SESSION_USER_EARLY)
          else if s_type a \<noteq> s_type b then type_rank (s_type a) - type_rank (s_type b)
          else 0)"

subsection \<open>Processes of sessions and users\<close>

definition strv_contains :: "string list \<Rightarrow> string \<Rightarrow> bool" where
  "strv_contains l s \<longleftrightarrow> s \<in> set l"

text \<open>The lists of users are NULL until configured; the parser never leaves an empty list behind,
  so NULL is the empty list.\<close>

definition manager_shall_kill :: "manager \<Rightarrow> string \<Rightarrow> bool" where
  "manager_shall_kill m user \<longleftrightarrow>
     (if m_kill_exclude_users m = [] \<and> user = ''root'' then False
      else if strv_contains (m_kill_exclude_users m) user then False
      else if m_kill_only_users m \<noteq> [] then strv_contains (m_kill_only_users m) user
      else m_kill_user_processes m)"

text \<open>The answer and the session found.\<close>

definition manager_get_session_by_pidref :: "manager \<Rightarrow> pidref \<Rightarrow> int \<times> string option" where
  "manager_get_session_by_pidref m p =
     (if \<not> pidref_is_set p then (- EINVAL, None)
      else case map_of (m_sessions_by_leader m) (pid_pid p) of
             Some s \<Rightarrow> let r = pidref_verify p m in if r < 0 then (r, None) else (1, Some s)
           | None \<Rightarrow>
               (case m_cgroup_session m (pid_pid p) of
                  Inl _ \<Rightarrow> (0, None)
                | Inr name \<Rightarrow> if name \<in> set (m_sessions m) then (1, Some name) else (0, None)))"

end
