(* ===== verification/Env_File.thy ===== *)
theory Env_File
  imports Escape
begin

text \<open>
  \<^verbatim>\<open>src/basic/env-file.c\<close>: the reader of \<^verbatim>\<open>KEY=value\<close> files, with which the daemon
  loads the state files of sessions, users, seats and inhibitors after a restart. The reader
  is the character-driven state machine of \<^verbatim>\<open>parse_env_file_internal\<close>; it calls a
  \<^verbatim>\<open>push\<close> function for every assignment and stops at the first negative result.
\<close>

subsection \<open>The state machine\<close>

datatype env_state =
    PRE_KEY | KEY | PRE_VALUE | VALUE | VALUE_ESCAPE | SINGLE_QUOTE_VALUE | DOUBLE_QUOTE_VALUE
  | DOUBLE_QUOTE_VALUE_ESCAPE | COMMENT | COMMENT_ESCAPE

text \<open>The locals of the function. The buffers hold \<open>n_key\<close> and \<open>n_value\<close> characters; the
  value buffer is NULL (\<open>None\<close>) until something is stored in it. The two
  \<open>last_..._whitespace\<close> positions are \<open>None\<close> for \<^verbatim>\<open>SIZE_MAX\<close>. \<open>es_user\<close> is what
  the callback changes.\<close>

record 'u env_st =
  es_state :: env_state
  es_key :: string
  es_value :: "string option"
  es_last_key_whitespace :: "nat option"
  es_last_value_whitespace :: "nat option"
  es_user :: 'u

type_synonym 'u push_env_func = "string \<Rightarrow> string option \<Rightarrow> 'u \<Rightarrow> int \<times> 'u"

definition SHELL_NEED_ESCAPE :: string where
  "SHELL_NEED_ESCAPE = [DQUOTE, BACKSLASH, CHR ''`'', CHR ''$'']"

definition es_add_value :: "string \<Rightarrow> 'u env_st \<Rightarrow> 'u env_st" where
  "es_add_value cs s =
     s\<lparr>es_value := Some ((case es_value s of None \<Rightarrow> [] | Some v \<Rightarrow> v) @ cs)\<rparr>"

text \<open>An error is returned with what the callback has changed so far.
  Handing an assignment over: the key and, in state \<open>VALUE\<close>, the value lose their trailing
  white space.\<close>

definition es_push :: "'u push_env_func \<Rightarrow> 'u env_st \<Rightarrow> (int \<times> 'u) + 'u env_st" where
  "es_push push s =
     (let key = (case es_last_key_whitespace s of None \<Rightarrow> es_key s | Some n \<Rightarrow> take n (es_key s));
          value = (if es_state s = VALUE then
                     (case es_last_value_whitespace s of
                        None \<Rightarrow> es_value s | Some n \<Rightarrow> map_option (take n) (es_value s))
                   else es_value s)
      in case push key value (es_user s) of (r, u) \<Rightarrow>
           if r < 0 then Inl (r, u)
           else Inr (s\<lparr>es_state := PRE_KEY, es_key := [], es_value := None, es_user := u\<rparr>))"

definition env_step :: "'u push_env_func \<Rightarrow> char \<Rightarrow> 'u env_st \<Rightarrow> (int \<times> 'u) + 'u env_st" where
  "env_step push c s =
     (case es_state s of
        PRE_KEY \<Rightarrow>
          if c \<in> set COMMENTS then Inr (s\<lparr>es_state := COMMENT\<rparr>)
          else if c \<notin> set WHITESPACE then
            Inr (s\<lparr>es_state := KEY, es_last_key_whitespace := None, es_key := es_key s @ [c]\<rparr>)
          else Inr s
      | KEY \<Rightarrow>
          if c \<in> set NEWLINE then Inr (s\<lparr>es_state := PRE_KEY, es_key := []\<rparr>)
          else if c = CHR ''='' then
            Inr (s\<lparr>es_state := PRE_VALUE, es_last_value_whitespace := None\<rparr>)
          else Inr (s\<lparr>es_last_key_whitespace :=
                        (if c \<notin> set WHITESPACE then None
                         else case es_last_key_whitespace s of
                                None \<Rightarrow> Some (length (es_key s)) | Some n \<Rightarrow> Some n),
                      es_key := es_key s @ [c]\<rparr>)
      | PRE_VALUE \<Rightarrow>
          if c \<in> set NEWLINE then es_push push s
          else if c = SQUOTE then Inr (s\<lparr>es_state := SINGLE_QUOTE_VALUE\<rparr>)
          else if c = DQUOTE then Inr (s\<lparr>es_state := DOUBLE_QUOTE_VALUE\<rparr>)
          else if c = BACKSLASH then Inr (s\<lparr>es_state := VALUE_ESCAPE\<rparr>)
          else if c \<notin> set WHITESPACE then Inr (es_add_value [c] (s\<lparr>es_state := VALUE\<rparr>))
          else Inr s
      | VALUE \<Rightarrow>
          if c \<in> set NEWLINE then es_push push s
          else if c = BACKSLASH then
            Inr (s\<lparr>es_state := VALUE_ESCAPE, es_last_value_whitespace := None\<rparr>)
          else Inr (es_add_value [c]
                 (s\<lparr>es_last_value_whitespace :=
                      (if c \<notin> set WHITESPACE then None
                       else case es_last_value_whitespace s of
                              None \<Rightarrow> Some (case es_value s of None \<Rightarrow> 0 | Some v \<Rightarrow> length v)
                            | Some n \<Rightarrow> Some n)\<rparr>))
      | VALUE_ESCAPE \<Rightarrow>
          if c \<notin> set NEWLINE then Inr (es_add_value [c] (s\<lparr>es_state := VALUE\<rparr>))
          else Inr (s\<lparr>es_state := VALUE\<rparr>)
      | SINGLE_QUOTE_VALUE \<Rightarrow>
          if c = SQUOTE then Inr (s\<lparr>es_state := PRE_VALUE\<rparr>) else Inr (es_add_value [c] s)
      | DOUBLE_QUOTE_VALUE \<Rightarrow>
          if c = DQUOTE then Inr (s\<lparr>es_state := PRE_VALUE\<rparr>)
          else if c = BACKSLASH then Inr (s\<lparr>es_state := DOUBLE_QUOTE_VALUE_ESCAPE\<rparr>)
          else Inr (es_add_value [c] s)
      | DOUBLE_QUOTE_VALUE_ESCAPE \<Rightarrow>
          let s' = s\<lparr>es_state := DOUBLE_QUOTE_VALUE\<rparr>
          in if c \<in> set SHELL_NEED_ESCAPE then Inr (es_add_value [c] s')
             else if c \<noteq> NL then Inr (es_add_value [BACKSLASH, c] s')
             else Inr s'
      | COMMENT \<Rightarrow>
          if c = BACKSLASH then Inr (s\<lparr>es_state := COMMENT_ESCAPE\<rparr>)
          else if c \<in> set NEWLINE then Inr (s\<lparr>es_state := PRE_KEY\<rparr>)
          else Inr s
      | COMMENT_ESCAPE \<Rightarrow>
          if c \<in> set NEWLINE then Inr (s\<lparr>es_state := PRE_KEY\<rparr>)
          else Inr (s\<lparr>es_state := COMMENT\<rparr>))"

fun env_run :: "'u push_env_func \<Rightarrow> string \<Rightarrow> 'u env_st \<Rightarrow> (int \<times> 'u) + 'u env_st" where
  "env_run push [] s = Inr s"
| "env_run push (c # cs) s =
     (case env_step push c s of Inl r \<Rightarrow> Inl r | Inr s' \<Rightarrow> env_run push cs s')"

definition env_init :: "'u \<Rightarrow> 'u env_st" where
  "env_init u = \<lparr>es_state = PRE_KEY, es_key = [], es_value = None,
     es_last_key_whitespace = None, es_last_value_whitespace = None, es_user = u\<rparr>"

text \<open>An assignment that the end of the file interrupts is still handed over.\<close>

definition parse_env_file_internal :: "'u push_env_func \<Rightarrow> string \<Rightarrow> 'u \<Rightarrow> (int \<times> 'u) + 'u" where
  "parse_env_file_internal push contents u =
     (case env_run push contents (env_init u) of
        Inl r \<Rightarrow> Inl r
      | Inr s \<Rightarrow>
          if es_state s \<in> {PRE_VALUE, VALUE, VALUE_ESCAPE, SINGLE_QUOTE_VALUE, DOUBLE_QUOTE_VALUE,
                           DOUBLE_QUOTE_VALUE_ESCAPE}
          then (case es_push push s of Inl r \<Rightarrow> Inl r | Inr s' \<Rightarrow> Inr (es_user s'))
          else Inr (es_user s))"

subsection \<open>The callback of parse_env_file\<close>

definition check_utf8ness_and_warn :: "string \<Rightarrow> string option \<Rightarrow> int" where
  "check_utf8ness_and_warn key value =
     (if \<not> utf8_is_valid key then - EINVAL
      else if (case value of None \<Rightarrow> False | Some v \<Rightarrow> \<not> utf8_is_valid v) then - EINVAL
      else 0)"

text \<open>The variables the caller asked for, by key.\<close>

type_synonym env_vars = "string \<Rightarrow> string option"

definition parse_env_file_push :: "string list \<Rightarrow> env_vars push_env_func" where
  "parse_env_file_push wanted key value vars =
     (let r = check_utf8ness_and_warn key value
      in if r < 0 then (r, vars)
         else if key \<in> set wanted then (1, vars(key := value))
         else (0, vars))"

definition parse_env_file :: "string list \<Rightarrow> string \<Rightarrow> env_vars \<Rightarrow> (int \<times> env_vars) + env_vars" where
  "parse_env_file wanted contents vars =
     parse_env_file_internal (parse_env_file_push wanted) contents vars"

subsection \<open>Reading one line\<close>

lemma env_run_append:
  "env_run push (xs @ ys) s =
     (case env_run push xs s of Inl r \<Rightarrow> Inl r | Inr s' \<Rightarrow> env_run push ys s')"
  by (induction xs arbitrary: s) (auto split: sum.splits)

text \<open>A key as the daemon writes them.\<close>

definition plain_key :: "string \<Rightarrow> bool" where
  "plain_key k \<longleftrightarrow> k \<noteq> [] \<and> (\<forall>c \<in> set k. c \<notin> set WHITESPACE \<and> c \<noteq> CHR ''='') \<and>
     hd k \<notin> set COMMENTS"

lemma env_run_key:
  "\<forall>c \<in> set k. c \<notin> set WHITESPACE \<and> c \<noteq> CHR ''='' \<Longrightarrow>
   es_state s = KEY \<Longrightarrow> es_last_key_whitespace s = None \<Longrightarrow>
   env_run push k s = Inr (s\<lparr>es_key := es_key s @ k\<rparr>)"
proof (induction k arbitrary: s)
  case (Cons c k)
  then have "env_step push c s = Inr (s\<lparr>es_key := es_key s @ [c]\<rparr>)"
    by (auto simp: env_step_def NEWLINE_def WHITESPACE_def)
  with Cons show ?case by simp
qed simp

text \<open>Where the reader stands between two lines.\<close>

definition line_start :: "'u env_st \<Rightarrow> bool" where
  "line_start s \<longleftrightarrow> es_state s = PRE_KEY \<and> es_key s = [] \<and> es_value s = None"

lemma env_run_plain_key:
  assumes "plain_key k" "line_start s"
  shows "env_run push (k @ ''='') s =
    Inr (s\<lparr>es_state := PRE_VALUE, es_key := k, es_last_key_whitespace := None,
           es_last_value_whitespace := None\<rparr>)"
proof -
  obtain c k' where k: "k = c # k'"
    using assms(1) by (auto simp: plain_key_def neq_Nil_conv)
  let ?s = "s\<lparr>es_state := KEY, es_last_key_whitespace := None, es_key := [c]\<rparr>"
  have "env_step push c s = Inr ?s"
    using assms k by (auto simp: env_step_def plain_key_def line_start_def)
  moreover have "env_run push k' ?s = Inr (?s\<lparr>es_key := c # k'\<rparr>)"
    using assms(1) k by (subst env_run_key) (auto simp: plain_key_def)
  ultimately have "env_run push k s = Inr (?s\<lparr>es_key := k\<rparr>)"
    by (simp add: k)
  then show ?thesis
    by (simp add: env_run_append env_step_def NEWLINE_def)
qed

text \<open>What the reader makes of a value outside quotes: a backslash is dropped and the character
  after it is taken as it is, whatever it is; blanks inside are kept, trailing ones are cut
  unless they are escaped.\<close>

fun unquoted_value :: "string \<Rightarrow> string" where
  "unquoted_value [] = []"
| "unquoted_value [c] = (if c = BACKSLASH \<or> c \<in> set WHITESPACE then [] else [c])"
| "unquoted_value (c # d # s) =
     (if c = BACKSLASH then d # unquoted_value s
      else if c \<in> set WHITESPACE \<and> unquoted_value (d # s) = [] then []
      else c # unquoted_value (d # s))"

fun complete_escapes :: "string \<Rightarrow> bool" where
  "complete_escapes [] = True"
| "complete_escapes [c] = (c \<noteq> BACKSLASH)"
| "complete_escapes (c # d # s) =
     (if c = BACKSLASH then complete_escapes s else complete_escapes (d # s))"

definition kept_value :: "string \<Rightarrow> nat option \<Rightarrow> string" where
  "kept_value x lw = (case lw of None \<Rightarrow> x | Some n \<Rightarrow> take n x)"

lemma kept_value_simps [simp]:
  "kept_value x None = x" "kept_value x (Some n) = take n x"
  by (simp_all add: kept_value_def)

definition es_in_value :: "string \<Rightarrow> nat option \<Rightarrow> 'u env_st \<Rightarrow> 'u env_st" where
  "es_in_value x lw s = s\<lparr>es_state := VALUE, es_value := Some x, es_last_value_whitespace := lw\<rparr>"

lemmas env_step_defs =
  env_step_def es_in_value_def es_add_value_def NEWLINE_def WHITESPACE_def

lemma env_step_in_value:
  assumes "c \<notin> set NEWLINE" "c \<noteq> BACKSLASH"
  shows "env_step push c (es_in_value x lw s) = Inr (es_in_value (x @ [c])
    (if c \<notin> set WHITESPACE then None
     else case lw of None \<Rightarrow> Some (length x) | Some n \<Rightarrow> Some n) s)"
  using assms by (cases lw) (simp_all add: env_step_def es_in_value_def es_add_value_def)

lemma env_run_in_escape:
  assumes "d \<notin> set NEWLINE"
  shows "env_run push [BACKSLASH, d] (es_in_value x lw s) = Inr (es_in_value (x @ [d]) None s)"
  using assms by (simp add: env_step_defs)

text \<open>Reading a value: the buffer grows, and what would be handed over at its end is what was
  kept before, followed by the value as \<open>unquoted_value\<close> reads it.\<close>

lemma env_run_value:
  "complete_escapes v \<Longrightarrow> \<forall>c \<in> set v. c \<notin> set NEWLINE \<Longrightarrow> (\<And>n. lw = Some n \<Longrightarrow> n \<le> length x) \<Longrightarrow>
   \<exists>y lw'. env_run push v (es_in_value x lw s) = Inr (es_in_value y lw' s) \<and>
     kept_value y lw' = (if unquoted_value v = [] then kept_value x lw else x @ unquoted_value v)"
proof (induction v arbitrary: x lw rule: unquoted_value.induct)
  case 1
  show ?case by auto
next
  case (2 c)
  have "n \<le> length x" if "lw = Some n" for n
    using 2 that by blast
  with 2 show ?case
    by (cases lw; cases "c \<in> set WHITESPACE") (fastforce simp: env_step_in_value)+
next
  case (3 c d v)
  show ?case
  proof (cases "c = BACKSLASH")
    case True
    with "3.prems" have "\<exists>y lw'. env_run push v (es_in_value (x @ [d]) None s) =
        Inr (es_in_value y lw' s) \<and> kept_value y lw' = (x @ [d]) @ unquoted_value v"
      using "3.IH"(1) [of None "x @ [d]"] by (fastforce split: if_splits)
    then show ?thesis
      using True "3.prems"(2) env_run_append [of push "[c, d]" v "es_in_value x lw s"]
        env_run_in_escape [of d push x lw s] by auto
  next
    case False
    define lw1 where "lw1 = (if c \<notin> set WHITESPACE then None
      else case lw of None \<Rightarrow> Some (length x) | Some n \<Rightarrow> Some n)"
    have "n \<le> length (x @ [c])" if "lw1 = Some n" for n
      using that "3.prems"(3) by (fastforce simp: lw1_def split: if_splits option.splits)
    then obtain y lw' where run: "env_run push (d # v) (es_in_value (x @ [c]) lw1 s) =
        Inr (es_in_value y lw' s)"
        and kept: "kept_value y lw' = (if unquoted_value (d # v) = [] then kept_value (x @ [c]) lw1
                            else (x @ [c]) @ unquoted_value (d # v))"
      using "3.IH"(2) [of lw1 "x @ [c]"] "3.prems" False by (auto simp del: env_run.simps)
    have "env_step push c (es_in_value x lw s) = Inr (es_in_value (x @ [c]) lw1 s)"
      using False "3.prems"(2) by (simp add: env_step_in_value lw1_def)
    then have "env_run push (c # d # v) (es_in_value x lw s) = Inr (es_in_value y lw' s)"
      using run by simp
    moreover have "kept_value (x @ [c]) lw1 = (if c \<in> set WHITESPACE then kept_value x lw else x @ [c])"
      using "3.prems"(3) by (cases lw) (auto simp: lw1_def kept_value_def)
    then have "kept_value y lw' = (if unquoted_value (c # d # v) = [] then kept_value x lw
        else x @ unquoted_value (c # d # v))"
      using kept False by auto
    ultimately show ?thesis by blast
  qed
qed

text \<open>A value the daemon writes: not empty, on one line, not opened by a quote or a blank.\<close>

definition plain_value :: "string \<Rightarrow> bool" where
  "plain_value v \<longleftrightarrow> v \<noteq> [] \<and> hd v \<notin> set (SQUOTE # DQUOTE # WHITESPACE) \<and>
     complete_escapes v \<and> (\<forall>c \<in> set v. c \<notin> set NEWLINE)"

lemma plain_value_kept:
  assumes "plain_value v"
  shows "unquoted_value v \<noteq> []"
  using assms by (cases v rule: unquoted_value.cases) (auto simp: plain_value_def)

lemma env_run_plain_value:
  assumes v: "plain_value v" and s: "es_state s = PRE_VALUE" "es_value s = None"
    "es_last_value_whitespace s = None"
  shows "\<exists>y lw. env_run push v s = Inr (es_in_value y lw s) \<and> kept_value y lw = unquoted_value v"
proof (cases v)
  case (Cons c v')
  show ?thesis
  proof (cases "c = BACKSLASH")
    case True
    then obtain d v'' where v': "v' = d # v''"
      using v Cons by (cases v') (auto simp: plain_value_def)
    have "env_run push [c, d] s = Inr (es_in_value [d] None s)"
      using True s v v' Cons by (simp add: env_step_defs plain_value_def)
    moreover have "\<exists>y lw. env_run push v'' (es_in_value [d] None s) = Inr (es_in_value y lw s) \<and>
        kept_value y lw = d # unquoted_value v''"
      using env_run_value [of v'' None "[d]" push s] v v' Cons True
      by (fastforce simp: plain_value_def split: if_splits)
    ultimately show ?thesis
      using env_run_append [of push "[c, d]" v'' s] True Cons v' by auto
  next
    case False
    have "env_step push c s = Inr (es_in_value [c] None s)"
      using False s v Cons by (auto simp: env_step_defs plain_value_def)
    moreover have "complete_escapes v'"
      using v Cons False by (cases v') (auto simp: plain_value_def)
    then have "\<exists>y lw. env_run push v' (es_in_value [c] None s) = Inr (es_in_value y lw s) \<and>
        kept_value y lw = c # unquoted_value v'"
      using env_run_value [of v' None "[c]" push s] v Cons
      by (fastforce simp: plain_value_def split: if_splits)
    moreover have "unquoted_value v = c # unquoted_value v'"
      using False Cons v by (cases v') (auto simp: plain_value_def)
    ultimately show ?thesis by (auto simp: Cons)
  qed
qed (use v in \<open>simp add: plain_value_def\<close>)

text \<open>One line \<^verbatim>\<open>KEY=value\<close> hands exactly that assignment over.\<close>

definition env_line :: "string \<Rightarrow> string \<Rightarrow> string" where
  "env_line k v = k @ ''='' @ v @ [NL]"

lemma env_run_line:
  assumes k: "plain_key k" and v: "plain_value v" and s: "line_start s"
    and push: "push k (Some (unquoted_value v)) (es_user s) = (r, u)" "0 \<le> r"
  shows "\<exists>s'. env_run push (env_line k v) s = Inr s' \<and> line_start s' \<and> es_user s' = u"
proof -
  let ?s = "s\<lparr>es_state := PRE_VALUE, es_key := k, es_last_key_whitespace := None,
              es_last_value_whitespace := None\<rparr>"
  have key: "env_run push (k @ ''='') s = Inr ?s"
    using env_run_plain_key [OF k s] .
  obtain y lw where val: "env_run push v ?s = Inr (es_in_value y lw ?s)"
      and kept: "kept_value y lw = unquoted_value v"
    using env_run_plain_value [OF v, of ?s push] s by (auto simp: line_start_def)
  have "es_push push (es_in_value y lw ?s) = Inr (?s\<lparr>es_state := PRE_KEY, es_key := [],
      es_value := None, es_last_value_whitespace := lw, es_user := u\<rparr>)"
    using kept push by (cases lw) (auto simp: es_push_def es_in_value_def kept_value_def)
  then have "env_step push NL (es_in_value y lw ?s) = Inr (?s\<lparr>es_state := PRE_KEY, es_key := [],
      es_value := None, es_last_value_whitespace := lw, es_user := u\<rparr>)"
    by (simp add: env_step_def es_in_value_def NEWLINE_def)
  then show ?thesis
    using key val env_run_append [of push "k @ ''=''" "v @ [NL]" s]
    by (simp add: env_line_def env_run_append line_start_def)
qed

subsection \<open>Reading a whole file\<close>

definition env_file :: "(string \<times> string) list \<Rightarrow> string" where
  "env_file kvs = concat (map (\<lambda>(k, v). env_line k v) kvs)"

definition read_back :: "string list \<Rightarrow> (string \<times> string) list \<Rightarrow> env_vars \<Rightarrow> env_vars" where
  "read_back wanted kvs vars =
     foldl (\<lambda>vs (k, v). if k \<in> set wanted then vs(k := Some (unquoted_value v)) else vs) vars kvs"

definition plain_entry :: "string \<times> string \<Rightarrow> bool" where
  "plain_entry kv \<longleftrightarrow> plain_key (fst kv) \<and> plain_value (snd kv) \<and>
     utf8_is_valid (fst kv) \<and> utf8_is_valid (unquoted_value (snd kv))"

lemma env_run_file:
  "\<forall>kv \<in> set kvs. plain_entry kv \<Longrightarrow> line_start s \<Longrightarrow>
   \<exists>s'. env_run (parse_env_file_push wanted) (env_file kvs) s = Inr s' \<and> line_start s' \<and>
     es_user s' = read_back wanted kvs (es_user s)"
proof (induction kvs arbitrary: s)
  case Nil
  then show ?case by (simp add: env_file_def read_back_def)
next
  case (Cons kv kvs)
  obtain k v where kv: "kv = (k, v)" by fastforce
  let ?vs = "if k \<in> set wanted then (es_user s)(k := Some (unquoted_value v)) else es_user s"
  have k: "plain_key k" and v: "plain_value v"
      and u: "utf8_is_valid k" "utf8_is_valid (unquoted_value v)"
    using Cons.prems kv by (auto simp: plain_entry_def)
  have push: "parse_env_file_push wanted k (Some (unquoted_value v)) (es_user s) =
      ((if k \<in> set wanted then 1 else 0), ?vs)"
    using u by (simp add: parse_env_file_push_def check_utf8ness_and_warn_def)
  have nn: "0 \<le> (if k \<in> set wanted then 1 else (0 :: int))" by simp
  obtain s1 where s1: "env_run (parse_env_file_push wanted) (env_line k v) s = Inr s1"
      "line_start s1" "es_user s1 = ?vs"
    using env_run_line [OF k v Cons.prems(2), of "parse_env_file_push wanted", OF push nn]
    by blast
  then obtain s2 where "env_run (parse_env_file_push wanted) (env_file kvs) s1 = Inr s2"
      "line_start s2" "es_user s2 = read_back wanted kvs (es_user s1)"
    using Cons.IH [of s1] Cons.prems(1) by auto
  with s1 show ?case
    by (auto simp: env_file_def env_run_append kv read_back_def)
qed

text \<open>The file is read to its end and yields, for every variable asked for, the value of its last
  line; other lines are skipped.\<close>

lemma parse_env_file_lines:
  assumes "\<forall>kv \<in> set kvs. plain_entry kv"
  shows "parse_env_file wanted (env_file kvs) vars = Inr (read_back wanted kvs vars)"
  using env_run_file [OF assms, of "env_init vars" wanted]
  by (auto simp: parse_env_file_def parse_env_file_internal_def env_init_def line_start_def)

lemma read_back_lookup:
  "read_back wanted kvs vars k =
     (if k \<in> set wanted then
        (case map_of (rev kvs) k of None \<Rightarrow> vars k | Some v \<Rightarrow> Some (unquoted_value v))
      else vars k)"
proof (induction kvs rule: rev_induct)
  case (snoc kv kvs)
  then show ?case by (cases kv) (simp add: read_back_def)
qed (simp add: read_back_def)

text \<open>A value without backslashes and trailing blanks is read as it was written.\<close>

lemma unquoted_value_plain:
  "BACKSLASH \<notin> set v \<Longrightarrow> v = [] \<or> last v \<notin> set WHITESPACE \<Longrightarrow> unquoted_value v = v"
  by (induction v rule: unquoted_value.induct) (auto split: if_splits)

end
