(* ===== verification/State_Files.thy ===== *)
theory State_Files
  imports Login_Queries Env_File
begin

text \<open>
  The state files of seats, sessions and users under \<^verbatim>\<open>/run/systemd\<close>, as
  \<^verbatim>\<open>seat_save\<close>, \<^verbatim>\<open>session_save\<close> and \<^verbatim>\<open>user_save\<close> write them. Saving leaves every object
  alone.
\<close>

subsection \<open>Operations that only talk to the system\<close>

definition same_objects :: "manager \<Rightarrow> manager \<Rightarrow> bool" where
  "same_objects m m' \<longleftrightarrow> m'\<lparr>m_trace := [], m_abort := False\<rparr> = m\<lparr>m_trace := [], m_abort := False\<rparr>"

lemma same_objects_refl [simp, intro]: "same_objects m m"
  by (simp add: same_objects_def)

lemma same_objects_trans [trans]:
  "same_objects m m' \<Longrightarrow> same_objects m' m'' \<Longrightarrow> same_objects m m''"
  by (simp add: same_objects_def)

lemma same_objects_sys: "same_objects m m' \<Longrightarrow> same_objects m (snd (sys e m'))"
  by (simp add: same_objects_def sys_def)

lemma same_objects_emit: "same_objects m m' \<Longrightarrow> same_objects m (emit e m')"
  by (simp add: same_objects_def emit_def)

text \<open>Every field but the trace is the same; whether an assertion failed is said separately for each
  operation.\<close>

lemma same_objects_fields:
  assumes "same_objects m m'"
  shows "ses m' = ses m" "sts m' = sts m" "usr m' = usr m" "dev m' = dev m" "sdv m' = sdv m"
    "inh m' = inh m" "btn m' = btn m" "m_devices m' = m_devices m" "m_seats m' = m_seats m"
    "m_sessions m' = m_sessions m" "m_sessions_by_leader m' = m_sessions_by_leader m"
    "m_users m' = m_users m" "m_inhibitors m' = m_inhibitors m" "m_buttons m' = m_buttons m"
    "m_seat_gc_queue m' = m_seat_gc_queue m" "m_session_gc_queue m' = m_session_gc_queue m"
    "m_user_gc_queue m' = m_user_gc_queue m" "m_console_active_fd m' = m_console_active_fd m"
    "m_do_interrupt m' = m_do_interrupt m" "m_seat0 m' = m_seat0 m"
    "m_kill_only_users m' = m_kill_only_users m"
    "m_kill_exclude_users m' = m_kill_exclude_users m"
    "m_kill_user_processes m' = m_kill_user_processes m"
    "m_delegate_session_cgroups m' = m_delegate_session_cgroups m"
    "m_session_counter m' = m_session_counter m" "m_inhibit_counter m' = m_inhibit_counter m"
    "m_inhibit_delay_max m' = m_inhibit_delay_max m" "m_user_stop_delay m' = m_user_stop_delay m"
    "m_delayed_action m' = m_delayed_action m" "m_action_job m' = m_action_job m"
    "m_inhibit_timeout_source m' = m_inhibit_timeout_source m"
    "m_idle_action_usec m' = m_idle_action_usec m"
    "m_idle_action_not_before_usec m' = m_idle_action_not_before_usec m"
    "m_idle_action m' = m_idle_action m" "m_was_idle m' = m_was_idle m"
    "m_stop_idle_session_usec m' = m_stop_idle_session_usec m"
    "m_handle_action_sleep_mask m' = m_handle_action_sleep_mask m"
    "m_handle_power_key m' = m_handle_power_key m"
    "m_handle_power_key_long_press m' = m_handle_power_key_long_press m"
    "m_handle_reboot_key m' = m_handle_reboot_key m"
    "m_handle_reboot_key_long_press m' = m_handle_reboot_key_long_press m"
    "m_handle_suspend_key m' = m_handle_suspend_key m"
    "m_handle_suspend_key_long_press m' = m_handle_suspend_key_long_press m"
    "m_handle_hibernate_key m' = m_handle_hibernate_key m"
    "m_handle_hibernate_key_long_press m' = m_handle_hibernate_key_long_press m"
    "m_handle_secure_attention_key m' = m_handle_secure_attention_key m"
    "m_handle_lid_switch m' = m_handle_lid_switch m"
    "m_handle_lid_switch_ep m' = m_handle_lid_switch_ep m"
    "m_handle_lid_switch_docked m' = m_handle_lid_switch_docked m"
    "m_power_key_ignore_inhibited m' = m_power_key_ignore_inhibited m"
    "m_suspend_key_ignore_inhibited m' = m_suspend_key_ignore_inhibited m"
    "m_hibernate_key_ignore_inhibited m' = m_hibernate_key_ignore_inhibited m"
    "m_lid_switch_ignore_inhibited m' = m_lid_switch_ignore_inhibited m"
    "m_reboot_key_ignore_inhibited m' = m_reboot_key_ignore_inhibited m"
    "m_remove_ipc m' = m_remove_ipc m" "m_holdoff_timeout_usec m' = m_holdoff_timeout_usec m"
    "m_lid_switch_ignore_event_source m' = m_lid_switch_ignore_event_source m"
    "m_power_key_long_press_event_source m' = m_power_key_long_press_event_source m"
    "m_reboot_key_long_press_event_source m' = m_reboot_key_long_press_event_source m"
    "m_suspend_key_long_press_event_source m' = m_suspend_key_long_press_event_source m"
    "m_hibernate_key_long_press_event_source m' = m_hibernate_key_long_press_event_source m"
    "m_runtime_dir_size m' = m_runtime_dir_size m"
    "m_runtime_dir_inodes m' = m_runtime_dir_inodes m" "m_sessions_max m' = m_sessions_max m"
    "m_inhibitors_max m' = m_inhibitors_max m" "m_eviocrevoke_warned m' = m_eviocrevoke_warned m"
    "m_hidiocrevoke_warned m' = m_hidiocrevoke_warned m" "m_env m' = m_env m"
    "m_console m' = m_console m" "m_cgroup_session m' = m_cgroup_session m"
    "m_ctty m' = m_ctty m" "m_udev m' = m_udev m" "m_files m' = m_files m"
    "m_uninit_ts m' = m_uninit_ts m" "m_uninit_unsigned m' = m_uninit_unsigned m"
    "m_malloc m' = m_malloc m"
    "m_cgroup_inotify_fd m' = m_cgroup_inotify_fd m"
    "m_cgroup_control_inotify_wd_session m' = m_cgroup_control_inotify_wd_session m"
    "m_sleep_fork_action m' = m_sleep_fork_action m" "m_sleep_fork_pid m' = m_sleep_fork_pid m"
    "m_tool_fork_pid m' = m_tool_fork_pid m"
    "m_idle_action_event_source m' = m_idle_action_event_source m" "m_world m' = m_world m"
    "m_brightness_writers m' = m_brightness_writers m" "m_schedule m' = m_schedule m" "m_polkit_registry m' = m_polkit_registry m"
  using assms by (cases m; cases m'; simp add: same_objects_def)+

text \<open>So every question about the objects has the same answer, unless it asks the system.\<close>

lemma session_is_active_same: "same_objects m m' \<Longrightarrow> session_is_active s m' = session_is_active s m"
  by (simp add: session_is_active_def same_objects_fields split: option.split)

lemma seat_has_vts_same: "same_objects m m' \<Longrightarrow> seat_has_vts s m' = seat_has_vts s m"
  by (simp add: seat_has_vts_def seat_is_seat0_def same_objects_fields)

lemma session_get_state_same: "same_objects m m' \<Longrightarrow> session_get_state s m' = session_get_state s m"
  by (simp add: session_get_state_def session_is_active_same same_objects_fields)

lemma seat_has_master_device_same:
  "same_objects m m' \<Longrightarrow> seat_has_master_device s m' = seat_has_master_device s m"
  by (simp add: seat_has_master_device_def same_objects_fields split: list.split)

lemmas same_objects_simps =
  same_objects_fields session_is_active_same seat_has_vts_same session_get_state_same
  seat_has_master_device_same

lemma sys_same: "same_objects m (snd (sys e m))"
  by (rule same_objects_sys) simp

lemma emit_same: "same_objects m (emit e m)"
  by (rule same_objects_emit) simp

lemmas sys_frame [simp] = same_objects_simps [OF sys_same]
lemmas emit_frame [simp] = same_objects_simps [OF emit_same]

lemma assert_that_same: "same_objects m m' \<Longrightarrow> same_objects m (assert_that b m')"
  by (simp add: same_objects_def assert_that_def)

lemma abort_simps [simp]:
  "m_abort (snd (sys e m)) = m_abort m"
  "m_abort (emit e m) = m_abort m"
  "m_abort (assert_that b m) = (m_abort m \<or> \<not> b)"
  "m_abort (session_send_changed s props m) = m_abort m"
  "m_abort (seat_send_changed st props m) = m_abort m"
  "m_abort (user_send_changed u props m) = m_abort m"
  by (simp_all add: sys_defs session_send_changed_def seat_send_changed_def user_send_changed_def)

lemma save_file_same: "same_objects m (snd (save_file dir path ok contents m))"
  by (auto simp: save_file_def Let_def case_prod_beta
      intro!: same_objects_sys same_objects_emit assert_that_same)

lemma save_file_abort [simp]: "ok \<Longrightarrow> m_abort (snd (save_file dir path ok contents m)) = m_abort m"
  by (simp add: save_file_def Let_def case_prod_beta)

lemma session_send_changed_same: "same_objects m (session_send_changed s props m)"
  by (simp add: session_send_changed_def emit_same)

lemma seat_send_changed_same: "same_objects m (seat_send_changed s props m)"
  by (simp add: seat_send_changed_def emit_same)

lemma user_send_changed_same: "same_objects m (user_send_changed u props m)"
  by (simp add: user_send_changed_def emit_same)

lemmas session_send_changed_frame [simp] = same_objects_simps [OF session_send_changed_same]
lemmas seat_send_changed_frame [simp] = same_objects_simps [OF seat_send_changed_same]
lemmas user_send_changed_frame [simp] = same_objects_simps [OF user_send_changed_same]

subsection \<open>Lines of a state file\<close>

definition line :: "string \<Rightarrow> string \<Rightarrow> string" where
  "line key value = env_line key value"

definition opt_line :: "string \<Rightarrow> string option \<Rightarrow> string" where
  "opt_line key value = (case value of None \<Rightarrow> [] | Some v \<Rightarrow> line key v)"

definition one_zero :: "bool \<Rightarrow> string" where
  "one_zero b = (if b then ''1'' else ''0'')"

definition yes_no :: "bool \<Rightarrow> string" where
  "yes_no b = (if b then ''yes'' else ''no'')"

definition private_data :: string where
  "private_data = ''# This is private data. Do not parse.'' @ [NL]"

text \<open>Names with a blank between them.\<close>

fun unwords :: "string list \<Rightarrow> string" where
  "unwords [] = []"
| "unwords [x] = x"
| "unwords (x # y # xs) = x @ '' '' @ unwords (y # xs)"

subsection \<open>Seats\<close>

definition seat_contents :: "string \<Rightarrow> manager \<Rightarrow> string" where
  "seat_contents s m =
     (let x = sts m s
      in private_data @ line ''IS_SEAT0'' (one_zero (seat_is_seat0 s m)) @
         line ''CAN_MULTI_SESSION'' ''1'' @ line ''CAN_TTY'' (one_zero (seat_can_tty s m)) @
         line ''CAN_GRAPHICAL'' (one_zero (seat_can_graphical s m)) @
         (case st_active x of
            None \<Rightarrow> []
          | Some a \<Rightarrow> line ''ACTIVE'' a @ line ''ACTIVE_UID'' (dec (the (s_user (ses m a))))) @
         (if st_sessions x \<noteq> [] then
            line ''SESSIONS'' (unwords (st_sessions x)) @
            line ''UIDS'' (unwords (map (\<lambda>i. dec (the (s_user (ses m i)))) (st_sessions x)))
          else []))"

text \<open>The code asserts that the active session has a user, and reads the user of every session.\<close>

definition seat_users_known :: "string \<Rightarrow> manager \<Rightarrow> bool" where
  "seat_users_known s m \<longleftrightarrow>
     (\<forall>a. st_active (sts m s) = Some a \<longrightarrow> s_user (ses m a) \<noteq> None) \<and>
     (\<forall>i \<in> set (st_sessions (sts m s)). s_user (ses m i) \<noteq> None)"

lemma seat_users_known_code [code]:
  "seat_users_known s m \<longleftrightarrow> (case st_active (sts m s) of None \<Rightarrow> True | Some a \<Rightarrow> s_user (ses m a) \<noteq> None) \<and>
     (\<forall>i \<in> set (st_sessions (sts m s)). s_user (ses m i) \<noteq> None)"
  by (auto simp: seat_users_known_def split: option.split)

definition seat_save :: "string \<Rightarrow> manager \<Rightarrow> int \<times> manager" where
  "seat_save s m =
     (if \<not> st_started (sts m s) then (0, m)
      else save_file ''/run/systemd/seats'' (seat_state_file s) (seat_users_known s m)
             (seat_contents s m) m)"

subsection \<open>Sessions\<close>

definition AUDIT_SESSION_INVALID :: nat where
  "AUDIT_SESSION_INVALID = 2 ^ 32 - 1"

definition audit_session_is_valid :: "nat \<Rightarrow> bool" where
  "audit_session_is_valid a \<longleftrightarrow> a > 0 \<and> a \<noteq> AUDIT_SESSION_INVALID"

definition session_save_devices :: "string \<Rightarrow> manager \<Rightarrow> string" where
  "session_save_devices s m =
     (if s_devices (ses m s) \<noteq> [] then
        ''DEVICES='' @ concat (map (\<lambda>d. format_devnum d @ '' '') (s_devices (ses m s))) @ [NL]
      else [])"

definition session_contents :: "string \<Rightarrow> uid \<Rightarrow> manager \<Rightarrow> string" where
  "session_contents s u m =
     (let x = ses m s
      in private_data @ line ''UID'' (dec u) @ line ''USER'' (u_user_name (usr m u)) @
         line ''ACTIVE'' (one_zero (session_is_active s m)) @
         line ''IS_DISPLAY'' (one_zero (u_display (usr m u) = Some s)) @
         line ''STATE'' (session_state_to_string (session_get_state s m)) @
         line ''REMOTE'' (one_zero (s_remote x)) @
         line ''LEADER_FD_SAVED'' (one_zero (s_leader_fd_saved x)) @
         line ''TYPE'' (session_type_to_string (s_type x)) @
         line ''ORIGINAL_TYPE'' (session_type_to_string (s_original_type x)) @
         line ''CLASS'' (session_class_to_string (s_class x)) @
         opt_line ''SCOPE'' (s_scope x) @
         opt_line ''FIFO'' (s_fifo_path x) @
         opt_line ''SEAT'' (s_seat x) @
         opt_line ''TTY'' (s_tty x) @
         opt_line ''TTY_VALIDITY'' (map_option tty_validity_to_string (s_tty_validity x)) @
         opt_line ''DISPLAY'' (s_display x) @
         opt_line ''REMOTE_HOST'' (map_option cescape (s_remote_host x)) @
         opt_line ''REMOTE_USER'' (map_option cescape (s_remote_user x)) @
         opt_line ''SERVICE'' (map_option cescape (s_service x)) @
         opt_line ''DESKTOP'' (map_option cescape (s_desktop x)) @
         (case s_seat x of
            None \<Rightarrow> []
          | Some st \<Rightarrow> if seat_has_vts st m then line ''VTNR'' (dec (s_vtnr x)) else []) @
         (if s_vtnr x = 0 then line ''POSITION'' (dec (s_position x)) else []) @
         (if pidref_is_set (s_leader x) then line ''LEADER'' (dec (pid_pid (s_leader x))) else []) @
         (if audit_session_is_valid (s_audit_id x) then line ''AUDIT'' (dec (s_audit_id x)) else []) @
         (if dual_timestamp_is_set (s_timestamp x) then
            line ''REALTIME'' (dec (ts_realtime (s_timestamp x))) @
            line ''MONOTONIC'' (dec (ts_monotonic (s_timestamp x)))
          else []) @
         (case s_controller x of
            None \<Rightarrow> []
          | Some c \<Rightarrow> line ''CONTROLLER'' c @ session_save_devices s m))"

definition session_save :: "string \<Rightarrow> manager \<Rightarrow> int \<times> manager" where
  "session_save s m =
     (case s_user (ses m s) of
        None \<Rightarrow> (- ESTALE, m)
      | Some u \<Rightarrow>
          if \<not> s_started (ses m s) then (0, m)
          else save_file ''/run/systemd/sessions'' (session_state_file s) True
                 (session_contents s u m) m)"

subsection \<open>Users\<close>

definition user_contents :: "uid \<Rightarrow> manager \<Rightarrow> string" where
  "user_contents u m =
     (let x = usr m u;
          seats = (\<lambda>is. concat (map (\<lambda>i. case s_seat (ses m i) of None \<Rightarrow> [] | Some st \<Rightarrow> [st]) is));
          active = filter (\<lambda>i. session_is_active i m) (u_sessions x);
          online = filter (\<lambda>i. session_get_state i m \<noteq> SESSION_CLOSING) (u_sessions x)
      in private_data @ line ''NAME'' (u_user_name x) @
         line ''STATE'' (user_state_to_string (user_get_state u m)) @
         line ''STOPPING'' (yes_no (u_stopping x)) @
         line ''GC_MODE'' (user_gc_mode_to_string (u_gc_mode x)) @
         line ''RUNTIME'' (''/run/user/'' @ dec u) @
         opt_line ''DISPLAY'' (u_display x) @
         (if dual_timestamp_is_set (u_timestamp x) then
            line ''REALTIME'' (dec (ts_realtime (u_timestamp x))) @
            line ''MONOTONIC'' (dec (ts_monotonic (u_timestamp x)))
          else []) @
         (if u_last_session_timestamp x \<noteq> USEC_INFINITY
            then line ''LAST_SESSION_TIMESTAMP'' (dec (u_last_session_timestamp x)) else []) @
         (if u_sessions x \<noteq> [] then
            line ''SESSIONS'' (unwords (u_sessions x)) @
            line ''SEATS'' (unwords (seats (u_sessions x))) @
            line ''ACTIVE_SESSIONS'' (unwords active) @
            line ''ONLINE_SESSIONS'' (unwords online) @
            line ''ACTIVE_SEATS'' (unwords (seats active)) @
            line ''ONLINE_SEATS'' (unwords (seats online))
          else []))"

definition user_save_internal :: "uid \<Rightarrow> manager \<Rightarrow> int \<times> manager" where
  "user_save_internal u m =
     save_file ''/run/systemd/users'' (user_state_file u) True (user_contents u m) m"

definition user_save :: "uid \<Rightarrow> manager \<Rightarrow> int \<times> manager" where
  "user_save u m = (if \<not> u_started (usr m u) then (0, m) else user_save_internal u m)"

subsection \<open>Saving leaves every object alone\<close>

lemma seat_save_same: "same_objects m (snd (seat_save s m))"
  by (simp add: seat_save_def save_file_same)

lemma session_save_same: "same_objects m (snd (session_save s m))"
  by (simp add: session_save_def save_file_same split: option.split)

lemma user_save_internal_same: "same_objects m (snd (user_save_internal u m))"
  by (simp add: user_save_internal_def save_file_same)

lemma user_save_same: "same_objects m (snd (user_save u m))"
  by (simp add: user_save_def user_save_internal_same)

lemma save_abort [simp]:
  "seat_users_known st m \<Longrightarrow> m_abort (snd (seat_save st m)) = m_abort m"
  "m_abort (snd (session_save s m)) = m_abort m"
  "m_abort (snd (user_save_internal u m)) = m_abort m"
  "m_abort (snd (user_save u m)) = m_abort m"
  by (simp_all add: seat_save_def session_save_def user_save_def user_save_internal_def
      split: option.split)

lemmas seat_save_frame [simp] = same_objects_simps [OF seat_save_same]
lemmas session_save_frame [simp] = same_objects_simps [OF session_save_same]
lemmas user_save_internal_frame [simp] = same_objects_simps [OF user_save_internal_same]
lemmas user_save_frame [simp] = same_objects_simps [OF user_save_same]

end
