(* ===== verification/Session_Device.thy ===== *)
theory Session_Device
  imports State_Files
begin

text \<open>
  \<^verbatim>\<open>logind-session-device.c\<close>: the devices a session controller has taken. A device is
  opened when it is taken, paused (DRM master dropped, input revoked) when its session leaves the
  foreground and resumed when it comes back. The creation of a session device, which may have to
  process a udev event first, is in theory \<open>Manager\<close>.
\<close>

subsection \<open>Operations\<close>

definition safe_close :: "int \<Rightarrow> manager \<Rightarrow> manager" where
  "safe_close fd m = (if fd \<ge> 0 then emit (Sys_close fd) m else m)"

definition session_device_notify ::
  "string \<times> devt \<Rightarrow> notification \<Rightarrow> manager \<Rightarrow> int \<times> manager" where
  "session_device_notify sd type m =
     (if s_controller (ses m (fst sd)) = None then (0, m)
      else sys (Sys_device_notify (fst sd) (snd sd) type
                  (if type = SESSION_DEVICE_RESUME then sd_fd (sdv m sd) else - 1)) m)"

definition sd_eviocrevoke :: "int \<Rightarrow> manager \<Rightarrow> manager" where
  "sd_eviocrevoke fd m =
     (let m = assert_that (fd \<ge> 0) m
      in if m_eviocrevoke_warned m then m
         else case sys (Sys_ioctl fd ''EVIOCREVOKE'') m of (r, m) \<Rightarrow>
                if r = - EINVAL then m\<lparr>m_eviocrevoke_warned := True\<rparr> else m)"

definition sd_hidiocrevoke :: "int \<Rightarrow> manager \<Rightarrow> manager" where
  "sd_hidiocrevoke fd m =
     (let m = assert_that (fd \<ge> 0) m
      in if m_hidiocrevoke_warned m then m
         else case sys (Sys_ioctl fd ''HIDIOCREVOKE'') m of (r, m) \<Rightarrow>
                if r = - EINVAL then m\<lparr>m_hidiocrevoke_warned := True\<rparr> else m)"

text \<open>Becoming DRM master is tried again while the device is busy; the argument is how many more
  attempts there are after this one.\<close>

fun sd_drmsetmaster_loop :: "nat \<Rightarrow> int \<Rightarrow> manager \<Rightarrow> int \<times> manager" where
  "sd_drmsetmaster_loop 0 fd m = sys (Sys_ioctl fd ''DRM_IOCTL_SET_MASTER'') m"
| "sd_drmsetmaster_loop (Suc n) fd m =
     (case sys (Sys_ioctl fd ''DRM_IOCTL_SET_MASTER'') m of (r, m) \<Rightarrow>
        if r \<noteq> - EBUSY then (r, m) else sd_drmsetmaster_loop n fd (emit Sys_usleep m))"

definition DRM_SET_MASTER_RETRY_ATTEMPTS :: nat where
  "DRM_SET_MASTER_RETRY_ATTEMPTS = 20"

definition sd_drmsetmaster :: "int \<Rightarrow> manager \<Rightarrow> int \<times> manager" where
  "sd_drmsetmaster fd m =
     sd_drmsetmaster_loop DRM_SET_MASTER_RETRY_ATTEMPTS fd (assert_that (fd \<ge> 0) m)"

definition sd_drmdropmaster :: "int \<Rightarrow> manager \<Rightarrow> int \<times> manager" where
  "sd_drmdropmaster fd m = sys (Sys_ioctl fd ''DRM_IOCTL_DROP_MASTER'') (assert_that (fd \<ge> 0) m)"

text \<open>Opening gives the file descriptor or a negative error.\<close>

definition session_device_open :: "session_device \<Rightarrow> bool \<Rightarrow> manager \<Rightarrow> int \<times> manager" where
  "session_device_open x active m =
     (case sys (Sys_open_device (sd_node x)) (assert_that (sd_type x \<noteq> DEVICE_TYPE_UNKNOWN) m) of
        (fd, m) \<Rightarrow>
        if fd < 0 then (fd, m)
        else (case sd_type x of
                DEVICE_TYPE_DRM \<Rightarrow>
                  if active then
                    (case sd_drmsetmaster fd m of (r, m) \<Rightarrow>
                       if r < 0 then (r, safe_close fd m) else (fd, m))
                  else (fd, snd (sd_drmdropmaster fd m))
              | DEVICE_TYPE_EVDEV \<Rightarrow> (fd, if \<not> active then sd_eviocrevoke fd m else m)
              | DEVICE_TYPE_HIDRAW \<Rightarrow> (fd, if \<not> active then sd_hidiocrevoke fd m else m)
              | DEVICE_TYPE_UNKNOWN \<Rightarrow> (fd, m)))"

definition session_device_start :: "string \<times> devt \<Rightarrow> manager \<Rightarrow> int \<times> manager" where
  "session_device_start sd m =
     (let m = assert_that (session_is_active (fst sd) m) m;
          x = sdv m sd
      in if sd_active x then (0, m)
         else case sd_type x of
                DEVICE_TYPE_DRM \<Rightarrow>
                  if sd_fd x < 0 then (- EBADF, m)
                  else (case sd_drmsetmaster (sd_fd x) m of (r, m) \<Rightarrow>
                          if r < 0 then (r, m) else (0, upd_sd sd (sd_active_update (\<lambda>_. True)) m))
              | DEVICE_TYPE_UNKNOWN \<Rightarrow> (0, upd_sd sd (sd_active_update (\<lambda>_. True)) m)
              | _ \<Rightarrow>
                  (case session_device_open x True m of (r, m) \<Rightarrow>
                     if r < 0 then (r, m)
                     else (0, upd_sd sd (\<lambda>x. x\<lparr>sd_fd := r, sd_active := True\<rparr>) (safe_close (sd_fd x) m))))"

definition session_device_stop :: "string \<times> devt \<Rightarrow> manager \<Rightarrow> manager" where
  "session_device_stop sd m =
     (let x = sdv m sd; inactive = upd_sd sd (sd_active_update (\<lambda>_. False))
      in if \<not> sd_active x then m
         else case sd_type x of
                DEVICE_TYPE_DRM \<Rightarrow>
                  if sd_fd x < 0 then m else inactive (snd (sd_drmdropmaster (sd_fd x) m))
              | DEVICE_TYPE_EVDEV \<Rightarrow> inactive (sd_eviocrevoke (sd_fd x) m)
              | DEVICE_TYPE_HIDRAW \<Rightarrow> inactive (sd_hidiocrevoke (sd_fd x) m)
              | DEVICE_TYPE_UNKNOWN \<Rightarrow> inactive m)"

definition session_device_fd_name :: "string \<times> devt \<Rightarrow> string" where
  "session_device_fd_name sd =
     ''session-'' @ fst sd @ ''-device-'' @ dec (fst (snd sd)) @ ''-'' @ dec (snd (snd sd))"

definition session_device_free :: "string \<times> devt \<Rightarrow> manager \<Rightarrow> manager" where
  "session_device_free sd m =
     (let m = (if sd_pushed_fd (sdv m sd) then emit (Sys_remove_fd (session_device_fd_name sd)) m else m);
          m = session_device_stop sd m;
          m = snd (session_device_notify sd SESSION_DEVICE_RELEASE m);
          m = safe_close (sd_fd (sdv m sd)) m;
          m = upd_dev (sd_device (sdv m sd)) (d_session_devices_update (remove1 sd)) m
      in upd_ses (fst sd) (s_devices_update (remove1 (snd sd))) m)"

definition session_device_save :: "string \<times> devt \<Rightarrow> manager \<Rightarrow> int \<times> manager" where
  "session_device_save sd m =
     (if sd_pushed_fd (sdv m sd) then (0, m)
      else case sys (Sys_push_fd (session_device_fd_name sd) (sd_fd (sdv m sd)))
                  (assert_that (CHR ''-'' \<notin> set (fst sd) \<and> NL \<notin> set (fst sd)) m) of (r, m) \<Rightarrow>
             if r < 0 then (r, m) else (1, upd_sd sd (sd_pushed_fd_update (\<lambda>_. True)) m))"

definition session_device_resume :: "string \<Rightarrow> devt \<Rightarrow> manager \<Rightarrow> manager" where
  "session_device_resume s d m =
     (if sd_active (sdv m (s, d)) then m
      else case session_device_start (s, d) m of (r, m) \<Rightarrow>
        if r < 0 then m
        else case session_device_save (s, d) m of (r, m) \<Rightarrow>
          if r < 0 then m
          else snd (session_device_notify (s, d) SESSION_DEVICE_RESUME m))"

definition session_device_resume_all :: "string \<Rightarrow> manager \<Rightarrow> manager" where
  "session_device_resume_all s m = fold (session_device_resume s) (s_devices (ses m s)) m"

definition session_device_pause :: "string \<Rightarrow> devt \<Rightarrow> manager \<Rightarrow> manager" where
  "session_device_pause s d m =
     (if \<not> sd_active (sdv m (s, d)) then m
      else snd (session_device_notify (s, d) SESSION_DEVICE_PAUSE (session_device_stop (s, d) m)))"

definition session_device_pause_all :: "string \<Rightarrow> manager \<Rightarrow> manager" where
  "session_device_pause_all s m = fold (session_device_pause s) (s_devices (ses m s)) m"

definition session_device_try_pause_all :: "string \<Rightarrow> manager \<Rightarrow> nat \<times> manager" where
  "session_device_try_pause_all s m =
     (let pending = filter (\<lambda>d. sd_active (sdv m (s, d))) (s_devices (ses m s))
      in (length pending,
          fold (\<lambda>d m. snd (session_device_notify (s, d) SESSION_DEVICE_TRY_PAUSE m)) pending m))"

definition session_device_attach_fd :: "string \<times> devt \<Rightarrow> int \<Rightarrow> bool \<Rightarrow> manager \<Rightarrow> manager" where
  "session_device_attach_fd sd fd active m =
     upd_sd sd (\<lambda>x. x\<lparr>sd_fd := fd, sd_pushed_fd := True, sd_active := active\<rparr>)
       (assert_that (fd \<ge> 0 \<and> sd_fd (sdv m sd) < 0 \<and> \<not> sd_active (sdv m sd)) m)"

subsection \<open>What the operations leave alone\<close>

text \<open>Everything but the session devices, the two flags of the revocation helpers and the trace.\<close>

definition same_but_devices :: "manager \<Rightarrow> manager \<Rightarrow> bool" where
  "same_but_devices m m' \<longleftrightarrow>
     m'\<lparr>m_trace := [], m_abort := False, sdv := undefined, m_eviocrevoke_warned := False,
        m_hidiocrevoke_warned := False\<rparr> =
     m\<lparr>m_trace := [], m_abort := False, sdv := undefined, m_eviocrevoke_warned := False,
        m_hidiocrevoke_warned := False\<rparr>"

lemma same_but_devices_refl [simp, intro]: "same_but_devices m m"
  by (simp add: same_but_devices_def)

lemma same_but_devices_trans [trans]:
  "same_but_devices m m' \<Longrightarrow> same_but_devices m' m'' \<Longrightarrow> same_but_devices m m''"
  by (simp add: same_but_devices_def)

interpretation sbd: step_frame same_but_devices
  by unfold_locales (auto intro: same_but_devices_trans)

lemma same_but_devices_fields:
  assumes "same_but_devices m m'"
  shows "ses m' = ses m" "sts m' = sts m" "usr m' = usr m" "dev m' = dev m" "inh m' = inh m"
    "btn m' = btn m" "m_devices m' = m_devices m" "m_seats m' = m_seats m"
    "m_sessions m' = m_sessions m" "m_sessions_by_leader m' = m_sessions_by_leader m"
    "m_users m' = m_users m" "m_inhibitors m' = m_inhibitors m" "m_buttons m' = m_buttons m"
    "m_seat_gc_queue m' = m_seat_gc_queue m" "m_session_gc_queue m' = m_session_gc_queue m"
    "m_user_gc_queue m' = m_user_gc_queue m" "m_console_active_fd m' = m_console_active_fd m"
    "m_do_interrupt m' = m_do_interrupt m" "m_seat0 m' = m_seat0 m"
    "m_kill_only_users m' = m_kill_only_users m"
    "m_kill_exclude_users m' = m_kill_exclude_users m"
    "m_kill_user_processes m' = m_kill_user_processes m"
    "m_delegate_session_cgroups m' = m_delegate_session_cgroups m"
    "m_session_counter m' = m_session_counter m" "m_inhibit_counter m' = m_inhibit_counter m"
    "m_inhibit_delay_max m' = m_inhibit_delay_max m" "m_user_stop_delay m' = m_user_stop_delay m"
    "m_delayed_action m' = m_delayed_action m" "m_action_job m' = m_action_job m"
    "m_inhibit_timeout_source m' = m_inhibit_timeout_source m"
    "m_idle_action_usec m' = m_idle_action_usec m"
    "m_idle_action_not_before_usec m' = m_idle_action_not_before_usec m"
    "m_idle_action m' = m_idle_action m" "m_was_idle m' = m_was_idle m"
    "m_stop_idle_session_usec m' = m_stop_idle_session_usec m"
    "m_handle_action_sleep_mask m' = m_handle_action_sleep_mask m"
    "m_handle_power_key m' = m_handle_power_key m"
    "m_handle_power_key_long_press m' = m_handle_power_key_long_press m"
    "m_handle_reboot_key m' = m_handle_reboot_key m"
    "m_handle_reboot_key_long_press m' = m_handle_reboot_key_long_press m"
    "m_handle_suspend_key m' = m_handle_suspend_key m"
    "m_handle_suspend_key_long_press m' = m_handle_suspend_key_long_press m"
    "m_handle_hibernate_key m' = m_handle_hibernate_key m"
    "m_handle_hibernate_key_long_press m' = m_handle_hibernate_key_long_press m"
    "m_handle_secure_attention_key m' = m_handle_secure_attention_key m"
    "m_handle_lid_switch m' = m_handle_lid_switch m"
    "m_handle_lid_switch_ep m' = m_handle_lid_switch_ep m"
    "m_handle_lid_switch_docked m' = m_handle_lid_switch_docked m"
    "m_power_key_ignore_inhibited m' = m_power_key_ignore_inhibited m"
    "m_suspend_key_ignore_inhibited m' = m_suspend_key_ignore_inhibited m"
    "m_hibernate_key_ignore_inhibited m' = m_hibernate_key_ignore_inhibited m"
    "m_lid_switch_ignore_inhibited m' = m_lid_switch_ignore_inhibited m"
    "m_reboot_key_ignore_inhibited m' = m_reboot_key_ignore_inhibited m"
    "m_remove_ipc m' = m_remove_ipc m" "m_holdoff_timeout_usec m' = m_holdoff_timeout_usec m"
    "m_lid_switch_ignore_event_source m' = m_lid_switch_ignore_event_source m"
    "m_power_key_long_press_event_source m' = m_power_key_long_press_event_source m"
    "m_reboot_key_long_press_event_source m' = m_reboot_key_long_press_event_source m"
    "m_suspend_key_long_press_event_source m' = m_suspend_key_long_press_event_source m"
    "m_hibernate_key_long_press_event_source m' = m_hibernate_key_long_press_event_source m"
    "m_runtime_dir_size m' = m_runtime_dir_size m"
    "m_runtime_dir_inodes m' = m_runtime_dir_inodes m" "m_sessions_max m' = m_sessions_max m"
    "m_inhibitors_max m' = m_inhibitors_max m" "m_env m' = m_env m" "m_console m' = m_console m"
    "m_cgroup_session m' = m_cgroup_session m" "m_ctty m' = m_ctty m" "m_udev m' = m_udev m"
    "m_files m' = m_files m" "m_uninit_ts m' = m_uninit_ts m"
    "m_uninit_unsigned m' = m_uninit_unsigned m" "m_malloc m' = m_malloc m"
    "m_cgroup_inotify_fd m' = m_cgroup_inotify_fd m"
    "m_cgroup_control_inotify_wd_session m' = m_cgroup_control_inotify_wd_session m"
    "m_sleep_fork_action m' = m_sleep_fork_action m" "m_sleep_fork_pid m' = m_sleep_fork_pid m"
    "m_tool_fork_pid m' = m_tool_fork_pid m"
    "m_idle_action_event_source m' = m_idle_action_event_source m" "m_world m' = m_world m"
    "m_brightness_writers m' = m_brightness_writers m" "m_schedule m' = m_schedule m" "m_polkit_registry m' = m_polkit_registry m"
  using assms by (cases m; cases m'; simp add: same_but_devices_def)+

lemma session_is_active_devices:
  "same_but_devices m m' \<Longrightarrow> session_is_active s m' = session_is_active s m"
  by (simp add: session_is_active_def same_but_devices_fields split: option.split)

lemma seat_has_vts_devices: "same_but_devices m m' \<Longrightarrow> seat_has_vts s m' = seat_has_vts s m"
  by (simp add: seat_has_vts_def seat_is_seat0_def same_but_devices_fields)

lemma session_get_state_devices:
  "same_but_devices m m' \<Longrightarrow> session_get_state s m' = session_get_state s m"
  by (simp add: session_get_state_def session_is_active_devices same_but_devices_fields)

lemma seat_users_known_devices:
  "same_but_devices m m' \<Longrightarrow> seat_users_known s m' = seat_users_known s m"
  by (simp add: seat_users_known_def same_but_devices_fields)

lemmas same_but_devices_simps =
  same_but_devices_fields session_is_active_devices seat_has_vts_devices
  session_get_state_devices seat_users_known_devices

lemma same_objects_devices: "same_objects m m' \<Longrightarrow> same_but_devices m m'"
  by (cases m; cases m'; simp add: same_objects_def same_but_devices_def)

lemma sbd_sys: "same_but_devices m m' \<Longrightarrow> same_but_devices m (snd (sys e m'))"
  by (simp add: same_but_devices_def sys_def)

lemma sbd_emit: "same_but_devices m m' \<Longrightarrow> same_but_devices m (emit e m')"
  by (simp add: same_but_devices_def emit_def)

lemma sbd_assert: "same_but_devices m m' \<Longrightarrow> same_but_devices m (assert_that b m')"
  by (simp add: same_but_devices_def assert_that_def)

lemma sbd_upd_sd: "same_but_devices m m' \<Longrightarrow> same_but_devices m (upd_sd sd f m')"
  by (simp add: same_but_devices_def upd_sd_def)

lemma sbd_safe_close: "same_but_devices m m' \<Longrightarrow> same_but_devices m (safe_close fd m')"
  by (simp add: safe_close_def sbd_emit)

lemma sbd_notify: "same_but_devices m m' \<Longrightarrow> same_but_devices m (snd (session_device_notify sd t m'))"
  by (simp add: session_device_notify_def sbd_sys)

lemma sbd_warned:
  "same_but_devices m m' \<Longrightarrow> same_but_devices m (m'\<lparr>m_eviocrevoke_warned := b\<rparr>)"
  "same_but_devices m m' \<Longrightarrow> same_but_devices m (m'\<lparr>m_hidiocrevoke_warned := b\<rparr>)"
  by (simp_all add: same_but_devices_def)

lemmas sbd_basic =
  sbd_sys sbd_emit sbd_assert sbd_upd_sd sbd_safe_close sbd_notify sbd_warned

lemma sbd_revoke:
  "same_but_devices m m' \<Longrightarrow> same_but_devices m (sd_eviocrevoke fd m')"
  "same_but_devices m m' \<Longrightarrow> same_but_devices m (sd_hidiocrevoke fd m')"
  by (simp_all add: sd_eviocrevoke_def sd_hidiocrevoke_def Let_def case_prod_beta sbd_basic)

lemma sbd_drmsetmaster_loop:
  "same_but_devices m m' \<Longrightarrow> same_but_devices m (snd (sd_drmsetmaster_loop n fd m'))"
  by (induction n arbitrary: m') (simp_all add: case_prod_beta sbd_basic)

lemma sbd_drm:
  "same_but_devices m m' \<Longrightarrow> same_but_devices m (snd (sd_drmsetmaster fd m'))"
  "same_but_devices m m' \<Longrightarrow> same_but_devices m (snd (sd_drmdropmaster fd m'))"
  by (simp_all add: sd_drmsetmaster_def sd_drmdropmaster_def sbd_drmsetmaster_loop sbd_basic)

lemma sbd_open:
  "same_but_devices m m' \<Longrightarrow> same_but_devices m (snd (session_device_open x a m'))"
  by (simp add: session_device_open_def case_prod_beta sbd_basic sbd_drm sbd_revoke
      split: DeviceType.split)

lemma sbd_start:
  "same_but_devices m m' \<Longrightarrow> same_but_devices m (snd (session_device_start sd m'))"
  by (simp add: session_device_start_def case_prod_beta Let_def sbd_basic sbd_drm sbd_open
      split: DeviceType.split)

lemma sbd_stop: "same_but_devices m m' \<Longrightarrow> same_but_devices m (session_device_stop sd m')"
  by (simp add: session_device_stop_def Let_def sbd_basic sbd_drm sbd_revoke
      split: DeviceType.split)

lemma sbd_save: "same_but_devices m m' \<Longrightarrow> same_but_devices m (snd (session_device_save sd m'))"
  by (simp add: session_device_save_def case_prod_beta sbd_basic)

lemma sbd_resume: "same_but_devices m m' \<Longrightarrow> same_but_devices m (session_device_resume s d m')"
  by (simp add: session_device_resume_def case_prod_beta sbd_basic sbd_start sbd_save)

lemma sbd_pause: "same_but_devices m m' \<Longrightarrow> same_but_devices m (session_device_pause s d m')"
  by (simp add: session_device_pause_def sbd_basic sbd_stop)

lemma sbd_fold:
  "(\<And>d m'. same_but_devices m m' \<Longrightarrow> same_but_devices m (f d m')) \<Longrightarrow>
   same_but_devices m m' \<Longrightarrow> same_but_devices m (fold f ds m')"
  by (induction ds arbitrary: m') simp_all

lemma resume_all_sbd: "same_but_devices m (session_device_resume_all s m)"
  by (simp add: session_device_resume_all_def sbd_fold sbd_resume)

lemma pause_all_sbd: "same_but_devices m (session_device_pause_all s m)"
  by (simp add: session_device_pause_all_def sbd_fold sbd_pause)

lemma try_pause_all_sbd: "same_but_devices m (snd (session_device_try_pause_all s m))"
  by (simp add: session_device_try_pause_all_def Let_def sbd_fold sbd_notify)

lemma stop_sbd: "same_but_devices m (session_device_stop sd m)"
  by (simp add: sbd_stop)

lemmas resume_all_frame [simp] = same_but_devices_simps [OF resume_all_sbd]
lemmas pause_all_frame [simp] = same_but_devices_simps [OF pause_all_sbd]
lemmas try_pause_all_frame [simp] = same_but_devices_simps [OF try_pause_all_sbd]
lemmas session_device_stop_frame [simp] = same_but_devices_simps [OF stop_sbd]

subsection \<open>DRM master\<close>

text \<open>The retry loop ends after at most 21 attempts, and reports the device as busy only when every
  attempt found it busy.\<close>

lemma drmsetmaster_loop_attempts:
  "length (filter (\<lambda>e. e = Sys_ioctl fd ''DRM_IOCTL_SET_MASTER'')
     (m_trace (snd (sd_drmsetmaster_loop n fd m)))) \<le>
   Suc n + length (filter (\<lambda>e. e = Sys_ioctl fd ''DRM_IOCTL_SET_MASTER'') (m_trace m))"
proof (induction n arbitrary: m)
  case 0
  show ?case by (simp add: sys_def)
next
  case (Suc n)
  show ?case
    using Suc.IH [of "emit Sys_usleep (snd (sys (Sys_ioctl fd ''DRM_IOCTL_SET_MASTER'') m))"]
    by (simp add: sys_def emit_def)
qed

subsection \<open>Pausing and resuming\<close>

lemma sdv_simps [simp]:
  "sdv (upd_sd sd f m) = (sdv m)(sd := f (sdv m sd))"
  "sdv (safe_close fd m) = sdv m"
  "sdv (snd (session_device_notify sd t m)) = sdv m"
  "sdv (sd_eviocrevoke fd m) = sdv m"
  "sdv (sd_hidiocrevoke fd m) = sdv m"
  "sdv (assert_that b m) = sdv m"
  by (simp_all add: upd_sd_def safe_close_def session_device_notify_def sd_eviocrevoke_def
      sd_hidiocrevoke_def assert_that_def Let_def case_prod_beta)

lemma sdv_drm [simp]:
  "sdv (snd (sd_drmsetmaster_loop n fd m)) = sdv m"
  "sdv (snd (sd_drmsetmaster fd m)) = sdv m"
  "sdv (snd (sd_drmdropmaster fd m)) = sdv m"
proof -
  show loop: "sdv (snd (sd_drmsetmaster_loop n fd m)) = sdv m" for n m
    by (induction n arbitrary: m) (simp_all add: case_prod_beta)
  show "sdv (snd (sd_drmsetmaster fd m)) = sdv m" "sdv (snd (sd_drmdropmaster fd m)) = sdv m"
    by (simp_all add: sd_drmsetmaster_def sd_drmdropmaster_def loop)
qed

lemma sdv_open [simp]: "sdv (snd (session_device_open x a m)) = sdv m"
  by (simp add: session_device_open_def case_prod_beta split: DeviceType.split)

text \<open>A device whose file descriptor is lost cannot be deactivated.\<close>

definition sd_lost :: "session_device \<Rightarrow> bool" where
  "sd_lost x \<longleftrightarrow> sd_type x = DEVICE_TYPE_DRM \<and> sd_fd x < 0"

lemma sdv_stop:
  "sdv (session_device_stop sd m) =
     (if sd_lost (sdv m sd) then sdv m
      else (sdv m)(sd := (sdv m sd)\<lparr>sd_active := False\<rparr>))"
  by (auto simp: session_device_stop_def Let_def sd_lost_def split: DeviceType.split)

lemma sdv_pause:
  "sdv (session_device_pause s d m) =
     (if sd_lost (sdv m (s, d)) then sdv m
      else (sdv m)((s, d) := (sdv m (s, d))\<lparr>sd_active := False\<rparr>))"
  by (auto simp: session_device_pause_def sdv_stop)

lemma sdv_fold_pause:
  "sdv (fold (session_device_pause s) ds m) (s', d) =
     (if s' = s \<and> d \<in> set ds \<and> \<not> sd_lost (sdv m (s', d))
      then (sdv m (s', d))\<lparr>sd_active := False\<rparr> else sdv m (s', d))"
proof (induction ds arbitrary: m)
  case (Cons d ds)
  have "sd_lost (x\<lparr>sd_active := b\<rparr>) = sd_lost x" for x b
    by (simp add: sd_lost_def)
  then show ?case
    by (auto simp: Cons.IH sdv_pause)
qed simp

text \<open>Pausing a session deactivates exactly its own devices.\<close>

lemma sdv_pause_all:
  "sdv (session_device_pause_all s m) (s', d) =
     (if s' = s \<and> d \<in> set (s_devices (ses m s)) \<and> \<not> sd_lost (sdv m (s', d))
      then (sdv m (s', d))\<lparr>sd_active := False\<rparr> else sdv m (s', d))"
  by (simp add: session_device_pause_all_def sdv_fold_pause)

lemma sdv_resume_other: "sd \<noteq> (s, d) \<Longrightarrow> sdv (session_device_resume s d m) sd = sdv m sd"
  by (simp add: session_device_resume_def session_device_start_def session_device_save_def
      Let_def case_prod_beta split: DeviceType.split)

lemma sdv_fold_resume_other:
  "s' \<noteq> s \<or> d \<notin> set ds \<Longrightarrow> sdv (fold (session_device_resume s) ds m) (s', d) = sdv m (s', d)"
  by (induction ds arbitrary: m) (auto simp: sdv_resume_other)

lemma sdv_resume_all_other:
  "s' \<noteq> s \<or> d \<notin> set (s_devices (ses m s)) \<Longrightarrow>
   sdv (session_device_resume_all s m) (s', d) = sdv m (s', d)"
  by (simp add: session_device_resume_all_def sdv_fold_resume_other)

subsection \<open>Operations that keep the tables\<close>

text \<open>The hash tables, the configuration and the environment are the same; the objects, the queues and
  the trace may differ. Which objects an operation changes is said by equations for each heap.\<close>

definition no_objects :: "manager \<Rightarrow> manager" where
  "no_objects m = m\<lparr>ses := undefined, sts := undefined, usr := undefined, dev := undefined,
     sdv := undefined, inh := undefined, btn := undefined, m_seat_gc_queue := [],
     m_session_gc_queue := [], m_user_gc_queue := [], m_eviocrevoke_warned := False,
     m_hidiocrevoke_warned := False, m_trace := [], m_abort := False\<rparr>"

definition same_tables :: "manager \<Rightarrow> manager \<Rightarrow> bool" where
  "same_tables m m' \<longleftrightarrow> no_objects m' = no_objects m"

lemma same_tables_refl [simp, intro]: "same_tables m m"
  by (simp add: same_tables_def)

lemma same_tables_trans [trans]: "same_tables m m' \<Longrightarrow> same_tables m' m'' \<Longrightarrow> same_tables m m''"
  by (simp add: same_tables_def)

lemma same_but_devices_tables: "same_but_devices m m' \<Longrightarrow> same_tables m m'"
  by (cases m; cases m'; simp add: same_but_devices_def same_tables_def no_objects_def)

lemma same_objects_tables: "same_objects m m' \<Longrightarrow> same_tables m m'"
  by (rule same_but_devices_tables) (rule same_objects_devices)

lemma same_tables_fields:
  assumes "same_tables m m'"
  shows "m_devices m' = m_devices m" "m_seats m' = m_seats m" "m_sessions m' = m_sessions m"
    "m_sessions_by_leader m' = m_sessions_by_leader m" "m_users m' = m_users m"
    "m_inhibitors m' = m_inhibitors m" "m_buttons m' = m_buttons m"
    "m_console_active_fd m' = m_console_active_fd m" "m_do_interrupt m' = m_do_interrupt m"
    "m_seat0 m' = m_seat0 m" "m_kill_only_users m' = m_kill_only_users m"
    "m_kill_exclude_users m' = m_kill_exclude_users m"
    "m_kill_user_processes m' = m_kill_user_processes m"
    "m_delegate_session_cgroups m' = m_delegate_session_cgroups m"
    "m_session_counter m' = m_session_counter m" "m_inhibit_counter m' = m_inhibit_counter m"
    "m_inhibit_delay_max m' = m_inhibit_delay_max m" "m_user_stop_delay m' = m_user_stop_delay m"
    "m_delayed_action m' = m_delayed_action m" "m_action_job m' = m_action_job m"
    "m_inhibit_timeout_source m' = m_inhibit_timeout_source m"
    "m_idle_action_usec m' = m_idle_action_usec m"
    "m_idle_action_not_before_usec m' = m_idle_action_not_before_usec m"
    "m_idle_action m' = m_idle_action m" "m_was_idle m' = m_was_idle m"
    "m_stop_idle_session_usec m' = m_stop_idle_session_usec m"
    "m_handle_action_sleep_mask m' = m_handle_action_sleep_mask m"
    "m_handle_power_key m' = m_handle_power_key m"
    "m_handle_power_key_long_press m' = m_handle_power_key_long_press m"
    "m_handle_reboot_key m' = m_handle_reboot_key m"
    "m_handle_reboot_key_long_press m' = m_handle_reboot_key_long_press m"
    "m_handle_suspend_key m' = m_handle_suspend_key m"
    "m_handle_suspend_key_long_press m' = m_handle_suspend_key_long_press m"
    "m_handle_hibernate_key m' = m_handle_hibernate_key m"
    "m_handle_hibernate_key_long_press m' = m_handle_hibernate_key_long_press m"
    "m_handle_secure_attention_key m' = m_handle_secure_attention_key m"
    "m_handle_lid_switch m' = m_handle_lid_switch m"
    "m_handle_lid_switch_ep m' = m_handle_lid_switch_ep m"
    "m_handle_lid_switch_docked m' = m_handle_lid_switch_docked m"
    "m_power_key_ignore_inhibited m' = m_power_key_ignore_inhibited m"
    "m_suspend_key_ignore_inhibited m' = m_suspend_key_ignore_inhibited m"
    "m_hibernate_key_ignore_inhibited m' = m_hibernate_key_ignore_inhibited m"
    "m_lid_switch_ignore_inhibited m' = m_lid_switch_ignore_inhibited m"
    "m_reboot_key_ignore_inhibited m' = m_reboot_key_ignore_inhibited m"
    "m_remove_ipc m' = m_remove_ipc m" "m_holdoff_timeout_usec m' = m_holdoff_timeout_usec m"
    "m_lid_switch_ignore_event_source m' = m_lid_switch_ignore_event_source m"
    "m_power_key_long_press_event_source m' = m_power_key_long_press_event_source m"
    "m_reboot_key_long_press_event_source m' = m_reboot_key_long_press_event_source m"
    "m_suspend_key_long_press_event_source m' = m_suspend_key_long_press_event_source m"
    "m_hibernate_key_long_press_event_source m' = m_hibernate_key_long_press_event_source m"
    "m_runtime_dir_size m' = m_runtime_dir_size m"
    "m_runtime_dir_inodes m' = m_runtime_dir_inodes m" "m_sessions_max m' = m_sessions_max m"
    "m_inhibitors_max m' = m_inhibitors_max m" "m_env m' = m_env m" "m_console m' = m_console m"
    "m_cgroup_session m' = m_cgroup_session m" "m_ctty m' = m_ctty m" "m_udev m' = m_udev m"
    "m_files m' = m_files m" "m_uninit_ts m' = m_uninit_ts m"
    "m_uninit_unsigned m' = m_uninit_unsigned m" "m_malloc m' = m_malloc m"
    "m_cgroup_inotify_fd m' = m_cgroup_inotify_fd m"
    "m_cgroup_control_inotify_wd_session m' = m_cgroup_control_inotify_wd_session m"
    "m_sleep_fork_action m' = m_sleep_fork_action m" "m_sleep_fork_pid m' = m_sleep_fork_pid m"
    "m_tool_fork_pid m' = m_tool_fork_pid m"
    "m_idle_action_event_source m' = m_idle_action_event_source m" "m_world m' = m_world m"
    "m_brightness_writers m' = m_brightness_writers m" "m_schedule m' = m_schedule m" "m_polkit_registry m' = m_polkit_registry m"
  using assms by (cases m; cases m'; simp add: same_tables_def no_objects_def)+

lemma seat_has_vts_tables: "same_tables m m' \<Longrightarrow> seat_has_vts s m' = seat_has_vts s m"
  by (simp add: seat_has_vts_def seat_is_seat0_def same_tables_fields)

lemma seat_is_seat0_tables: "same_tables m m' \<Longrightarrow> seat_is_seat0 s m' = seat_is_seat0 s m"
  by (simp add: seat_is_seat0_def same_tables_fields)

lemmas same_tables_simps = same_tables_fields seat_has_vts_tables seat_is_seat0_tables

lemma tables_upd [intro]:
  "same_tables m m' \<Longrightarrow> same_tables m (upd_ses s f1 m')"
  "same_tables m m' \<Longrightarrow> same_tables m (upd_seat st f2 m')"
  "same_tables m m' \<Longrightarrow> same_tables m (upd_user u f3 m')"
  "same_tables m m' \<Longrightarrow> same_tables m (upd_dev d f4 m')"
  "same_tables m m' \<Longrightarrow> same_tables m (upd_sd sd f5 m')"
  "same_tables m m' \<Longrightarrow> same_tables m (upd_inh i f6 m')"
  "same_tables m m' \<Longrightarrow> same_tables m (upd_btn b f7 m')"
  by (simp_all add: same_tables_def no_objects_def upd_defs)

lemma tables_queues [intro]:
  "same_tables m m' \<Longrightarrow> same_tables m (m'\<lparr>m_seat_gc_queue := q1\<rparr>)"
  "same_tables m m' \<Longrightarrow> same_tables m (m'\<lparr>m_session_gc_queue := q2\<rparr>)"
  "same_tables m m' \<Longrightarrow> same_tables m (m'\<lparr>m_user_gc_queue := q3\<rparr>)"
  by (simp_all add: same_tables_def no_objects_def)

lemmas same_tables_step =
  same_tables_trans [OF _ same_objects_tables] same_tables_trans [OF _ same_but_devices_tables]

lemmas tables_basic [intro] =
  same_tables_step(1) [OF _ sys_same] same_tables_step(1) [OF _ emit_same]
  same_tables_step(1) [OF _ assert_that_same [OF same_objects_refl]]
  same_tables_step(1) [OF _ session_send_changed_same]
  same_tables_step(1) [OF _ seat_send_changed_same] same_tables_step(1) [OF _ user_send_changed_same]
  same_tables_step(1) [OF _ seat_save_same] same_tables_step(1) [OF _ session_save_same]
  same_tables_step(1) [OF _ user_save_same] same_tables_step(1) [OF _ user_save_internal_same]
  same_tables_step(2) [OF _ resume_all_sbd] same_tables_step(2) [OF _ pause_all_sbd]
  same_tables_step(2) [OF _ try_pause_all_sbd] same_tables_step(2) [OF _ stop_sbd]
  same_tables_step(2) [OF _ sbd_safe_close [OF same_but_devices_refl]]
  same_tables_step(2) [OF _ sbd_notify [OF same_but_devices_refl]]

text \<open>The objects after an update.\<close>

lemma upd_simps:
  "ses (upd_ses s f1 m) = (ses m)(s := f1 (ses m s))"
  "sts (upd_seat st f2 m) = (sts m)(st := f2 (sts m st))"
  "usr (upd_user u f3 m) = (usr m)(u := f3 (usr m u))"
  "dev (upd_dev d f4 m) = (dev m)(d := f4 (dev m d))"
  "inh (upd_inh i f6 m) = (inh m)(i := f6 (inh m i))"
  "btn (upd_btn b f7 m) = (btn m)(b := f7 (btn m b))"
  by (simp_all add: upd_defs)

lemma upd_other [simp]:
  "sts (upd_ses s f1 m) = sts m" "usr (upd_ses s f1 m) = usr m" "dev (upd_ses s f1 m) = dev m"
  "sdv (upd_ses s f1 m) = sdv m" "inh (upd_ses s f1 m) = inh m" "btn (upd_ses s f1 m) = btn m"
  "ses (upd_seat st f2 m) = ses m" "usr (upd_seat st f2 m) = usr m" "dev (upd_seat st f2 m) = dev m"
  "sdv (upd_seat st f2 m) = sdv m" "inh (upd_seat st f2 m) = inh m" "btn (upd_seat st f2 m) = btn m"
  "ses (upd_user u f3 m) = ses m" "sts (upd_user u f3 m) = sts m" "dev (upd_user u f3 m) = dev m"
  "sdv (upd_user u f3 m) = sdv m" "inh (upd_user u f3 m) = inh m" "btn (upd_user u f3 m) = btn m"
  "ses (upd_dev d f4 m) = ses m" "sts (upd_dev d f4 m) = sts m" "usr (upd_dev d f4 m) = usr m"
  "sdv (upd_dev d f4 m) = sdv m" "inh (upd_dev d f4 m) = inh m" "btn (upd_dev d f4 m) = btn m"
  "ses (upd_sd sd f5 m) = ses m" "sts (upd_sd sd f5 m) = sts m" "usr (upd_sd sd f5 m) = usr m"
  "dev (upd_sd sd f5 m) = dev m" "inh (upd_sd sd f5 m) = inh m" "btn (upd_sd sd f5 m) = btn m"
  by (simp_all add: upd_defs)

lemma upd_queues [simp]:
  "m_seat_gc_queue (upd_ses s f1 m) = m_seat_gc_queue m"
  "m_session_gc_queue (upd_ses s f1 m) = m_session_gc_queue m"
  "m_user_gc_queue (upd_ses s f1 m) = m_user_gc_queue m"
  "m_seat_gc_queue (upd_seat st f2 m) = m_seat_gc_queue m"
  "m_session_gc_queue (upd_seat st f2 m) = m_session_gc_queue m"
  "m_user_gc_queue (upd_seat st f2 m) = m_user_gc_queue m"
  "m_seat_gc_queue (upd_user u f3 m) = m_seat_gc_queue m"
  "m_session_gc_queue (upd_user u f3 m) = m_session_gc_queue m"
  "m_user_gc_queue (upd_user u f3 m) = m_user_gc_queue m"
  "m_seat_gc_queue (upd_dev d f4 m) = m_seat_gc_queue m"
  "m_session_gc_queue (upd_dev d f4 m) = m_session_gc_queue m"
  "m_user_gc_queue (upd_dev d f4 m) = m_user_gc_queue m"
  by (simp_all add: upd_defs)

lemma upd_abort [simp]:
  "m_abort (upd_ses s f1 m) = m_abort m" "m_abort (upd_seat st f2 m) = m_abort m"
  "m_abort (upd_user u f3 m) = m_abort m" "m_abort (upd_dev d f4 m) = m_abort m"
  "m_abort (upd_sd sd f5 m) = m_abort m" "m_abort (upd_inh i f6 m) = m_abort m"
  "m_abort (upd_btn b f7 m) = m_abort m"
  by (simp_all add: upd_defs)

lemmas upd_tables [simp] =
  same_tables_simps [OF tables_upd(1) [OF same_tables_refl]]
  same_tables_simps [OF tables_upd(2) [OF same_tables_refl]]
  same_tables_simps [OF tables_upd(3) [OF same_tables_refl]]
  same_tables_simps [OF tables_upd(4) [OF same_tables_refl]]
  same_tables_simps [OF tables_upd(5) [OF same_tables_refl]]

lemmas assert_that_frame [simp] = same_objects_simps [OF assert_that_same [OF same_objects_refl]]

end
