(* ===== verification/Seat.thy ===== *)
theory Seat
  imports Session_Device
begin

text \<open>
  \<^verbatim>\<open>logind-seat.c\<close>: seats, the sessions attached to them, which of them is in the foreground,
  and the positions (F1 to F12) at which sessions can be reached. Stopping and freeing a seat,
  which stop and free its sessions, are in theory \<open>Lifecycle\<close>.
\<close>

subsection \<open>Operations\<close>

definition new_seat :: seat where
  "new_seat = \<lparr>st_active = None, st_pending_switch = None, st_positions = [], st_sessions = [],
     st_devices = [], st_started = False, st_in_gc_queue = False\<rparr>"

text \<open>A new seat is entered into the table. When the name is taken, the object is freed again, and
  \<^verbatim>\<open>seat_free\<close> removes the entry of that name, which is the other seat's.\<close>

definition seat_new :: "string \<Rightarrow> manager \<Rightarrow> int \<times> manager" where
  "seat_new name m =
     (if \<not> seat_name_is_valid name then (- EINVAL, m)
      else if name \<in> set (m_seats m) then (- EEXIST, m\<lparr>m_seats := remove1 name (m_seats m)\<rparr>)
      else (0, (upd_seat name (\<lambda>_. new_seat) m)\<lparr>m_seats := name # m_seats m\<rparr>))"

definition seat_apply_acls :: "string \<Rightarrow> string option \<Rightarrow> manager \<Rightarrow> int \<times> manager" where
  "seat_apply_acls st old_active m =
     (let uid_of = (\<lambda>x. case x of None \<Rightarrow> None | Some s \<Rightarrow> s_user (ses m s));
          known = (\<lambda>x. case x of None \<Rightarrow> True | Some s \<Rightarrow> s_user (ses m s) \<noteq> None);
          (r, m') = sys (Sys_devnode_acl_all st (uid_of old_active) (uid_of (st_active (sts m st))))
                      (assert_that (known old_active \<and> known (st_active (sts m st))) m)
      in if r < 0 then (r, m') else (0, m'))"

text \<open>Saving the user of a session, which has to have one.\<close>

definition session_user_save :: "string \<Rightarrow> manager \<Rightarrow> manager" where
  "session_user_save s m =
     (case s_user (ses m s) of
        None \<Rightarrow> assert_that False m
      | Some u \<Rightarrow> snd (user_save u m))"

definition seat_set_active :: "string \<Rightarrow> string option \<Rightarrow> manager \<Rightarrow> manager" where
  "seat_set_active st session m =
     (let m = assert_that (case session of None \<Rightarrow> True | Some x \<Rightarrow> s_seat (ses m x) = Some st) m
      in if session = st_active (sts m st) then
           (case session of None \<Rightarrow> m | Some x \<Rightarrow> session_device_resume_all x m)
         else
         let old_active = st_active (sts m st);
             m = upd_seat st (st_active_update (\<lambda>_. session)) m;
             m = (case old_active of
                    None \<Rightarrow> m
                  | Some old \<Rightarrow> session_send_changed old [''Active''] (session_device_pause_all old m));
             m = snd (seat_apply_acls st old_active m);
             m = (case session of
                    None \<Rightarrow> m
                  | Some x \<Rightarrow>
                      if s_started (ses m x)
                      then session_device_resume_all x (session_send_changed x [''Active''] m)
                      else m);
             m = (if (case session of None \<Rightarrow> True | Some x \<Rightarrow> s_started (ses m x))
                  then seat_send_changed st [''ActiveSession''] m else m);
             m = snd (seat_save st m);
             m = (case session of
                    None \<Rightarrow> m
                  | Some x \<Rightarrow> session_user_save x (snd (session_save x m)))
         in case old_active of
              None \<Rightarrow> m
            | Some old \<Rightarrow>
                let m = snd (session_save old m)
                in if (case session of None \<Rightarrow> True | Some x \<Rightarrow> s_user (ses m x) \<noteq> s_user (ses m old))
                   then session_user_save old m else m)"

text \<open>Positions; a slot beyond the array is empty.\<close>

definition seat_get_position :: "string \<Rightarrow> nat \<Rightarrow> manager \<Rightarrow> string option" where
  "seat_get_position st pos m =
     (if pos \<ge> length (st_positions (sts m st)) then None else st_positions (sts m st) ! pos)"

text \<open>\<^verbatim>\<open>GREEDY_REALLOC0\<close> for \<open>need\<close> slots: kept when there are enough, else grown to what the
  allocator provides, the new slots empty.\<close>

definition greedy_realloc0 :: "nat \<Rightarrow> string option list \<Rightarrow> manager \<Rightarrow> string option list" where
  "greedy_realloc0 need xs m =
     (if xs \<noteq> [] \<and> need \<le> length xs then xs
      else xs @ replicate (m_malloc m need - length xs) None)"

definition seat_evict_position :: "string \<Rightarrow> string \<Rightarrow> manager \<Rightarrow> manager" where
  "seat_evict_position st session m =
     (let pos = s_position (ses m session);
          m = upd_ses session (s_position_update (\<lambda>_. 0)) m
      in if pos = 0 then m
         else if pos < length (st_positions (sts m st)) \<and> st_positions (sts m st) ! pos = Some session
         then
           (let heir = find (\<lambda>i. s_position (ses m i) = pos \<and> session_get_state i m \<noteq> SESSION_CLOSING)
                         (st_sessions (sts m st))
            in upd_seat st (st_positions_update (\<lambda>ps. ps[pos := heir])) m)
         else m)"

text \<open>Claiming a position; \<open>pos\<close> is an \<^verbatim>\<open>unsigned\<close>, so \<open>pos + 1\<close> wraps at 32 bits.\<close>

definition seat_claim_position :: "string \<Rightarrow> string \<Rightarrow> nat \<Rightarrow> manager \<Rightarrow> manager" where
  "seat_claim_position st session pos m =
     (let pos = (if seat_has_vts st m then s_vtnr (ses m session) else pos);
          m = upd_seat st (st_positions_update (\<lambda>ps. greedy_realloc0 ((pos + 1) mod 2 ^ 32) ps m)) m;
          m = seat_evict_position st session m;
          m = upd_ses session (s_position_update (\<lambda>_. pos)) m
      in if pos > 0 then
           upd_seat st (st_positions_update (\<lambda>ps. ps[pos := Some session]))
             (assert_that (pos < length (st_positions (sts m st))) m)
         else m)"

text \<open>The first free slot from 1 on, or one past the array (at least 1).\<close>

definition first_free_position :: "string option list \<Rightarrow> nat" where
  "first_free_position ps =
     (case find (\<lambda>i. ps ! i = None) [1..<length ps] of
        Some i \<Rightarrow> i
      | None \<Rightarrow> max 1 (length ps))"

definition seat_assign_position :: "string \<Rightarrow> string \<Rightarrow> manager \<Rightarrow> manager" where
  "seat_assign_position st session m =
     (if s_position (ses m session) > 0 then m
      else seat_claim_position st session (first_free_position (st_positions (sts m st))) m)"

definition seat_attach_session :: "string \<Rightarrow> string \<Rightarrow> manager \<Rightarrow> int \<times> manager" where
  "seat_attach_session st session m =
     (let m = assert_that (s_seat (ses m session) = None) m
      in if (\<not> seat_has_vts st m) \<noteq> (s_vtnr (ses m session) = 0) then (- EINVAL, m)
         else
         let m = upd_ses session (s_seat_update (\<lambda>_. Some st)) m;
             m = upd_seat st (st_sessions_update (\<lambda>l. session # l)) m;
             m = seat_assign_position st session m
         in (0, if \<not> seat_has_vts st m then seat_set_active st (Some session) m else m))"

definition seat_complete_switch :: "string \<Rightarrow> manager \<Rightarrow> manager" where
  "seat_complete_switch st m =
     (case st_pending_switch (sts m st) of
        None \<Rightarrow> m
      | Some x \<Rightarrow>
          seat_set_active st (Some x) (upd_seat st (st_pending_switch_update (\<lambda>_. None)) m))"

definition session_device_complete_pause :: "string \<times> devt \<Rightarrow> manager \<Rightarrow> manager" where
  "session_device_complete_pause sd m =
     (if \<not> sd_active (sdv m sd) then m
      else
      let m = session_device_stop sd m
      in if \<exists>d \<in> set (s_devices (ses m (fst sd))). sd_active (sdv m (fst sd, d)) then m
         else case s_seat (ses m (fst sd)) of
                None \<Rightarrow> assert_that False m
              | Some st \<Rightarrow> seat_complete_switch st m)"

definition session_activate :: "string \<Rightarrow> manager \<Rightarrow> int \<times> manager" where
  "session_activate s m =
     (let m = assert_that (s_user (ses m s) \<noteq> None) m
      in case s_seat (ses m s) of
           None \<Rightarrow> (- EOPNOTSUPP, m)
         | Some st \<Rightarrow>
             if st_active (sts m st) = Some s then (0, m)
             else if seat_has_vts st m then
               (if s_vtnr (ses m s) = 0 then (- EOPNOTSUPP, m) else sys (Sys_chvt (s_vtnr (ses m s))) m)
             else
             let m = upd_seat st (st_pending_switch_update (\<lambda>_. Some s)) m;
                 (num_pending, m) = session_device_try_pause_all s m
             in (0, if num_pending = 0 then seat_complete_switch st m else m))"

definition seat_switch_to :: "string \<Rightarrow> nat \<Rightarrow> manager \<Rightarrow> int \<times> manager" where
  "seat_switch_to st num m =
     (if num = 0 then (- EINVAL, m)
      else case seat_get_position st num m of
             None \<Rightarrow> if seat_has_vts st m \<and> num < 64 then sys (Sys_chvt num) m else (- EINVAL, m)
           | Some x \<Rightarrow> session_activate x m)"

text \<open>The position of the active session, from which switching starts.\<close>

definition seat_start_position :: "string \<Rightarrow> manager \<Rightarrow> nat" where
  "seat_start_position st m =
     (case st_active (sts m st) of
        None \<Rightarrow> 1
      | Some a \<Rightarrow> if s_position (ses m a) > 0 then s_position (ses m a) else 1)"

text \<open>The loops look at the positions in this order and activate the first session they find.\<close>

definition seat_activate_first :: "string \<Rightarrow> nat list \<Rightarrow> manager \<Rightarrow> int \<times> manager" where
  "seat_activate_first st order m =
     (case find (\<lambda>i. seat_get_position st i m \<noteq> None) order of
        None \<Rightarrow> (- EINVAL, m)
      | Some i \<Rightarrow> session_activate (the (seat_get_position st i m)) m)"

definition seat_switch_to_next :: "string \<Rightarrow> manager \<Rightarrow> int \<times> manager" where
  "seat_switch_to_next st m =
     (let n = length (st_positions (sts m st)); start = seat_start_position st m
      in if n = 0 then (- EINVAL, m)
         else seat_activate_first st ([start + 1..<n] @ [1..<start]) m)"

definition seat_switch_to_previous :: "string \<Rightarrow> manager \<Rightarrow> int \<times> manager" where
  "seat_switch_to_previous st m =
     (let n = length (st_positions (sts m st)); start = seat_start_position st m
      in if n = 0 then (- EINVAL, m)
         else seat_activate_first st (rev [1..<start] @ rev [start + 1..<n]) m)"

definition seat_active_vt_changed :: "string \<Rightarrow> nat \<Rightarrow> manager \<Rightarrow> int \<times> manager" where
  "seat_active_vt_changed st vtnr m =
     (let m = assert_that (vtnr \<ge> 1) m
      in if \<not> seat_has_vts st m then (- EINVAL, m)
         else
         let l = st_sessions (sts m st);
             new_active =
               (case find (\<lambda>i. s_vtnr (ses m i) = vtnr \<and> \<not> s_stopping (ses m i)) l of
                  Some i \<Rightarrow> Some i
                | None \<Rightarrow> find (\<lambda>i. s_vtnr (ses m i) = vtnr) l)
         in (0, seat_set_active st new_active m))"

text \<open>\<open>m_console\<close> is what reading \<^verbatim>\<open>/sys/class/tty/tty0/active\<close> gives: a negative error, or the
  bytes read (an empty read is an error too).\<close>

definition seat_read_active_vt :: "string \<Rightarrow> manager \<Rightarrow> int \<times> manager" where
  "seat_read_active_vt st m =
     (if \<not> seat_has_vts st m then (0, m)
      else case m_console m (m_trace m) of
             Inl e \<Rightarrow> (if e < 0 then e else - EIO, m)
           | Inr t \<Rightarrow>
               if t = [] then (- EIO, m)
               else case vtnr_from_tty (truncate_nl t) of
                      Inl _ \<Rightarrow> (- EIO, m)
                    | Inr vtnr \<Rightarrow> seat_active_vt_changed st vtnr m)"

definition seat_start :: "string \<Rightarrow> manager \<Rightarrow> int \<times> manager" where
  "seat_start st m =
     (if st_started (sts m st) then (0, m)
      else
      let m = snd (seat_read_active_vt st m);
          m = upd_seat st (st_started_update (\<lambda>_. True)) m;
          m = snd (seat_save st m)
      in (0, seat_send_signal st True m))"

definition seat_add_to_gc_queue :: "string \<Rightarrow> manager \<Rightarrow> manager" where
  "seat_add_to_gc_queue st m =
     (if st_in_gc_queue (sts m st) then m
      else upd_seat st (st_in_gc_queue_update (\<lambda>_. True))
             (m\<lparr>m_seat_gc_queue := st # m_seat_gc_queue m\<rparr>))"

end
