(* ===== verification/Login_Inv.thy ===== *)
theory Login_Inv
  imports Seat
begin

text \<open>
  The invariant of the object graph: every pointer leads to an object that is alive, every link
  has its counterpart (a session is in the list of its seat and of its user, a session device in
  the table of its session and in the list of its device), what is in a position slot stands at
  that position, and what is in a garbage-collection queue is alive and flagged. The invariant is
  what makes the heaps with stable keys a faithful picture of the C pointers: no operation
  follows a dangling one.
\<close>

definition inv_seats :: "manager \<Rightarrow> bool" where
  "inv_seats m \<longleftrightarrow> distinct (m_seats m) \<and>
     (\<forall>st \<in> set (m_seats m). distinct (st_sessions (sts m st)) \<and>
        (\<forall>s \<in> set (st_sessions (sts m st)).
           s \<in> set (m_sessions m) \<and> s_seat (ses m s) = Some st \<and> s_user (ses m s) \<noteq> None) \<and>
        (\<forall>a. st_active (sts m st) = Some a \<longrightarrow> a \<in> set (st_sessions (sts m st))) \<and>
        (\<forall>a. st_pending_switch (sts m st) = Some a \<longrightarrow> a \<in> set (st_sessions (sts m st))))"

definition inv_positions :: "manager \<Rightarrow> bool" where
  "inv_positions m \<longleftrightarrow>
     (\<forall>st \<in> set (m_seats m). \<forall>p < length (st_positions (sts m st)). \<forall>s.
        st_positions (sts m st) ! p = Some s \<longrightarrow>
        0 < p \<and> s \<in> set (st_sessions (sts m st)) \<and> s_position (ses m s) = p)"

definition inv_sessions :: "manager \<Rightarrow> bool" where
  "inv_sessions m \<longleftrightarrow> distinct (m_sessions m) \<and>
     (\<forall>s \<in> set (m_sessions m). session_id_valid s \<and>
        (\<forall>st. s_seat (ses m s) = Some st \<longrightarrow>
           st \<in> set (m_seats m) \<and> s \<in> set (st_sessions (sts m st))) \<and>
        (\<forall>u. s_user (ses m s) = Some u \<longrightarrow>
           u \<in> set (m_users m) \<and> s \<in> set (u_sessions (usr m u))))"

definition inv_users :: "manager \<Rightarrow> bool" where
  "inv_users m \<longleftrightarrow> distinct (m_users m) \<and>
     (\<forall>u \<in> set (m_users m). distinct (u_sessions (usr m u)) \<and>
        (\<forall>s \<in> set (u_sessions (usr m u)). s \<in> set (m_sessions m) \<and> s_user (ses m s) = Some u) \<and>
        (\<forall>s. u_display (usr m u) = Some s \<longrightarrow> s \<in> set (u_sessions (usr m u))))"

definition inv_devices :: "manager \<Rightarrow> bool" where
  "inv_devices m \<longleftrightarrow> distinct (m_devices m) \<and>
     (\<forall>d \<in> set (m_devices m). \<forall>st. d_seat (dev m d) = Some st \<longrightarrow>
        st \<in> set (m_seats m) \<and> d \<in> set (st_devices (sts m st))) \<and>
     (\<forall>st \<in> set (m_seats m). distinct (st_devices (sts m st)) \<and>
        (\<forall>d \<in> set (st_devices (sts m st)). d \<in> set (m_devices m) \<and> d_seat (dev m d) = Some st))"

text \<open>A session's devices are on its seat, and of a type the daemon can revoke.\<close>

definition inv_session_devices :: "manager \<Rightarrow> bool" where
  "inv_session_devices m \<longleftrightarrow>
     (\<forall>s \<in> set (m_sessions m). distinct (s_devices (ses m s)) \<and>
        (\<forall>n \<in> set (s_devices (ses m s)).
           sd_type (sdv m (s, n)) \<noteq> DEVICE_TYPE_UNKNOWN \<and>
           sd_device (sdv m (s, n)) \<in> set (m_devices m) \<and>
           (s, n) \<in> set (d_session_devices (dev m (sd_device (sdv m (s, n))))) \<and>
           s_seat (ses m s) \<noteq> None \<and> d_seat (dev m (sd_device (sdv m (s, n)))) = s_seat (ses m s))) \<and>
     (\<forall>d \<in> set (m_devices m). distinct (d_session_devices (dev m d)) \<and>
        (\<forall>s n. (s, n) \<in> set (d_session_devices (dev m d)) \<longrightarrow>
           s \<in> set (m_sessions m) \<and> n \<in> set (s_devices (ses m s)) \<and> sd_device (sdv m (s, n)) = d))"

text \<open>What is queued is alive and carries the flag, once. (An object that is being freed keeps its flag
  after it has left the queue, so the flag says less.)\<close>

definition inv_queues :: "manager \<Rightarrow> bool" where
  "inv_queues m \<longleftrightarrow>
     distinct (m_seat_gc_queue m) \<and> distinct (m_session_gc_queue m) \<and> distinct (m_user_gc_queue m) \<and>
     (\<forall>st \<in> set (m_seat_gc_queue m). st \<in> set (m_seats m) \<and> st_in_gc_queue (sts m st)) \<and>
     (\<forall>s \<in> set (m_session_gc_queue m). s \<in> set (m_sessions m) \<and> s_in_gc_queue (ses m s)) \<and>
     (\<forall>u \<in> set (m_user_gc_queue m). u \<in> set (m_users m) \<and> u_in_gc_queue (usr m u))"

text \<open>The table of leaders, and, where the daemon has an inotify descriptor, the table of watched
  control groups.\<close>

definition inv_leaders :: "manager \<Rightarrow> bool" where
  "inv_leaders m \<longleftrightarrow> distinct (map fst (m_sessions_by_leader m)) \<and>
     (\<forall>p s. (p, s) \<in> set (m_sessions_by_leader m) \<longrightarrow>
        s \<in> set (m_sessions m) \<and> 0 < p \<and> pid_pid (s_leader (ses m s)) = p) \<and>
     (0 \<le> m_cgroup_inotify_fd m \<longrightarrow> distinct (map fst (m_cgroup_control_inotify_wd_session m)) \<and>
        (\<forall>w s. (w, s) \<in> set (m_cgroup_control_inotify_wd_session m) \<longrightarrow>
           s \<in> set (m_sessions m) \<and> 0 \<le> w \<and> s_cgroup_control_inotify_wd (ses m s) = w))"

text \<open>The allocator provides at least what is asked for.\<close>

definition malloc_ok :: "manager \<Rightarrow> bool" where
  "malloc_ok m \<longleftrightarrow> (\<forall>n. n \<le> m_malloc m n)"

definition wf :: "manager \<Rightarrow> bool" where
  "wf m \<longleftrightarrow> inv_seats m \<and> inv_positions m \<and> inv_sessions m \<and> inv_users m \<and> inv_devices m \<and>
     inv_session_devices m \<and> inv_queues m \<and> inv_leaders m"

lemmas inv_defs =
  inv_seats_def inv_positions_def inv_sessions_def inv_users_def inv_devices_def
  inv_session_devices_def inv_queues_def inv_leaders_def

text \<open>Reading the invariant.\<close>

lemma wfD:
  assumes "wf m"
  shows "inv_seats m" "inv_positions m" "inv_sessions m" "inv_users m" "inv_devices m"
    "inv_session_devices m" "inv_queues m" "inv_leaders m"
  using assms by (simp_all add: wf_def)

lemma wf_session_seat:
  assumes "wf m" "s \<in> set (m_sessions m)" "s_seat (ses m s) = Some st"
  shows "st \<in> set (m_seats m)" "s \<in> set (st_sessions (sts m st))"
  using assms by (auto simp: wf_def inv_sessions_def)

lemma wf_session_user:
  assumes "wf m" "s \<in> set (m_sessions m)" "s_user (ses m s) = Some u"
  shows "u \<in> set (m_users m)" "s \<in> set (u_sessions (usr m u))"
  using assms by (auto simp: wf_def inv_sessions_def)

lemma wf_seat_session:
  assumes "wf m" "st \<in> set (m_seats m)" "s \<in> set (st_sessions (sts m st))"
  shows "s \<in> set (m_sessions m)" "s_seat (ses m s) = Some st" "s_user (ses m s) \<noteq> None"
  using assms by (auto simp: wf_def inv_seats_def)

lemma wf_active:
  assumes "wf m" "st \<in> set (m_seats m)" "st_active (sts m st) = Some a"
  shows "a \<in> set (st_sessions (sts m st))"
  using assms by (auto simp: wf_def inv_seats_def)

lemma wf_pending:
  assumes "wf m" "st \<in> set (m_seats m)" "st_pending_switch (sts m st) = Some a"
  shows "a \<in> set (st_sessions (sts m st))"
  using assms by (auto simp: wf_def inv_seats_def)

lemma wf_device_seat:
  assumes "wf m" "d \<in> set (m_devices m)" "d_seat (dev m d) = Some st"
  shows "st \<in> set (m_seats m)" "d \<in> set (st_devices (sts m st))"
  using wfD(5) [OF assms(1)] assms(2,3) unfolding inv_devices_def by blast+

lemma wf_seat_device:
  assumes "wf m" "st \<in> set (m_seats m)" "d \<in> set (st_devices (sts m st))"
  shows "d \<in> set (m_devices m)" "d_seat (dev m d) = Some st"
  using wfD(5) [OF assms(1)] assms(2,3) unfolding inv_devices_def by blast+

lemma wf_session_device:
  assumes "wf m" "fst sd \<in> set (m_sessions m)" "snd sd \<in> set (s_devices (ses m (fst sd)))"
  shows "sd_type (sdv m sd) \<noteq> DEVICE_TYPE_UNKNOWN" "sd_device (sdv m sd) \<in> set (m_devices m)"
    "sd \<in> set (d_session_devices (dev m (sd_device (sdv m sd))))"
    "s_seat (ses m (fst sd)) \<noteq> None"
    "d_seat (dev m (sd_device (sdv m sd))) = s_seat (ses m (fst sd))"
proof -
  obtain s n where sd: "sd = (s, n)" by (cases sd)
  show "sd_type (sdv m sd) \<noteq> DEVICE_TYPE_UNKNOWN" "sd_device (sdv m sd) \<in> set (m_devices m)"
    "sd \<in> set (d_session_devices (dev m (sd_device (sdv m sd))))"
    "s_seat (ses m (fst sd)) \<noteq> None"
    "d_seat (dev m (sd_device (sdv m sd))) = s_seat (ses m (fst sd))"
    using wfD(6) [OF assms(1)] assms(2,3) unfolding inv_session_devices_def sd fst_conv snd_conv
    by blast+
qed

lemma wf_device_session_device:
  assumes "wf m" "d \<in> set (m_devices m)" "sd \<in> set (d_session_devices (dev m d))"
  shows "fst sd \<in> set (m_sessions m)" "snd sd \<in> set (s_devices (ses m (fst sd)))"
    "sd_device (sdv m sd) = d"
proof -
  obtain s n where sd: "sd = (s, n)" by (cases sd)
  show "fst sd \<in> set (m_sessions m)" "snd sd \<in> set (s_devices (ses m (fst sd)))"
    "sd_device (sdv m sd) = d"
    using wfD(6) [OF assms(1)] assms(2,3) unfolding inv_session_devices_def sd fst_conv snd_conv
    by blast+
qed

lemma wf_sd:
  assumes "wf m" "s \<in> set (m_sessions m)" "n \<in> set (s_devices (ses m s))"
  shows "sd_type (sdv m (s, n)) \<noteq> DEVICE_TYPE_UNKNOWN \<and>
    sd_device (sdv m (s, n)) \<in> set (m_devices m) \<and>
    (s, n) \<in> set (d_session_devices (dev m (sd_device (sdv m (s, n))))) \<and>
    s_seat (ses m s) \<noteq> None \<and> d_seat (dev m (sd_device (sdv m (s, n)))) = s_seat (ses m s)"
  using wf_session_device [of m "(s, n)"] assms by simp

lemma wf_dsd:
  assumes "wf m" "d \<in> set (m_devices m)" "(s, n) \<in> set (d_session_devices (dev m d))"
  shows "s \<in> set (m_sessions m) \<and> n \<in> set (s_devices (ses m s)) \<and> sd_device (sdv m (s, n)) = d"
  using wf_device_session_device [OF assms] by simp

lemma inv_session_devicesI:
  assumes "\<And>s. s \<in> set (m_sessions m) \<Longrightarrow> distinct (s_devices (ses m s))"
    "\<And>s n. s \<in> set (m_sessions m) \<Longrightarrow> n \<in> set (s_devices (ses m s)) \<Longrightarrow>
       sd_type (sdv m (s, n)) \<noteq> DEVICE_TYPE_UNKNOWN \<and>
       sd_device (sdv m (s, n)) \<in> set (m_devices m) \<and>
       (s, n) \<in> set (d_session_devices (dev m (sd_device (sdv m (s, n))))) \<and>
       s_seat (ses m s) \<noteq> None \<and> d_seat (dev m (sd_device (sdv m (s, n)))) = s_seat (ses m s)"
    "\<And>d. d \<in> set (m_devices m) \<Longrightarrow> distinct (d_session_devices (dev m d))"
    "\<And>d s n. d \<in> set (m_devices m) \<Longrightarrow> (s, n) \<in> set (d_session_devices (dev m d)) \<Longrightarrow>
       s \<in> set (m_sessions m) \<and> n \<in> set (s_devices (ses m s)) \<and> sd_device (sdv m (s, n)) = d"
  shows "inv_session_devices m"
  unfolding inv_session_devices_def using assms by blast

lemma inv_devicesI:
  assumes "distinct (m_devices m)"
    "\<And>d st. d \<in> set (m_devices m) \<Longrightarrow> d_seat (dev m d) = Some st \<Longrightarrow>
       st \<in> set (m_seats m) \<and> d \<in> set (st_devices (sts m st))"
    "\<And>st. st \<in> set (m_seats m) \<Longrightarrow> distinct (st_devices (sts m st))"
    "\<And>st d. st \<in> set (m_seats m) \<Longrightarrow> d \<in> set (st_devices (sts m st)) \<Longrightarrow>
       d \<in> set (m_devices m) \<and> d_seat (dev m d) = Some st"
  shows "inv_devices m"
  unfolding inv_devices_def using assms by blast

lemma wf_distinct:
  assumes "wf m"
  shows "distinct (m_sessions m)" "distinct (m_seats m)" "distinct (m_users m)"
    "distinct (m_devices m)"
    "s \<in> set (m_sessions m) \<Longrightarrow> distinct (s_devices (ses m s))"
    "d \<in> set (m_devices m) \<Longrightarrow> distinct (d_session_devices (dev m d))"
    "st \<in> set (m_seats m) \<Longrightarrow> distinct (st_devices (sts m st))"
    "st \<in> set (m_seats m) \<Longrightarrow> distinct (st_sessions (sts m st))"
    "u \<in> set (m_users m) \<Longrightarrow> distinct (u_sessions (usr m u))"
  using wfD [OF assms]
  unfolding inv_seats_def inv_sessions_def inv_users_def inv_session_devices_def inv_devices_def
  by blast+

lemma wf_users_known: "wf m \<Longrightarrow> st \<in> set (m_seats m) \<Longrightarrow> seat_users_known st m"
  unfolding seat_users_known_def using wf_active wf_seat_session by blast

lemma wf_position:
  assumes "wf m" "st \<in> set (m_seats m)" "seat_get_position st p m = Some s"
  shows "0 < p" "s \<in> set (st_sessions (sts m st))" "s_position (ses m s) = p"
  using wfD(2) [OF assms(1)] assms(2,3)
  by (auto simp: inv_positions_def seat_get_position_def not_le split: if_splits)

subsection \<open>Which parts of the state each invariant reads\<close>

lemma inv_seats_cong:
  assumes "m_seats m' = m_seats m" "m_sessions m' = m_sessions m"
    "\<And>st. st_sessions (sts m' st) = st_sessions (sts m st)"
    "\<And>st. st_active (sts m' st) = st_active (sts m st)"
    "\<And>st. st_pending_switch (sts m' st) = st_pending_switch (sts m st)"
    "\<And>s. s_seat (ses m' s) = s_seat (ses m s)" "\<And>s. s_user (ses m' s) = s_user (ses m s)"
  shows "inv_seats m' = inv_seats m"
  by (simp add: inv_seats_def assms)

lemma inv_positions_cong:
  assumes "m_seats m' = m_seats m"
    "\<And>st. st_positions (sts m' st) = st_positions (sts m st)"
    "\<And>st. st_sessions (sts m' st) = st_sessions (sts m st)"
    "\<And>s. s_position (ses m' s) = s_position (ses m s)"
  shows "inv_positions m' = inv_positions m"
  by (simp add: inv_positions_def assms)

lemma inv_sessions_cong:
  assumes "m_seats m' = m_seats m" "m_sessions m' = m_sessions m" "m_users m' = m_users m"
    "\<And>st. st_sessions (sts m' st) = st_sessions (sts m st)"
    "\<And>u. u_sessions (usr m' u) = u_sessions (usr m u)"
    "\<And>s. s_seat (ses m' s) = s_seat (ses m s)" "\<And>s. s_user (ses m' s) = s_user (ses m s)"
  shows "inv_sessions m' = inv_sessions m"
  by (simp add: inv_sessions_def assms)

lemma inv_users_cong:
  assumes "m_sessions m' = m_sessions m" "m_users m' = m_users m"
    "\<And>u. u_sessions (usr m' u) = u_sessions (usr m u)"
    "\<And>u. u_display (usr m' u) = u_display (usr m u)"
    "\<And>s. s_user (ses m' s) = s_user (ses m s)"
  shows "inv_users m' = inv_users m"
  by (simp add: inv_users_def assms)

lemma inv_devices_cong:
  assumes "m_devices m' = m_devices m" "m_seats m' = m_seats m"
    "\<And>d. d_seat (dev m' d) = d_seat (dev m d)"
    "\<And>st. st_devices (sts m' st) = st_devices (sts m st)"
  shows "inv_devices m' = inv_devices m"
  by (simp add: inv_devices_def assms)

lemma inv_session_devices_cong:
  assumes "m_devices m' = m_devices m" "m_sessions m' = m_sessions m"
    "\<And>d. d_seat (dev m' d) = d_seat (dev m d)"
    "\<And>d. d_session_devices (dev m' d) = d_session_devices (dev m d)"
    "\<And>s. s_devices (ses m' s) = s_devices (ses m s)" "\<And>s. s_seat (ses m' s) = s_seat (ses m s)"
    "\<And>s n. sd_device (sdv m' (s, n)) = sd_device (sdv m (s, n))"
    "\<And>s n. sd_type (sdv m' (s, n)) = sd_type (sdv m (s, n))"
  shows "inv_session_devices m' = inv_session_devices m"
  by (simp add: inv_session_devices_def assms)

lemma inv_queues_cong:
  assumes "m_seats m' = m_seats m" "m_sessions m' = m_sessions m" "m_users m' = m_users m"
    "m_seat_gc_queue m' = m_seat_gc_queue m" "m_session_gc_queue m' = m_session_gc_queue m"
    "m_user_gc_queue m' = m_user_gc_queue m"
    "\<And>st. st_in_gc_queue (sts m' st) = st_in_gc_queue (sts m st)"
    "\<And>s. s_in_gc_queue (ses m' s) = s_in_gc_queue (ses m s)"
    "\<And>u. u_in_gc_queue (usr m' u) = u_in_gc_queue (usr m u)"
  shows "inv_queues m' = inv_queues m"
  by (simp add: inv_queues_def assms)

lemma inv_leaders_cong:
  assumes "m_sessions m' = m_sessions m" "m_sessions_by_leader m' = m_sessions_by_leader m"
    "m_cgroup_inotify_fd m' = m_cgroup_inotify_fd m"
    "m_cgroup_control_inotify_wd_session m' = m_cgroup_control_inotify_wd_session m"
    "\<And>s. s_leader (ses m' s) = s_leader (ses m s)"
    "\<And>s. s_cgroup_control_inotify_wd (ses m' s) = s_cgroup_control_inotify_wd (ses m s)"
  shows "inv_leaders m' = inv_leaders m"
  by (simp add: inv_leaders_def assms)

lemmas inv_congs =
  inv_seats_cong inv_positions_cong inv_sessions_cong inv_users_cong inv_devices_cong
  inv_session_devices_cong inv_queues_cong inv_leaders_cong

lemma wfI:
  assumes "inv_seats m" "inv_positions m" "inv_sessions m" "inv_users m" "inv_devices m"
    "inv_session_devices m" "inv_queues m" "inv_leaders m"
  shows "wf m"
  using assms by (simp add: wf_def)

subsection \<open>Changes that do not touch a link\<close>

definition ses_keeps :: "(session \<Rightarrow> session) \<Rightarrow> bool" where
  "ses_keeps f \<longleftrightarrow> (\<forall>x. s_seat (f x) = s_seat x \<and> s_user (f x) = s_user x \<and>
     s_position (f x) = s_position x \<and> s_devices (f x) = s_devices x \<and>
     s_in_gc_queue (f x) = s_in_gc_queue x \<and> s_leader (f x) = s_leader x \<and>
     s_cgroup_control_inotify_wd (f x) = s_cgroup_control_inotify_wd x)"

definition seat_keeps :: "(seat \<Rightarrow> seat) \<Rightarrow> bool" where
  "seat_keeps f \<longleftrightarrow> (\<forall>x. st_active (f x) = st_active x \<and> st_pending_switch (f x) = st_pending_switch x \<and>
     st_positions (f x) = st_positions x \<and> st_sessions (f x) = st_sessions x \<and>
     st_devices (f x) = st_devices x \<and> st_in_gc_queue (f x) = st_in_gc_queue x)"

definition user_keeps :: "(user \<Rightarrow> user) \<Rightarrow> bool" where
  "user_keeps f \<longleftrightarrow> (\<forall>x. u_display (f x) = u_display x \<and> u_sessions (f x) = u_sessions x \<and>
     u_in_gc_queue (f x) = u_in_gc_queue x)"

lemma ses_keepsD:
  assumes "ses_keeps f"
  shows "s_seat (ses (upd_ses s f m) x) = s_seat (ses m x)"
    "s_user (ses (upd_ses s f m) x) = s_user (ses m x)"
    "s_position (ses (upd_ses s f m) x) = s_position (ses m x)"
    "s_devices (ses (upd_ses s f m) x) = s_devices (ses m x)"
    "s_in_gc_queue (ses (upd_ses s f m) x) = s_in_gc_queue (ses m x)"
    "s_leader (ses (upd_ses s f m) x) = s_leader (ses m x)"
    "s_cgroup_control_inotify_wd (ses (upd_ses s f m) x) = s_cgroup_control_inotify_wd (ses m x)"
  using assms by (simp_all add: upd_simps ses_keeps_def)

lemma seat_keepsD:
  assumes "seat_keeps f"
  shows "st_active (sts (upd_seat s f m) x) = st_active (sts m x)"
    "st_pending_switch (sts (upd_seat s f m) x) = st_pending_switch (sts m x)"
    "st_positions (sts (upd_seat s f m) x) = st_positions (sts m x)"
    "st_sessions (sts (upd_seat s f m) x) = st_sessions (sts m x)"
    "st_devices (sts (upd_seat s f m) x) = st_devices (sts m x)"
    "st_in_gc_queue (sts (upd_seat s f m) x) = st_in_gc_queue (sts m x)"
  using assms by (simp_all add: upd_simps seat_keeps_def)

lemma user_keepsD:
  assumes "user_keeps f"
  shows "u_display (usr (upd_user s f m) x) = u_display (usr m x)"
    "u_sessions (usr (upd_user s f m) x) = u_sessions (usr m x)"
    "u_in_gc_queue (usr (upd_user s f m) x) = u_in_gc_queue (usr m x)"
  using assms by (simp_all add: upd_simps user_keeps_def)

lemma wf_upd_ses: "ses_keeps f \<Longrightarrow> wf (upd_ses s f m) = wf m"
  unfolding wf_def inv_defs by (simp add: ses_keepsD)

lemma wf_upd_seat: "seat_keeps f \<Longrightarrow> wf (upd_seat s f m) = wf m"
  unfolding wf_def inv_defs by (simp add: seat_keepsD)

lemma wf_upd_user: "user_keeps f \<Longrightarrow> wf (upd_user s f m) = wf m"
  unfolding wf_def inv_defs by (simp add: user_keepsD)

lemma wf_same_objects: "same_objects m m' \<Longrightarrow> wf m' = wf m"
  unfolding wf_def inv_defs by (simp add: same_objects_fields)

text \<open>Session devices may change as long as they keep their device and type.\<close>

definition sd_keeps :: "manager \<Rightarrow> manager \<Rightarrow> bool" where
  "sd_keeps m m' \<longleftrightarrow> (\<forall>sd. sd_device (sdv m' sd) = sd_device (sdv m sd) \<and>
     sd_type (sdv m' sd) = sd_type (sdv m sd))"

lemma sd_keepsD:
  "sd_keeps m m' \<Longrightarrow> sd_device (sdv m' sd) = sd_device (sdv m sd)"
  "sd_keeps m m' \<Longrightarrow> sd_type (sdv m' sd) = sd_type (sdv m sd)"
  unfolding sd_keeps_def by blast+

lemma wf_same_but_devices: "same_but_devices m m' \<Longrightarrow> sd_keeps m m' \<Longrightarrow> wf m' = wf m"
  unfolding wf_def inv_defs by (simp add: same_but_devices_fields sd_keepsD)

lemma sd_keeps_refl [simp, intro]: "sd_keeps m m"
  by (simp add: sd_keeps_def)

lemma sd_keeps_trans [trans]: "sd_keeps m m' \<Longrightarrow> sd_keeps m' m'' \<Longrightarrow> sd_keeps m m''"
  by (simp add: sd_keeps_def)

lemma sd_keeps_same: "sdv m' = sdv m \<Longrightarrow> sd_keeps m m'"
  by (simp add: sd_keeps_def)

lemma sd_keeps_stop: "sd_keeps m (session_device_stop sd m)"
  by (simp add: sd_keeps_def sdv_stop)

lemma sd_keeps_pause_all: "sd_keeps m (session_device_pause_all s m)"
  by (simp add: sd_keeps_def sdv_pause_all)

lemma sd_keeps_resume: "sd_keeps m (session_device_resume s d m)"
  by (simp add: sd_keeps_def session_device_resume_def session_device_start_def
      session_device_save_def Let_def case_prod_beta split: DeviceType.split)

lemma sd_keeps_resume_all: "sd_keeps m (session_device_resume_all s m)"
proof -
  have "sd_keeps m (fold (session_device_resume s) ds m)" for ds m
    by (induction ds arbitrary: m) (auto intro: sd_keeps_trans sd_keeps_resume)
  then show ?thesis by (simp add: session_device_resume_all_def)
qed

lemma sdv_try_pause_all [simp]: "sdv (snd (session_device_try_pause_all s m)) = sdv m"
proof -
  have "sdv (fold (\<lambda>d m. snd (session_device_notify (s, d) SESSION_DEVICE_TRY_PAUSE m)) ds m) = sdv m"
    for ds m
    by (induction ds arbitrary: m) simp_all
  then show ?thesis by (simp add: session_device_try_pause_all_def Let_def)
qed

lemmas sd_frame [simp] =
  sd_keepsD [OF sd_keeps_resume_all] sd_keepsD [OF sd_keeps_pause_all] sd_keepsD [OF sd_keeps_stop]

lemma wf_resume_all [simp]: "wf (session_device_resume_all s m) = wf m"
  by (rule wf_same_but_devices [OF resume_all_sbd sd_keeps_resume_all])

lemma wf_pause_all [simp]: "wf (session_device_pause_all s m) = wf m"
  by (rule wf_same_but_devices [OF pause_all_sbd sd_keeps_pause_all])

lemma wf_try_pause_all [simp]: "wf (snd (session_device_try_pause_all s m)) = wf m"
  by (rule wf_same_but_devices [OF try_pause_all_sbd sd_keeps_same]) simp

lemma wf_stop [simp]: "wf (session_device_stop sd m) = wf m"
  by (rule wf_same_but_devices [OF stop_sbd sd_keeps_stop])

lemmas wf_system [simp] =
  wf_same_objects [OF sys_same] wf_same_objects [OF emit_same]
  wf_same_objects [OF assert_that_same [OF same_objects_refl]]
  wf_same_objects [OF session_send_changed_same] wf_same_objects [OF seat_send_changed_same]
  wf_same_objects [OF user_send_changed_same] wf_same_objects [OF seat_save_same]
  wf_same_objects [OF session_save_same] wf_same_objects [OF user_save_same]
  wf_same_objects [OF user_save_internal_same]

subsection \<open>Changing the active session\<close>

lemma seat_apply_acls_same: "same_objects m (snd (seat_apply_acls st old m))"
  by (simp add: seat_apply_acls_def Let_def case_prod_beta same_objects_sys assert_that_same)

lemma session_user_save_same: "same_objects m (session_user_save s m)"
  by (simp add: session_user_save_def assert_that_same user_save_same split: option.split)

lemmas seat_apply_acls_frame [simp] = same_objects_simps [OF seat_apply_acls_same]
lemmas session_user_save_frame [simp] = same_objects_simps [OF session_user_save_same]

lemmas tables_seat_basic =
  same_tables_step(1) [OF _ seat_apply_acls_same] same_tables_step(1) [OF _ session_user_save_same]

lemma sts_seat_set_active:
  "sts (seat_set_active st x m) = (sts m)(st := (sts m st)\<lparr>st_active := x\<rparr>)"
  by (auto simp: seat_set_active_def Let_def upd_simps split: option.split)

lemma seat_set_active_heaps [simp]:
  "ses (seat_set_active st x m) = ses m" "usr (seat_set_active st x m) = usr m"
  "dev (seat_set_active st x m) = dev m" "inh (seat_set_active st x m) = inh m"
  "btn (seat_set_active st x m) = btn m"
  "m_seat_gc_queue (seat_set_active st x m) = m_seat_gc_queue m"
  "m_session_gc_queue (seat_set_active st x m) = m_session_gc_queue m"
  "m_user_gc_queue (seat_set_active st x m) = m_user_gc_queue m"
  by (simp_all add: seat_set_active_def Let_def split: option.split)

lemma seat_set_active_tables: "same_tables m (seat_set_active st x m)"
  by (simp add: seat_set_active_def Let_def tables_basic tables_upd tables_seat_basic
      split: option.split)

lemmas seat_set_active_table_frame [simp] = same_tables_simps [OF seat_set_active_tables]

lemma seat_set_active_sd_keeps: "sd_keeps m (seat_set_active st x m)"
  by (simp add: sd_keeps_def seat_set_active_def Let_def split: option.split)

lemmas seat_set_active_sd [simp] = sd_keepsD [OF seat_set_active_sd_keeps]

lemma wf_seat_set_active:
  assumes "wf m" "st \<in> set (m_seats m)" "\<And>a. x = Some a \<Longrightarrow> a \<in> set (st_sessions (sts m st))"
  shows "wf (seat_set_active st x m)"
proof (rule wfI)
  let ?m = "seat_set_active st x m"
  note inv = wfD [OF assms(1)]
  show "inv_seats ?m"
    using inv(1) assms(2,3) by (simp add: inv_seats_def sts_seat_set_active)
  show "inv_positions ?m"
    using inv(2) inv_positions_cong [of ?m m] by (simp add: sts_seat_set_active)
  show "inv_sessions ?m"
    using inv(3) inv_sessions_cong [of ?m m] by (simp add: sts_seat_set_active)
  show "inv_users ?m"
    using inv(4) inv_users_cong [of ?m m] by simp
  show "inv_devices ?m"
    using inv(5) inv_devices_cong [of ?m m] by (simp add: sts_seat_set_active)
  show "inv_session_devices ?m"
    using inv(6) inv_session_devices_cong [of ?m m] by simp
  show "inv_queues ?m"
    using inv(7) inv_queues_cong [of ?m m] by (simp add: sts_seat_set_active)
  show "inv_leaders ?m"
    using inv(8) inv_leaders_cong [of ?m m] by simp
qed

end
