(* ===== verification/Seat_Inv.thy ===== *)
theory Seat_Inv
  imports Login_Inv
begin

text \<open>
  The operations of \<^verbatim>\<open>logind-seat.c\<close> keep the object graph intact; what they do to positions,
  to the active session and to the devices of the sessions involved.
\<close>

subsection \<open>Positions\<close>

text \<open>Positions aside, evicting and claiming change nothing.\<close>

definition same_but_positions :: "manager \<Rightarrow> manager \<Rightarrow> bool" where
  "same_but_positions m m' \<longleftrightarrow> same_tables m m' \<and>
     (\<forall>s. (ses m' s)\<lparr>s_position := 0\<rparr> = (ses m s)\<lparr>s_position := 0\<rparr>) \<and>
     (\<forall>st. (sts m' st)\<lparr>st_positions := []\<rparr> = (sts m st)\<lparr>st_positions := []\<rparr>) \<and>
     usr m' = usr m \<and> dev m' = dev m \<and> sdv m' = sdv m \<and> inh m' = inh m \<and> btn m' = btn m \<and>
     m_seat_gc_queue m' = m_seat_gc_queue m \<and> m_session_gc_queue m' = m_session_gc_queue m \<and>
     m_user_gc_queue m' = m_user_gc_queue m"

lemma same_but_positions_refl [simp, intro]: "same_but_positions m m"
  by (simp add: same_but_positions_def)

lemma same_but_positions_trans [trans]:
  "same_but_positions m m' \<Longrightarrow> same_but_positions m' m'' \<Longrightarrow> same_but_positions m m''"
  unfolding same_but_positions_def by (auto intro: same_tables_trans)

lemma same_but_positions_ses:
  assumes "same_but_positions m m'"
  shows "s_type (ses m' s) = s_type (ses m s)" "s_class (ses m' s) = s_class (ses m s)"
    "s_user (ses m' s) = s_user (ses m s)" "s_seat (ses m' s) = s_seat (ses m s)"
    "s_vtnr (ses m' s) = s_vtnr (ses m s)" "s_vtfd (ses m' s) = s_vtfd (ses m s)"
    "s_cgroup_control_inotify_wd (ses m' s) = s_cgroup_control_inotify_wd (ses m s)"
    "s_leader (ses m' s) = s_leader (ses m s)" "s_fifo_fd (ses m' s) = s_fifo_fd (ses m s)"
    "s_fifo_path (ses m' s) = s_fifo_path (ses m s)"
    "s_in_gc_queue (ses m' s) = s_in_gc_queue (ses m s)" "s_started (ses m' s) = s_started (ses m s)"
    "s_stopping (ses m' s) = s_stopping (ses m s)"
    "s_timer_event_source (ses m' s) = s_timer_event_source (ses m s)"
    "s_controller (ses m' s) = s_controller (ses m s)" "s_devices (ses m' s) = s_devices (ses m s)"
    "s_create_message (ses m' s) = s_create_message (ses m s)"
  using assms unfolding same_but_positions_def
  by (cases "ses m' s"; cases "ses m s"; fastforce dest!: conjunct1 [OF conjunct2] spec [of _ s])+

lemma same_but_positions_sts:
  assumes "same_but_positions m m'"
  shows "st_active (sts m' st) = st_active (sts m st)"
    "st_pending_switch (sts m' st) = st_pending_switch (sts m st)"
    "st_sessions (sts m' st) = st_sessions (sts m st)"
    "st_devices (sts m' st) = st_devices (sts m st)"
    "st_started (sts m' st) = st_started (sts m st)"
    "st_in_gc_queue (sts m' st) = st_in_gc_queue (sts m st)"
proof -
  have "(sts m' st)\<lparr>st_positions := []\<rparr> = (sts m st)\<lparr>st_positions := []\<rparr>"
    using assms by (simp add: same_but_positions_def)
  then show "st_active (sts m' st) = st_active (sts m st)"
    "st_pending_switch (sts m' st) = st_pending_switch (sts m st)"
    "st_sessions (sts m' st) = st_sessions (sts m st)"
    "st_devices (sts m' st) = st_devices (sts m st)"
    "st_started (sts m' st) = st_started (sts m st)"
    "st_in_gc_queue (sts m' st) = st_in_gc_queue (sts m st)"
    by (cases "sts m' st"; cases "sts m st"; simp)+
qed

lemma same_but_positions_heaps:
  assumes "same_but_positions m m'"
  shows "usr m' = usr m" "dev m' = dev m" "sdv m' = sdv m" "inh m' = inh m" "btn m' = btn m"
    "m_seat_gc_queue m' = m_seat_gc_queue m" "m_session_gc_queue m' = m_session_gc_queue m"
    "m_user_gc_queue m' = m_user_gc_queue m"
  using assms by (simp_all add: same_but_positions_def)

lemma same_but_positions_tables: "same_but_positions m m' \<Longrightarrow> same_tables m m'"
  by (simp add: same_but_positions_def)

lemmas same_but_positions_simps =
  same_but_positions_ses same_but_positions_sts same_but_positions_heaps
  same_tables_simps [OF same_but_positions_tables]

lemma session_get_state_positions:
  "same_but_positions m m' \<Longrightarrow> session_get_state s m' = session_get_state s m"
  by (simp add: session_get_state_def session_is_active_def same_but_positions_simps
      split: option.split)

lemma wf_same_but_positions:
  assumes "same_but_positions m m'" "wf m" "inv_positions m'"
  shows "wf m'"
proof (rule wfI)
  note eqs = same_but_positions_simps [OF assms(1)]
  note inv = wfD [OF assms(2)]
  show "inv_seats m'" using inv(1) inv_seats_cong [of m' m] by (simp add: eqs)
  show "inv_positions m'" by fact
  show "inv_sessions m'" using inv(3) inv_sessions_cong [of m' m] by (simp add: eqs)
  show "inv_users m'" using inv(4) inv_users_cong [of m' m] by (simp add: eqs)
  show "inv_devices m'" using inv(5) inv_devices_cong [of m' m] by (simp add: eqs)
  show "inv_session_devices m'" using inv(6) inv_session_devices_cong [of m' m] by (simp add: eqs)
  show "inv_queues m'" using inv(7) inv_queues_cong [of m' m] by (simp add: eqs)
  show "inv_leaders m'" using inv(8) inv_leaders_cong [of m' m] by (simp add: eqs)
qed

lemma sbp_upd:
  "same_but_positions m m' \<Longrightarrow> same_but_positions m (upd_ses s (s_position_update f) m')"
  "same_but_positions m m' \<Longrightarrow> same_but_positions m (upd_seat st (st_positions_update g) m')"
  "same_but_positions m m' \<Longrightarrow> same_but_positions m (assert_that b m')"
  by (simp_all add: same_but_positions_def upd_simps tables_upd tables_basic)

lemma evict_sbp: "same_but_positions m (seat_evict_position st s m)"
  by (simp add: seat_evict_position_def Let_def sbp_upd)

lemma claim_sbp: "same_but_positions m (seat_claim_position st s pos m)"
  by (simp add: seat_claim_position_def Let_def
      sbp_upd same_but_positions_trans [OF _ evict_sbp])

lemma assign_sbp: "same_but_positions m (seat_assign_position st s m)"
  by (simp add: seat_assign_position_def claim_sbp)

lemmas evict_frame [simp] = same_but_positions_simps [OF evict_sbp]
lemmas claim_frame [simp] = same_but_positions_simps [OF claim_sbp]
lemmas assign_frame [simp] = same_but_positions_simps [OF assign_sbp]

text \<open>Where the sessions and slots are after an eviction.\<close>

lemma evict_position [simp]:
  "s_position (ses (seat_evict_position st s m) x) = (if x = s then 0 else s_position (ses m x))"
  by (simp add: seat_evict_position_def Let_def upd_simps)

definition evict_heir :: "string \<Rightarrow> string \<Rightarrow> manager \<Rightarrow> string option" where
  "evict_heir st s m =
     find (\<lambda>i. i \<noteq> s \<and> s_position (ses m i) = s_position (ses m s) \<and>
               session_get_state i m \<noteq> SESSION_CLOSING) (st_sessions (sts m st))"

lemma evict_positions:
  "st_positions (sts (seat_evict_position st s m) x) =
     (let ps = st_positions (sts m x); pos = s_position (ses m s)
      in if x = st \<and> 0 < pos \<and> pos < length ps \<and> ps ! pos = Some s
         then ps[pos := evict_heir st s m] else ps)"
proof -
  have state: "session_get_state i (upd_ses s (s_position_update f) m) = session_get_state i m" for i f
    by (rule session_get_state_positions) (simp add: sbp_upd)
  have "find (\<lambda>i. s_position (ses (upd_ses s (s_position_update (\<lambda>_. 0)) m) i) = s_position (ses m s) \<and>
          session_get_state i (upd_ses s (s_position_update (\<lambda>_. 0)) m) \<noteq> SESSION_CLOSING)
          (st_sessions (sts m st)) = evict_heir st s m" if "0 < s_position (ses m s)"
    unfolding evict_heir_def state using that
    by (intro find_cong refl) (auto simp: upd_simps)
  then show ?thesis
    by (auto simp: seat_evict_position_def Let_def upd_simps)
qed

lemma evict_heir_props:
  "evict_heir st s m = Some h \<Longrightarrow>
   h \<in> set (st_sessions (sts m st)) \<and> h \<noteq> s \<and> s_position (ses m h) = s_position (ses m s) \<and>
   session_get_state h m \<noteq> SESSION_CLOSING"
  using find_Some_in by (fastforce simp: evict_heir_def)

lemma wf_positionD:
  assumes "wf m" "st \<in> set (m_seats m)" "p < length (st_positions (sts m st))"
    "st_positions (sts m st) ! p = Some s"
  shows "0 < p \<and> s \<in> set (st_sessions (sts m st)) \<and> s_position (ses m s) = p"
  using wfD(2) [OF assms(1)] assms(2-) by (auto simp: inv_positions_def)

text \<open>After an eviction the session stands in no slot of its seat.\<close>

lemma evict_not_in_positions:
  assumes "wf m" "st \<in> set (m_seats m)" "p < length (st_positions (sts m st))"
  shows "st_positions (sts (seat_evict_position st s m) st) ! p \<noteq> Some s"
proof
  assume a: "st_positions (sts (seat_evict_position st s m) st) ! p = Some s"
  show False
  proof (cases "st_positions (sts m st) ! p = Some s")
    case True
    then have "0 < p" "s_position (ses m s) = p"
      using wf_positionD [OF assms] by auto
    with a True assms(3) have "evict_heir st s m = Some s"
      by (simp add: evict_positions)
    then show False using evict_heir_props by blast
  next
    case False
    with a have "evict_heir st s m = Some s"
      by (auto simp: evict_positions Let_def nth_list_update split: if_splits)
    then show False using evict_heir_props by blast
  qed
qed

lemma inv_positions_evict:
  assumes "wf m" "st \<in> set (m_seats m)" "s \<in> set (st_sessions (sts m st))"
  shows "inv_positions (seat_evict_position st s m)"
  unfolding inv_positions_def
proof (intro ballI allI impI)
  let ?m = "seat_evict_position st s m"
  fix x p h
  assume x: "x \<in> set (m_seats ?m)" and p: "p < length (st_positions (sts ?m x))"
    and h: "st_positions (sts ?m x) ! p = Some h"
  have xm: "x \<in> set (m_seats m)" using x by simp
  have len: "length (st_positions (sts ?m x)) = length (st_positions (sts m x))"
    by (simp add: evict_positions Let_def)
  have hs: "h \<noteq> s"
  proof (cases "x = st")
    case True
    then show ?thesis using evict_not_in_positions [OF assms(1,2)] p len h by auto
  next
    case False
    then have "st_positions (sts m x) ! p = Some h"
      using h by (simp add: evict_positions Let_def)
    then have "h \<in> set (st_sessions (sts m x))"
      using wf_positionD [OF assms(1) xm] p len by auto
    then have "s_seat (ses m h) = Some x"
      using wf_seat_session [OF assms(1) xm] by blast
    then show ?thesis
      using wf_seat_session(2) [OF assms(1,2,3)] False by auto
  qed
  show "0 < p \<and> h \<in> set (st_sessions (sts ?m x)) \<and> s_position (ses ?m h) = p"
  proof (cases "st_positions (sts m x) ! p = Some h")
    case True
    then show ?thesis using wf_positionD [OF assms(1) xm] p len hs by simp
  next
    case False
    then have "x = st" "p = s_position (ses m s)" "0 < p" "evict_heir st s m = Some h"
      using h by (auto simp: evict_positions Let_def nth_list_update split: if_splits)
    then show ?thesis using evict_heir_props hs by fastforce
  qed
qed

lemma wf_evict:
  assumes "wf m" "st \<in> set (m_seats m)" "s \<in> set (st_sessions (sts m st))"
  shows "wf (seat_evict_position st s m)"
  by (rule wf_same_but_positions [OF evict_sbp assms(1) inv_positions_evict [OF assms]])

text \<open>Growing the array of slots.\<close>

lemma greedy_realloc0_length: "malloc_ok m \<Longrightarrow> need \<le> length (greedy_realloc0 need xs m)"
  unfolding greedy_realloc0_def malloc_ok_def
  by (auto simp: le_diff_conv) (metis add.commute le_add_diff_inverse2 nat_le_linear trans_le_add2)

lemma greedy_realloc0_nth:
  "p < length (greedy_realloc0 need xs m) \<Longrightarrow>
   greedy_realloc0 need xs m ! p = (if p < length xs then xs ! p else None)"
  by (auto simp: greedy_realloc0_def nth_append)

lemma inv_positions_realloc:
  assumes "inv_positions m"
  shows "inv_positions (upd_seat st (st_positions_update (\<lambda>ps. greedy_realloc0 need ps m)) m)"
  using assms unfolding inv_positions_def by (auto simp: upd_simps greedy_realloc0_nth split: if_splits)

lemma malloc_ok_frame: "same_tables m m' \<Longrightarrow> malloc_ok m' = malloc_ok m"
  by (simp add: malloc_ok_def same_tables_fields)

text \<open>The position a claim ends in.\<close>

definition claimed_position :: "string \<Rightarrow> string \<Rightarrow> nat \<Rightarrow> manager \<Rightarrow> nat" where
  "claimed_position st s pos m = (if seat_has_vts st m then s_vtnr (ses m s) else pos)"

text \<open>The state just before a claimed slot is taken.\<close>

definition claim_cleared :: "string \<Rightarrow> string \<Rightarrow> nat \<Rightarrow> manager \<Rightarrow> manager" where
  "claim_cleared st s pos m =
     seat_evict_position st s
       (upd_seat st (st_positions_update
          (\<lambda>ps. greedy_realloc0 ((claimed_position st s pos m + 1) mod 2 ^ 32) ps m)) m)"

lemma claim_unfold:
  "seat_claim_position st s pos m =
     (let q = claimed_position st s pos m; m1 = claim_cleared st s pos m;
          m2 = upd_ses s (s_position_update (\<lambda>_. q)) m1
      in if q > 0 then
           upd_seat st (st_positions_update (\<lambda>ps. ps[q := Some s]))
             (assert_that (q < length (st_positions (sts m1 st))) m2)
         else m2)"
  by (simp add: seat_claim_position_def claimed_position_def claim_cleared_def Let_def)

lemma claim_cleared_sbp: "same_but_positions m (claim_cleared st s pos m)"
  unfolding claim_cleared_def by (rule same_but_positions_trans [OF _ evict_sbp]) (simp add: sbp_upd)

lemma claim_cleared_wf:
  assumes "wf m" "st \<in> set (m_seats m)" "s \<in> set (st_sessions (sts m st))"
  shows "wf (claim_cleared st s pos m)"
proof -
  let ?need = "(claimed_position st s pos m + 1) mod 2 ^ 32"
  let ?m = "upd_seat st (st_positions_update (\<lambda>ps. greedy_realloc0 ?need ps m)) m"
  have "wf ?m"
    by (rule wf_same_but_positions [OF _ assms(1)])
      (simp_all add: sbp_upd inv_positions_realloc wfD(2) [OF assms(1)])
  moreover have "st \<in> set (m_seats ?m)" "s \<in> set (st_sessions (sts ?m st))"
    using assms by (simp_all add: upd_simps)
  ultimately show ?thesis
    unfolding claim_cleared_def by (rule wf_evict)
qed

lemma claim_cleared_length:
  assumes "malloc_ok m" "claimed_position st s pos m + 1 < 2 ^ 32"
  shows "claimed_position st s pos m < length (st_positions (sts (claim_cleared st s pos m) st))"
  using greedy_realloc0_length [OF assms(1), of "claimed_position st s pos m + 1" "st_positions (sts m st)"]
    assms(2)
  by (simp add: claim_cleared_def evict_positions Let_def upd_simps)

lemma claim_cleared_free:
  assumes "wf m" "st \<in> set (m_seats m)" "s \<in> set (st_sessions (sts m st))" "x \<in> set (m_seats m)"
    "p < length (st_positions (sts (claim_cleared st s pos m) x))"
  shows "st_positions (sts (claim_cleared st s pos m) x) ! p \<noteq> Some s"
proof
  let ?m = "claim_cleared st s pos m"
  assume "st_positions (sts ?m x) ! p = Some s"
  then have p: "0 < p" "s_position (ses ?m s) = p"
    using wf_positionD [OF claim_cleared_wf [OF assms(1-3)] _ assms(5)] assms(4)
      same_but_positions_simps [OF claim_cleared_sbp [of m st s pos]] by auto
  then show False
    by (simp add: claim_cleared_def)
qed

lemma wf_claim:
  assumes "wf m" "st \<in> set (m_seats m)" "s \<in> set (st_sessions (sts m st))"
  shows "wf (seat_claim_position st s pos m)"
proof (rule wf_same_but_positions [OF claim_sbp assms(1)])
  let ?m1 = "claim_cleared st s pos m" and ?q = "claimed_position st s pos m"
  let ?m = "seat_claim_position st s pos m"
  have inv: "inv_positions ?m1"
    by (rule wfD(2) [OF claim_cleared_wf [OF assms]])
  have seats: "m_seats ?m1 = m_seats m"
    by (rule same_but_positions_simps [OF claim_cleared_sbp])
  have sess: "st_sessions (sts ?m1 x) = st_sessions (sts m x)" for x
    by (rule same_but_positions_simps [OF claim_cleared_sbp])
  have pos: "s_position (ses ?m x) = (if x = s then ?q else s_position (ses ?m1 x))" for x
    by (simp add: claim_unfold Let_def upd_simps)
  have slots: "st_positions (sts ?m x) =
      (if x = st \<and> 0 < ?q then (st_positions (sts ?m1 x))[?q := Some s] else st_positions (sts ?m1 x))"
    for x
    by (simp add: claim_unfold Let_def upd_simps)
  show "inv_positions ?m"
    unfolding inv_positions_def
  proof (intro ballI allI impI)
    fix x p h
    assume x: "x \<in> set (m_seats ?m)" and p: "p < length (st_positions (sts ?m x))"
      and h: "st_positions (sts ?m x) ! p = Some h"
    have x': "x \<in> set (m_seats m)" and p': "p < length (st_positions (sts ?m1 x))"
      using x p by (simp_all add: slots split: if_splits)
    show "0 < p \<and> h \<in> set (st_sessions (sts ?m x)) \<and> s_position (ses ?m h) = p"
    proof (cases "x = st \<and> p = ?q \<and> 0 < ?q")
      case True
      then have "h = s" using h p' by (simp add: slots)
      then show ?thesis using True assms(3) pos [of s] by simp
    next
      case False
      then have old: "st_positions (sts ?m1 x) ! p = Some h"
        using h p' by (auto simp: slots nth_list_update split: if_splits)
      then have "h \<noteq> s" using claim_cleared_free [OF assms x' p'] by auto
      then show ?thesis
        using inv x' p' old seats sess by (auto simp: inv_positions_def pos)
    qed
  qed
qed

text \<open>A claim succeeds: the session stands at the position and nothing is written outside the array.\<close>

lemma claim_position:
  assumes "malloc_ok m" "claimed_position st s pos m + 1 < 2 ^ 32"
  shows "s_position (ses (seat_claim_position st s pos m) s) = claimed_position st s pos m"
    "0 < claimed_position st s pos m \<Longrightarrow>
     seat_get_position st (claimed_position st s pos m) (seat_claim_position st s pos m) = Some s"
    "m_abort (seat_claim_position st s pos m) = m_abort m"
proof -
  let ?q = "claimed_position st s pos m" and ?m1 = "claim_cleared st s pos m"
  have len: "?q < length (st_positions (sts ?m1 st))"
    by (rule claim_cleared_length [OF assms])
  have abort: "m_abort ?m1 = m_abort m"
    by (simp add: claim_cleared_def seat_evict_position_def Let_def)
  show "s_position (ses (seat_claim_position st s pos m) s) = ?q"
    by (simp add: claim_unfold Let_def upd_simps)
  show "seat_get_position st ?q (seat_claim_position st s pos m) = Some s" if "0 < ?q"
    using that len by (simp add: claim_unfold Let_def seat_get_position_def upd_simps)
  show "m_abort (seat_claim_position st s pos m) = m_abort m"
    using len abort by (simp add: claim_unfold Let_def)
qed

lemma wf_assign:
  assumes "wf m" "st \<in> set (m_seats m)" "s \<in> set (st_sessions (sts m st))"
  shows "wf (seat_assign_position st s m)"
  using assms wf_claim [OF assms] by (simp add: seat_assign_position_def)

subsection \<open>Attaching a session\<close>

definition link_seat :: "string \<Rightarrow> string \<Rightarrow> manager \<Rightarrow> manager" where
  "link_seat st s m =
     upd_seat st (st_sessions_update (\<lambda>l. s # l)) (upd_ses s (s_seat_update (\<lambda>_. Some st)) m)"

lemma link_seat_simps [simp]:
  "st_sessions (sts (link_seat st s m) x) =
     (if x = st then s # st_sessions (sts m x) else st_sessions (sts m x))"
  "st_active (sts (link_seat st s m) x) = st_active (sts m x)"
  "st_pending_switch (sts (link_seat st s m) x) = st_pending_switch (sts m x)"
  "st_positions (sts (link_seat st s m) x) = st_positions (sts m x)"
  "st_devices (sts (link_seat st s m) x) = st_devices (sts m x)"
  "st_in_gc_queue (sts (link_seat st s m) x) = st_in_gc_queue (sts m x)"
  "s_seat (ses (link_seat st s m) y) = (if y = s then Some st else s_seat (ses m y))"
  "s_user (ses (link_seat st s m) y) = s_user (ses m y)"
  "s_position (ses (link_seat st s m) y) = s_position (ses m y)"
  "s_devices (ses (link_seat st s m) y) = s_devices (ses m y)"
  "s_in_gc_queue (ses (link_seat st s m) y) = s_in_gc_queue (ses m y)"
  "s_leader (ses (link_seat st s m) y) = s_leader (ses m y)"
  "s_cgroup_control_inotify_wd (ses (link_seat st s m) y) = s_cgroup_control_inotify_wd (ses m y)"
  "s_vtnr (ses (link_seat st s m) y) = s_vtnr (ses m y)"
  "usr (link_seat st s m) = usr m" "dev (link_seat st s m) = dev m" "sdv (link_seat st s m) = sdv m"
  "m_seat_gc_queue (link_seat st s m) = m_seat_gc_queue m"
  "m_session_gc_queue (link_seat st s m) = m_session_gc_queue m"
  "m_user_gc_queue (link_seat st s m) = m_user_gc_queue m" "m_abort (link_seat st s m) = m_abort m"
  by (simp_all add: link_seat_def upd_simps)

lemma link_seat_tables: "same_tables m (link_seat st s m)"
  by (simp add: link_seat_def tables_upd)

lemmas link_seat_table_frame [simp] = same_tables_simps [OF link_seat_tables]

lemma wf_link_seat:
  assumes "wf m" "st \<in> set (m_seats m)" "s \<in> set (m_sessions m)" "s_seat (ses m s) = None"
    "s_user (ses m s) \<noteq> None"
  shows "wf (link_seat st s m)"
proof (rule wfI)
  let ?m = "link_seat st s m"
  note inv = wfD [OF assms(1)]
  have new: "s \<notin> set (st_sessions (sts m x))" if "x \<in> set (m_seats m)" for x
    using wf_seat_session(2) [OF assms(1) that] assms(4) by force
  show "inv_seats ?m"
    using inv(1) assms new by (simp add: inv_seats_def) metis
  show "inv_positions ?m"
    using inv(2) unfolding inv_positions_def by simp
  show "inv_sessions ?m"
    using inv(3) assms unfolding inv_sessions_def by simp
  show "inv_users ?m"
    using inv(4) inv_users_cong [of ?m m] by simp
  show "inv_devices ?m"
    using inv(5) inv_devices_cong [of ?m m] by simp
  have "n \<notin> set (s_devices (ses m s))" for n
    using inv(6) assms(3,4) unfolding inv_session_devices_def by blast
  then have "s_devices (ses m s) = []"
    by (cases "s_devices (ses m s)") auto
  then show "inv_session_devices ?m"
    using inv(6) unfolding inv_session_devices_def by simp blast
  show "inv_queues ?m"
    using inv(7) inv_queues_cong [of ?m m] by simp
  show "inv_leaders ?m"
    using inv(8) inv_leaders_cong [of ?m m] by simp
qed

lemma attach_unfold:
  assumes "s_seat (ses m s) = None"
  shows "seat_attach_session st s m =
     (if seat_has_vts st m \<longleftrightarrow> s_vtnr (ses m s) = 0 then (- EINVAL, m)
      else let m = seat_assign_position st s (link_seat st s m)
           in (0, if \<not> seat_has_vts st m then seat_set_active st (Some s) m else m))"
  using assms by (auto simp: seat_attach_session_def assert_that_def Let_def link_seat_def)

lemma wf_attach:
  assumes "wf m" "st \<in> set (m_seats m)" "s \<in> set (m_sessions m)" "s_seat (ses m s) = None"
    "s_user (ses m s) \<noteq> None"
  shows "wf (snd (seat_attach_session st s m))"
proof -
  let ?m1 = "link_seat st s m" and ?m2 = "seat_assign_position st s (link_seat st s m)"
  have "wf ?m1" by (rule wf_link_seat [OF assms])
  moreover have "st \<in> set (m_seats ?m1)" "s \<in> set (st_sessions (sts ?m1 st))"
    using assms by simp_all
  ultimately have "wf ?m2" by (rule wf_assign)
  moreover have "st \<in> set (m_seats ?m2)" "s \<in> set (st_sessions (sts ?m2 st))"
    using assms by simp_all
  ultimately have "wf (seat_set_active st (Some s) ?m2)"
    by (intro wf_seat_set_active) simp_all
  with \<open>wf ?m2\<close> assms show ?thesis by (simp add: attach_unfold Let_def)
qed

subsection \<open>Switching\<close>

lemma wf_upd_pending:
  assumes "wf m" "\<And>a. x = Some a \<Longrightarrow> a \<in> set (st_sessions (sts m st))"
  shows "wf (upd_seat st (st_pending_switch_update (\<lambda>_. x)) m)" (is "wf ?m")
proof (rule wfI)
  note inv = wfD [OF assms(1)]
  show "inv_seats ?m"
    using inv(1) assms(2) by (simp add: inv_seats_def upd_simps)
  show "inv_positions ?m" "inv_sessions ?m" "inv_users ?m" "inv_devices ?m" "inv_session_devices ?m"
    "inv_queues ?m" "inv_leaders ?m"
    using inv inv_congs(2-8) [of ?m m] by (simp_all add: upd_simps)
qed

lemma wf_complete_switch:
  assumes "wf m" "st \<in> set (m_seats m)"
  shows "wf (seat_complete_switch st m)"
proof (cases "st_pending_switch (sts m st)")
  case (Some x)
  let ?m = "upd_seat st (st_pending_switch_update (\<lambda>_. None)) m"
  have "x \<in> set (st_sessions (sts m st))"
    by (rule wf_pending [OF assms Some])
  then have "wf (seat_set_active st (Some x) ?m)"
    using assms by (intro wf_seat_set_active wf_upd_pending) (simp_all add: upd_simps)
  with Some show ?thesis by (simp add: seat_complete_switch_def)
qed (use assms in \<open>simp add: seat_complete_switch_def\<close>)

lemma wf_complete_pause:
  assumes "wf m" "fst sd \<in> set (m_sessions m)"
  shows "wf (session_device_complete_pause sd m)"
  using assms
  by (auto simp: session_device_complete_pause_def Let_def split: option.split
      intro!: wf_complete_switch dest: wf_session_seat(1))

lemma wf_activate:
  assumes "wf m" "s \<in> set (m_sessions m)"
  shows "wf (snd (session_activate s m))"
proof (cases "s_seat (ses m s)")
  case (Some st)
  let ?m = "upd_seat st (st_pending_switch_update (\<lambda>_. Some s))
    (assert_that (s_user (ses m s) \<noteq> None) m)"
  have st: "st \<in> set (m_seats m)" "s \<in> set (st_sessions (sts m st))"
    using wf_session_seat [OF assms Some] by auto
  have "wf ?m"
    using assms st by (intro wf_upd_pending) simp_all
  then show ?thesis
    using assms Some st
    by (simp add: session_activate_def Let_def case_prod_beta wf_complete_switch)
qed (use assms in \<open>simp add: session_activate_def\<close>)

lemma wf_activate_first:
  assumes "wf m" "st \<in> set (m_seats m)"
  shows "wf (snd (seat_activate_first st order m))"
proof -
  have "s \<in> set (m_sessions m)" if "seat_get_position st i m = Some s" for i s
    using wf_position(2) [OF assms that] wf_seat_session(1) [OF assms] by blast
  then show ?thesis
    using assms wf_activate [OF assms(1)]
    by (auto simp: seat_activate_first_def split: option.split dest: find_Some_in)
qed

lemma wf_switch:
  assumes "wf m" "st \<in> set (m_seats m)"
  shows "wf (snd (seat_switch_to st num m))" "wf (snd (seat_switch_to_next st m))"
    "wf (snd (seat_switch_to_previous st m))"
proof -
  have "s \<in> set (m_sessions m)" if "seat_get_position st num m = Some s" for s
    using wf_position(2) [OF assms that] wf_seat_session(1) [OF assms] by blast
  then show "wf (snd (seat_switch_to st num m))"
    using assms wf_activate [OF assms(1)] by (auto simp: seat_switch_to_def split: option.split)
  show "wf (snd (seat_switch_to_next st m))" "wf (snd (seat_switch_to_previous st m))"
    using assms wf_activate_first [OF assms]
    by (simp_all add: seat_switch_to_next_def seat_switch_to_previous_def Let_def)
qed

lemma wf_active_vt_changed:
  assumes "wf m" "st \<in> set (m_seats m)"
  shows "wf (snd (seat_active_vt_changed st vtnr m))"
  using assms
  by (auto simp: seat_active_vt_changed_def Let_def split: option.splits
      intro!: wf_seat_set_active dest: find_Some_in)

lemma wf_read_active_vt:
  assumes "wf m" "st \<in> set (m_seats m)"
  shows "wf (snd (seat_read_active_vt st m))"
  using assms wf_active_vt_changed [OF assms]
  by (auto simp: seat_read_active_vt_def split: sum.split)

end
