(* ===== verification/Device.thy ===== *)
theory Device
  imports Seat_Inv
begin

text \<open>
  \<^verbatim>\<open>logind-device.c\<close>: the devices assigned to seats. A seat's device list is kept with the
  master devices in front, so that \<^verbatim>\<open>seat_has_master_device\<close> only looks at the head.
\<close>

subsection \<open>Operations\<close>

definition device_new :: "string \<Rightarrow> bool \<Rightarrow> manager \<Rightarrow> manager option" where
  "device_new sysfs master m =
     (if sysfs \<in> set (m_devices m) then None
      else Some ((upd_dev sysfs
             (\<lambda>_. \<lparr>d_seat = None, d_master = master, d_timestamp = dual_timestamp_now m,
                   d_session_devices = []\<rparr>) m)\<lparr>m_devices := sysfs # m_devices m\<rparr>))"

text \<open>Detaching frees the session devices on the device first; each call takes the head off the
  list.\<close>

definition device_detach :: "string \<Rightarrow> manager \<Rightarrow> manager" where
  "device_detach d m =
     (case d_seat (dev m d) of
        None \<Rightarrow> m
      | Some st \<Rightarrow>
          let m = fold session_device_free (d_session_devices (dev m d)) m;
              m = upd_seat st (st_devices_update (remove1 d)) m;
              m = upd_dev d (d_seat_update (\<lambda>_. None)) m
          in if \<not> seat_has_master_device st m
             then seat_send_changed st [''CanGraphical''] (seat_add_to_gc_queue st m)
             else m)"

definition device_free :: "string \<Rightarrow> manager \<Rightarrow> manager" where
  "device_free d m = (let m = device_detach d m in m\<lparr>m_devices := remove1 d (m_devices m)\<rparr>)"

text \<open>A device that is not a master goes after the first device that is not one either, or to the
  end.\<close>

fun insert_device :: "(string \<Rightarrow> bool) \<Rightarrow> string \<Rightarrow> string list \<Rightarrow> string list" where
  "insert_device master d [] = []"
| "insert_device master d [i] = [i, d]"
| "insert_device master d (i # j # l) =
     (if \<not> master i then i # d # j # l else i # insert_device master d (j # l))"

definition device_attach :: "string \<Rightarrow> string \<Rightarrow> manager \<Rightarrow> manager" where
  "device_attach d st m =
     (if d_seat (dev m d) = Some st then m
      else
      let m = (if d_seat (dev m d) \<noteq> None then device_detach d m else m);
          m = upd_dev d (d_seat_update (\<lambda>_. Some st)) m;
          had_master = seat_has_master_device st m;
          m = upd_seat st (st_devices_update
                (\<lambda>l. if d_master (dev m d) \<or> l = [] then d # l
                     else insert_device (\<lambda>i. d_master (dev m i)) d l)) m
      in if \<not> had_master \<and> d_master (dev m d) \<and> st_started (sts m st)
         then seat_send_changed st [''CanGraphical''] (snd (seat_save st m))
         else m)"

subsection \<open>The order of the device list\<close>

definition masters_first :: "(string \<Rightarrow> bool) \<Rightarrow> string list \<Rightarrow> bool" where
  "masters_first master l \<longleftrightarrow> sorted_wrt (\<lambda>i j. master j \<longrightarrow> master i) l"

lemma insert_device_set: "l \<noteq> [] \<Longrightarrow> set (insert_device master d l) = insert d (set l)"
  by (induction master d l rule: insert_device.induct) auto

lemma insert_device_distinct:
  "distinct l \<Longrightarrow> d \<notin> set l \<Longrightarrow> distinct (insert_device master d l)"
proof (induction master d l rule: insert_device.induct)
  case (3 master d i j l)
  then show ?case by (auto simp: insert_device_set)
qed auto

lemma insert_device_masters_first:
  "masters_first master l \<Longrightarrow> \<not> master d \<Longrightarrow> masters_first master (insert_device master d l)"
proof (induction master d l rule: insert_device.induct)
  case (3 master d i j l)
  then show ?case by (auto simp: masters_first_def insert_device_set)
qed (auto simp: masters_first_def)

lemma masters_first_head:
  "masters_first master l \<Longrightarrow> (\<exists>i \<in> set l. master i) \<longleftrightarrow> l \<noteq> [] \<and> master (hd l)"
  by (cases l) (auto simp: masters_first_def)

lemma masters_first_remove1: "masters_first master l \<Longrightarrow> masters_first master (remove1 d l)"
  unfolding masters_first_def
proof (induction l)
  case (Cons i l)
  then show ?case using set_remove1_subset [of d l] by (auto simp del: set_remove1_subset)
qed simp

subsection \<open>Freeing a session device\<close>

lemma session_device_free_frame [simp]:
  "sts (session_device_free sd m) = sts m" "usr (session_device_free sd m) = usr m"
  "inh (session_device_free sd m) = inh m" "btn (session_device_free sd m) = btn m"
  "m_seat_gc_queue (session_device_free sd m) = m_seat_gc_queue m"
  "m_session_gc_queue (session_device_free sd m) = m_session_gc_queue m"
  "m_user_gc_queue (session_device_free sd m) = m_user_gc_queue m"
  by (simp_all add: session_device_free_def Let_def safe_close_def session_device_notify_def)

lemma session_device_free_tables: "same_tables m (session_device_free sd m)"
  by (simp add: session_device_free_def Let_def tables_upd tables_basic)

lemmas session_device_free_table_frame [simp] = same_tables_simps [OF session_device_free_tables]

lemma sdv_free [simp]:
  "sd_device (sdv (session_device_free sd m) x) = sd_device (sdv m x)"
  "sd_type (sdv (session_device_free sd m) x) = sd_type (sdv m x)"
  by (simp_all add: session_device_free_def Let_def)

lemma ses_free:
  "ses (session_device_free sd m) =
     (ses m)(fst sd := s_devices_update (remove1 (snd sd)) (ses m (fst sd)))"
  by (simp add: session_device_free_def Let_def upd_simps safe_close_def session_device_notify_def)

lemma dev_free:
  "dev (session_device_free sd m) =
     (dev m)(sd_device (sdv m sd) :=
        d_session_devices_update (remove1 sd) (dev m (sd_device (sdv m sd))))"
  by (simp add: session_device_free_def Let_def upd_simps safe_close_def session_device_notify_def)

lemma wf_session_device_free:
  assumes "wf m" "fst sd \<in> set (m_sessions m)" "snd sd \<in> set (s_devices (ses m (fst sd)))"
  shows "wf (session_device_free sd m)"
proof (rule wfI)
  let ?m = "session_device_free sd m" and ?d = "sd_device (sdv m sd)"
  obtain s n where sd: "sd = (s, n)" by (cases sd)
  note inv = wfD [OF assms(1)]
  have d: "?d \<in> set (m_devices m)"
    using wf_session_device(2) [OF assms] by simp
  have dist: "distinct (s_devices (ses m s))" "distinct (d_session_devices (dev m ?d))"
    using wf_distinct(5,6) [OF assms(1)] assms(2) d sd by auto
  show "inv_seats ?m" using inv(1) inv_seats_cong [of ?m m] by (simp add: ses_free)
  show "inv_positions ?m" using inv(2) inv_positions_cong [of ?m m] by (simp add: ses_free)
  show "inv_sessions ?m" using inv(3) inv_sessions_cong [of ?m m] by (simp add: ses_free)
  show "inv_users ?m" using inv(4) inv_users_cong [of ?m m] by (simp add: ses_free)
  show "inv_queues ?m" using inv(7) inv_queues_cong [of ?m m] by (simp add: ses_free)
  show "inv_leaders ?m" using inv(8) inv_leaders_cong [of ?m m] by (simp add: ses_free)
  have dsd: "set (d_session_devices (dev ?m x)) =
      (if x = ?d then set (d_session_devices (dev m x)) - {sd} else set (d_session_devices (dev m x)))"
    "distinct (d_session_devices (dev m x)) \<Longrightarrow> distinct (d_session_devices (dev ?m x))"
    "d_seat (dev ?m x) = d_seat (dev m x)" for x
    using dist by (simp_all add: dev_free set_remove1_distinct)
  have sdd: "set (s_devices (ses ?m x)) =
      (if x = s then set (s_devices (ses m x)) - {n} else set (s_devices (ses m x)))"
    "distinct (s_devices (ses m x)) \<Longrightarrow> distinct (s_devices (ses ?m x))"
    "s_seat (ses ?m x) = s_seat (ses m x)" for x
    using dist by (simp_all add: ses_free sd set_remove1_distinct)
  show "inv_devices ?m" using inv(5) inv_devices_cong [of ?m m] by (simp add: dsd)
  show "inv_session_devices ?m"
    unfolding inv_session_devices_def
  proof (intro conjI ballI allI impI)
    fix x y k
    assume x: "x \<in> set (m_devices ?m)" and yk: "(y, k) \<in> set (d_session_devices (dev ?m x))"
    have x': "x \<in> set (m_devices m)" and yk': "(y, k) \<in> set (d_session_devices (dev m x))"
      using x yk by (auto simp: dsd split: if_splits)
    note old = wf_device_session_device [OF assms(1) x' yk', unfolded fst_conv snd_conv]
    have "(y, k) \<noteq> sd" using yk old(3) by (auto simp: dsd split: if_splits)
    then have "\<not> (y = s \<and> k = n)" by (simp add: sd)
    then show "y \<in> set (m_sessions ?m)" "k \<in> set (s_devices (ses ?m y))" "sd_device (sdv ?m (y, k)) = x"
      using old by (auto simp: sdd)
  next
    fix y k
    assume y: "y \<in> set (m_sessions ?m)" and k: "k \<in> set (s_devices (ses ?m y))"
    have y': "y \<in> set (m_sessions m)" and k': "k \<in> set (s_devices (ses m y))"
      using y k by (auto simp: sdd split: if_splits)
    have "\<not> (y = s \<and> k = n)" using k by (auto simp: sdd split: if_splits)
    then have ne: "(y, k) \<noteq> sd" by (simp add: sd)
    note old = wf_session_device [of m "(y, k)", OF assms(1), unfolded fst_conv snd_conv, OF y' k']
    show "sd_type (sdv ?m (y, k)) \<noteq> DEVICE_TYPE_UNKNOWN"
      "sd_device (sdv ?m (y, k)) \<in> set (m_devices ?m)"
      "(y, k) \<in> set (d_session_devices (dev ?m (sd_device (sdv ?m (y, k)))))"
      "s_seat (ses ?m y) \<noteq> None"
      "d_seat (dev ?m (sd_device (sdv ?m (y, k)))) = s_seat (ses ?m y)"
      using old ne by (auto simp: dsd sdd)
  qed (simp_all add: dsd sdd wf_distinct [OF assms(1)])
qed

text \<open>Freeing all session devices of a device, or of a session, leaves none.\<close>

lemma fold_session_device_free:
  assumes "wf m" "distinct sds"
    "\<And>sd. sd \<in> set sds \<Longrightarrow> fst sd \<in> set (m_sessions m) \<and> snd sd \<in> set (s_devices (ses m (fst sd)))"
  shows "wf (fold session_device_free sds m) \<and>
    (\<forall>s. set (s_devices (ses (fold session_device_free sds m) s)) =
       {n \<in> set (s_devices (ses m s)). (s, n) \<notin> set sds})"
  using assms
proof (induction sds arbitrary: m)
  case (Cons sd sds)
  let ?m = "session_device_free sd m"
  have sd: "fst sd \<in> set (m_sessions m)" "snd sd \<in> set (s_devices (ses m (fst sd)))"
    using Cons.prems(3) [of sd] by auto
  have wf: "wf ?m" by (rule wf_session_device_free [OF Cons.prems(1) sd])
  have devs: "set (s_devices (ses ?m x)) = {n \<in> set (s_devices (ses m x)). (x, n) \<noteq> sd}" for x
    using wf_distinct(5) [OF Cons.prems(1) sd(1)]
    by (cases sd) (auto simp: ses_free set_remove1_distinct)
  have rest: "fst x \<in> set (m_sessions ?m) \<and> snd x \<in> set (s_devices (ses ?m (fst x)))"
    if "x \<in> set sds" for x
    using Cons.prems(2) Cons.prems(3) [of x] that by (auto simp: devs)
  have "distinct sds" using Cons.prems(2) by simp
  from Cons.IH [OF wf this rest] show ?case
    by (auto simp: devs)
qed auto

lemma fold_session_device_free_frame [simp]:
  "sts (fold session_device_free sds m) = sts m" "usr (fold session_device_free sds m) = usr m"
  "inh (fold session_device_free sds m) = inh m" "btn (fold session_device_free sds m) = btn m"
  "m_seat_gc_queue (fold session_device_free sds m) = m_seat_gc_queue m"
  "m_session_gc_queue (fold session_device_free sds m) = m_session_gc_queue m"
  "m_user_gc_queue (fold session_device_free sds m) = m_user_gc_queue m"
  by (induction sds arbitrary: m) simp_all

lemma fold_session_device_free_tables: "same_tables m (fold session_device_free sds m)"
  by (induction sds arbitrary: m) (auto intro: same_tables_trans session_device_free_tables)

lemmas fold_free_table_frame [simp] = same_tables_simps [OF fold_session_device_free_tables]

lemma fold_free_dev [simp]:
  "d_seat (dev (fold session_device_free sds m) d) = d_seat (dev m d)"
  "d_master (dev (fold session_device_free sds m) d) = d_master (dev m d)"
  by (induction sds arbitrary: m) (simp_all add: dev_free)

lemma fold_free_sdv [simp]:
  "sd_device (sdv (fold session_device_free sds m) x) = sd_device (sdv m x)"
  "sd_type (sdv (fold session_device_free sds m) x) = sd_type (sdv m x)"
  by (induction sds arbitrary: m) simp_all

text \<open>Everything of a session but its devices stays.\<close>

lemma fold_free_ses:
  "(ses (fold session_device_free sds m) s)\<lparr>s_devices := []\<rparr> = (ses m s)\<lparr>s_devices := []\<rparr>"
  by (induction sds arbitrary: m) (simp_all add: ses_free)

lemma fold_free_ses_fields [simp]:
  "s_seat (ses (fold session_device_free sds m) s) = s_seat (ses m s)"
  "s_user (ses (fold session_device_free sds m) s) = s_user (ses m s)"
  "s_position (ses (fold session_device_free sds m) s) = s_position (ses m s)"
  "s_in_gc_queue (ses (fold session_device_free sds m) s) = s_in_gc_queue (ses m s)"
  "s_leader (ses (fold session_device_free sds m) s) = s_leader (ses m s)"
  "s_cgroup_control_inotify_wd (ses (fold session_device_free sds m) s) =
     s_cgroup_control_inotify_wd (ses m s)"
  "s_started (ses (fold session_device_free sds m) s) = s_started (ses m s)"
  "s_stopping (ses (fold session_device_free sds m) s) = s_stopping (ses m s)"
  "s_class (ses (fold session_device_free sds m) s) = s_class (ses m s)"
  "s_type (ses (fold session_device_free sds m) s) = s_type (ses m s)"
  "s_vtnr (ses (fold session_device_free sds m) s) = s_vtnr (ses m s)"
  "s_controller (ses (fold session_device_free sds m) s) = s_controller (ses m s)"
  using fold_free_ses [of sds m s]
  by (cases "ses (fold session_device_free sds m) s"; cases "ses m s"; simp)+

lemma device_all_freed:
  assumes "wf m" "d \<in> set (m_devices m)"
  shows "wf (fold session_device_free (d_session_devices (dev m d)) m)"
    "d_session_devices (dev (fold session_device_free (d_session_devices (dev m d)) m) d) = []"
proof -
  let ?sds = "d_session_devices (dev m d)"
  let ?m = "fold session_device_free ?sds m"
  have sds: "fst sd \<in> set (m_sessions m) \<and> snd sd \<in> set (s_devices (ses m (fst sd)))"
    if "sd \<in> set ?sds" for sd
    using wf_device_session_device [OF assms that] by auto
  note free = fold_session_device_free [OF assms(1) wf_distinct(6) [OF assms] sds]
  show wf: "wf ?m" using free by blast
  have "sd \<notin> set (d_session_devices (dev ?m d))" for sd
  proof
    assume sd: "sd \<in> set (d_session_devices (dev ?m d))"
    have "snd sd \<in> set (s_devices (ses ?m (fst sd)))" "sd_device (sdv ?m sd) = d"
      using wf_device_session_device [OF wf _ sd] assms(2) by simp_all
    then have "snd sd \<in> set (s_devices (ses m (fst sd)))" "sd \<notin> set ?sds" "sd_device (sdv m sd) = d"
      using free by auto
    moreover have "fst sd \<in> set (m_sessions m)"
      using wf_device_session_device(1) [OF wf _ sd] assms(2) by simp
    ultimately show False
      using wf_session_device(3) [OF assms(1)] by blast
  qed
  then show "d_session_devices (dev ?m d) = []"
    by (cases "d_session_devices (dev ?m d)") auto
qed

subsection \<open>Attaching and detaching keep the object graph\<close>

lemma gc_queue_frame [simp]:
  "ses (seat_add_to_gc_queue st m) = ses m" "usr (seat_add_to_gc_queue st m) = usr m"
  "dev (seat_add_to_gc_queue st m) = dev m" "sdv (seat_add_to_gc_queue st m) = sdv m"
  "inh (seat_add_to_gc_queue st m) = inh m" "btn (seat_add_to_gc_queue st m) = btn m"
  "m_session_gc_queue (seat_add_to_gc_queue st m) = m_session_gc_queue m"
  "m_user_gc_queue (seat_add_to_gc_queue st m) = m_user_gc_queue m"
  "m_abort (seat_add_to_gc_queue st m) = m_abort m"
  "m_trace (seat_add_to_gc_queue st m) = m_trace m"
  by (simp_all add: seat_add_to_gc_queue_def upd_seat_def)

lemma gc_queue_sts [simp]:
  "st_active (sts (seat_add_to_gc_queue st m) x) = st_active (sts m x)"
  "st_pending_switch (sts (seat_add_to_gc_queue st m) x) = st_pending_switch (sts m x)"
  "st_positions (sts (seat_add_to_gc_queue st m) x) = st_positions (sts m x)"
  "st_sessions (sts (seat_add_to_gc_queue st m) x) = st_sessions (sts m x)"
  "st_devices (sts (seat_add_to_gc_queue st m) x) = st_devices (sts m x)"
  "st_started (sts (seat_add_to_gc_queue st m) x) = st_started (sts m x)"
  by (simp_all add: seat_add_to_gc_queue_def upd_seat_def)

lemma gc_queue_tables: "same_tables m (seat_add_to_gc_queue st m)"
  by (simp add: seat_add_to_gc_queue_def tables_upd tables_queues)

lemmas gc_queue_table_frame [simp] = same_tables_simps [OF gc_queue_tables]

lemma wf_seat_add_to_gc_queue:
  assumes "wf m" "st \<in> set (m_seats m)"
  shows "wf (seat_add_to_gc_queue st m)" (is "wf ?m")
proof (rule wfI)
  note inv = wfD [OF assms(1)]
  show "inv_seats ?m" "inv_positions ?m" "inv_sessions ?m" "inv_users ?m" "inv_devices ?m"
    "inv_session_devices ?m" "inv_leaders ?m"
    using inv inv_congs(1-6,8) [of ?m m] by simp_all
  show "inv_queues ?m"
    using inv(7) assms(2) by (auto simp: inv_queues_def seat_add_to_gc_queue_def upd_seat_def)
qed

text \<open>Taking a device without session devices off its seat.\<close>

definition unlink_device :: "string \<Rightarrow> string \<Rightarrow> manager \<Rightarrow> manager" where
  "unlink_device d st m =
     upd_dev d (d_seat_update (\<lambda>_. None)) (upd_seat st (st_devices_update (remove1 d)) m)"

lemma unlink_device_simps [simp]:
  "d_seat (dev (unlink_device d st m) x) = (if x = d then None else d_seat (dev m x))"
  "d_master (dev (unlink_device d st m) x) = d_master (dev m x)"
  "d_session_devices (dev (unlink_device d st m) x) = d_session_devices (dev m x)"
  "st_devices (sts (unlink_device d st m) y) =
     (if y = st then remove1 d (st_devices (sts m y)) else st_devices (sts m y))"
  "st_active (sts (unlink_device d st m) y) = st_active (sts m y)"
  "st_pending_switch (sts (unlink_device d st m) y) = st_pending_switch (sts m y)"
  "st_positions (sts (unlink_device d st m) y) = st_positions (sts m y)"
  "st_sessions (sts (unlink_device d st m) y) = st_sessions (sts m y)"
  "st_in_gc_queue (sts (unlink_device d st m) y) = st_in_gc_queue (sts m y)"
  "ses (unlink_device d st m) = ses m" "usr (unlink_device d st m) = usr m"
  "sdv (unlink_device d st m) = sdv m"
  "m_seat_gc_queue (unlink_device d st m) = m_seat_gc_queue m"
  "m_session_gc_queue (unlink_device d st m) = m_session_gc_queue m"
  "m_user_gc_queue (unlink_device d st m) = m_user_gc_queue m"
  by (simp_all add: unlink_device_def upd_simps)

lemma unlink_device_tables: "same_tables m (unlink_device d st m)"
  by (simp add: unlink_device_def tables_upd)

lemmas unlink_device_table_frame [simp] = same_tables_simps [OF unlink_device_tables]

lemma no_session_device:
  assumes "wf m" "d_session_devices (dev m d) = []" "fst sd \<in> set (m_sessions m)"
    "snd sd \<in> set (s_devices (ses m (fst sd)))"
  shows "sd_device (sdv m sd) \<noteq> d"
  using wf_session_device(3) [OF assms(1,3,4)] assms(2) by auto

text \<open>The links of a session device survive when devices without any change their seat.\<close>

lemma inv_session_devices_other_seat:
  assumes "wf m" "d_session_devices (dev m d) = []"
    "m_devices m' = m_devices m" "m_sessions m' = m_sessions m" "ses m' = ses m" "sdv m' = sdv m"
    "\<And>x. d_session_devices (dev m' x) = d_session_devices (dev m x)"
    "\<And>x. x \<noteq> d \<Longrightarrow> d_seat (dev m' x) = d_seat (dev m x)"
  shows "inv_session_devices m'"
proof -
  have "sd_device (sdv m (s, n)) \<noteq> d"
    if "s \<in> set (m_sessions m)" "n \<in> set (s_devices (ses m s))" for s n
    using no_session_device [OF assms(1,2), of "(s, n)"] that by simp
  then have "d_seat (dev m' (sd_device (sdv m (s, n)))) = d_seat (dev m (sd_device (sdv m (s, n))))"
    if "s \<in> set (m_sessions m)" "n \<in> set (s_devices (ses m s))" for s n
    using that by (intro assms(8)) auto
  then show ?thesis
    using wfD(6) [OF assms(1)] unfolding inv_session_devices_def assms(3-7) by metis
qed

lemma wf_unlink_device:
  assumes "wf m" "d \<in> set (m_devices m)" "d_seat (dev m d) = Some st"
    "d_session_devices (dev m d) = []"
  shows "wf (unlink_device d st m)" (is "wf ?m")
proof (rule wfI)
  note inv = wfD [OF assms(1)]
  show "inv_seats ?m" "inv_positions ?m" "inv_sessions ?m" "inv_users ?m" "inv_queues ?m" "inv_leaders ?m"
    using inv inv_congs(1-4,7,8) [of ?m m] by simp_all
  show "inv_session_devices ?m"
    by (rule inv_session_devices_other_seat [OF assms(1,4)]) simp_all
  have st: "st \<in> set (m_seats m)" and dist: "distinct (st_devices (sts m st))"
    using wf_device_seat(1) [OF assms(1-3)] wf_distinct(7) [OF assms(1)] by auto
  have own: "d_seat (dev m x) = Some y" if "y \<in> set (m_seats m)" "x \<in> set (st_devices (sts m y))" for x y
    using wf_seat_device(2) [OF assms(1) that] .
  show "inv_devices ?m"
    unfolding inv_devices_def
  proof (intro conjI ballI allI impI)
    fix x y assume x: "x \<in> set (m_devices ?m)" and y: "d_seat (dev ?m x) = Some y"
    have "x \<noteq> d" "d_seat (dev m x) = Some y" using y by (auto split: if_splits)
    then show "y \<in> set (m_seats ?m)" "x \<in> set (st_devices (sts ?m y))"
      using wf_device_seat [OF assms(1), of x y] x by auto
  next
    fix x y assume y: "y \<in> set (m_seats ?m)" and x: "x \<in> set (st_devices (sts ?m y))"
    have y': "y \<in> set (m_seats m)" and x': "x \<in> set (st_devices (sts m y))"
      using x y set_remove1_subset [of d "st_devices (sts m y)"] by (auto split: if_splits)
    have "x \<noteq> d"
      using x own [OF y' x'] assms(3) dist by (auto simp: set_remove1_distinct split: if_splits)
    then show "x \<in> set (m_devices ?m)" "d_seat (dev ?m x) = Some y"
      using wf_seat_device [OF assms(1) y' x'] by simp_all
  qed (use wf_distinct(4,7) [OF assms(1)] dist in \<open>auto simp: distinct_remove1\<close>)
qed

lemma device_detach_unfold:
  assumes "d_seat (dev m d) = Some st"
  shows "device_detach d m =
    (let m = unlink_device d st (fold session_device_free (d_session_devices (dev m d)) m)
     in if \<not> seat_has_master_device st m
        then seat_send_changed st [''CanGraphical''] (seat_add_to_gc_queue st m) else m)"
  using assms by (simp add: device_detach_def unlink_device_def Let_def)

lemma wf_device_detach:
  assumes "wf m" "d \<in> set (m_devices m)"
  shows "wf (device_detach d m) \<and> d_seat (dev (device_detach d m) d) = None \<and>
    (d_seat (dev m d) \<noteq> None \<longrightarrow> d_session_devices (dev (device_detach d m) d) = [])"
proof (cases "d_seat (dev m d)")
  case (Some st)
  let ?m1 = "fold session_device_free (d_session_devices (dev m d)) m"
  have "wf (unlink_device d st ?m1)"
    using device_all_freed [OF assms] assms(2) Some by (intro wf_unlink_device) simp_all
  moreover have "st \<in> set (m_seats m)"
    using wf_device_seat(1) [OF assms Some] .
  ultimately show ?thesis
    using device_all_freed(2) [OF assms] wf_seat_add_to_gc_queue
    by (simp add: device_detach_unfold [OF Some] Let_def)
qed (use assms in \<open>simp add: device_detach_def\<close>)

lemma device_detach_tables: "same_tables m (device_detach d m)"
proof (cases "d_seat (dev m d)")
  case (Some st)
  have "same_tables m (unlink_device d st (fold session_device_free sds m))" for sds
    using same_tables_trans [OF fold_session_device_free_tables unlink_device_tables] .
  then show ?thesis
    by (simp add: device_detach_unfold [OF Some] Let_def tables_basic
        same_tables_trans [OF _ gc_queue_tables])
qed (simp add: device_detach_def)

lemmas device_detach_table_frame [simp] = same_tables_simps [OF device_detach_tables]

lemma device_detach_sessions [simp]:
  "s_seat (ses (device_detach d m) s) = s_seat (ses m s)"
  "s_user (ses (device_detach d m) s) = s_user (ses m s)"
  "st_sessions (sts (device_detach d m) st) = st_sessions (sts m st)"
  "st_active (sts (device_detach d m) st) = st_active (sts m st)"
  "st_started (sts (device_detach d m) st) = st_started (sts m st)"
  "d_master (dev (device_detach d m) x) = d_master (dev m x)"
proof -
  have "s_seat (ses (device_detach d m) s) = s_seat (ses m s) \<and>
    s_user (ses (device_detach d m) s) = s_user (ses m s) \<and>
    st_sessions (sts (device_detach d m) st) = st_sessions (sts m st) \<and>
    st_active (sts (device_detach d m) st) = st_active (sts m st) \<and>
    st_started (sts (device_detach d m) st) = st_started (sts m st) \<and>
    d_master (dev (device_detach d m) x) = d_master (dev m x)"
    by (cases "d_seat (dev m d)")
      (simp_all add: device_detach_def upd_simps Let_def)
  then show "s_seat (ses (device_detach d m) s) = s_seat (ses m s)"
    "s_user (ses (device_detach d m) s) = s_user (ses m s)"
    "st_sessions (sts (device_detach d m) st) = st_sessions (sts m st)"
    "st_active (sts (device_detach d m) st) = st_active (sts m st)"
    "st_started (sts (device_detach d m) st) = st_started (sts m st)"
    "d_master (dev (device_detach d m) x) = d_master (dev m x)"
    by blast+
qed

lemma no_session_devices_without_seat:
  assumes "wf m" "d \<in> set (m_devices m)" "d_seat (dev m d) = None"
  shows "d_session_devices (dev m d) = []"
proof -
  have "sd \<notin> set (d_session_devices (dev m d))" for sd
    using wf_device_session_device [OF assms(1,2), of sd] wf_session_device(4,5) [OF assms(1), of sd]
      assms(3) by metis
  then show ?thesis by (cases "d_session_devices (dev m d)") auto
qed

lemma wf_device_free:
  assumes "wf m" "d \<in> set (m_devices m)"
  shows "wf (device_free d m)" "m_devices (device_free d m) = remove1 d (m_devices m)"
proof -
  let ?m1 = "device_detach d m"
  let ?m = "?m1\<lparr>m_devices := remove1 d (m_devices ?m1)\<rparr>"
  have wf: "wf ?m1" and seat: "d_seat (dev ?m1 d) = None"
    using wf_device_detach [OF assms] by auto
  have d: "d \<in> set (m_devices ?m1)" using assms(2) by simp
  have none: "d_session_devices (dev ?m1 d) = []"
    by (rule no_session_devices_without_seat [OF wf d seat])
  have devs: "set (m_devices ?m) = set (m_devices ?m1) - {d}"
    using wf_distinct(4) [OF wf] by (simp add: set_remove1_distinct del: device_detach_table_frame)
  note inv = wfD [OF wf]
  have "wf ?m"
  proof (rule wfI)
    show "inv_seats ?m" "inv_positions ?m" "inv_sessions ?m" "inv_users ?m" "inv_queues ?m"
      "inv_leaders ?m"
      using inv inv_congs(1-4,7,8) [of ?m ?m1] by simp_all
    show "inv_devices ?m"
    proof (rule inv_devicesI)
      fix x y assume x: "x \<in> set (m_devices ?m)" and y: "d_seat (dev ?m x) = Some y"
      have "x \<in> set (m_devices ?m1)" "d_seat (dev ?m1 x) = Some y"
        using x y devs by simp_all
      from wf_device_seat [OF wf this]
      show "y \<in> set (m_seats ?m) \<and> x \<in> set (st_devices (sts ?m y))" by simp
    next
      fix y x assume y: "y \<in> set (m_seats ?m)" and x: "x \<in> set (st_devices (sts ?m y))"
      have "y \<in> set (m_seats ?m1)" "x \<in> set (st_devices (sts ?m1 y))"
        using x y by simp_all
      note old = wf_seat_device [OF wf this]
      then have "x \<noteq> d" using seat by (metis option.distinct(1))
      then show "x \<in> set (m_devices ?m) \<and> d_seat (dev ?m x) = Some y"
        using old devs by simp
    qed (use wf_distinct(4,7) [OF wf] in \<open>simp_all add: distinct_remove1\<close>)
    show "inv_session_devices ?m"
    proof (rule inv_session_devicesI)
      fix s n assume "s \<in> set (m_sessions ?m)" "n \<in> set (s_devices (ses ?m s))"
      then have sn: "s \<in> set (m_sessions ?m1)" "n \<in> set (s_devices (ses ?m1 s))"
        by simp_all
      have "sd_device (sdv ?m1 (s, n)) \<noteq> d"
        using no_session_device [OF wf none, of "(s, n)"] sn by simp
      then show "sd_type (sdv ?m (s, n)) \<noteq> DEVICE_TYPE_UNKNOWN \<and>
          sd_device (sdv ?m (s, n)) \<in> set (m_devices ?m) \<and>
          (s, n) \<in> set (d_session_devices (dev ?m (sd_device (sdv ?m (s, n))))) \<and>
          s_seat (ses ?m s) \<noteq> None \<and> d_seat (dev ?m (sd_device (sdv ?m (s, n)))) = s_seat (ses ?m s)"
        using wf_sd [OF wf sn] devs by simp
    next
      fix x s n assume "x \<in> set (m_devices ?m)" "(s, n) \<in> set (d_session_devices (dev ?m x))"
      then show "s \<in> set (m_sessions ?m) \<and> n \<in> set (s_devices (ses ?m s)) \<and> sd_device (sdv ?m (s, n)) = x"
        using wf_dsd [OF wf, of x s n] devs by simp
    qed (use wf_distinct(5,6) [OF wf] devs in simp_all)
  qed
  then show "wf (device_free d m)" "m_devices (device_free d m) = remove1 d (m_devices m)"
    by (simp_all add: device_free_def Let_def)
qed

text \<open>Putting a device without session devices on a seat.\<close>

definition link_device :: "string \<Rightarrow> string \<Rightarrow> (string list \<Rightarrow> string list) \<Rightarrow> manager \<Rightarrow> manager" where
  "link_device d st ins m =
     upd_seat st (st_devices_update ins) (upd_dev d (d_seat_update (\<lambda>_. Some st)) m)"

lemma link_device_simps [simp]:
  "d_seat (dev (link_device d st ins m) x) = (if x = d then Some st else d_seat (dev m x))"
  "d_master (dev (link_device d st ins m) x) = d_master (dev m x)"
  "d_session_devices (dev (link_device d st ins m) x) = d_session_devices (dev m x)"
  "st_devices (sts (link_device d st ins m) y) =
     (if y = st then ins (st_devices (sts m y)) else st_devices (sts m y))"
  "st_active (sts (link_device d st ins m) y) = st_active (sts m y)"
  "st_pending_switch (sts (link_device d st ins m) y) = st_pending_switch (sts m y)"
  "st_positions (sts (link_device d st ins m) y) = st_positions (sts m y)"
  "st_sessions (sts (link_device d st ins m) y) = st_sessions (sts m y)"
  "st_in_gc_queue (sts (link_device d st ins m) y) = st_in_gc_queue (sts m y)"
  "st_started (sts (link_device d st ins m) y) = st_started (sts m y)"
  "ses (link_device d st ins m) = ses m" "usr (link_device d st ins m) = usr m"
  "sdv (link_device d st ins m) = sdv m"
  "m_seat_gc_queue (link_device d st ins m) = m_seat_gc_queue m"
  "m_session_gc_queue (link_device d st ins m) = m_session_gc_queue m"
  "m_user_gc_queue (link_device d st ins m) = m_user_gc_queue m"
  by (simp_all add: link_device_def upd_simps)

lemma link_device_tables: "same_tables m (link_device d st ins m)"
  by (simp add: link_device_def tables_upd)

lemmas link_device_table_frame [simp] = same_tables_simps [OF link_device_tables]

lemma wf_link_device:
  assumes "wf m" "d \<in> set (m_devices m)" "d_seat (dev m d) = None" "st \<in> set (m_seats m)"
    and ins: "set (ins (st_devices (sts m st))) = insert d (set (st_devices (sts m st)))"
      "distinct (ins (st_devices (sts m st)))"
  shows "wf (link_device d st ins m)" (is "wf ?m")
proof (rule wfI)
  note inv = wfD [OF assms(1)]
  show "inv_seats ?m" "inv_positions ?m" "inv_sessions ?m" "inv_users ?m" "inv_queues ?m" "inv_leaders ?m"
    using inv inv_congs(1-4,7,8) [of ?m m] by simp_all
  show "inv_session_devices ?m"
    by (rule inv_session_devices_other_seat
        [OF assms(1) no_session_devices_without_seat [OF assms(1-3)]]) simp_all
  show "inv_devices ?m"
  proof (rule inv_devicesI)
    fix x y assume x: "x \<in> set (m_devices ?m)" and y: "d_seat (dev ?m x) = Some y"
    show "y \<in> set (m_seats ?m) \<and> x \<in> set (st_devices (sts ?m y))"
    proof (cases "x = d")
      case True
      with y assms(4) ins show ?thesis by simp
    next
      case False
      with x y wf_device_seat [OF assms(1), of x y] ins show ?thesis by auto
    qed
  next
    fix y x assume y: "y \<in> set (m_seats ?m)" and x: "x \<in> set (st_devices (sts ?m y))"
    show "x \<in> set (m_devices ?m) \<and> d_seat (dev ?m x) = Some y"
    proof (cases "x = d")
      case True
      have "d \<notin> set (st_devices (sts m y))"
        using wf_seat_device(2) [OF assms(1), of y d] y assms(3) by auto
      with True x assms(2) show ?thesis by (auto split: if_splits)
    next
      case False
      with x y ins have "x \<in> set (st_devices (sts m y))" "y \<in> set (m_seats m)"
        by (auto split: if_splits)
      with False wf_seat_device [OF assms(1), of y x] show ?thesis by simp
    qed
  qed (use wf_distinct(4,7) [OF assms(1)] ins in simp_all)
qed

text \<open>The list operation of \<^verbatim>\<open>device_attach\<close>.\<close>

definition place_device :: "(string \<Rightarrow> bool) \<Rightarrow> string \<Rightarrow> string list \<Rightarrow> string list" where
  "place_device master d l = (if master d \<or> l = [] then d # l else insert_device master d l)"

lemma place_device_set: "set (place_device master d l) = insert d (set l)"
  by (simp add: place_device_def insert_device_set)

lemma place_device_distinct: "distinct l \<Longrightarrow> d \<notin> set l \<Longrightarrow> distinct (place_device master d l)"
  by (simp add: place_device_def insert_device_distinct)

lemma place_device_masters_first:
  "masters_first master l \<Longrightarrow> masters_first master (place_device master d l)"
  by (auto simp: place_device_def insert_device_masters_first) (simp_all add: masters_first_def)

lemma device_attach_unfold:
  "device_attach d st m =
     (if d_seat (dev m d) = Some st then m
      else let m1 = (if d_seat (dev m d) \<noteq> None then device_detach d m else m);
               m2 = link_device d st (place_device (\<lambda>i. d_master (dev m i)) d) m1
           in if \<not> seat_has_master_device st m1 \<and> d_master (dev m d) \<and> st_started (sts m st)
              then seat_send_changed st [''CanGraphical''] (snd (seat_save st m2)) else m2)"
proof -
  have hm: "seat_has_master_device st (upd_dev d (d_seat_update f) x) = seat_has_master_device st x"
    for f x
    by (simp add: seat_has_master_device_def upd_simps split: list.split)
  have pd: "(\<lambda>l. if d_master (dev x d) \<or> l = [] then d # l
                 else insert_device (\<lambda>i. d_master (dev x i)) d l) =
            place_device (\<lambda>i. d_master (dev x i)) d" for x
    by (simp add: place_device_def fun_eq_iff)
  have dm: "d_master (dev (upd_dev d (d_seat_update f) x) i) = d_master (dev x i)" for f x i
    by (simp add: upd_simps)
  show ?thesis
    by (simp add: device_attach_def Let_def hm pd dm link_device_def upd_simps(2))
qed

lemma wf_device_attach:
  assumes "wf m" "d \<in> set (m_devices m)" "st \<in> set (m_seats m)"
  shows "wf (device_attach d st m)" "d_seat (dev (device_attach d st m) d) = Some st"
proof -
  let ?m1 = "if d_seat (dev m d) \<noteq> None then device_detach d m else m"
  let ?ins = "place_device (\<lambda>i. d_master (dev m i)) d"
  have wf1: "wf ?m1" and none: "d_seat (dev ?m1 d) = None"
    using wf_device_detach [OF assms(1,2)] assms(1) by auto
  have d1: "d \<in> set (m_devices ?m1)" and st1: "st \<in> set (m_seats ?m1)"
    using assms by simp_all
  have "d \<notin> set (st_devices (sts ?m1 st))"
    using wf_seat_device(2) [OF wf1 st1] none by force
  then have "wf (link_device d st ?ins ?m1)"
    using wf1 d1 none st1 wf_distinct(7) [OF wf1 st1]
    by (intro wf_link_device) (simp_all add: place_device_set place_device_distinct)
  then show "wf (device_attach d st m)" "d_seat (dev (device_attach d st m) d) = Some st"
    using assms(1) by (simp_all add: device_attach_unfold Let_def)
qed

lemma device_attach_tables: "same_tables m (device_attach d st m)"
  by (simp add: device_attach_unfold Let_def tables_basic
      same_tables_trans [OF device_detach_tables link_device_tables] link_device_tables)

lemmas device_attach_table_frame [simp] = same_tables_simps [OF device_attach_tables]

lemma wf_device_new:
  assumes "wf m" "device_new sysfs master m = Some m'"
  shows "wf m'" "m_devices m' = sysfs # m_devices m" "d_seat (dev m' sysfs) = None"
proof -
  have new: "sysfs \<notin> set (m_devices m)" and m': "m' = (upd_dev sysfs
             (\<lambda>_. \<lparr>d_seat = None, d_master = master, d_timestamp = dual_timestamp_now m,
                   d_session_devices = []\<rparr>) m)\<lparr>m_devices := sysfs # m_devices m\<rparr>"
    using assms(2) by (auto simp: device_new_def split: if_splits)
  have eqs: "ses m' = ses m" "sts m' = sts m" "usr m' = usr m" "sdv m' = sdv m"
    "m_seats m' = m_seats m" "m_sessions m' = m_sessions m" "m_users m' = m_users m"
    "m_seat_gc_queue m' = m_seat_gc_queue m" "m_session_gc_queue m' = m_session_gc_queue m"
    "m_user_gc_queue m' = m_user_gc_queue m" "m_sessions_by_leader m' = m_sessions_by_leader m"
    "m_cgroup_inotify_fd m' = m_cgroup_inotify_fd m"
    "m_cgroup_control_inotify_wd_session m' = m_cgroup_control_inotify_wd_session m"
    by (simp_all add: m')
  show devs: "m_devices m' = sysfs # m_devices m" and none: "d_seat (dev m' sysfs) = None"
    by (simp_all add: m' upd_simps)
  have sd: "d_session_devices (dev m' sysfs) = []" and
    old: "x \<noteq> sysfs \<Longrightarrow> dev m' x = dev m x" for x
    by (simp_all add: m' upd_simps)
  note inv = wfD [OF assms(1)]
  show "wf m'"
  proof (rule wfI)
    show "inv_seats m'" "inv_positions m'" "inv_sessions m'" "inv_users m'" "inv_queues m'"
      "inv_leaders m'"
      using inv inv_congs(1-4,7,8) [of m' m] by (simp_all add: eqs)
    show "inv_devices m'"
    proof (rule inv_devicesI)
      fix x y assume x: "x \<in> set (m_devices m')" and y: "d_seat (dev m' x) = Some y"
      have "x \<noteq> sysfs" using y none by auto
      with x y show "y \<in> set (m_seats m') \<and> x \<in> set (st_devices (sts m' y))"
        using wf_device_seat [OF assms(1), of x y] by (simp add: devs old eqs)
    next
      fix y x assume "y \<in> set (m_seats m')" "x \<in> set (st_devices (sts m' y))"
      then have x: "x \<in> set (m_devices m)" "d_seat (dev m x) = Some y"
        using wf_seat_device [OF assms(1), of y x] by (simp_all add: eqs)
      then have "x \<noteq> sysfs" using new by auto
      then show "x \<in> set (m_devices m') \<and> d_seat (dev m' x) = Some y"
        using x by (simp add: devs old)
    qed (use wf_distinct(4,7) [OF assms(1)] new in \<open>simp_all add: devs eqs\<close>)
    show "inv_session_devices m'"
    proof (rule inv_session_devicesI)
      fix s n assume sn: "s \<in> set (m_sessions m')" "n \<in> set (s_devices (ses m' s))"
      then have ok: "s \<in> set (m_sessions m)" "n \<in> set (s_devices (ses m s))"
        by (simp_all add: eqs)
      have "sd_device (sdv m (s, n)) \<noteq> sysfs" using wf_sd [OF assms(1) ok] new by auto
      then show "sd_type (sdv m' (s, n)) \<noteq> DEVICE_TYPE_UNKNOWN \<and>
          sd_device (sdv m' (s, n)) \<in> set (m_devices m') \<and>
          (s, n) \<in> set (d_session_devices (dev m' (sd_device (sdv m' (s, n))))) \<and>
          s_seat (ses m' s) \<noteq> None \<and> d_seat (dev m' (sd_device (sdv m' (s, n)))) = s_seat (ses m' s)"
        using wf_sd [OF assms(1) ok] by (simp add: eqs devs old)
    next
      fix x s n assume x: "x \<in> set (m_devices m')" and sn: "(s, n) \<in> set (d_session_devices (dev m' x))"
      have "x \<noteq> sysfs" using sn sd by auto
      then show "s \<in> set (m_sessions m') \<and> n \<in> set (s_devices (ses m' s)) \<and> sd_device (sdv m' (s, n)) = x"
        using wf_dsd [OF assms(1), of x s n] x sn by (simp add: eqs devs old)
    next
      fix x assume "x \<in> set (m_devices m')"
      then show "distinct (d_session_devices (dev m' x))"
        using wf_distinct(6) [OF assms(1), of x] sd by (cases "x = sysfs") (simp_all add: devs old)
    qed (use wf_distinct(5) [OF assms(1)] in \<open>simp add: eqs\<close>)
  qed
qed

end
