(* ===== verification/User.thy ===== *)
theory User
  imports Device
begin

text \<open>
  \<^verbatim>\<open>logind-user.c\<close>: users, the timer that keeps a user around after the last session, and the
  election of the session that represents the user. Stopping, finalising and freeing users are in
  theory \<open>Lifecycle\<close>.
\<close>

subsection \<open>Operations\<close>

definition new_user :: "user_record \<Rightarrow> user" where
  "new_user ur = \<lparr>u_user_name = the (ur_user_name ur), u_kill_processes = ur_kill_processes ur,
     u_stop_delay_usec = ur_stop_delay_usec ur, u_removable = ur_removable ur, u_display = None,
     u_timestamp = DUAL_TIMESTAMP_NULL, u_last_session_timestamp = USEC_INFINITY,
     u_timer_event_source = False, u_gc_mode = USER_GC_BY_ANY, u_in_gc_queue = False,
     u_started = False, u_stopping = False, u_sessions = []\<rparr>"

text \<open>When the user is in the table already, the object is thrown away again, and with it the runtime
  directory.\<close>

definition user_new :: "user_record \<Rightarrow> manager \<Rightarrow> int \<times> manager" where
  "user_new ur m =
     (if ur_user_name ur = None then (- EINVAL, m)
      else if \<not> uid_is_valid (ur_uid ur) then (- EINVAL, m)
      else if ur_uid ur \<in> set (m_users m)
        then (- EEXIST, emit (Sys_user_runtime_dir ''stop'' (ur_uid ur)) m)
      else (0, (upd_user (ur_uid ur) (\<lambda>_. new_user ur) m)\<lparr>m_users := ur_uid ur # m_users m\<rparr>))"

definition user_add_to_gc_queue :: "uid \<Rightarrow> manager \<Rightarrow> manager" where
  "user_add_to_gc_queue u m =
     (if u_in_gc_queue (usr m u) then m
      else upd_user u (u_in_gc_queue_update (\<lambda>_. True)) (m\<lparr>m_user_gc_queue := u # m_user_gc_queue m\<rparr>))"

definition user_stop_timeout_callback :: "uid \<Rightarrow> manager \<Rightarrow> manager" where
  "user_stop_timeout_callback u m = user_add_to_gc_queue u m"

definition user_update_last_session_timer :: "uid \<Rightarrow> manager \<Rightarrow> manager" where
  "user_update_last_session_timer u m =
     (if user_pinned_by_sessions u m then
        upd_user u (\<lambda>x. x\<lparr>u_last_session_timestamp := USEC_INFINITY, u_timer_event_source := False\<rparr>) m
      else if u_last_session_timestamp (usr m u) \<noteq> USEC_INFINITY then m
      else
      let m = upd_user u (u_last_session_timestamp_update (\<lambda>_. now_monotonic m)) m;
          m = assert_that (\<not> u_timer_event_source (usr m u)) m;
          user_stop_delay = user_get_stop_delay u m
      in if \<not> timestamp_is_set user_stop_delay then m
         else if ask Ask_event_finished m > 0 then m
         else case sys (Sys_add_time ''user-stop''
                          (usec_add (u_last_session_timestamp (usr m u)) user_stop_delay)) m of (r, m) \<Rightarrow>
                if r < 0 then m else upd_user u (u_timer_event_source_update (\<lambda>_. True)) m)"

text \<open>One candidate of the election: it wins when it may represent the user and is preferred to the
  present display.\<close>

definition elect_step :: "uid \<Rightarrow> string \<Rightarrow> manager \<Rightarrow> manager" where
  "elect_step u s m =
     (if \<not> elect_display_filter (ses m s) then m
      else if elect_display_compare (Some (ses m s)) (map_option (ses m) (u_display (usr m u))) < 0
        then upd_user u (u_display_update (\<lambda>_. Some s)) m
      else m)"

definition user_elect_display :: "uid \<Rightarrow> manager \<Rightarrow> manager" where
  "user_elect_display u m = fold (elect_step u) (u_sessions (usr m u)) m"

text \<open>\<^verbatim>\<open>user_runtime_dir\<close> mounts and unmounts the runtime directory; here it is a call to the
  system.\<close>

definition user_start :: "uid \<Rightarrow> manager \<Rightarrow> int \<times> manager" where
  "user_start u m =
     (let (r, m) =
        (if \<not> u_started (usr m u) \<or> u_stopping (usr m u) then
           let m = upd_user u (u_stopping_update (\<lambda>_. False)) m;
               m = snd (user_save_internal u m)
           in sys (Sys_user_runtime_dir ''start'' u) m
         else (0, m))
      in if r < 0 then (r, m)
         else
         let m = (if \<not> u_started (usr m u) then
                    let m = (if \<not> dual_timestamp_is_set (u_timestamp (usr m u))
                             then upd_user u (u_timestamp_update (\<lambda>_. dual_timestamp_now m)) m else m);
                        m = user_send_signal u True m
                    in upd_user u (u_started_update (\<lambda>_. True)) m
                  else m)
         in (0, snd (user_save u m)))"

subsection \<open>What the operations leave alone\<close>

lemma user_send_signal_same: "same_objects m (user_send_signal u b m)"
  by (simp add: user_send_signal_def emit_same)

lemma session_send_signal_same: "same_objects m (session_send_signal s b m)"
  by (simp add: session_send_signal_def emit_same)

lemma seat_send_signal_same: "same_objects m (seat_send_signal st b m)"
  by (simp add: seat_send_signal_def emit_same)

lemma manager_send_changed_same: "same_objects m (manager_send_changed props m)"
  by (simp add: manager_send_changed_def emit_same)

lemmas send_signal_frame [simp] =
  same_objects_simps [OF user_send_signal_same] same_objects_simps [OF session_send_signal_same]
  same_objects_simps [OF seat_send_signal_same] same_objects_simps [OF manager_send_changed_same]

lemmas wf_signals [simp] =
  wf_same_objects [OF user_send_signal_same] wf_same_objects [OF session_send_signal_same]
  wf_same_objects [OF seat_send_signal_same] wf_same_objects [OF manager_send_changed_same]

lemmas tables_signals =
  same_tables_step(1) [OF _ user_send_signal_same] same_tables_step(1) [OF _ session_send_signal_same]
  same_tables_step(1) [OF _ seat_send_signal_same] same_tables_step(1) [OF _ manager_send_changed_same]

lemma keeps_simps [simp]:
  "user_keeps (u_stopping_update f1)" "user_keeps (u_started_update f2)"
  "user_keeps (u_timestamp_update f3)" "user_keeps (u_timer_event_source_update f4)"
  "user_keeps (u_last_session_timestamp_update f5)" "user_keeps (u_gc_mode_update f6)"
  "user_keeps (\<lambda>x. x\<lparr>u_last_session_timestamp := t, u_timer_event_source := b\<rparr>)"
  by (simp_all add: user_keeps_def)

lemma wf_last_session_timer [simp]: "wf (user_update_last_session_timer u m) = wf m"
  by (simp add: user_update_last_session_timer_def Let_def case_prod_beta wf_upd_user)

lemma wf_user_start [simp]: "wf (snd (user_start u m)) = wf m"
  by (simp add: user_start_def Let_def case_prod_beta wf_upd_user)

text \<open>The timer and starting a user touch nobody else.\<close>

lemma last_session_timer_frame [simp]:
  "ses (user_update_last_session_timer u m) = ses m" "sts (user_update_last_session_timer u m) = sts m"
  "dev (user_update_last_session_timer u m) = dev m" "sdv (user_update_last_session_timer u m) = sdv m"
  "inh (user_update_last_session_timer u m) = inh m" "btn (user_update_last_session_timer u m) = btn m"
  "m_seat_gc_queue (user_update_last_session_timer u m) = m_seat_gc_queue m"
  "m_session_gc_queue (user_update_last_session_timer u m) = m_session_gc_queue m"
  "m_user_gc_queue (user_update_last_session_timer u m) = m_user_gc_queue m"
  by (simp_all add: user_update_last_session_timer_def Let_def case_prod_beta)

lemma last_session_timer_tables: "same_tables m (user_update_last_session_timer u m)"
  by (simp add: user_update_last_session_timer_def Let_def case_prod_beta tables_basic tables_upd)

lemmas last_session_timer_table_frame [simp] = same_tables_simps [OF last_session_timer_tables]

lemma last_session_timer_usr [simp]:
  "u_sessions (usr (user_update_last_session_timer u m) x) = u_sessions (usr m x)"
  "u_display (usr (user_update_last_session_timer u m) x) = u_display (usr m x)"
  "u_in_gc_queue (usr (user_update_last_session_timer u m) x) = u_in_gc_queue (usr m x)"
  "u_started (usr (user_update_last_session_timer u m) x) = u_started (usr m x)"
  "u_stopping (usr (user_update_last_session_timer u m) x) = u_stopping (usr m x)"
  by (simp_all add: user_update_last_session_timer_def Let_def case_prod_beta upd_simps)

lemma user_start_frame [simp]:
  "ses (snd (user_start u m)) = ses m" "sts (snd (user_start u m)) = sts m"
  "dev (snd (user_start u m)) = dev m" "sdv (snd (user_start u m)) = sdv m"
  "inh (snd (user_start u m)) = inh m" "btn (snd (user_start u m)) = btn m"
  "m_seat_gc_queue (snd (user_start u m)) = m_seat_gc_queue m"
  "m_session_gc_queue (snd (user_start u m)) = m_session_gc_queue m"
  "m_user_gc_queue (snd (user_start u m)) = m_user_gc_queue m"
  by (simp_all add: user_start_def Let_def case_prod_beta)

lemma user_start_tables: "same_tables m (snd (user_start u m))"
  by (simp add: user_start_def Let_def case_prod_beta tables_basic tables_upd tables_signals)

lemmas user_start_table_frame [simp] = same_tables_simps [OF user_start_tables]

subsection \<open>The election\<close>

text \<open>The comparison is the comparison of ranks: the present display counts less when it is stopping,
  then by class, then by type; no display at all counts least.\<close>

definition display_rank :: "session option \<Rightarrow> int" where
  "display_rank x =
     (case x of
        None \<Rightarrow> 128
      | Some s \<Rightarrow> 64 * of_bool (s_stopping s) + 32 * of_bool (s_class s \<noteq> SESSION_USER) +
          16 * of_bool (s_class s \<noteq> SESSION_USER_EARLY) + type_rank (s_type s) + 3)"

lemma type_rank_bounds: "- 3 \<le> type_rank t \<and> type_rank t \<le> 0"
  by (cases t) simp_all

lemma elect_display_compare_rank:
  "elect_display_compare a b < 0 \<longleftrightarrow> display_rank a < display_rank b"
proof (cases a)
  case None
  then show ?thesis
    using type_rank_bounds [of "s_type (the b)"]
    by (cases b) (auto simp: elect_display_compare_def display_rank_def)
next
  case a: (Some x)
  show ?thesis
  proof (cases b)
    case None
    with a show ?thesis
      using type_rank_bounds [of "s_type x"] by (auto simp: elect_display_compare_def display_rank_def)
  next
    case (Some y)
    with a show ?thesis
      using type_rank_bounds [of "s_type x"] type_rank_bounds [of "s_type y"]
      by (auto simp: elect_display_compare_def display_rank_def)
  qed
qed

lemma elect_step_frame [simp]:
  "ses (elect_step u s m) = ses m" "sts (elect_step u s m) = sts m" "dev (elect_step u s m) = dev m"
  "sdv (elect_step u s m) = sdv m" "inh (elect_step u s m) = inh m" "btn (elect_step u s m) = btn m"
  "m_seat_gc_queue (elect_step u s m) = m_seat_gc_queue m"
  "m_session_gc_queue (elect_step u s m) = m_session_gc_queue m"
  "m_user_gc_queue (elect_step u s m) = m_user_gc_queue m" "m_abort (elect_step u s m) = m_abort m"
  "m_trace (elect_step u s m) = m_trace m"
  by (simp_all add: elect_step_def upd_user_def)

lemma elect_step_display:
  "usr (elect_step u s m) = (usr m)(u := (usr m u)\<lparr>u_display :=
     (if elect_display_filter (ses m s) \<and>
         display_rank (Some (ses m s)) < display_rank (map_option (ses m) (u_display (usr m u)))
      then Some s else u_display (usr m u))\<rparr>)"
  by (auto simp: elect_step_def elect_display_compare_rank upd_user_def)

lemma elect_step_tables: "same_tables m (elect_step u s m)"
  by (simp add: elect_step_def tables_upd)

text \<open>The loop picks a best candidate and changes nothing when none beats the present display.\<close>

lemma fold_elect:
  fixes m :: manager
  defines "rank \<equiv> \<lambda>x. display_rank (map_option (ses m) x)"
  shows "\<exists>x. usr (fold (elect_step u) l m) = (usr m)(u := (usr m u)\<lparr>u_display := x\<rparr>) \<and>
    ses (fold (elect_step u) l m) = ses m \<and>
    (\<forall>s \<in> set l. elect_display_filter (ses m s) \<longrightarrow> rank x \<le> rank (Some s)) \<and>
    rank x \<le> rank (u_display (usr m u)) \<and>
    (x = u_display (usr m u) \<or>
     (\<exists>s \<in> set l. elect_display_filter (ses m s) \<and> x = Some s \<and> rank x < rank (u_display (usr m u))))"
  unfolding rank_def
proof (induction l arbitrary: m)
  case (Cons s l)
  let ?m = "elect_step u s m"
  obtain x where x: "usr (fold (elect_step u) l ?m) = (usr ?m)(u := (usr ?m u)\<lparr>u_display := x\<rparr>)"
      "ses (fold (elect_step u) l ?m) = ses ?m"
      "\<forall>s \<in> set l. elect_display_filter (ses ?m s) \<longrightarrow>
        display_rank (map_option (ses ?m) x) \<le> display_rank (map_option (ses ?m) (Some s))"
      "display_rank (map_option (ses ?m) x) \<le>
        display_rank (map_option (ses ?m) (u_display (usr ?m u)))"
      "x = u_display (usr ?m u) \<or> (\<exists>s \<in> set l. elect_display_filter (ses ?m s) \<and> x = Some s \<and>
        display_rank (map_option (ses ?m) x) < display_rank (map_option (ses ?m) (u_display (usr ?m u))))"
    using Cons.IH [of ?m] by blast
  show ?case
    by (rule exI [of _ x]) (use x in \<open>auto simp: elect_step_display split: if_splits\<close>)
qed (auto intro!: exI)

lemma user_elect_display_result:
  obtains x where
    "usr (user_elect_display u m) = (usr m)(u := (usr m u)\<lparr>u_display := x\<rparr>)"
    "\<And>s. s \<in> set (u_sessions (usr m u)) \<Longrightarrow> elect_display_filter (ses m s) \<Longrightarrow>
       display_rank (map_option (ses m) x) \<le> display_rank (Some (ses m s))"
    "x = u_display (usr m u) \<or>
     (\<exists>s \<in> set (u_sessions (usr m u)). elect_display_filter (ses m s) \<and> x = Some s \<and>
        display_rank (Some (ses m s)) < display_rank (map_option (ses m) (u_display (usr m u))))"
  using fold_elect [of u "u_sessions (usr m u)" m] unfolding user_elect_display_def by auto

lemma elect_display_frame [simp]:
  "ses (user_elect_display u m) = ses m" "sts (user_elect_display u m) = sts m"
  "dev (user_elect_display u m) = dev m" "sdv (user_elect_display u m) = sdv m"
  "inh (user_elect_display u m) = inh m" "btn (user_elect_display u m) = btn m"
  "m_seat_gc_queue (user_elect_display u m) = m_seat_gc_queue m"
  "m_session_gc_queue (user_elect_display u m) = m_session_gc_queue m"
  "m_user_gc_queue (user_elect_display u m) = m_user_gc_queue m"
  "m_abort (user_elect_display u m) = m_abort m" "m_trace (user_elect_display u m) = m_trace m"
proof -
  have "ses (fold (elect_step u) l m) = ses m \<and> sts (fold (elect_step u) l m) = sts m \<and>
    dev (fold (elect_step u) l m) = dev m \<and> sdv (fold (elect_step u) l m) = sdv m \<and>
    inh (fold (elect_step u) l m) = inh m \<and> btn (fold (elect_step u) l m) = btn m \<and>
    m_seat_gc_queue (fold (elect_step u) l m) = m_seat_gc_queue m \<and>
    m_session_gc_queue (fold (elect_step u) l m) = m_session_gc_queue m \<and>
    m_user_gc_queue (fold (elect_step u) l m) = m_user_gc_queue m \<and>
    m_abort (fold (elect_step u) l m) = m_abort m \<and> m_trace (fold (elect_step u) l m) = m_trace m" for l
    by (induction l arbitrary: m) simp_all
  then show "ses (user_elect_display u m) = ses m" "sts (user_elect_display u m) = sts m"
    "dev (user_elect_display u m) = dev m" "sdv (user_elect_display u m) = sdv m"
    "inh (user_elect_display u m) = inh m" "btn (user_elect_display u m) = btn m"
    "m_seat_gc_queue (user_elect_display u m) = m_seat_gc_queue m"
    "m_session_gc_queue (user_elect_display u m) = m_session_gc_queue m"
    "m_user_gc_queue (user_elect_display u m) = m_user_gc_queue m"
    "m_abort (user_elect_display u m) = m_abort m" "m_trace (user_elect_display u m) = m_trace m"
    by (simp_all add: user_elect_display_def)
qed

lemma elect_display_tables: "same_tables m (user_elect_display u m)"
proof -
  have "same_tables m (fold (elect_step u) l m)" for l
    by (induction l arbitrary: m) (auto intro: same_tables_trans elect_step_tables)
  then show ?thesis by (simp add: user_elect_display_def)
qed

lemmas elect_display_table_frame [simp] = same_tables_simps [OF elect_display_tables]

lemma wf_elect_display:
  assumes "wf m" "u \<in> set (m_users m)"
  shows "wf (user_elect_display u m)"
proof (rule wfI)
  let ?m = "user_elect_display u m"
  note inv = wfD [OF assms(1)]
  obtain x where usr: "usr ?m = (usr m)(u := (usr m u)\<lparr>u_display := x\<rparr>)"
      and x: "x = u_display (usr m u) \<or> (\<exists>s \<in> set (u_sessions (usr m u)). x = Some s)"
    by (rule user_elect_display_result [of u m]) blast
  show "inv_seats ?m" "inv_positions ?m" "inv_sessions ?m" "inv_devices ?m" "inv_session_devices ?m"
    "inv_queues ?m" "inv_leaders ?m"
    using inv inv_congs(1-3,5-8) [of ?m m] by (simp_all add: usr)
  show "inv_users ?m"
    using inv(4) assms(2) x unfolding inv_users_def by (auto simp: usr)
qed

lemma wf_user_add_to_gc_queue:
  assumes "wf m" "u \<in> set (m_users m)"
  shows "wf (user_add_to_gc_queue u m)" (is "wf ?m")
proof (rule wfI)
  note inv = wfD [OF assms(1)]
  show "inv_seats ?m" "inv_positions ?m" "inv_sessions ?m" "inv_users ?m" "inv_devices ?m"
    "inv_session_devices ?m" "inv_leaders ?m"
    using inv inv_congs(1-6,8) [of ?m m] by (simp_all add: user_add_to_gc_queue_def upd_user_def)
  show "inv_queues ?m"
    using inv(7) assms(2) by (auto simp: inv_queues_def user_add_to_gc_queue_def upd_user_def)
qed

lemma wf_user_new:
  assumes "wf m"
  shows "wf (snd (user_new ur m))"
proof (cases "ur_user_name ur = None \<or> \<not> uid_is_valid (ur_uid ur) \<or> ur_uid ur \<in> set (m_users m)")
  case True
  then show ?thesis using assms by (auto simp: user_new_def)
next
  case False
  let ?u = "ur_uid ur"
  let ?m = "snd (user_new ur m)"
  have m: "?m = (upd_user ?u (\<lambda>_. new_user ur) m)\<lparr>m_users := ?u # m_users m\<rparr>"
    using False by (auto simp: user_new_def)
  note inv = wfD [OF assms]
  have new: "?u \<notin> set (m_user_gc_queue m)" "s \<in> set (m_sessions m) \<Longrightarrow> s_user (ses m s) \<noteq> Some ?u" for s
    using inv(7) wf_session_user(1) [OF assms] False by (auto simp: inv_queues_def)
  show ?thesis
  proof (rule wfI)
    show "inv_seats ?m" "inv_positions ?m" "inv_devices ?m" "inv_session_devices ?m" "inv_leaders ?m"
      using inv inv_congs(1,2,5,6,8) [of ?m m] by (simp_all add: m)
    show "inv_sessions ?m"
      using inv(3) new(2) unfolding inv_sessions_def by (auto simp: m upd_simps)
    show "inv_users ?m"
      using inv(4) False unfolding inv_users_def by (auto simp: m upd_simps new_user_def)
    show "inv_queues ?m"
      using inv(7) new(1) False unfolding inv_queues_def by (auto simp: m upd_simps new_user_def)
  qed
qed

end
