(* ===== verification/Extract_Word.thy ===== *)
theory Extract_Word
  imports Escape
begin

text \<open>
  \<^verbatim>\<open>src/basic/extract-word.c\<close>: the word splitter with quoting and unescaping that every list
  the daemon reads (inhibitor lock names, session lists, configuration values) goes through.
\<close>

datatype ExtractFlag =
    EXTRACT_RELAX | EXTRACT_CUNESCAPE | EXTRACT_UNESCAPE_RELAX | EXTRACT_UNESCAPE_SEPARATORS
  | EXTRACT_KEEP_QUOTE | EXTRACT_UNQUOTE | EXTRACT_DONT_COALESCE_SEPARATORS
  | EXTRACT_RETAIN_ESCAPE | EXTRACT_RETAIN_SEPARATORS

type_synonym ExtractFlags = "ExtractFlag set"

text \<open>The result: the return code, the word stored in \<^verbatim>\<open>*ret\<close> (\<open>None\<close> for NULL or, on an
  error, for nothing stored) and the new value of \<^verbatim>\<open>*p\<close> (\<open>None\<close> for NULL).\<close>

type_synonym extract_result = "int \<times> string option \<times> string option"

text \<open>The end of the string inside a word.\<close>

definition extract_at_end ::
  "ExtractFlags \<Rightarrow> string \<Rightarrow> bool \<Rightarrow> char option \<Rightarrow> extract_result" where
  "extract_at_end flags s backslash quote =
     (if backslash then
        (if EXTRACT_UNESCAPE_RELAX \<in> flags \<and> (quote = None \<or> EXTRACT_RELAX \<in> flags)
           then (1, Some (s @ [BACKSLASH]), None)
         else if EXTRACT_RELAX \<in> flags then (1, Some s, None)
         else (- EINVAL, None, Some []))
      else if quote \<noteq> None then
        (if EXTRACT_RELAX \<in> flags then (1, Some s, None) else (- EINVAL, None, Some []))
      else (1, Some s, None))"

text \<open>A separator after a word: \<open>rest\<close> begins with it.\<close>

definition extract_at_separator ::
  "string \<Rightarrow> ExtractFlags \<Rightarrow> string \<Rightarrow> string \<Rightarrow> extract_result" where
  "extract_at_separator separators flags s rest =
     (if EXTRACT_DONT_COALESCE_SEPARATORS \<in> flags then
        (1, Some s, Some (if EXTRACT_RETAIN_SEPARATORS \<in> flags then rest else tl rest))
      else if EXTRACT_RETAIN_SEPARATORS \<in> flags then (1, Some s, Some rest)
      else case dropWhile (\<lambda>c. c \<in> set separators) rest of
             [] \<Rightarrow> (1, Some s, None)
           | rest' \<Rightarrow> (1, Some s, Some rest'))"

text \<open>The main loop; \<open>s\<close> is what is stored of the word so far, \<open>quote\<close> the quote that is open
  and \<open>backslash\<close> whether a backslash has just been read. The inner loops of the C code read
  on in the same state.\<close>

function extract_loop ::
  "string \<Rightarrow> ExtractFlags \<Rightarrow> string \<Rightarrow> bool \<Rightarrow> char option \<Rightarrow> string \<Rightarrow> extract_result" where
  "extract_loop separators flags s backslash quote [] = extract_at_end flags s backslash quote"
| "extract_loop separators flags s backslash quote (c # cs) =
     (if backslash then
        (if EXTRACT_CUNESCAPE \<in> flags \<or> EXTRACT_UNESCAPE_SEPARATORS \<in> flags then
           (case (if EXTRACT_CUNESCAPE \<in> flags then cunescape_one (c # cs) False else None) of
              Some (r, u, eight_bit) \<Rightarrow>
                extract_loop separators flags
                  (s @ (if eight_bit then [char_of u] else utf8_encode_unichar u))
                  False quote (drop (r - 1) cs)
            | None \<Rightarrow>
                if EXTRACT_UNESCAPE_SEPARATORS \<in> flags \<and> (c \<in> set separators \<or> c = BACKSLASH)
                  then extract_loop separators flags (s @ [c]) False quote cs
                else if EXTRACT_UNESCAPE_RELAX \<in> flags
                  then extract_loop separators flags (s @ [BACKSLASH, c]) False quote cs
                else (- EINVAL, None, Some (c # cs)))
         else extract_loop separators flags (s @ [c]) False quote cs)
      else (case quote of
        Some q \<Rightarrow>
          if c = q then
            extract_loop separators flags (if EXTRACT_UNQUOTE \<in> flags then s else s @ [c])
              False None cs
          else if c = BACKSLASH \<and> EXTRACT_RETAIN_ESCAPE \<notin> flags then
            extract_loop separators flags s True quote cs
          else extract_loop separators flags (s @ [c]) False quote cs
      | None \<Rightarrow>
          if (c = SQUOTE \<or> c = DQUOTE) \<and>
             (EXTRACT_KEEP_QUOTE \<in> flags \<or> EXTRACT_UNQUOTE \<in> flags) then
            extract_loop separators flags (if EXTRACT_UNQUOTE \<in> flags then s else s @ [c])
              False (Some c) cs
          else if c = BACKSLASH \<and> EXTRACT_RETAIN_ESCAPE \<notin> flags then
            extract_loop separators flags s True None cs
          else if c \<in> set separators then extract_at_separator separators flags s (c # cs)
          else extract_loop separators flags (s @ [c]) False None cs))"
  by pat_completeness auto
termination
  by (relation "measure (\<lambda>(_, _, _, _, _, p). length p)") auto

text \<open>The leading separators: skipped, or, when separators are not coalesced, each the end of an
  empty word. Without coalescing the word is never NULL.\<close>

definition extract_first_word ::
  "string option \<Rightarrow> string option \<Rightarrow> ExtractFlags \<Rightarrow> extract_result" where
  "extract_first_word p seps flags =
     (case p of
        None \<Rightarrow> (0, None, None)
      | Some str \<Rightarrow>
          let separators = (case seps of None \<Rightarrow> WHITESPACE | Some x \<Rightarrow> x)
          in if EXTRACT_DONT_COALESCE_SEPARATORS \<in> flags then
               (case str of
                  [] \<Rightarrow> (1, Some [], None)
                | c # cs \<Rightarrow>
                    if c \<in> set separators then extract_at_separator separators flags [] str
                    else extract_loop separators flags [] False None str)
             else
               (case dropWhile (\<lambda>c. c \<in> set separators) str of
                  [] \<Rightarrow> (0, None, None)
                | rest \<Rightarrow> extract_loop separators flags [] False None rest))"

text \<open>\<^verbatim>\<open>extract_many_words_internal\<close>: up to \<open>n\<close> words; the words that are missing at the end stay
  NULL. An error frees the words read before it.\<close>

fun extract_many_words ::
  "string option \<Rightarrow> string option \<Rightarrow> ExtractFlags \<Rightarrow> nat \<Rightarrow> int + nat \<times> string option list \<times> string option"
where
  "extract_many_words p separators flags 0 = Inr (0, [], p)"
| "extract_many_words p separators flags (Suc n) =
     (case extract_first_word p separators flags of
        (r, w, p') \<Rightarrow>
          if r < 0 then Inl r
          else if r = 0 then Inr (0, replicate (Suc n) None, p')
          else case extract_many_words p' separators flags n of
                 Inl e \<Rightarrow> Inl e
               | Inr (c, ws, p'') \<Rightarrow> Inr (Suc c, w # ws, p''))"

subsection \<open>Progress\<close>

text \<open>Every call returns 1 with a word, 0 with neither word nor rest, or \<^verbatim>\<open>-EINVAL\<close>; a word
  makes the rest shorter, so a caller's loop over the words of a string ends.\<close>

definition rest_len :: "string option \<Rightarrow> nat" where
  "rest_len p = (case p of None \<Rightarrow> 0 | Some s \<Rightarrow> Suc (length s))"

lemma rest_len_simps [simp]: "rest_len None = 0" "rest_len (Some s) = Suc (length s)"
  by (simp_all add: rest_len_def)

lemma dropWhile_length: "length (dropWhile P xs) \<le> length xs"
  by (induction xs) auto

lemma extract_at_separator_result:
  assumes "rest \<noteq> []"
  obtains p' where "extract_at_separator separators flags s rest = (1, Some s, p')"
    "rest_len p' \<le> Suc (length rest)"
    "EXTRACT_RETAIN_SEPARATORS \<notin> flags \<Longrightarrow> hd rest \<in> set separators \<Longrightarrow> rest_len p' \<le> length rest"
  using assms dropWhile_length [of "\<lambda>c. c \<in> set separators" rest]
    dropWhile_length [of "\<lambda>c. c \<in> set separators" "tl rest"]
  by (cases rest) (fastforce simp: extract_at_separator_def split: if_splits list.splits)+

definition extract_ok :: "nat \<Rightarrow> extract_result \<Rightarrow> bool" where
  "extract_ok n res \<longleftrightarrow> (case res of (r, w, p') \<Rightarrow>
     (r = - EINVAL \<and> w = None) \<or> (r = 1 \<and> w \<noteq> None \<and> rest_len p' \<le> n))"

lemma extract_ok_mono: "extract_ok n res \<Longrightarrow> n \<le> m \<Longrightarrow> extract_ok m res"
  by (auto simp: extract_ok_def)

lemma extract_at_end_ok: "extract_ok n (extract_at_end flags s b q)"
  by (simp add: extract_ok_def extract_at_end_def)

lemma extract_at_separator_ok:
  "rest \<noteq> [] \<Longrightarrow> extract_ok (Suc (length rest)) (extract_at_separator seps flags s rest)"
  by (rule extract_at_separator_result [of rest seps flags s]) (auto simp: extract_ok_def)

lemma extract_loop_ok:
  "length p < n \<Longrightarrow> extract_ok n (extract_loop seps flags s b q p)"
proof (induction p arbitrary: s b q rule: measure_induct_rule [where f = length])
  case (less p)
  show ?case
  proof (cases p)
    case Nil
    then show ?thesis by (simp add: extract_at_end_ok)
  next
    case (Cons c cs)
    have IH: "extract_ok n (extract_loop seps flags s' b' q' p')" if "length p' \<le> length cs" for s' b' q' p'
      using less Cons that by simp
    have sep: "extract_ok n (extract_at_separator seps flags s (c # cs))"
      by (rule extract_ok_mono [OF extract_at_separator_ok]) (use less.prems Cons in simp_all)
    have inval: "extract_ok n (- EINVAL, None, r)" for r
      by (simp add: extract_ok_def)
    note distrib = if_distrib [of "extract_ok n"] option.case_distrib [of "extract_ok n"]
      prod.case_distrib [of "extract_ok n"]
    show ?thesis
      by (simp add: Cons distrib IH sep inval cong: if_cong option.case_cong)
        (auto split: option.split)
  qed
qed

lemma extract_loop_separator_free:
  assumes "\<forall>c \<in> set w. c \<notin> set seps \<and> c \<notin> {SQUOTE, DQUOTE, BACKSLASH}"
  shows "extract_loop seps flags s False None (w @ p) = extract_loop seps flags (s @ w) False None p"
  using assms by (induction w arbitrary: s) auto

text \<open>A plain word is read up to the separator or the end, whatever the flags; reading on from
  there, a list of plain words joined by a separator is read back word by word.\<close>

definition plain_word :: "string \<Rightarrow> string \<Rightarrow> bool" where
  "plain_word seps w \<longleftrightarrow> w \<noteq> [] \<and> (\<forall>c \<in> set w. c \<notin> set seps \<and> c \<notin> {SQUOTE, DQUOTE, BACKSLASH})"

lemma extract_first_word_plain_last:
  assumes "plain_word seps w"
  shows "extract_first_word (Some w) (Some seps) flags = (1, Some w, None)"
proof -
  obtain c cs where w: "w = c # cs" and c: "c \<notin> set seps"
    using assms by (cases w) (auto simp: plain_word_def)
  have "extract_loop seps flags [] False None w = (1, Some w, None)"
    using assms extract_loop_separator_free [of w seps flags "[]" "[]"]
    by (simp add: plain_word_def extract_at_end_def)
  then show ?thesis
    using c by (simp add: extract_first_word_def w)
qed

lemma extract_first_word_plain:
  assumes "plain_word seps w" "x \<in> set seps" "x \<notin> {SQUOTE, DQUOTE, BACKSLASH}"
  shows "extract_first_word (Some (w @ x # p)) (Some seps) flags =
    extract_at_separator seps flags w (x # p)"
proof -
  obtain c cs where w: "w = c # cs" and c: "c \<notin> set seps"
    using assms by (cases w) (auto simp: plain_word_def)
  have "extract_loop seps flags [] False None (w @ x # p) = extract_at_separator seps flags w (x # p)"
    using assms extract_loop_separator_free [of w seps flags "[]" "x # p"]
    by (auto simp: plain_word_def)
  then show ?thesis
    using c by (simp add: extract_first_word_def w)
qed

lemma extract_first_word_result:
  assumes "extract_first_word p seps flags = (r, w, p')"
  shows "(r = - EINVAL \<and> w = None) \<or> (r = 0 \<and> w = None \<and> p' = None) \<or>
    (r = 1 \<and> w \<noteq> None \<and> rest_len p' \<le> rest_len p)"
proof (cases p)
  case None
  with assms show ?thesis by (simp add: extract_first_word_def)
next
  case (Some str)
  let ?seps = "case seps of None \<Rightarrow> WHITESPACE | Some x \<Rightarrow> x"
  have "str \<noteq> [] \<Longrightarrow> extract_ok (Suc (length str)) (extract_at_separator ?seps flags [] str)"
    by (rule extract_at_separator_ok)
  moreover have loop: "length rest \<le> length str \<Longrightarrow>
      extract_ok (Suc (length str)) (extract_loop ?seps flags [] False None rest)" for rest
    by (rule extract_loop_ok) simp
  moreover have "extract_ok (Suc (length str))
      (extract_loop ?seps flags [] False None (dropWhile (\<lambda>c. c \<in> set ?seps) str))"
    by (rule loop) (rule dropWhile_length)
  moreover have "extract_ok (Suc (length str)) (extract_loop ?seps flags [] False None str)"
    by (rule loop) simp
  ultimately have "extract_ok (Suc (length str)) (r, w, p') \<or> (r, w, p') = (0, None, None)
      \<or> (r, w, p') = (1, Some [], None)"
    using assms Some
    by (auto simp: extract_first_word_def Let_def simp del: extract_loop.simps
        split: if_splits list.splits)
  then show ?thesis
    using Some by (auto simp: extract_ok_def)
qed

text \<open>Unless separators are retained, every word takes something off the string.\<close>

lemma extract_loop_progress:
  "EXTRACT_RETAIN_SEPARATORS \<notin> flags \<Longrightarrow> length p \<le> n \<Longrightarrow>
   extract_ok n (extract_loop seps flags s b q p)"
proof (induction p arbitrary: s b q rule: measure_induct_rule [where f = length])
  case (less p)
  show ?case
  proof (cases p)
    case Nil
    then show ?thesis by (simp add: extract_at_end_ok)
  next
    case (Cons c cs)
    have IH: "extract_ok n (extract_loop seps flags s' b' q' p')" if "length p' \<le> length cs" for s' b' q' p'
      using less Cons that by simp
    have sep: "c \<in> set seps \<Longrightarrow> extract_ok n (extract_at_separator seps flags s (c # cs))"
      by (rule extract_at_separator_result [of "c # cs" seps flags s])
        (use less.prems Cons in \<open>auto simp: extract_ok_def\<close>)
    have inval: "extract_ok n (- EINVAL, None, r)" for r
      by (simp add: extract_ok_def)
    note distrib = if_distrib [of "extract_ok n"] option.case_distrib [of "extract_ok n"]
      prod.case_distrib [of "extract_ok n"]
    show ?thesis
      by (simp add: Cons distrib IH sep inval cong: if_cong option.case_cong)
        (auto split: option.split)
  qed
qed

lemma extract_first_word_progress:
  assumes "extract_first_word p seps flags = (r, w, p')" "EXTRACT_RETAIN_SEPARATORS \<notin> flags" "0 < r"
  shows "rest_len p' < rest_len p"
proof (cases p)
  case None
  with assms show ?thesis by (simp add: extract_first_word_def)
next
  case (Some str)
  let ?seps = "case seps of None \<Rightarrow> WHITESPACE | Some x \<Rightarrow> x"
  have loop: "length rest \<le> length str \<Longrightarrow>
      extract_ok (length str) (extract_loop ?seps flags [] False None rest)" for rest
    by (rule extract_loop_progress) (use assms(2) in simp_all)
  moreover have "extract_ok (length str)
      (extract_loop ?seps flags [] False None (dropWhile (\<lambda>c. c \<in> set ?seps) str))"
    by (rule loop) (rule dropWhile_length)
  moreover have "extract_ok (length str) (extract_loop ?seps flags [] False None str)"
    by (rule loop) simp
  moreover have "str \<noteq> [] \<Longrightarrow> hd str \<in> set ?seps \<Longrightarrow>
      extract_ok (length str) (extract_at_separator ?seps flags [] str)"
    by (rule extract_at_separator_result [of str ?seps flags "[]"])
      (use assms(2) in \<open>auto simp: extract_ok_def\<close>)
  ultimately have "extract_ok (length str) (r, w, p') \<or> (r, w, p') = (0, None, None)
      \<or> (r, w, p') = (1, Some [], None)"
    using assms(1) Some
    by (auto simp: extract_first_word_def Let_def simp del: extract_loop.simps
        split: if_splits list.splits)
  then show ?thesis
    using Some assms(3) by (auto simp: extract_ok_def)
qed

end
