(* ===== verification/Session_Resources.thy ===== *)
theory Session_Resources
  imports User Extract_Word
begin

text \<open>
  What a session holds outside the daemon (\<^verbatim>\<open>logind-session.c\<close>, and the session part of
  \<^verbatim>\<open>core/cgroup.c\<close>): the owner of its terminal, its control groups and the watch on them, its
  FIFO, its virtual terminal, its processes. Nothing here changes a link between objects, except
  the table of watched control groups.
\<close>

subsection \<open>The owner of the terminal\<close>

definition tty_path :: "nat \<Rightarrow> string" where
  "tty_path vtnr = ''/dev/tty'' @ dec vtnr"

text \<open>A local terminal session on a seat with virtual terminals.\<close>

definition session_has_own_tty :: "string \<Rightarrow> manager \<Rightarrow> bool" where
  "session_has_own_tty s m \<longleftrightarrow>
     s_type (ses m s) = SESSION_TTY \<and>
     (case s_seat (ses m s) of None \<Rightarrow> False | Some st \<Rightarrow> seat_has_vts st m) \<and>
     s_vtnr (ses m s) \<ge> 1"

text \<open>The UID of the session's user, whose pointer is followed.\<close>

definition session_uid :: "string \<Rightarrow> manager \<Rightarrow> uid" where
  "session_uid s m = (case s_user (ses m s) of None \<Rightarrow> 0 | Some u \<Rightarrow> u)"

definition has_user :: "string \<Rightarrow> manager \<Rightarrow> bool" where
  "has_user s m \<longleftrightarrow> s_user (ses m s) \<noteq> None"

definition session_chown_tty :: "string \<Rightarrow> manager \<Rightarrow> int \<times> manager" where
  "session_chown_tty s m =
     (if \<not> session_has_own_tty s m then (0, m)
      else case sys (Sys_open_terminal (tty_path (s_vtnr (ses m s)))) m of (fd, m) \<Rightarrow>
        if fd < 0 then (fd, m)
        else case sys (Sys_fchown fd (session_uid s m)) (assert_that (has_user s m) m) of (r, m) \<Rightarrow>
          (if r < 0 then r else 1, safe_close fd m))"

definition session_restore_tty :: "string \<Rightarrow> manager \<Rightarrow> int \<times> manager" where
  "session_restore_tty s m =
     (if \<not> session_has_own_tty s m then (0, m)
      else case sys (Sys_open_terminal (tty_path (s_vtnr (ses m s)))) m of (fd, m) \<Rightarrow>
        if fd < 0 then (fd, m)
        else
        let st_uid = ask (Ask_fstat_uid fd) m
        in if st_uid < 0 then (st_uid, safe_close fd m)
           else
           let m = assert_that (has_user s m) m
           in if nat st_uid \<noteq> session_uid s m then (0, safe_close fd m)
              else case sys (Sys_fchown fd 0) m of (r, m) \<Rightarrow> (if r < 0 then r else 1, safe_close fd m))"

subsection \<open>Control groups\<close>

definition session_use_delegated_cgroup :: "string \<Rightarrow> manager \<Rightarrow> int" where
  "session_use_delegated_cgroup s m =
     (if \<not> m_delegate_session_cgroups m then 0
      else let r = ask Ask_cg_all_unified m in if r < 0 then r else of_bool (r > 0))"

definition session_get_user_gid :: "string \<Rightarrow> manager \<Rightarrow> int" where
  "session_get_user_gid s m = ask (Ask_gid (session_uid s m)) m"

definition session_chown_cgroup_path :: "string \<Rightarrow> uid \<Rightarrow> nat \<Rightarrow> manager \<Rightarrow> int \<times> manager" where
  "session_chown_cgroup_path path uid gid m =
     (case sys (Sys_cg_set_access path uid gid) m of (r, m) \<Rightarrow> (if r < 0 then r else 0, m))"

text \<open>The controllers are the words of the first line of \<^verbatim>\<open>cgroup.controllers\<close>; each is enabled for
  the children.\<close>

function session_enable_controllers_loop :: "string \<Rightarrow> string option \<Rightarrow> manager \<Rightarrow> int \<times> manager" where
  "session_enable_controllers_loop path q m =
     (case extract_first_word q None {} of (r, controller, q') \<Rightarrow>
        if r < 0 then (r, m)
        else if r = 0 then (0, m)
        else session_enable_controllers_loop path q'
               (snd (sys (Sys_cg_enable path (''+'' @ the controller)) m)))"
  by pat_completeness auto
termination
  by (relation "measure (\<lambda>(_, q, _). rest_len q)")
    (auto dest: extract_first_word_progress [OF sym])

declare session_enable_controllers_loop.simps [simp del]

definition session_enable_controllers :: "string \<Rightarrow> manager \<Rightarrow> int \<times> manager" where
  "session_enable_controllers path m =
     (let r = ask (Ask_cg_path path) m
      in if r < 0 then (r, m)
         else case m_files m (path @ ''/cgroup.controllers'') of
                Inl r \<Rightarrow> (r, m)
              | Inr contents \<Rightarrow> session_enable_controllers_loop path (Some (truncate_nl contents)) m)"

definition session_setup_cgroup_paths :: "string \<Rightarrow> manager \<Rightarrow> int \<times> manager" where
  "session_setup_cgroup_paths s m =
     (if s_cgroup_path (ses m s) \<noteq> None \<and> s_cgroup_leaf_path (ses m s) \<noteq> None then (0, m)
      else
      let m = upd_ses s (s_cgroup_path_update (\<lambda>_. Some s)) m;
          r = session_use_delegated_cgroup s m
      in if r < 0 then (r, m)
         else if r > 0 then
           (0, upd_ses s (s_cgroup_leaf_path_update (\<lambda>_. Some (path_join [s, ''session'']))) m)
         else (of_bool (s_cgroup_leaf_path (ses m s) \<noteq> Some s),
               upd_ses s (s_cgroup_leaf_path_update (\<lambda>_. Some s)) m))"

text \<open>Handing control groups to the session's user, one after the other until one fails.\<close>

fun session_chown_paths :: "uid \<Rightarrow> nat \<Rightarrow> string list \<Rightarrow> manager \<Rightarrow> int \<times> manager" where
  "session_chown_paths uid gid [] m = (1, m)"
| "session_chown_paths uid gid (p # ps) m =
     (case session_chown_cgroup_path p uid gid m of (r, m) \<Rightarrow>
        if r < 0 then (r, m) else session_chown_paths uid gid ps m)"

definition session_delegate_paths :: "string \<Rightarrow> string list \<Rightarrow> manager \<Rightarrow> int \<times> manager" where
  "session_delegate_paths s ps m =
     (let uid = session_uid s m; r = session_get_user_gid s m
      in session_chown_paths uid (if r < 0 then uid else nat r) ps m)"

definition session_create_delegated_cgroup :: "string \<Rightarrow> manager \<Rightarrow> int \<times> manager" where
  "session_create_delegated_cgroup s m =
     (case (s_cgroup_path (ses m s), s_cgroup_leaf_path (ses m s)) of
        (Some path, Some leaf) \<Rightarrow>
          let m = assert_that (has_user s m) m;
              r = session_use_delegated_cgroup s m
          in if r \<le> 0 then (r, m)
             else case sys (Sys_cg_create path) m of (r, m) \<Rightarrow> if r < 0 then (r, m)
             else case sys (Sys_cg_create leaf) m of (r, m) \<Rightarrow> if r < 0 then (r, m)
             else
             let delegated = path_join [path, ''delegated'']
             in case sys (Sys_cg_create delegated) m of (r, m) \<Rightarrow> if r < 0 then (r, m)
             else session_delegate_paths s [path, leaf, delegated]
                    (snd (session_enable_controllers path m))
      | _ \<Rightarrow> (0, assert_that False m))"

text \<open>The name of the session's control group.\<close>

definition session_cgroup :: "string \<Rightarrow> manager \<Rightarrow> string" where
  "session_cgroup s m = (case s_cgroup_path (ses m s) of None \<Rightarrow> s | Some p \<Rightarrow> p)"

text \<open>The table from watch descriptors to sessions: \<^verbatim>\<open>hashmap_put\<close> refuses a key that is taken by
  another session.\<close>

definition session_watch_cgroup :: "string \<Rightarrow> manager \<Rightarrow> int \<times> manager" where
  "session_watch_cgroup s m =
     (let r = ask Ask_cg_unified_controller m
      in if r < 0 then (r, m)
         else if r = 0 then (0, m)
         else if s_cgroup_control_inotify_wd (ses m s) > - 1 then (0, m)
         else
         let r = ask (Ask_cg_path (session_cgroup s m)) m
         in if r < 0 then (r, m)
            else case sys (Sys_inotify_add_watch (session_cgroup s m)) m of (wd, m) \<Rightarrow>
              if wd < 0 then (if wd = - ENOENT then 0 else wd, m)
              else case map_of (m_cgroup_control_inotify_wd_session m) wd of
                     Some x \<Rightarrow>
                       if x \<noteq> s then (- EEXIST, emit (Sys_inotify_rm_watch wd) m)
                       else (0, upd_ses s (s_cgroup_control_inotify_wd_update (\<lambda>_. wd)) m)
                   | None \<Rightarrow>
                       (0, upd_ses s (s_cgroup_control_inotify_wd_update (\<lambda>_. wd))
                             (m\<lparr>m_cgroup_control_inotify_wd_session :=
                                  (wd, s) # m_cgroup_control_inotify_wd_session m\<rparr>)))"

definition session_release_cgroup :: "string \<Rightarrow> manager \<Rightarrow> manager" where
  "session_release_cgroup s m =
     (let wd = s_cgroup_control_inotify_wd (ses m s)
      in if m_cgroup_inotify_fd m \<ge> 0 \<and> wd \<ge> 0 then
           upd_ses s (s_cgroup_control_inotify_wd_update (\<lambda>_. - 1))
             ((emit (Sys_inotify_rm_watch wd) m)\<lparr>m_cgroup_control_inotify_wd_session :=
                filter (\<lambda>x. fst x \<noteq> wd) (m_cgroup_control_inotify_wd_session m)\<rparr>)
         else m)"

definition session_start_cgroup :: "string \<Rightarrow> manager \<Rightarrow> int \<times> manager" where
  "session_start_cgroup s m =
     (case session_setup_cgroup_paths s m of (r, m) \<Rightarrow> if r < 0 then (r, m) else
      case session_create_delegated_cgroup s m of (r, m) \<Rightarrow> if r < 0 then (r, m) else
      case (if r = 0 then sys (Sys_cg_create (session_cgroup s m)) m else (r, m)) of (r, m) \<Rightarrow>
      if r < 0 then (r, m) else
      let leader = s_leader (ses m s);
          m = (if pidref_is_set leader \<and> pidref_is_alive leader m > 0 then
                 emit (Sys_cg_attach (case s_cgroup_leaf_path (ses m s) of None \<Rightarrow> s | Some l \<Rightarrow> l)
                        (pid_pid leader)) m
               else m)
      in (0, snd (session_watch_cgroup s m)))"

subsection \<open>The FIFO\<close>

definition session_remove_fifo :: "string \<Rightarrow> manager \<Rightarrow> manager" where
  "session_remove_fifo s m =
     (let current_fifo_fd = s_fifo_fd (ses m s);
          m = safe_close current_fifo_fd m;
          m = upd_ses s (\<lambda>x. x\<lparr>s_fifo_event_source := False, s_fifo_fd := - EBADF\<rparr>) m
      in if m_do_interrupt m \<and> current_fifo_fd \<ge> 0 then m
         else case s_fifo_path (ses m s) of
                None \<Rightarrow> m
              | Some p \<Rightarrow> upd_ses s (s_fifo_path_update (\<lambda>_. None)) (emit (Sys_unlink p) m))"

text \<open>Creating the FIFO: the file, the reading side, the watch on it, and the writing side, which is
  what is handed out. The path is set before the file is made.\<close>

definition session_fifo_make :: "string \<Rightarrow> manager \<Rightarrow> int \<times> manager" where
  "session_fifo_make s m =
     (if s_fifo_path (ses m s) \<noteq> None then (0, m)
      else case sys (Sys_mkdir ''/run/systemd/sessions'') m of (r, m) \<Rightarrow>
        if r < 0 then (r, m)
        else
        let path = ''/run/systemd/sessions/'' @ s @ ''.ref''
        in case sys (Sys_mkfifo path) (upd_ses s (s_fifo_path_update (\<lambda>_. Some path)) m) of (r, m) \<Rightarrow>
             if r < 0 \<and> r \<noteq> - EEXIST then (r, m) else (0, m))"

definition session_fifo_open :: "string \<Rightarrow> string \<Rightarrow> manager \<Rightarrow> int \<times> manager" where
  "session_fifo_open s path m =
     (if s_fifo_fd (ses m s) \<ge> 0 then (0, m)
      else case sys (Sys_open_read path) m of (fd, m) \<Rightarrow>
        if fd < 0 then (fd, upd_ses s (s_fifo_fd_update (\<lambda>_. - 1)) m)
        else (0, upd_ses s (s_fifo_fd_update (\<lambda>_. fd)) m))"

definition session_fifo_watch :: "string \<Rightarrow> manager \<Rightarrow> int \<times> manager" where
  "session_fifo_watch s m =
     (if s_fifo_event_source (ses m s) then (0, m)
      else case sys (Sys_add_io ''session-fifo'') m of (r, m) \<Rightarrow>
        if r < 0 then (r, m)
        else sys (Sys_event_source ''session-fifo'')
               (upd_ses s (s_fifo_event_source_update (\<lambda>_. True)) m))"

definition session_create_fifo :: "string \<Rightarrow> manager \<Rightarrow> int \<times> manager" where
  "session_create_fifo s m =
     (case session_fifo_make s m of (r, m) \<Rightarrow> if r < 0 then (r, m) else
      let path = (case s_fifo_path (ses m s) of None \<Rightarrow> [] | Some p \<Rightarrow> p)
      in case session_fifo_open s path m of (r, m) \<Rightarrow> if r < 0 then (r, m) else
         case session_fifo_watch s m of (r, m) \<Rightarrow> if r < 0 then (r, m) else
         sys (Sys_open_write path) m)"

subsection \<open>The virtual terminal\<close>

definition session_open_vt :: "string \<Rightarrow> bool \<Rightarrow> manager \<Rightarrow> int \<times> manager" where
  "session_open_vt s reopen m =
     (if s_vtnr (ses m s) < 1 then (- ENODEV, m)
      else if \<not> reopen \<and> s_vtfd (ses m s) \<ge> 0 then (s_vtfd (ses m s), m)
      else case sys (Sys_open_terminal (tty_path (s_vtnr (ses m s)))) m of (fd, m) \<Rightarrow>
        if fd < 0 then (fd, m)
        else (fd, upd_ses s (s_vtfd_update (\<lambda>_. fd)) (safe_close (s_vtfd (ses m s)) m)))"

definition session_restore_vt :: "string \<Rightarrow> manager \<Rightarrow> manager" where
  "session_restore_vt s m =
     (if s_vtfd (ses m s) < 0 then m
      else case sys (Sys_vt_restore (s_vtfd (ses m s))) m of (r, m) \<Rightarrow>
        let m = (if r = - EIO then
                   (case session_open_vt s True m of (fd, m) \<Rightarrow>
                      if fd \<ge> 0 then snd (sys (Sys_vt_restore fd) m) else m)
                 else m)
        in upd_ses s (s_vtfd_update (\<lambda>_. - EBADF)) (safe_close (s_vtfd (ses m s)) m))"

definition session_prepare_vt :: "string \<Rightarrow> manager \<Rightarrow> int \<times> manager" where
  "session_prepare_vt s m =
     (if s_vtnr (ses m s) < 1 then (0, m)
      else case session_open_vt s False m of (vt, m) \<Rightarrow> if vt < 0 then (vt, m) else
      case sys (Sys_fchown vt (session_uid s m)) (assert_that (has_user s m) m) of (r, m) \<Rightarrow>
      if r < 0 then (r, session_restore_vt s m) else
      case sys (Sys_ioctl vt ''KDSKBMODE'') m of (r, m) \<Rightarrow>
      if r < 0 then (r, session_restore_vt s m) else
      case sys (Sys_ioctl vt ''KDSETMODE'') m of (r, m) \<Rightarrow>
      if r < 0 then (r, session_restore_vt s m) else
      case sys (Sys_ioctl vt ''VT_SETMODE'') m of (r, m) \<Rightarrow>
      if r < 0 then (r, session_restore_vt s m) else (0, m))"

definition session_leave_vt :: "string \<Rightarrow> manager \<Rightarrow> manager" where
  "session_leave_vt s m =
     (if s_vtfd (ses m s) < 0 then m
      else
      case sys (Sys_vt_release (s_vtfd (ses m s))) (session_device_pause_all s m) of (r, m) \<Rightarrow>
        if r = - EIO then
          (case session_open_vt s True m of (fd, m) \<Rightarrow>
             if fd \<ge> 0 then snd (sys (Sys_vt_release fd) m) else m)
        else m)"

subsection \<open>Processes\<close>

abbreviation EREMOTE :: int where "EREMOTE \<equiv> 66"

definition pidref_kill :: "pidref \<Rightarrow> int \<Rightarrow> manager \<Rightarrow> int \<times> manager" where
  "pidref_kill p sig m =
     (if pid_fd p = - EREMOTE then (- EREMOTE, m)
      else if pid_fd p \<ge> 0 \<or> pid_pid p > 0 then sys (Sys_kill_pid (pid_pid p) sig) m
      else (- ESRCH, m))"

definition session_kill :: "string \<Rightarrow> KillWhom \<Rightarrow> int \<Rightarrow> manager \<Rightarrow> int \<times> manager" where
  "session_kill s whom signo m =
     (case whom of
        KILL_ALL \<Rightarrow>
          let r = ask (Ask_cg_path s) m
          in if r = 0 then sys (Sys_kill_cgroup (session_cgroup s m) signo) m else (r, m)
      | KILL_LEADER \<Rightarrow> pidref_kill (s_leader (ses m s)) signo m)"

subsection \<open>What they leave alone\<close>

text \<open>Two states that differ only in how sessions hold on to their resources, and in the sessions'
  own properties: type, class, hints, timers, the controller, whether they are started or stopping.\<close>

definition session_links :: "session \<Rightarrow> session" where
  "session_links x = x\<lparr>s_type := SESSION_UNSPECIFIED, s_class := SESSION_USER,
     s_timestamp := DUAL_TIMESTAMP_NULL, s_display := None, s_tty := None, s_vtfd := 0,
     s_leader_fd_saved := False, s_audit_id := 0, s_fifo_fd := 0, s_fifo_path := None,
     s_fifo_event_source := False, s_leader_pidfd_event_source := False, s_started := False,
     s_stopping := False, s_locked_hint := False, s_idle_hint := False,
     s_idle_hint_timestamp := DUAL_TIMESTAMP_NULL, s_timer_event_source := False,
     s_cgroup_path := None, s_cgroup_leaf_path := None, s_controller := None, s_track := False,
     s_stop_on_idle_event_source := False\<rparr>"

definition same_links :: "manager \<Rightarrow> manager \<Rightarrow> bool" where
  "same_links m m' \<longleftrightarrow>
     m'\<lparr>ses := undefined, m_trace := [], m_abort := False\<rparr> =
     m\<lparr>ses := undefined, m_trace := [], m_abort := False\<rparr> \<and>
     (\<forall>x. session_links (ses m' x) = session_links (ses m x))"

lemma same_links_refl [simp, intro]: "same_links m m"
  by (simp add: same_links_def)

lemma same_links_trans [trans]: "same_links m m' \<Longrightarrow> same_links m' m'' \<Longrightarrow> same_links m m''"
  by (simp add: same_links_def)

lemma same_objects_links: "same_objects m m' \<Longrightarrow> same_links m m'"
  by (cases m; cases m') (simp add: same_objects_def same_links_def)

lemma session_links_fields:
  assumes "session_links x' = session_links x"
  shows "s_seat x' = s_seat x" "s_user x' = s_user x" "s_position x' = s_position x"
    "s_devices x' = s_devices x" "s_in_gc_queue x' = s_in_gc_queue x" "s_leader x' = s_leader x"
    "s_vtnr x' = s_vtnr x" "s_original_type x' = s_original_type x"
    "s_cgroup_control_inotify_wd x' = s_cgroup_control_inotify_wd x"
  using assms by (cases x; cases x'; simp add: session_links_def)+

lemma same_links_ses:
  assumes "same_links m m'"
  shows "s_seat (ses m' s) = s_seat (ses m s)" "s_user (ses m' s) = s_user (ses m s)"
    "s_position (ses m' s) = s_position (ses m s)" "s_devices (ses m' s) = s_devices (ses m s)"
    "s_in_gc_queue (ses m' s) = s_in_gc_queue (ses m s)" "s_leader (ses m' s) = s_leader (ses m s)"
    "s_vtnr (ses m' s) = s_vtnr (ses m s)"
    "s_original_type (ses m' s) = s_original_type (ses m s)"
    "s_cgroup_control_inotify_wd (ses m' s) = s_cgroup_control_inotify_wd (ses m s)"
  using assms session_links_fields [of "ses m' s" "ses m s"] by (simp_all add: same_links_def)

lemma same_links_heaps:
  assumes "same_links m m'"
  shows "sts m' = sts m" "usr m' = usr m" "dev m' = dev m" "sdv m' = sdv m" "inh m' = inh m"
    "btn m' = btn m" "m_seat_gc_queue m' = m_seat_gc_queue m"
    "m_session_gc_queue m' = m_session_gc_queue m" "m_user_gc_queue m' = m_user_gc_queue m"
  using assms by (cases m; cases m'; simp add: same_links_def)+

lemma same_links_tables: "same_links m m' \<Longrightarrow> same_tables m m'"
  by (cases m; cases m'; simp add: same_links_def same_tables_def no_objects_def)

lemmas same_links_simps =
  same_links_ses same_links_heaps same_tables_simps [OF same_links_tables]

lemma wf_same_links: "same_links m m' \<Longrightarrow> wf m' = wf m"
  using inv_congs [of m' m] by (simp add: wf_def same_links_simps)

text \<open>Steps that keep the links.\<close>

definition links_keep :: "(session \<Rightarrow> session) \<Rightarrow> bool" where
  "links_keep f \<longleftrightarrow> (\<forall>x. session_links (f x) = session_links x)"

lemma links_upd: "links_keep f \<Longrightarrow> same_links m m' \<Longrightarrow> same_links m (upd_ses s f m')"
  by (cases m; cases m') (simp add: same_links_def links_keep_def upd_ses_def)

lemma links_keep_simps [simp]:
  "links_keep (s_type_update f1)" "links_keep (s_class_update f2)" "links_keep (s_timestamp_update f3)"
  "links_keep (s_display_update f4)" "links_keep (s_tty_update f5)" "links_keep (s_vtfd_update f6)"
  "links_keep (s_leader_fd_saved_update f7)" "links_keep (s_audit_id_update f8)"
  "links_keep (s_fifo_fd_update f9)" "links_keep (s_fifo_path_update f10)"
  "links_keep (s_fifo_event_source_update f11)" "links_keep (s_leader_pidfd_event_source_update f12)"
  "links_keep (s_started_update f13)" "links_keep (s_stopping_update f14)"
  "links_keep (s_locked_hint_update f15)" "links_keep (s_timer_event_source_update f16)"
  "links_keep (s_cgroup_path_update f17)" "links_keep (s_cgroup_leaf_path_update f18)"
  "links_keep (s_controller_update f19)" "links_keep (s_track_update f20)"
  "links_keep (s_stop_on_idle_event_source_update f21)"
  by (simp_all add: links_keep_def session_links_def)

lemma links_keep_pairs [simp]:
  "links_keep (\<lambda>x. x\<lparr>s_fifo_event_source := b, s_fifo_fd := i\<rparr>)"
  "links_keep (\<lambda>x. x\<lparr>s_idle_hint := b, s_idle_hint_timestamp := t\<rparr>)"
  "links_keep (\<lambda>x. x\<lparr>s_timer_event_source := b, s_leader_pidfd_event_source := c\<rparr>)"
  "links_keep (\<lambda>x. x\<lparr>s_cgroup_leaf_path := p, s_cgroup_path := q\<rparr>)"
  by (simp_all add: links_keep_def session_links_def)

lemma links_step: "same_links m m' \<Longrightarrow> same_objects m' m'' \<Longrightarrow> same_links m m''"
  by (rule same_links_trans [OF _ same_objects_links])

lemma safe_close_same: "same_objects m (safe_close fd m)"
  by (simp add: safe_close_def emit_same)

lemmas safe_close_frame [simp] = same_objects_simps [OF safe_close_same]

lemmas links_basic =
  links_step [OF _ sys_same] links_step [OF _ emit_same] links_step [OF _ safe_close_same]
  links_step [OF _ assert_that_same [OF same_objects_refl]]
  links_step [OF _ session_send_changed_same] links_step [OF _ seat_send_changed_same]
  links_step [OF _ user_send_changed_same] links_step [OF _ manager_send_changed_same]
  links_step [OF _ seat_save_same] links_step [OF _ session_save_same] links_step [OF _ user_save_same]
  links_step [OF _ session_send_signal_same] links_upd

lemma links_chown_tty: "same_links m m' \<Longrightarrow> same_links m (snd (session_chown_tty s m'))"
  by (simp add: session_chown_tty_def case_prod_beta links_basic)

lemma links_restore_tty: "same_links m m' \<Longrightarrow> same_links m (snd (session_restore_tty s m'))"
  by (simp add: session_restore_tty_def case_prod_beta Let_def links_basic)

lemma links_enable_loop:
  "same_links m m' \<Longrightarrow> same_links m (snd (session_enable_controllers_loop path q m'))"
proof (induction path q m' rule: session_enable_controllers_loop.induct)
  case (1 path q m')
  obtain r c q' where w: "extract_first_word q None {} = (r, c, q')"
    by (metis prod_cases3)
  show ?case
    using 1(1) [OF w [symmetric] refl] 1(2)
    by (subst session_enable_controllers_loop.simps) (simp add: w links_basic)
qed

lemma links_enable: "same_links m m' \<Longrightarrow> same_links m (snd (session_enable_controllers path m'))"
  by (simp add: session_enable_controllers_def Let_def links_enable_loop split: sum.split)

lemma links_setup_paths: "same_links m m' \<Longrightarrow> same_links m (snd (session_setup_cgroup_paths s m'))"
  by (simp add: session_setup_cgroup_paths_def Let_def links_basic)

lemma links_chown_path: "same_links m m' \<Longrightarrow> same_links m (snd (session_chown_cgroup_path p u g m'))"
  by (simp add: session_chown_cgroup_path_def case_prod_beta links_basic)

lemma links_chown_paths: "same_links m m' \<Longrightarrow> same_links m (snd (session_chown_paths u g ps m'))"
  by (induction ps arbitrary: m') (simp_all add: case_prod_beta links_chown_path)

lemma links_delegate_paths: "same_links m m' \<Longrightarrow> same_links m (snd (session_delegate_paths s ps m'))"
  by (simp add: session_delegate_paths_def Let_def links_chown_paths)

lemma links_create_delegated:
  "same_links m m' \<Longrightarrow> same_links m (snd (session_create_delegated_cgroup s m'))"
  by (simp add: session_create_delegated_cgroup_def Let_def case_prod_beta links_basic
      links_delegate_paths links_enable split: option.split)

lemma links_remove_fifo: "same_links m m' \<Longrightarrow> same_links m (session_remove_fifo s m')"
  by (simp add: session_remove_fifo_def Let_def links_basic split: option.split)

lemma links_fifo:
  "same_links m m' \<Longrightarrow> same_links m (snd (session_fifo_make s m'))"
  "same_links m m' \<Longrightarrow> same_links m (snd (session_fifo_open s path m'))"
  "same_links m m' \<Longrightarrow> same_links m (snd (session_fifo_watch s m'))"
  by (simp_all add: session_fifo_make_def session_fifo_open_def session_fifo_watch_def Let_def
      case_prod_beta links_basic)

lemma links_create_fifo: "same_links m m' \<Longrightarrow> same_links m (snd (session_create_fifo s m'))"
  by (simp add: session_create_fifo_def Let_def case_prod_beta links_basic links_fifo)

lemma links_open_vt: "same_links m m' \<Longrightarrow> same_links m (snd (session_open_vt s b m'))"
  by (simp add: session_open_vt_def case_prod_beta links_basic)

lemma links_restore_vt: "same_links m m' \<Longrightarrow> same_links m (session_restore_vt s m')"
  by (simp add: session_restore_vt_def Let_def case_prod_beta links_basic links_open_vt)

lemma links_prepare_vt: "same_links m m' \<Longrightarrow> same_links m (snd (session_prepare_vt s m'))"
  by (simp add: session_prepare_vt_def case_prod_beta links_basic links_open_vt links_restore_vt)

lemma links_kill: "same_links m m' \<Longrightarrow> same_links m (snd (session_kill s whom sig m'))"
  by (cases whom) (simp_all add: session_kill_def pidref_kill_def Let_def links_basic)

lemmas links_resources =
  links_chown_tty links_restore_tty links_setup_paths links_create_delegated links_remove_fifo
  links_create_fifo links_open_vt links_restore_vt links_prepare_vt links_kill

subsection \<open>The tables of leaders and watches\<close>

text \<open>Two states that agree but for the sessions' leaders and watches and the tables of both.\<close>

definition core_links :: "session \<Rightarrow> session" where
  "core_links x = (session_links x)\<lparr>s_leader := PIDREF_NULL, s_cgroup_control_inotify_wd := 0\<rparr>"

definition same_core :: "manager \<Rightarrow> manager \<Rightarrow> bool" where
  "same_core m m' \<longleftrightarrow>
     m'\<lparr>ses := undefined, m_trace := [], m_abort := False, m_sessions_by_leader := [],
        m_cgroup_control_inotify_wd_session := []\<rparr> =
     m\<lparr>ses := undefined, m_trace := [], m_abort := False, m_sessions_by_leader := [],
        m_cgroup_control_inotify_wd_session := []\<rparr> \<and>
     (\<forall>x. core_links (ses m' x) = core_links (ses m x))"

lemma same_core_refl [simp, intro]: "same_core m m"
  by (simp add: same_core_def)

lemma same_core_trans [trans]: "same_core m m' \<Longrightarrow> same_core m' m'' \<Longrightarrow> same_core m m''"
  by (simp add: same_core_def)

lemma same_links_core: "same_links m m' \<Longrightarrow> same_core m m'"
  by (cases m; cases m') (simp add: same_links_def same_core_def core_links_def)

lemma core_links_fields:
  assumes "core_links x' = core_links x"
  shows "s_seat x' = s_seat x" "s_user x' = s_user x" "s_position x' = s_position x"
    "s_devices x' = s_devices x" "s_in_gc_queue x' = s_in_gc_queue x" "s_vtnr x' = s_vtnr x"
  using assms by (cases x; cases x'; simp add: core_links_def session_links_def)+

lemma same_core_ses:
  assumes "same_core m m'"
  shows "s_seat (ses m' s) = s_seat (ses m s)" "s_user (ses m' s) = s_user (ses m s)"
    "s_position (ses m' s) = s_position (ses m s)" "s_devices (ses m' s) = s_devices (ses m s)"
    "s_in_gc_queue (ses m' s) = s_in_gc_queue (ses m s)" "s_vtnr (ses m' s) = s_vtnr (ses m s)"
  using assms core_links_fields [of "ses m' s" "ses m s"] by (simp_all add: same_core_def)

lemma same_core_fields:
  assumes "same_core m m'"
  shows "sts m' = sts m" "usr m' = usr m" "dev m' = dev m" "sdv m' = sdv m" "inh m' = inh m"
    "btn m' = btn m" "m_seat_gc_queue m' = m_seat_gc_queue m"
    "m_session_gc_queue m' = m_session_gc_queue m" "m_user_gc_queue m' = m_user_gc_queue m"
    "m_devices m' = m_devices m" "m_seats m' = m_seats m" "m_sessions m' = m_sessions m"
    "m_users m' = m_users m" "m_inhibitors m' = m_inhibitors m" "m_buttons m' = m_buttons m"
    "m_seat0 m' = m_seat0 m" "m_console_active_fd m' = m_console_active_fd m"
    "m_cgroup_inotify_fd m' = m_cgroup_inotify_fd m" "m_malloc m' = m_malloc m"
    "m_env m' = m_env m" "m_world m' = m_world m" "m_files m' = m_files m" "m_do_interrupt m' = m_do_interrupt m"
  using assms by (cases m; cases m'; simp add: same_core_def)+

lemma seat_has_vts_core: "same_core m m' \<Longrightarrow> seat_has_vts st m' = seat_has_vts st m"
  by (simp add: seat_has_vts_def seat_is_seat0_def same_core_fields)

lemmas same_core_simps = same_core_ses same_core_fields seat_has_vts_core

lemma wf_same_core: "same_core m m' \<Longrightarrow> wf m \<Longrightarrow> inv_leaders m' \<Longrightarrow> wf m'"
  using inv_congs(1-7) [of m' m] by (simp add: wf_def same_core_simps)

definition core_keep :: "(session \<Rightarrow> session) \<Rightarrow> bool" where
  "core_keep f \<longleftrightarrow> (\<forall>x. core_links (f x) = core_links x)"

lemma core_upd: "core_keep f \<Longrightarrow> same_core m m' \<Longrightarrow> same_core m (upd_ses s f m')"
  by (cases m; cases m') (simp add: same_core_def core_keep_def upd_ses_def)

lemma core_tables:
  "same_core m m' \<Longrightarrow> same_core m (m'\<lparr>m_sessions_by_leader := a\<rparr>)"
  "same_core m m' \<Longrightarrow> same_core m (m'\<lparr>m_cgroup_control_inotify_wd_session := b\<rparr>)"
  by (cases m; cases m'; simp add: same_core_def)+

lemma core_keep_simps [simp]:
  "core_keep (s_leader_update f1)" "core_keep (s_cgroup_control_inotify_wd_update f2)"
  by (simp_all add: core_keep_def core_links_def session_links_def)

lemma core_step: "same_core m m' \<Longrightarrow> same_links m' m'' \<Longrightarrow> same_core m m''"
  by (rule same_core_trans [OF _ same_links_core])

lemmas core_basic =
  core_step [OF _ links_basic(1) [OF same_links_refl]] core_step [OF _ links_basic(2) [OF same_links_refl]]
  core_step [OF _ links_basic(3) [OF same_links_refl]] core_step [OF _ links_basic(4) [OF same_links_refl]]
  core_upd core_tables

lemma core_watch_cgroup: "same_core m m' \<Longrightarrow> same_core m (snd (session_watch_cgroup s m'))"
  by (simp add: session_watch_cgroup_def Let_def case_prod_beta core_basic split: option.split)

lemma core_release_cgroup: "same_core m m' \<Longrightarrow> same_core m (session_release_cgroup s m')"
  by (simp add: session_release_cgroup_def Let_def core_basic)

lemma leaders_watch_cgroup:
  assumes "inv_leaders m" "s \<in> set (m_sessions m)"
  shows "inv_leaders (snd (session_watch_cgroup s m))"
proof -
  have fresh: "wd \<notin> fst ` set l" if "map_of l wd = None" for wd :: int and l :: "(int \<times> string) list"
    using that by (simp add: map_of_eq_None_iff)
  have bound: "(wd, x) \<in> set l" if "map_of l wd = Some x" for wd :: int and x :: string and l
    using that by (rule map_of_SomeD)
  have watched: "- 1 < w" if "0 \<le> m_cgroup_inotify_fd m"
      "(w, x) \<in> set (m_cgroup_control_inotify_wd_session m)" for w x
    using assms(1) that by (fastforce simp: inv_leaders_def)
  show ?thesis
    using assms
    by (auto simp: session_watch_cgroup_def Let_def case_prod_beta inv_leaders_def upd_simps
        dest: bound fresh watched split: option.split)
qed

lemma leaders_release_cgroup: "inv_leaders m \<Longrightarrow> inv_leaders (session_release_cgroup s m)"
  by (auto simp: session_release_cgroup_def Let_def inv_leaders_def upd_simps distinct_map_filter)

end
