(* ===== verification/Session.thy ===== *)
theory Session
  imports Session_Resources
begin

text \<open>
  \<^verbatim>\<open>logind-session.c\<close>: the life of a session from \<^verbatim>\<open>session_new\<close> to \<^verbatim>\<open>session_free\<close>, its
  leader, its controller and its properties. Loading a session from its state file is in theory
  \<open>Manager\<close>, since it may create devices.
\<close>

subsection \<open>Creation, user and leader\<close>

definition new_session :: session where
  "new_session = \<lparr>s_position = 0, s_type = SESSION_UNSPECIFIED, s_original_type = SESSION_UNSPECIFIED,
     s_class = SESSION_USER, s_user = None, s_timestamp = DUAL_TIMESTAMP_NULL, s_display = None,
     s_tty = None, s_tty_validity = None, s_remote = False, s_remote_user = None, s_remote_host = None,
     s_service = None, s_desktop = None, s_scope = None, s_seat = None, s_vtnr = 0, s_vtfd = - EBADF,
     s_leader = PIDREF_NULL, s_leader_fd_saved = False, s_deserialized_pid = 0,
     s_audit_id = AUDIT_SESSION_INVALID, s_fifo_fd = - EBADF, s_fifo_path = None,
     s_fifo_event_source = False, s_leader_pidfd_event_source = False, s_in_gc_queue = False,
     s_started = False, s_stopping = False, s_was_active = False, s_locked_hint = False,
     s_idle_hint = False, s_idle_hint_timestamp = DUAL_TIMESTAMP_NULL, s_create_message = False,
     s_upgrade_message = False, s_timer_event_source = False, s_cgroup_control_inotify_wd = - 1,
     s_cgroup_path = None, s_cgroup_leaf_path = None, s_controller = None, s_devices = [],
     s_track = False, s_stop_on_idle_event_source = False\<rparr>"

text \<open>As with seats: when the name is taken, \<^verbatim>\<open>session_free\<close> on the object that was to be entered
  removes the entry of the session that has the name.\<close>

definition session_new :: "string \<Rightarrow> manager \<Rightarrow> int \<times> manager" where
  "session_new name m =
     (if \<not> session_id_valid name then (- EINVAL, m)
      else if name \<in> set (m_sessions m) then (- EEXIST, m\<lparr>m_sessions := remove1 name (m_sessions m)\<rparr>)
      else (0, (upd_ses name (\<lambda>_. new_session) m)\<lparr>m_sessions := name # m_sessions m\<rparr>))"

definition session_watch_pidfd :: "string \<Rightarrow> manager \<Rightarrow> int \<times> manager" where
  "session_watch_pidfd s m =
     (let m = assert_that (pidref_is_set (s_leader (ses m s)) \<and>
                           \<not> s_leader_pidfd_event_source (ses m s)) m
      in if pid_fd (s_leader (ses m s)) < 0 then (0, m)
         else case sys (Sys_add_io ''session-pidfd'') m of (r, m) \<Rightarrow>
           if r < 0 then (r, m)
           else case sys (Sys_event_source ''session-pidfd'')
                       (upd_ses s (s_leader_pidfd_event_source_update (\<lambda>_. True)) m) of (r, m) \<Rightarrow>
             (if r < 0 then r else 0, m))"

definition leader_fd_name :: "string \<Rightarrow> string" where
  "leader_fd_name s = ''session-'' @ s @ ''-leader-fd''"

text \<open>The leader goes, with its entry in the table, if that is the session's own.\<close>

definition session_reset_leader :: "string \<Rightarrow> bool \<Rightarrow> manager \<Rightarrow> manager" where
  "session_reset_leader s keep_fdstore m =
     (let m = (if keep_fdstore then m
               else upd_ses s (s_leader_fd_saved_update (\<lambda>_. False))
                      (emit (Sys_remove_fd (leader_fd_name s)) m));
          leader = s_leader (ses m s)
      in if \<not> pidref_is_set leader then m
         else
         let m = upd_ses s (s_leader_pidfd_event_source_update (\<lambda>_. False)) m;
             m = m\<lparr>m_sessions_by_leader := filter (\<lambda>x. x \<noteq> (pid_pid leader, s)) (m_sessions_by_leader m)\<rparr>;
             m = safe_close (pid_fd leader) m
         in upd_ses s (s_leader_update (\<lambda>_. PIDREF_NULL)) m)"

definition session_set_user :: "string \<Rightarrow> uid \<Rightarrow> manager \<Rightarrow> manager" where
  "session_set_user s u m =
     (let m = assert_that (s_user (ses m s) = None) m;
          m = upd_ses s (s_user_update (\<lambda>_. Some u)) m;
          m = upd_user u (u_sessions_update (\<lambda>l. s # l)) m
      in user_update_last_session_timer u m)"

text \<open>\<open>Ask_audit\<close> answers with the audit session of a process, or an error.\<close>

definition session_read_audit :: "string \<Rightarrow> manager \<Rightarrow> manager" where
  "session_read_audit s m =
     (let u = ask (Ask_audit (pid_pid (s_leader (ses m s)))) m
      in if u < 0 \<or> \<not> audit_session_is_valid (nat u) then m
         else upd_ses s (s_audit_id_update (\<lambda>_. nat u)) m)"

definition session_set_leader_consume :: "string \<Rightarrow> pidref \<Rightarrow> manager \<Rightarrow> int \<times> manager" where
  "session_set_leader_consume s leader m =
     (let m = assert_that (pidref_is_set leader) m
      in if pidref_equal (s_leader (ses m s)) leader then (0, safe_close (pid_fd leader) m)
         else
         let m = session_reset_leader s False m;
             m = upd_ses s (s_leader_update (\<lambda>_. leader)) m
         in case session_watch_pidfd s m of (r, m) \<Rightarrow>
              if r < 0 then (r, m)
              else case map_of (m_sessions_by_leader m) (pid_pid leader) of
                     Some x \<Rightarrow> if x \<noteq> s then (- EEXIST, m) else (0, assert_that False m)
                   | None \<Rightarrow>
                       let m = m\<lparr>m_sessions_by_leader := (pid_pid leader, s) # m_sessions_by_leader m\<rparr>;
                           m = (if pid_fd leader \<ge> 0 then
                                  (case sys (Sys_push_fd (leader_fd_name s) (pid_fd leader)) m of (r, m) \<Rightarrow>
                                     if r < 0 then m
                                     else upd_ses s (s_leader_fd_saved_update (\<lambda>_. True)) m)
                                else m)
                       in (1, session_read_audit s m))"

subsection \<open>Properties\<close>

definition session_set_idle_hint :: "string \<Rightarrow> bool \<Rightarrow> manager \<Rightarrow> int \<times> manager" where
  "session_set_idle_hint s b m =
     (if \<not> SESSION_CLASS_CAN_IDLE (s_class (ses m s)) then (- ENOTTY, m)
      else if \<not> SESSION_TYPE_IS_GRAPHICAL (s_type (ses m s)) then (- ENOTTY, m)
      else if s_idle_hint (ses m s) = b then (0, m)
      else
      let m = upd_ses s (\<lambda>x. x\<lparr>s_idle_hint := b, s_idle_hint_timestamp := dual_timestamp_now m\<rparr>) m;
          props = [''IdleHint'', ''IdleSinceHint'', ''IdleSinceHintMonotonic''];
          m = session_send_changed s props m;
          m = (case s_seat (ses m s) of None \<Rightarrow> m | Some st \<Rightarrow> seat_send_changed st props m);
          m = (case s_user (ses m s) of
                 None \<Rightarrow> assert_that False m | Some u \<Rightarrow> user_send_changed u props m)
      in (1, manager_send_changed props m))"

definition session_get_locked_hint :: "string \<Rightarrow> manager \<Rightarrow> bool" where
  "session_get_locked_hint s m = s_locked_hint (ses m s)"

definition session_set_locked_hint :: "string \<Rightarrow> bool \<Rightarrow> manager \<Rightarrow> int \<times> manager" where
  "session_set_locked_hint s b m =
     (if \<not> SESSION_CLASS_CAN_LOCK (s_class (ses m s)) then (- ENOTTY, m)
      else if s_locked_hint (ses m s) = b then (0, m)
      else
      let m = upd_ses s (s_locked_hint_update (\<lambda>_. b)) m
      in (1, session_send_changed s [''LockedHint''] (snd (session_save s m))))"

definition session_set_type :: "string \<Rightarrow> SessionType \<Rightarrow> manager \<Rightarrow> manager" where
  "session_set_type s t m =
     (if s_type (ses m s) = t then m
      else session_send_changed s [''Type''] (snd (session_save s (upd_ses s (s_type_update (\<lambda>_. t)) m))))"

definition session_set_class :: "string \<Rightarrow> SessionClass \<Rightarrow> manager \<Rightarrow> manager" where
  "session_set_class s c m =
     (if s_class (ses m s) = c then m
      else session_send_changed s [''Class''] (snd (session_save s (upd_ses s (s_class_update (\<lambda>_. c)) m))))"

definition session_set_display :: "string \<Rightarrow> string \<Rightarrow> manager \<Rightarrow> int \<times> manager" where
  "session_set_display s display m =
     (if s_display (ses m s) = Some display then (0, m)
      else (1, session_send_changed s [''Display'']
                 (snd (session_save s (upd_ses s (s_display_update (\<lambda>_. Some display)) m)))))"

definition session_set_tty :: "string \<Rightarrow> string \<Rightarrow> manager \<Rightarrow> int \<times> manager" where
  "session_set_tty s tty m =
     (if s_tty (ses m s) = Some tty then (0, m)
      else (1, session_send_changed s [''TTY'']
                 (snd (session_save s (upd_ses s (s_tty_update (\<lambda>_. Some tty)) m)))))"

definition session_add_to_gc_queue :: "string \<Rightarrow> manager \<Rightarrow> manager" where
  "session_add_to_gc_queue s m =
     (if s_in_gc_queue (ses m s) then m
      else upd_ses s (s_in_gc_queue_update (\<lambda>_. True))
             (m\<lparr>m_session_gc_queue := s # m_session_gc_queue m\<rparr>))"

subsection \<open>The controller\<close>

definition session_is_controller :: "string \<Rightarrow> string \<Rightarrow> manager \<Rightarrow> bool" where
  "session_is_controller s sender m \<longleftrightarrow> s_controller (ses m s) = Some sender"

text \<open>Freeing the first device until there is none: each goes out of the table as it is freed.\<close>

definition session_free_devices :: "string \<Rightarrow> manager \<Rightarrow> manager" where
  "session_free_devices s m = fold session_device_free (map (Pair s) (s_devices (ses m s))) m"

definition session_release_controller :: "string \<Rightarrow> bool \<Rightarrow> manager \<Rightarrow> manager" where
  "session_release_controller s notify m =
     (if s_controller (ses m s) = None then m
      else
      let m = (if notify then m else upd_ses s (s_controller_update (\<lambda>_. None)) m);
          m = session_free_devices s m
      in upd_ses s (s_track_update (\<lambda>_. False)) (upd_ses s (s_controller_update (\<lambda>_. None)) m))"

definition session_set_controller :: "string \<Rightarrow> string \<Rightarrow> bool \<Rightarrow> bool \<Rightarrow> manager \<Rightarrow> int \<times> manager" where
  "session_set_controller s sender force prepare m =
     (if session_is_controller s sender m then (0, m)
      else if s_controller (ses m s) \<noteq> None \<and> \<not> force then (- EBUSY, m)
      else
      case sys Sys_track_new (upd_ses s (s_track_update (\<lambda>_. False)) m) of (r, m) \<Rightarrow>
      if r < 0 then (r, m) else
      case sys (Sys_track_add_name sender) (upd_ses s (s_track_update (\<lambda>_. True)) m) of (r, m) \<Rightarrow>
      if r < 0 then (r, m) else
      case (if prepare then session_prepare_vt s m else (0, m)) of (r, m) \<Rightarrow>
      if r < 0 then (r, upd_ses s (s_track_update (\<lambda>_. False)) m) else
      let m = session_release_controller s True m;
          m = upd_ses s (s_controller_update (\<lambda>_. Some sender)) m
      in (0, snd (session_save s m)))"

definition session_drop_controller :: "string \<Rightarrow> manager \<Rightarrow> manager" where
  "session_drop_controller s m =
     (if s_controller (ses m s) = None then m
      else
      let m = upd_ses s (s_track_update (\<lambda>_. False)) m;
          m = session_set_type s (s_original_type (ses m s)) m;
          m = session_release_controller s False m;
          m = snd (session_save s m)
      in session_restore_vt s m)"

definition on_bus_track :: "string \<Rightarrow> manager \<Rightarrow> manager" where
  "on_bus_track s m = session_drop_controller s m"

subsection \<open>Starting and stopping\<close>

definition session_setup_stop_on_idle_timer :: "string \<Rightarrow> manager \<Rightarrow> int \<times> manager" where
  "session_setup_stop_on_idle_timer s m =
     (if m_stop_idle_session_usec m = USEC_INFINITY \<or>
         \<not> SESSION_CLASS_CAN_STOP_ON_IDLE (s_class (ses m s)) then (0, m)
      else case sys (Sys_add_time ''stop-on-idle'' (m_stop_idle_session_usec m)) m of (r, m) \<Rightarrow>
        if r < 0 then (r, m)
        else (0, upd_ses s (s_stop_on_idle_event_source_update (\<lambda>_. True)) m))"

text \<open>What a session does on its seat, where it has one.\<close>

definition on_seat :: "(string \<Rightarrow> manager \<Rightarrow> manager) \<Rightarrow> string \<Rightarrow> manager \<Rightarrow> manager" where
  "on_seat f s m = (case s_seat (ses m s) of None \<Rightarrow> m | Some st \<Rightarrow> f st m)"

definition session_start :: "string \<Rightarrow> manager \<Rightarrow> int \<times> manager" where
  "session_start s m =
     (case s_user (ses m s) of
        None \<Rightarrow> (- ESTALE, m)
      | Some u \<Rightarrow>
          if s_stopping (ses m s) then (- EINVAL, m)
          else if s_started (ses m s) then (0, m)
          else
          case user_start u m of (r, m) \<Rightarrow> if r < 0 then (r, m) else
          case session_start_cgroup s m of (r, m) \<Rightarrow> if r < 0 then (r, m) else
          case session_setup_stop_on_idle_timer s m of (r, m) \<Rightarrow> if r < 0 then (r, m) else
          let m = (if \<not> dual_timestamp_is_set (s_timestamp (ses m s))
                   then upd_ses s (s_timestamp_update (\<lambda>_. dual_timestamp_now m)) m else m);
              m = on_seat (\<lambda>st m. snd (seat_read_active_vt st m)) s m;
              m = upd_ses s (s_started_update (\<lambda>_. True)) m;
              m = snd (session_chown_tty s m);
              m = user_elect_display u m;
              m = snd (session_save s m);
              m = snd (user_save u m);
              m = on_seat (\<lambda>st m. snd (seat_save st m)) s m;
              m = session_send_signal s True m;
              m = user_send_changed u [''Display''] m
          in (0, on_seat (\<lambda>st m. if st_active (sts m st) = Some s
                                 then seat_send_changed st [''ActiveSession''] m else m) s m))"

abbreviation SIGTERM :: int where "SIGTERM \<equiv> 15"

definition session_stop_scope :: "string \<Rightarrow> bool \<Rightarrow> manager \<Rightarrow> int \<times> manager" where
  "session_stop_scope s force m =
     (let u = usr m (session_uid s m)
      in if force \<or> (u_kill_processes u \<noteq> 0 \<and>
                     (u_kill_processes u > 0 \<or> manager_shall_kill m (u_user_name u))) then
           (if force \<or> user_check_linger_file (session_uid s m) m < 1 then
              (case session_kill s KILL_ALL SIGTERM m of (r, m) \<Rightarrow> if r < 0 then (r, m) else (0, m))
            else (0, m))
         else (0, m))"

definition session_stop :: "string \<Rightarrow> bool \<Rightarrow> manager \<Rightarrow> int \<times> manager" where
  "session_stop s force m =
     (case s_user (ses m s) of
        None \<Rightarrow> (- ESTALE, m)
      | Some u \<Rightarrow>
          if \<not> s_started (ses m s) then (0, m)
          else if s_stopping (ses m s) then (0, m)
          else
          let m = upd_ses s (\<lambda>x. x\<lparr>s_timer_event_source := False, s_leader_pidfd_event_source := False\<rparr>) m;
              m = snd (session_restore_tty s m);
              m = on_seat (\<lambda>st m. seat_evict_position st s m) s m;
              m = session_remove_fifo s m;
              (r, m) = session_stop_scope s force m;
              m = upd_ses s (s_stopping_update (\<lambda>_. True)) m;
              m = user_elect_display u m;
              m = snd (session_save s m)
          in (r, snd (user_save u m)))"

definition session_finalize :: "string \<Rightarrow> manager \<Rightarrow> int \<times> manager" where
  "session_finalize s m =
     (case s_user (ses m s) of
        None \<Rightarrow> (- ESTALE, m)
      | Some u \<Rightarrow>
          let m = snd (session_restore_tty s m);
              m = session_release_cgroup s m;
              m = emit (Sys_cg_trim (session_cgroup s m)) m;
              m = upd_ses s (s_timer_event_source_update (\<lambda>_. False)) m;
              m = on_seat (\<lambda>st m. seat_evict_position st s m) s m;
              m = session_free_devices s m;
              m = emit (Sys_unlink (session_state_file s)) m;
              m = session_add_to_gc_queue s m;
              m = user_add_to_gc_queue u m;
              m = (if s_started (ses m s)
                   then upd_ses s (s_started_update (\<lambda>_. False)) (session_send_signal s False m) else m);
              m = on_seat (\<lambda>st m. if st_active (sts m st) = Some s then seat_set_active st None m else m) s m;
              m = on_seat (\<lambda>st m. snd (seat_save st m)) s m;
              m = session_reset_leader s False m;
              m = snd (user_save u m)
          in (0, user_send_changed u [''Display''] m))"

definition session_dispatch_leader_pidfd :: "string \<Rightarrow> manager \<Rightarrow> manager" where
  "session_dispatch_leader_pidfd s m = snd (session_stop s False m)"

definition session_dispatch_fifo :: "string \<Rightarrow> manager \<Rightarrow> manager" where
  "session_dispatch_fifo s m = snd (session_stop s False (session_remove_fifo s m))"

definition session_dispatch_stop_on_idle :: "string \<Rightarrow> manager \<Rightarrow> int \<times> manager" where
  "session_dispatch_stop_on_idle s m =
     (if s_stopping (ses m s) then (0, m)
      else case session_get_idle_hint s m of (idle, k) \<Rightarrow>
        if idle then session_stop s True m
        else
        let ts = stored m k;
            from = (if dual_timestamp_is_set ts then ts_monotonic ts else now_monotonic m)
        in case sys (Sys_add_time ''stop-on-idle'' (usec_add from (m_stop_idle_session_usec m))) m of (r, m) \<Rightarrow>
           if r < 0 then (r, m)
           else case sys (Sys_event_source ''stop-on-idle'') m of (r, m) \<Rightarrow>
             if r < 0 then (r, m) else (1, m))"

definition release_timeout_callback :: "string \<Rightarrow> manager \<Rightarrow> manager" where
  "release_timeout_callback s m = session_add_to_gc_queue s (snd (session_stop s False m))"

text \<open>Twenty seconds.\<close>

definition RELEASE_USEC :: nat where
  "RELEASE_USEC = 20 * USEC_PER_SEC"

definition session_release :: "string \<Rightarrow> manager \<Rightarrow> int \<times> manager" where
  "session_release s m =
     (if \<not> s_started (ses m s) \<or> s_stopping (ses m s) then (0, m)
      else if s_timer_event_source (ses m s) then (0, m)
      else case sys (Sys_add_time ''session-release'' RELEASE_USEC) m of (r, m) \<Rightarrow>
        if r < 0 then (r, m)
        else (r, upd_ses s (s_timer_event_source_update (\<lambda>_. True)) m))"

subsection \<open>Notifications about the control group\<close>

definition manager_notify_cgroup_empty :: "string \<Rightarrow> manager \<Rightarrow> int \<times> manager" where
  "manager_notify_cgroup_empty cgroup m =
     (if cgroup \<notin> set (m_sessions m) then (0, m)
      else if ask (Ask_cg_is_empty (session_cgroup cgroup m)) m \<le> 0 then (0, m)
      else session_release cgroup m)"

text \<open>\<open>Ask_cg_populated\<close> is what \<^verbatim>\<open>cgroup.events\<close> says: an error, 0 or 1 for these strings, 2 for
  anything else.\<close>

definition session_check_cgroup_events :: "string \<Rightarrow> manager \<Rightarrow> int \<times> manager" where
  "session_check_cgroup_events s m =
     (let populated = ask (Ask_cg_populated (session_cgroup s m)) m
      in if populated = - ENOENT then
           (if ask (Ask_cg_path (session_cgroup s m)) m < 0 then manager_notify_cgroup_empty s m
            else (0, m))
         else if populated < 0 then (populated, m)
         else if populated = 1 then
           (0, if \<not> s_stopping (ses m s) \<and> s_timer_event_source (ses m s)
               then upd_ses s (s_timer_event_source_update (\<lambda>_. False)) m else m)
         else if populated = 0 then manager_notify_cgroup_empty s m
         else (0, m))"

text \<open>One event of the inotify descriptor: its watch descriptor and whether the watch was removed.\<close>

definition on_cgroup_inotify_event :: "int \<Rightarrow> bool \<Rightarrow> manager \<Rightarrow> manager" where
  "on_cgroup_inotify_event wd ignored m =
     (if wd < 0 \<or> ignored then m
      else case map_of (m_cgroup_control_inotify_wd_session m) wd of
             None \<Rightarrow> m
           | Some s \<Rightarrow> snd (session_check_cgroup_events s m))"

subsection \<open>Freeing\<close>

definition session_unlink_user :: "string \<Rightarrow> manager \<Rightarrow> manager" where
  "session_unlink_user s m =
     (case s_user (ses m s) of
        None \<Rightarrow> m
      | Some u \<Rightarrow>
          user_update_last_session_timer u
            (upd_user u (\<lambda>x. x\<lparr>u_sessions := remove1 s (u_sessions x),
                              u_display := (if u_display x = Some s then None else u_display x)\<rparr>) m))"

definition forget_session :: "string \<Rightarrow> seat \<Rightarrow> seat" where
  "forget_session s x = x\<lparr>st_active := (if st_active x = Some s then None else st_active x),
     st_pending_switch := (if st_pending_switch x = Some s then None else st_pending_switch x)\<rparr>"

definition session_unlink_seat :: "string \<Rightarrow> manager \<Rightarrow> manager" where
  "session_unlink_seat s m =
     (case s_seat (ses m s) of
        None \<Rightarrow> m
      | Some st \<Rightarrow>
          let m = upd_seat st (forget_session s) m;
              m = seat_evict_position st s m
          in upd_seat st (st_sessions_update (remove1 s)) m)"

definition session_free :: "string \<Rightarrow> manager \<Rightarrow> manager" where
  "session_free s m =
     (let m = (if s_in_gc_queue (ses m s)
               then upd_ses s (s_in_gc_queue_update (\<lambda>_. False))
                      (m\<lparr>m_session_gc_queue := remove1 s (m_session_gc_queue m)\<rparr>) else m);
          m = session_drop_controller s m;
          m = session_free_devices s m;
          m = session_unlink_user s m;
          m = session_unlink_seat s m;
          m = upd_ses s (\<lambda>x. x\<lparr>s_cgroup_leaf_path := None, s_cgroup_path := None\<rparr>) m;
          m = session_reset_leader s True m;
          m = m\<lparr>m_sessions := remove1 s (m_sessions m)\<rparr>;
          m = safe_close (s_fifo_fd (ses m s)) m
      in session_release_cgroup s m)"

end
