(* ===== verification/Session_Inv.thy ===== *)
theory Session_Inv
  imports Session
begin

text \<open>
  The operations on sessions keep the invariant of the object graph.
\<close>

subsection \<open>Steps that keep the graph\<close>

text \<open>\<open>keeps_graph m m'\<close>: the invariant carries over from \<open>m\<close> to \<open>m'\<close>, the same objects exist and
  every session still has its user and its seat, and the system around the daemon is the same. Operations are composed by chaining such steps.\<close>

definition keeps_graph :: "manager \<Rightarrow> manager \<Rightarrow> bool" where
  "keeps_graph m m' \<longleftrightarrow> (wf m \<longrightarrow> wf m') \<and> m_sessions m' = m_sessions m \<and> m_seats m' = m_seats m \<and>
     m_users m' = m_users m \<and> m_devices m' = m_devices m \<and> m_malloc m' = m_malloc m \<and>
     m_world m' = m_world m \<and> m_files m' = m_files m \<and> m_seat0 m' = m_seat0 m \<and>
     (\<forall>x. s_user (ses m' x) = s_user (ses m x)) \<and> (\<forall>x. s_seat (ses m' x) = s_seat (ses m x))"

lemma keeps_graph_refl [simp, intro]: "keeps_graph m m"
  by (simp add: keeps_graph_def)

lemma keeps_graph_trans [trans]: "keeps_graph m m' \<Longrightarrow> keeps_graph m' m'' \<Longrightarrow> keeps_graph m m''"
  by (simp add: keeps_graph_def)

interpretation graph: step_frame keeps_graph
  by unfold_locales (auto intro: keeps_graph_trans)

lemma keeps_graphD:
  assumes "keeps_graph m m'"
  shows "wf m \<Longrightarrow> wf m'" "m_sessions m' = m_sessions m" "m_seats m' = m_seats m"
    "m_users m' = m_users m" "m_devices m' = m_devices m" "m_malloc m' = m_malloc m"
    "s_user (ses m' x) = s_user (ses m x)" "s_seat (ses m' x) = s_seat (ses m x)"
    "m_world m' = m_world m" "m_files m' = m_files m" "m_seat0 m' = m_seat0 m"
  using assms by (simp_all add: keeps_graph_def)

lemma graph_links: "keeps_graph m m' \<Longrightarrow> same_links m' m'' \<Longrightarrow> keeps_graph m m''"
  using wf_same_links [of m' m''] by (simp add: keeps_graph_def same_links_simps)

lemma graph_core: "keeps_graph m m' \<Longrightarrow> same_core m' m'' \<Longrightarrow> inv_leaders m'' \<or> \<not> wf m' \<Longrightarrow> keeps_graph m m''"
  using wf_same_core [of m' m''] by (auto simp: keeps_graph_def same_core_simps)

lemma graph_devices:
  "keeps_graph m m' \<Longrightarrow> same_but_devices m' m'' \<Longrightarrow> sd_keeps m' m'' \<Longrightarrow> keeps_graph m m''"
  using wf_same_but_devices [of m' m''] by (simp add: keeps_graph_def same_but_devices_simps)

lemmas graph_basic =
  graph_links [OF _ links_basic(1) [OF same_links_refl]] graph_links [OF _ links_basic(2) [OF same_links_refl]]
  graph_links [OF _ links_basic(3) [OF same_links_refl]] graph_links [OF _ links_basic(4) [OF same_links_refl]]
  graph_links [OF _ links_basic(5) [OF same_links_refl]] graph_links [OF _ links_basic(6) [OF same_links_refl]]
  graph_links [OF _ links_basic(7) [OF same_links_refl]] graph_links [OF _ links_basic(8) [OF same_links_refl]]
  graph_links [OF _ links_basic(9) [OF same_links_refl]] graph_links [OF _ links_basic(10) [OF same_links_refl]]
  graph_links [OF _ links_basic(11) [OF same_links_refl]] graph_links [OF _ links_basic(12) [OF same_links_refl]]
  graph_links [OF _ links_upd [OF _ same_links_refl]]

lemmas graph_resources =
  graph_links [OF _ links_chown_tty [OF same_links_refl]]
  graph_links [OF _ links_restore_tty [OF same_links_refl]]
  graph_links [OF _ links_setup_paths [OF same_links_refl]]
  graph_links [OF _ links_create_delegated [OF same_links_refl]]
  graph_links [OF _ links_remove_fifo [OF same_links_refl]]
  graph_links [OF _ links_create_fifo [OF same_links_refl]]
  graph_links [OF _ links_restore_vt [OF same_links_refl]]
  graph_links [OF _ links_prepare_vt [OF same_links_refl]]
  graph_links [OF _ links_open_vt [OF same_links_refl]]
  graph_links [OF _ links_kill [OF same_links_refl]]

lemma graph_watch_cgroup:
  assumes "keeps_graph m m'" "s \<in> set (m_sessions m)"
  shows "keeps_graph m (snd (session_watch_cgroup s m'))"
  using assms leaders_watch_cgroup [of m' s]
  by (auto intro!: graph_core [OF assms(1)] core_watch_cgroup simp: keeps_graphD wf_def)

lemma graph_release_cgroup:
  assumes "keeps_graph m m'"
  shows "keeps_graph m (session_release_cgroup s m')"
  using leaders_release_cgroup [of m' s]
  by (auto intro!: graph_core [OF assms] core_release_cgroup simp: wf_def)

lemma graph_start_cgroup:
  "keeps_graph m m' \<Longrightarrow> s \<in> set (m_sessions m) \<Longrightarrow> keeps_graph m (snd (session_start_cgroup s m'))"
  by (simp add: session_start_cgroup_def Let_def case_prod_beta graph_basic graph_resources
      graph_watch_cgroup)

text \<open>Users.\<close>

lemma graph_user_start: "keeps_graph m m' \<Longrightarrow> keeps_graph m (snd (user_start u m'))"
  by (simp add: keeps_graph_def)

lemma graph_elect_display:
  "keeps_graph m m' \<Longrightarrow> u \<in> set (m_users m) \<Longrightarrow> keeps_graph m (user_elect_display u m')"
  using wf_elect_display [of m' u] by (simp add: keeps_graph_def)

lemma graph_user_gc:
  "keeps_graph m m' \<Longrightarrow> u \<in> set (m_users m) \<Longrightarrow> keeps_graph m (user_add_to_gc_queue u m')"
  using wf_user_add_to_gc_queue [of m' u] by (simp add: keeps_graph_def user_add_to_gc_queue_def)

text \<open>Seats.\<close>

lemma graph_evict:
  assumes "keeps_graph m m'" "s \<in> set (m_sessions m)" "s_seat (ses m s) = Some st"
  shows "keeps_graph m (seat_evict_position st s m')"
proof -
  have "wf (seat_evict_position st s m')" if "wf m'"
  proof (rule wf_evict [OF that])
    have s: "s \<in> set (m_sessions m')" "s_seat (ses m' s) = Some st"
      using assms by (simp_all add: keeps_graphD)
    show "st \<in> set (m_seats m')" "s \<in> set (st_sessions (sts m' st))"
      using wf_session_seat [OF that s] by simp_all
  qed
  then show ?thesis
    using assms(1)
    by (simp add: keeps_graph_def same_but_positions_ses [OF evict_sbp]
        same_tables_simps [OF same_but_positions_tables [OF evict_sbp]])
qed

lemma graph_set_active:
  assumes "keeps_graph m m'" "st \<in> set (m_seats m)"
    "\<And>a. x = Some a \<Longrightarrow> wf m' \<Longrightarrow> a \<in> set (st_sessions (sts m' st))"
  shows "keeps_graph m (seat_set_active st x m')"
  using assms wf_seat_set_active [of m' st x]
  by (auto simp: keeps_graph_def same_tables_simps [OF seat_set_active_tables])

lemma graph_read_active_vt:
  assumes "keeps_graph m m'" "st \<in> set (m_seats m)"
  shows "keeps_graph m (snd (seat_read_active_vt st m'))"
proof -
  have "ses (snd (seat_active_vt_changed st v m')) = ses m'"
      "same_tables m' (snd (seat_active_vt_changed st v m'))" for v
    by (auto simp: seat_active_vt_changed_def Let_def intro!: seat_set_active_tables
        same_tables_trans [OF _ seat_set_active_tables] tables_basic)
  then have "ses (snd (seat_read_active_vt st m')) = ses m'"
      "same_tables m' (snd (seat_read_active_vt st m'))"
    by (auto simp: seat_read_active_vt_def split: sum.split)
  then show ?thesis
    using assms wf_read_active_vt [of m' st] by (simp add: keeps_graph_def same_tables_simps)
qed

lemma graph_on_seat:
  assumes "keeps_graph m m'" "s \<in> set (m_sessions m)"
    "\<And>st m''. keeps_graph m m'' \<Longrightarrow> s_seat (ses m s) = Some st \<Longrightarrow> keeps_graph m (f st m'')"
  shows "keeps_graph m (on_seat f s m')"
  using assms by (auto simp: on_seat_def keeps_graphD split: option.split)

subsection \<open>Leaders\<close>

lemma core_reset_leader: "same_core m m' \<Longrightarrow> same_core m (session_reset_leader s b m')"
  by (simp add: session_reset_leader_def Let_def core_basic core_step [OF _ links_upd [OF _ same_links_refl]])

lemma leaderD:
  assumes "inv_leaders m" "(p, s) \<in> set (m_sessions_by_leader m)"
  shows "s \<in> set (m_sessions m)" "0 < p" "pid_pid (s_leader (ses m s)) = p"
  using assms unfolding inv_leaders_def by blast+

lemma leaders_links: "same_links m m' \<Longrightarrow> inv_leaders m \<Longrightarrow> inv_leaders m'"
  using inv_leaders_cong [of m' m] by (simp add: same_links_simps)

lemma leaders_clear:
  assumes "inv_leaders m" and p: "p = pid_pid (s_leader (ses m s))"
  shows "inv_leaders (upd_ses s (s_leader_update (\<lambda>_. q)) (safe_close fd
    (m\<lparr>m_sessions_by_leader := filter (\<lambda>x. x \<noteq> (p, s)) (m_sessions_by_leader m)\<rparr>)))"
    (is "inv_leaders ?m")
proof -
  have t: "m_sessions_by_leader ?m = filter (\<lambda>x. x \<noteq> (p, s)) (m_sessions_by_leader m)"
    by simp
  have others: "x \<in> set (m_sessions m) \<and> 0 < k \<and> pid_pid (s_leader (ses ?m x)) = k"
    if "(k, x) \<in> set (m_sessions_by_leader ?m)" for k x
    using that leaderD [OF assms(1), of k x] by (auto simp: t upd_simps p)
  have "distinct (map fst (m_sessions_by_leader ?m))"
    unfolding t using assms(1) by (simp add: inv_leaders_def distinct_map_filter)
  moreover have "m_sessions ?m = m_sessions m" "m_cgroup_inotify_fd ?m = m_cgroup_inotify_fd m"
    "m_cgroup_control_inotify_wd_session ?m = m_cgroup_control_inotify_wd_session m"
    "\<And>x. s_cgroup_control_inotify_wd (ses ?m x) = s_cgroup_control_inotify_wd (ses m x)"
    by (simp_all add: upd_simps)
  ultimately show ?thesis
    using assms(1) others by (simp add: inv_leaders_def)
qed

lemma leaders_reset_leader:
  assumes "inv_leaders m"
  shows "inv_leaders (session_reset_leader s b m)"
    "\<And>p. (p, s) \<notin> set (m_sessions_by_leader (session_reset_leader s b m))"
proof -
  define m1 where "m1 = (if b then m else upd_ses s (s_leader_fd_saved_update (\<lambda>_. False))
                      (emit (Sys_remove_fd (leader_fd_name s)) m))"
  define m2 where "m2 = upd_ses s (s_leader_pidfd_event_source_update (\<lambda>_. False)) m1"
  have m12: "same_links m m1" "same_links m m2"
    by (simp_all add: m1_def m2_def links_basic)
  have unfold: "session_reset_leader s b m =
    (if \<not> pidref_is_set (s_leader (ses m1 s)) then m1
     else upd_ses s (s_leader_update (\<lambda>_. PIDREF_NULL)) (safe_close (pid_fd (s_leader (ses m1 s)))
       (m2\<lparr>m_sessions_by_leader := filter (\<lambda>x. x \<noteq> (pid_pid (s_leader (ses m1 s)), s))
          (m_sessions_by_leader m2)\<rparr>)))"
    by (simp add: session_reset_leader_def Let_def m1_def m2_def)
  have inv: "inv_leaders m1" "inv_leaders m2" and leader: "s_leader (ses m1 s) = s_leader (ses m2 s)"
    using leaders_links [OF m12(1) assms] leaders_links [OF m12(2) assms] m12
    by (simp_all add: same_links_simps)
  show "inv_leaders (session_reset_leader s b m)"
    unfolding unfold using inv leaders_clear [OF inv(2)] by (simp add: leader)
  show "(p, s) \<notin> set (m_sessions_by_leader (session_reset_leader s b m))" for p
    using leaderD(2,3) [OF inv(1), of p s] leaderD(3) [OF inv(2), of p s]
    by (auto simp: unfold leader pidref_is_set_def)
qed

lemma graph_reset_leader:
  assumes "keeps_graph m m'"
  shows "keeps_graph m (session_reset_leader s b m')"
  using leaders_reset_leader(1) [of m' s b]
  by (auto intro!: graph_core [OF assms] core_reset_leader simp: wf_def)

lemma graph_set_user:
  assumes "wf m" "s \<in> set (m_sessions m)" "s_user (ses m s) = None" "u \<in> set (m_users m)"
  shows "wf (session_set_user s u m)" (is "wf ?m")
proof -
  let ?m1 = "upd_user u (u_sessions_update (\<lambda>l. s # l))
    (upd_ses s (s_user_update (\<lambda>_. Some u)) (assert_that (s_user (ses m s) = None) m))"
  note inv = wfD [OF assms(1)]
  have noseat: "s_seat (ses m s) = None"
    using wf_session_seat [OF assms(1,2)] wf_seat_session(3) [OF assms(1)] assms(3)
    by (metis not_None_eq)
  have nouser: "s \<notin> set (u_sessions (usr m v))" if "v \<in> set (m_users m)" for v
    using inv(4) that assms(3) by (auto simp: inv_users_def)
  have "wf ?m1"
  proof (rule wfI)
    show "inv_positions ?m1" "inv_devices ?m1" "inv_session_devices ?m1" "inv_queues ?m1"
      "inv_leaders ?m1"
      using inv inv_congs(2,5-8) [of ?m1 m] by (simp_all add: upd_simps)
    show "inv_seats ?m1"
      using inv(1) assms(3) by (auto simp: inv_seats_def upd_simps)
    show "inv_sessions ?m1"
      using inv(3) assms(4) by (auto simp: inv_sessions_def upd_simps)
    show "inv_users ?m1"
      using inv(4) assms nouser by (auto simp: inv_users_def upd_simps)
  qed
  then show ?thesis by (simp add: session_set_user_def Let_def)
qed

lemma links_watch_pidfd: "same_links m m' \<Longrightarrow> same_links m (snd (session_watch_pidfd s m'))"
  by (simp add: session_watch_pidfd_def Let_def case_prod_beta links_basic)

lemma links_read_audit: "same_links m m' \<Longrightarrow> same_links m (session_read_audit s m')"
  by (simp add: session_read_audit_def Let_def links_basic)

text \<open>A leader is entered only after the session's old entry is gone, and never over another's.\<close>

lemma core_set_leader: "same_core m (snd (session_set_leader_consume s p m))"
  by (simp add: session_set_leader_consume_def Let_def case_prod_beta core_basic core_reset_leader
      core_step [OF _ links_watch_pidfd [OF same_links_refl]]
      core_step [OF _ links_read_audit [OF same_links_refl]]
      core_step [OF _ links_upd [OF _ same_links_refl]] split: option.split)

lemma leaders_set_free:
  assumes "inv_leaders m" "\<And>p. (p, s) \<notin> set (m_sessions_by_leader m)"
  shows "inv_leaders (upd_ses s (s_leader_update (\<lambda>_. q)) m)" (is "inv_leaders ?m")
proof -
  have "x \<in> set (m_sessions m) \<and> 0 < k \<and> pid_pid (s_leader (ses ?m x)) = k"
    if "(k, x) \<in> set (m_sessions_by_leader m)" for k x
    using that leaderD [OF assms(1) that] assms(2) [of k] by (auto simp: upd_simps)
  moreover have "\<And>x. s_cgroup_control_inotify_wd (ses ?m x) = s_cgroup_control_inotify_wd (ses m x)"
    by (simp add: upd_simps)
  ultimately show ?thesis
    using assms(1) by (simp add: inv_leaders_def)
qed

lemma leaders_enter:
  assumes "inv_leaders m" "s \<in> set (m_sessions m)" "0 < p" "pid_pid (s_leader (ses m s)) = p"
    "map_of (m_sessions_by_leader m) p = None"
  shows "inv_leaders (m\<lparr>m_sessions_by_leader := (p, s) # m_sessions_by_leader m\<rparr>)"
  using assms by (auto simp: inv_leaders_def map_of_eq_None_iff)

lemma wf_set_leader:
  assumes "wf m" "s \<in> set (m_sessions m)" "pidref_is_set p"
  shows "wf (snd (session_set_leader_consume s p m))" (is "wf ?m")
proof -
  define m1 where "m1 = session_reset_leader s False (assert_that (pidref_is_set p) m)"
  define m2 where "m2 = upd_ses s (s_leader_update (\<lambda>_. p)) m1"
  define m3 where "m3 = snd (session_watch_pidfd s m2)"
  define m4 where "m4 = m3\<lparr>m_sessions_by_leader := (pid_pid p, s) # m_sessions_by_leader m3\<rparr>"
  have inv: "inv_leaders (assert_that (pidref_is_set p) m)"
    using leaders_links [of m] wfD(8) [OF assms(1)] by (simp add: links_basic)
  have inv2: "inv_leaders m2"
    using leaders_set_free [OF leaders_reset_leader [OF inv]] by (simp add: m1_def m2_def)
  have m23: "same_links m2 m3" by (simp add: m3_def links_watch_pidfd)
  have inv3: "inv_leaders m3" by (rule leaders_links [OF m23 inv2])
  have "same_core m m3"
    by (simp add: m1_def m2_def m3_def core_basic core_reset_leader
        core_step [OF _ links_watch_pidfd [OF same_links_refl]])
  then have s3: "s \<in> set (m_sessions m3)" "s_leader (ses m3 s) = p"
    using assms(2) m23 by (simp_all add: same_core_simps same_links_simps m2_def upd_simps)
  have inv4: "inv_leaders m4" if "map_of (m_sessions_by_leader m3) (pid_pid p) = None"
    unfolding m4_def using leaders_enter [OF inv3 s3(1) _ _ that] s3(2) assms(3)
    by (simp add: pidref_is_set_def)
  have tail: "same_links m4 (session_read_audit s
      (if pid_fd p \<ge> 0 then
         (case sys (Sys_push_fd (leader_fd_name s) (pid_fd p)) m4 of (r, m) \<Rightarrow>
            if r < 0 then m else upd_ses s (s_leader_fd_saved_update (\<lambda>_. True)) m)
       else m4))"
    by (simp add: case_prod_beta links_basic links_read_audit)
  have "inv_leaders ?m"
    using leaders_links [OF _ inv] leaders_links [OF _ inv3] leaders_links [OF tail inv4] inv3
    by (auto simp: session_set_leader_consume_def Let_def case_prod_beta links_basic
        m1_def [symmetric] m2_def [symmetric] m3_def [symmetric] m4_def [symmetric] split: option.split)
  then show ?thesis
    by (rule wf_same_core [OF core_set_leader assms(1)])
qed

subsection \<open>Devices and the controller\<close>

lemma free_devices:
  assumes "wf m" "s \<in> set (m_sessions m)"
  shows "wf (session_free_devices s m)" "s_devices (ses (session_free_devices s m) s) = []"
proof -
  let ?sds = "map (Pair s) (s_devices (ses m s))"
  have "distinct ?sds"
    using wf_distinct(5) [OF assms] by (simp add: distinct_map inj_on_def)
  moreover have "fst sd \<in> set (m_sessions m) \<and> snd sd \<in> set (s_devices (ses m (fst sd)))"
    if "sd \<in> set ?sds" for sd
    using that assms(2) by auto
  ultimately have res: "wf (fold session_device_free ?sds m) \<and>
    (\<forall>x. set (s_devices (ses (fold session_device_free ?sds m) x)) =
       {n \<in> set (s_devices (ses m x)). (x, n) \<notin> set ?sds})"
    by (rule fold_session_device_free [OF assms(1)])
  then show "wf (session_free_devices s m)" by (simp add: session_free_devices_def)
  have "set (s_devices (ses (session_free_devices s m) s)) = {}"
    using res by (auto simp: session_free_devices_def)
  then show "s_devices (ses (session_free_devices s m) s) = []" by simp
qed

lemmas free_devices_frame [simp] =
  fold_session_device_free_frame [of "map (Pair s) (s_devices (ses m s))" m for s m,
    folded session_free_devices_def]
  fold_free_ses_fields [of "map (Pair s) (s_devices (ses m s))" m for s m,
    folded session_free_devices_def]
  same_tables_simps [OF fold_session_device_free_tables
    [of m "map (Pair s) (s_devices (ses m s))" for s m, folded session_free_devices_def]]

lemma graph_free_devices:
  "keeps_graph m m' \<Longrightarrow> s \<in> set (m_sessions m) \<Longrightarrow> keeps_graph m (session_free_devices s m')"
  using free_devices(1) [of m' s] by (simp add: keeps_graph_def)

lemma graph_set_type: "keeps_graph m m' \<Longrightarrow> keeps_graph m (session_set_type s t m')"
  by (simp add: session_set_type_def graph_basic)

lemma graph_release_controller:
  "keeps_graph m m' \<Longrightarrow> s \<in> set (m_sessions m) \<Longrightarrow>
   keeps_graph m (session_release_controller s b m')"
  by (simp add: session_release_controller_def Let_def graph_basic graph_free_devices)

lemma graph_set_controller:
  "keeps_graph m m' \<Longrightarrow> s \<in> set (m_sessions m) \<Longrightarrow>
   keeps_graph m (snd (session_set_controller s sender f p m'))"
  by (simp add: session_set_controller_def Let_def case_prod_beta graph_basic graph_resources
      graph_release_controller)

lemma graph_drop_controller:
  "keeps_graph m m' \<Longrightarrow> s \<in> set (m_sessions m) \<Longrightarrow> keeps_graph m (session_drop_controller s m')"
  by (simp add: session_drop_controller_def Let_def graph_basic graph_resources
      graph_release_controller graph_set_type)

subsection \<open>Starting and stopping\<close>

lemma graph_gc_queue:
  assumes "keeps_graph m m'" "s \<in> set (m_sessions m)"
  shows "keeps_graph m (session_add_to_gc_queue s m')"
proof -
  let ?m = "session_add_to_gc_queue s m'"
  have "wf ?m" if wf: "wf m'"
  proof (rule wfI)
    note inv = wfD [OF wf]
    show "inv_seats ?m" "inv_positions ?m" "inv_sessions ?m" "inv_users ?m" "inv_devices ?m"
      "inv_session_devices ?m" "inv_leaders ?m"
      using inv inv_congs(1-6,8) [of ?m m'] by (simp_all add: session_add_to_gc_queue_def upd_ses_def)
    show "inv_queues ?m"
      using inv(7) assms by (auto simp: inv_queues_def session_add_to_gc_queue_def upd_ses_def keeps_graphD)
  qed
  then show ?thesis
    using assms(1) by (simp add: keeps_graph_def session_add_to_gc_queue_def upd_ses_def)
qed

lemma graph_stop_scope: "keeps_graph m m' \<Longrightarrow> keeps_graph m (snd (session_stop_scope s f m'))"
  by (simp add: session_stop_scope_def Let_def case_prod_beta graph_resources)

lemma graph_idle_timer: "keeps_graph m m' \<Longrightarrow> keeps_graph m (snd (session_setup_stop_on_idle_timer s m'))"
  by (simp add: session_setup_stop_on_idle_timer_def case_prod_beta graph_basic)

lemmas graph_steps =
  graph_basic graph_resources graph_user_start graph_elect_display graph_user_gc graph_evict
  graph_start_cgroup graph_release_cgroup graph_reset_leader graph_free_devices graph_gc_queue
  graph_stop_scope graph_idle_timer graph_read_active_vt graph_drop_controller

lemma user_of_session:
  "wf m \<Longrightarrow> s \<in> set (m_sessions m) \<Longrightarrow> s_user (ses m s) = Some u \<Longrightarrow> u \<in> set (m_users m)"
  by (rule wf_session_user(1))

lemma seat_of_session:
  "wf m \<Longrightarrow> s \<in> set (m_sessions m) \<Longrightarrow> s_seat (ses m s) = Some st \<Longrightarrow> st \<in> set (m_seats m)"
  by (rule wf_session_seat(1))

lemma graph_session_start:
  assumes "wf m" "s \<in> set (m_sessions m)"
  shows "keeps_graph m (snd (session_start s m))"
  using assms user_of_session [OF assms] seat_of_session [OF assms]
  by (auto simp: session_start_def Let_def case_prod_beta split: option.split
      intro!: graph_on_seat graph_steps keeps_graph_refl)

lemma graph_session_stop:
  assumes "keeps_graph m m'" "wf m" "s \<in> set (m_sessions m)"
  shows "keeps_graph m (snd (session_stop s f m'))"
  using assms user_of_session [OF assms(2,3)] seat_of_session [OF assms(2,3)]
  by (auto simp: session_stop_def Let_def case_prod_beta keeps_graphD split: option.split
      intro!: graph_on_seat graph_steps)

lemma graph_set_inactive:
  assumes "keeps_graph m m'" "wf m" "s \<in> set (m_sessions m)" "s_seat (ses m s) = Some st"
  shows "keeps_graph m (if st_active (sts m' st) = Some s then seat_set_active st None m' else m')"
  using assms seat_of_session [OF assms(2,3)] by (auto intro!: graph_set_active)

lemma graph_session_finalize:
  assumes "keeps_graph m m'" "wf m" "s \<in> set (m_sessions m)"
  shows "keeps_graph m (snd (session_finalize s m'))"
  using assms user_of_session [OF assms(2,3)] seat_of_session [OF assms(2,3)]
  by (auto simp: session_finalize_def Let_def case_prod_beta keeps_graphD split: option.split
      intro!: graph_on_seat graph_steps graph_set_inactive)

lemma graph_session_release: "keeps_graph m m' \<Longrightarrow> keeps_graph m (snd (session_release s m'))"
  by (simp add: session_release_def case_prod_beta graph_basic)

lemma graph_notify_empty: "keeps_graph m m' \<Longrightarrow> keeps_graph m (snd (manager_notify_cgroup_empty s m'))"
  by (simp add: manager_notify_cgroup_empty_def graph_session_release)

lemma graph_check_events: "keeps_graph m m' \<Longrightarrow> keeps_graph m (snd (session_check_cgroup_events s m'))"
  by (simp add: session_check_cgroup_events_def Let_def graph_basic graph_notify_empty)

lemma graph_inotify_event: "keeps_graph m m' \<Longrightarrow> keeps_graph m (on_cgroup_inotify_event wd ig m')"
  by (simp add: on_cgroup_inotify_event_def graph_check_events split: option.split)

lemma graph_callbacks:
  assumes "wf m" "s \<in> set (m_sessions m)"
  shows "keeps_graph m (session_dispatch_leader_pidfd s m)" "keeps_graph m (session_dispatch_fifo s m)"
    "keeps_graph m (snd (session_dispatch_stop_on_idle s m))" "keeps_graph m (release_timeout_callback s m)"
    "keeps_graph m (on_bus_track s m)"
  using assms
  by (simp_all add: session_dispatch_leader_pidfd_def session_dispatch_fifo_def
      session_dispatch_stop_on_idle_def release_timeout_callback_def on_bus_track_def Let_def
      case_prod_beta graph_session_stop graph_steps)

lemma graph_properties:
  "keeps_graph m (snd (session_set_idle_hint s b m))" "keeps_graph m (snd (session_set_locked_hint s b m))"
  "keeps_graph m (session_set_class s c m)" "keeps_graph m (snd (session_set_display s d m))"
  "keeps_graph m (snd (session_set_tty s d m))"
  by (simp_all add: session_set_idle_hint_def session_set_locked_hint_def session_set_class_def
      session_set_display_def session_set_tty_def Let_def graph_basic split: option.split)

lemma graph_leave_vt: "keeps_graph m (session_leave_vt s m)"
proof -
  have "keeps_graph m (session_device_pause_all s m)"
    by (rule graph_devices [OF keeps_graph_refl pause_all_sbd sd_keeps_pause_all])
  then show ?thesis
    by (simp add: session_leave_vt_def case_prod_beta graph_basic graph_resources)
qed

subsection \<open>Creation\<close>

lemma wf_session_new:
  assumes "wf m" "name \<notin> set (m_sessions m)"
  shows "wf (snd (session_new name m))"
proof (cases "session_id_valid name")
  case True
  let ?m = "(upd_ses name (\<lambda>_. new_session) m)\<lparr>m_sessions := name # m_sessions m\<rparr>"
  have m: "snd (session_new name m) = ?m"
    using True assms(2) by (simp add: session_new_def)
  note inv = wfD [OF assms(1)]
  have new: "name \<notin> set (st_sessions (sts m st))" if "st \<in> set (m_seats m)" for st
    using wf_seat_session(1) [OF assms(1) that] assms(2) by blast
  have newu: "name \<notin> set (u_sessions (usr m u))" if "u \<in> set (m_users m)" for u
    using inv(4) that assms(2) by (auto simp: inv_users_def)
  have neww: "(p, name) \<notin> set (m_sessions_by_leader m)" for p
    using leaderD(1) [OF inv(8)] assms(2) by blast
  show ?thesis unfolding m
  proof (rule wfI)
    show "inv_devices ?m"
      using inv(5) inv_devices_cong [of ?m m] by simp
    show "inv_seats ?m"
      using inv(1) new unfolding inv_seats_def by (auto simp: upd_simps)
    show "inv_positions ?m"
      using inv(2) new unfolding inv_positions_def by (fastforce simp: upd_simps)
    show "inv_sessions ?m"
      using inv(3) assms(2) True unfolding inv_sessions_def by (auto simp: upd_simps new_session_def)
    show "inv_users ?m"
      using inv(4) newu unfolding inv_users_def by (auto simp: upd_simps)
    show "inv_queues ?m"
      using inv(7) assms(2) unfolding inv_queues_def by (auto simp: upd_simps new_session_def)
    show "inv_leaders ?m"
      using inv(8) neww assms(2) unfolding inv_leaders_def by (fastforce simp: upd_simps)
    show "inv_session_devices ?m"
    proof (rule inv_session_devicesI)
      fix s n assume sn: "s \<in> set (m_sessions ?m)" "n \<in> set (s_devices (ses ?m s))"
      then have "s \<noteq> name" by (auto simp: upd_simps new_session_def)
      then show "sd_type (sdv ?m (s, n)) \<noteq> DEVICE_TYPE_UNKNOWN \<and>
          sd_device (sdv ?m (s, n)) \<in> set (m_devices ?m) \<and>
          (s, n) \<in> set (d_session_devices (dev ?m (sd_device (sdv ?m (s, n))))) \<and>
          s_seat (ses ?m s) \<noteq> None \<and> d_seat (dev ?m (sd_device (sdv ?m (s, n)))) = s_seat (ses ?m s)"
        using sn wf_sd [OF assms(1), of s n] by (simp add: upd_simps)
    next
      fix d s n assume "d \<in> set (m_devices ?m)" "(s, n) \<in> set (d_session_devices (dev ?m d))"
      then show "s \<in> set (m_sessions ?m) \<and> n \<in> set (s_devices (ses ?m s)) \<and> sd_device (sdv ?m (s, n)) = d"
        using wf_dsd [OF assms(1), of d s n] assms(2) by (auto simp: upd_simps)
    qed (use wf_distinct(5,6) [OF assms(1)] in \<open>auto simp: upd_simps new_session_def\<close>)
  qed
next
  case False
  then show ?thesis using assms by (simp add: session_new_def)
qed

subsection \<open>Freeing a session\<close>

lemma evict_cong:
  assumes "ses m' = ses m" "sts m' = sts m"
  shows "ses (seat_evict_position st s m') = ses (seat_evict_position st s m)"
    "sts (seat_evict_position st s m') = sts (seat_evict_position st s m)"
  using assms by (simp_all add: seat_evict_position_def Let_def upd_defs session_get_state_def
      session_is_active_def)

lemma wf_forget_session:
  assumes "wf m"
  shows "wf (upd_seat st (forget_session s) m)" (is "wf ?m")
proof (rule wfI)
  note inv = wfD [OF assms]
  show "inv_positions ?m" "inv_sessions ?m" "inv_users ?m" "inv_devices ?m" "inv_session_devices ?m"
    "inv_queues ?m" "inv_leaders ?m"
    using inv inv_congs(2-8) [of ?m m] by (simp_all add: upd_simps forget_session_def)
  show "inv_seats ?m"
    using inv(1) unfolding inv_seats_def by (auto simp: upd_simps forget_session_def split: if_splits)
qed

lemma unlink_seat_other:
  assumes "wf m" "s \<in> set (m_sessions m)" "s_seat (ses m s) = None" "st \<in> set (m_seats m)"
  shows "s \<notin> set (st_sessions (sts m st))" "st_active (sts m st) \<noteq> Some s"
    "st_pending_switch (sts m st) \<noteq> Some s"
    "p < length (st_positions (sts m st)) \<Longrightarrow> st_positions (sts m st) ! p \<noteq> Some s"
proof -
  show s: "s \<notin> set (st_sessions (sts m st))"
    using wf_seat_session(2) [OF assms(1,4)] assms(3) by (metis option.distinct(1))
  show "st_active (sts m st) \<noteq> Some s" "st_pending_switch (sts m st) \<noteq> Some s"
    using s wf_active [OF assms(1,4)] wf_pending [OF assms(1,4)] by blast+
  show "p < length (st_positions (sts m st)) \<Longrightarrow> st_positions (sts m st) ! p \<noteq> Some s"
    using s wf_positionD [OF assms(1,4)] by blast
qed

text \<open>After leaving its seat the session is in no list, no slot and no pointer of any seat, and
  everything else about the seats is as it was.\<close>

lemma unlink_seat:
  assumes "wf m" "s \<in> set (m_sessions m)" "st \<in> set (m_seats m)"
  defines "m' \<equiv> session_unlink_seat s m"
  shows "st_sessions (sts m' st) = remove1 s (st_sessions (sts m st))"
    "st_active (sts m' st) = (if st_active (sts m st) = Some s then None else st_active (sts m st))"
    "st_pending_switch (sts m' st) =
       (if st_pending_switch (sts m st) = Some s then None else st_pending_switch (sts m st))"
    "\<And>p x. p < length (st_positions (sts m' st)) \<Longrightarrow> st_positions (sts m' st) ! p = Some x \<Longrightarrow>
       0 < p \<and> x \<noteq> s \<and> x \<in> set (st_sessions (sts m st)) \<and> s_position (ses m' x) = p"
proof -
  have "st_sessions (sts m' st) = remove1 s (st_sessions (sts m st)) \<and>
    st_active (sts m' st) = (if st_active (sts m st) = Some s then None else st_active (sts m st)) \<and>
    st_pending_switch (sts m' st) =
       (if st_pending_switch (sts m st) = Some s then None else st_pending_switch (sts m st)) \<and>
    (\<forall>p x. p < length (st_positions (sts m' st)) \<longrightarrow> st_positions (sts m' st) ! p = Some x \<longrightarrow>
       0 < p \<and> x \<noteq> s \<and> x \<in> set (st_sessions (sts m st)) \<and> s_position (ses m' x) = p)"
  proof (cases "s_seat (ses m s)")
    case None
    have "m' = m" by (simp add: m'_def session_unlink_seat_def None)
    then show ?thesis
      using unlink_seat_other [OF assms(1,2) None assms(3)] wf_positionD [OF assms(1,3)]
      by (auto simp: remove1_idem)
  next
    case (Some own)
    let ?m1 = "upd_seat own (forget_session s) m"
    let ?m2 = "seat_evict_position own s ?m1"
    have m': "m' = upd_seat own (st_sessions_update (remove1 s)) ?m2"
      by (simp add: m'_def session_unlink_seat_def Some Let_def)
    have own: "own \<in> set (m_seats m)" "s \<in> set (st_sessions (sts m own))"
      using wf_session_seat [OF assms(1,2) Some] by simp_all
    have wf1: "wf ?m1" by (rule wf_forget_session [OF assms(1)])
    have own1: "own \<in> set (m_seats ?m1)" "s \<in> set (st_sessions (sts ?m1 own))"
      using own by (simp_all add: upd_simps forget_session_def)
    have wf2: "wf ?m2" by (rule wf_evict [OF wf1 own1])
    have f: "st_sessions (sts ?m2 y) = st_sessions (sts m y)"
      "st_active (sts ?m2 y) = st_active (sts ?m1 y)"
      "st_pending_switch (sts ?m2 y) = st_pending_switch (sts ?m1 y)" "m_seats ?m2 = m_seats m" for y
      by (simp_all add: same_but_positions_sts [OF evict_sbp] upd_simps forget_session_def
          same_tables_simps [OF same_but_positions_tables [OF evict_sbp]])
    have elsewhere: "s \<notin> set (st_sessions (sts m st))" if "st \<noteq> own"
      using wf_seat_session(2) [OF assms(1,3)] Some that by force
    have away: "st_active (sts m st) \<noteq> Some s" "st_pending_switch (sts m st) \<noteq> Some s" if "st \<noteq> own"
      using elsewhere [OF that] wf_active [OF assms(1,3)] wf_pending [OF assms(1,3)] by blast+
    have "0 < p \<and> x \<noteq> s \<and> x \<in> set (st_sessions (sts m st)) \<and> s_position (ses m' x) = p"
      if p: "p < length (st_positions (sts m' st))" "st_positions (sts m' st) ! p = Some x" for p x
    proof -
      have p2: "p < length (st_positions (sts ?m2 st))" "st_positions (sts ?m2 st) ! p = Some x"
        using p by (simp_all add: m' upd_simps split: if_splits)
      have st2: "st \<in> set (m_seats ?m2)" using assms(3) by (simp add: f)
      have pos: "0 < p \<and> x \<in> set (st_sessions (sts ?m2 st)) \<and> s_position (ses ?m2 x) = p"
        by (rule wf_positionD [OF wf2 st2 p2])
      then have "x \<noteq> s" by auto
      with pos show ?thesis by (simp only: f) (simp add: m' upd_simps)
    qed
    moreover have "st_sessions (sts m' st) = remove1 s (st_sessions (sts m st))"
      "st_active (sts m' st) = (if st_active (sts m st) = Some s then None else st_active (sts m st))"
      "st_pending_switch (sts m' st) =
         (if st_pending_switch (sts m st) = Some s then None else st_pending_switch (sts m st))"
      using elsewhere away by (auto simp: m' upd_simps f forget_session_def remove1_idem)
    ultimately show ?thesis by blast
  qed
  then show "st_sessions (sts m' st) = remove1 s (st_sessions (sts m st))"
    "st_active (sts m' st) = (if st_active (sts m st) = Some s then None else st_active (sts m st))"
    "st_pending_switch (sts m' st) =
       (if st_pending_switch (sts m st) = Some s then None else st_pending_switch (sts m st))"
    "\<And>p x. p < length (st_positions (sts m' st)) \<Longrightarrow> st_positions (sts m' st) ! p = Some x \<Longrightarrow>
       0 < p \<and> x \<noteq> s \<and> x \<in> set (st_sessions (sts m st)) \<and> s_position (ses m' x) = p"
    by blast+
qed

lemma unlink_seat_frame [simp]:
  "usr (session_unlink_seat s m) = usr m" "dev (session_unlink_seat s m) = dev m"
  "sdv (session_unlink_seat s m) = sdv m"
  "m_seat_gc_queue (session_unlink_seat s m) = m_seat_gc_queue m"
  "m_session_gc_queue (session_unlink_seat s m) = m_session_gc_queue m"
  "m_user_gc_queue (session_unlink_seat s m) = m_user_gc_queue m"
  "s_seat (ses (session_unlink_seat s m) x) = s_seat (ses m x)"
  "s_user (ses (session_unlink_seat s m) x) = s_user (ses m x)"
  "s_devices (ses (session_unlink_seat s m) x) = s_devices (ses m x)"
  "s_in_gc_queue (ses (session_unlink_seat s m) x) = s_in_gc_queue (ses m x)"
  "s_leader (ses (session_unlink_seat s m) x) = s_leader (ses m x)"
  "s_cgroup_control_inotify_wd (ses (session_unlink_seat s m) x) = s_cgroup_control_inotify_wd (ses m x)"
  "st_devices (sts (session_unlink_seat s m) st) = st_devices (sts m st)"
  "st_in_gc_queue (sts (session_unlink_seat s m) st) = st_in_gc_queue (sts m st)"
  by (simp_all add: session_unlink_seat_def Let_def same_but_positions_ses [OF evict_sbp]
      same_but_positions_sts [OF evict_sbp] same_but_positions_heaps [OF evict_sbp] upd_simps
      forget_session_def split: option.split)

lemma unlink_seat_tables: "same_tables m (session_unlink_seat s m)"
  by (auto simp: session_unlink_seat_def Let_def split: option.split
      intro!: tables_upd same_tables_trans [OF _ same_but_positions_tables [OF evict_sbp]])

lemmas unlink_seat_table_frame [simp] = same_tables_simps [OF unlink_seat_tables]

lemma unlink_user_frame [simp]:
  "ses (session_unlink_user s m) = ses m" "sts (session_unlink_user s m) = sts m"
  "dev (session_unlink_user s m) = dev m" "sdv (session_unlink_user s m) = sdv m"
  "m_seat_gc_queue (session_unlink_user s m) = m_seat_gc_queue m"
  "m_session_gc_queue (session_unlink_user s m) = m_session_gc_queue m"
  "m_user_gc_queue (session_unlink_user s m) = m_user_gc_queue m"
  "u_in_gc_queue (usr (session_unlink_user s m) u) = u_in_gc_queue (usr m u)"
  by (simp_all add: session_unlink_user_def upd_simps split: option.split)

lemma unlink_user_tables: "same_tables m (session_unlink_user s m)"
  by (auto simp: session_unlink_user_def split: option.split
      intro!: tables_upd same_tables_trans [OF _ last_session_timer_tables])

lemmas unlink_user_table_frame [simp] = same_tables_simps [OF unlink_user_tables]

lemma unlink_user:
  assumes "wf m" "s \<in> set (m_sessions m)" "u \<in> set (m_users m)"
  shows "u_sessions (usr (session_unlink_user s m) u) = remove1 s (u_sessions (usr m u))"
    "u_display (usr (session_unlink_user s m) u) =
       (if u_display (usr m u) = Some s then None else u_display (usr m u))"
proof -
  have "s \<notin> set (u_sessions (usr m u))" if "s_user (ses m s) \<noteq> Some u"
    using wfD(4) [OF assms(1)] assms(3) that by (auto simp: inv_users_def)
  moreover from this have "u_display (usr m u) \<noteq> Some s" if "s_user (ses m s) \<noteq> Some u"
    using wfD(4) [OF assms(1)] assms(3) that by (auto simp: inv_users_def)
  ultimately show "u_sessions (usr (session_unlink_user s m) u) = remove1 s (u_sessions (usr m u))"
    "u_display (usr (session_unlink_user s m) u) =
       (if u_display (usr m u) = Some s then None else u_display (usr m u))"
    by (cases "s_user (ses m s)"; auto simp: session_unlink_user_def upd_simps remove1_idem)+
qed

text \<open>The same holds with the user unlinked first, as the code does it.\<close>

lemma unlink_both:
  assumes "wf m" "s \<in> set (m_sessions m)" "st \<in> set (m_seats m)"
  defines "m' \<equiv> session_unlink_seat s (session_unlink_user s m)"
  shows "sts m' = sts (session_unlink_seat s m)" "ses m' = ses (session_unlink_seat s m)"
proof -
  have "ses (upd_seat y (forget_session s) (session_unlink_user s m)) = ses (upd_seat y (forget_session s) m)"
    "sts (upd_seat y (forget_session s) (session_unlink_user s m)) = sts (upd_seat y (forget_session s) m)" for y
    by (simp_all add: upd_simps)
  from evict_cong [OF this] show "sts m' = sts (session_unlink_seat s m)"
      "ses m' = ses (session_unlink_seat s m)"
    by (simp_all add: m'_def session_unlink_seat_def Let_def upd_simps split: option.split)
qed

text \<open>A session without devices that is in no queue leaves the tables: all but the tables of leaders
  and watches are then free of it.\<close>

definition drop_session :: "string \<Rightarrow> manager \<Rightarrow> manager" where
  "drop_session s m = (session_unlink_seat s (session_unlink_user s m))\<lparr>
     m_sessions := remove1 s (m_sessions m)\<rparr>"

lemma drop_session:
  assumes "wf m" "s \<in> set (m_sessions m)" "s_devices (ses m s) = []" "s \<notin> set (m_session_gc_queue m)"
  defines "m' \<equiv> drop_session s m"
  shows "inv_seats m'" "inv_positions m'" "inv_sessions m'" "inv_users m'" "inv_devices m'"
    "inv_session_devices m'" "inv_queues m'"
proof -
  note inv = wfD [OF assms(1)]
  have sess: "set (m_sessions m') = set (m_sessions m) - {s}" "distinct (m_sessions m')"
    using wf_distinct(1) [OF assms(1)] by (simp_all add: m'_def drop_session_def set_remove1_distinct)
  have tabs: "m_seats m' = m_seats m" "m_users m' = m_users m" "m_devices m' = m_devices m"
    "dev m' = dev m" "sdv m' = sdv m" "m_seat_gc_queue m' = m_seat_gc_queue m"
    "m_session_gc_queue m' = m_session_gc_queue m" "m_user_gc_queue m' = m_user_gc_queue m"
    "\<And>x. s_seat (ses m' x) = s_seat (ses m x)" "\<And>x. s_user (ses m' x) = s_user (ses m x)"
    "\<And>x. s_devices (ses m' x) = s_devices (ses m x)"
    "\<And>x. s_in_gc_queue (ses m' x) = s_in_gc_queue (ses m x)"
    "\<And>x. st_devices (sts m' x) = st_devices (sts m x)"
    "\<And>x. st_in_gc_queue (sts m' x) = st_in_gc_queue (sts m x)"
    "\<And>x. u_in_gc_queue (usr m' x) = u_in_gc_queue (usr m x)"
    by (simp_all add: m'_def drop_session_def)
  have seat: "st_sessions (sts m' st) = remove1 s (st_sessions (sts m st))"
    "st_active (sts m' st) = (if st_active (sts m st) = Some s then None else st_active (sts m st))"
    "st_pending_switch (sts m' st) =
       (if st_pending_switch (sts m st) = Some s then None else st_pending_switch (sts m st))"
    "\<And>p x. p < length (st_positions (sts m' st)) \<Longrightarrow> st_positions (sts m' st) ! p = Some x \<Longrightarrow>
       0 < p \<and> x \<noteq> s \<and> x \<in> set (st_sessions (sts m st)) \<and> s_position (ses m' x) = p"
    if "st \<in> set (m_seats m)" for st
    using unlink_seat [OF assms(1,2) that] unlink_both [OF assms(1,2) that]
    by (simp_all add: m'_def drop_session_def)
  have user: "u_sessions (usr m' u) = remove1 s (u_sessions (usr m u))"
    "u_display (usr m' u) = (if u_display (usr m u) = Some s then None else u_display (usr m u))"
    if "u \<in> set (m_users m)" for u
    using unlink_user [OF assms(1,2) that] by (simp_all add: m'_def drop_session_def)
  have dsts: "set (remove1 s (st_sessions (sts m st))) = set (st_sessions (sts m st)) - {s}"
    if "st \<in> set (m_seats m)" for st
    using wf_distinct(8) [OF assms(1) that] by (rule set_remove1_distinct)
  have dusr: "set (remove1 s (u_sessions (usr m u))) = set (u_sessions (usr m u)) - {s}"
    if "u \<in> set (m_users m)" for u
    using wf_distinct(9) [OF assms(1) that] by (rule set_remove1_distinct)
  show "inv_seats m'"
    using inv(1) unfolding inv_seats_def by (auto simp: tabs seat sess dsts)
  show "inv_positions m'"
    using seat(1,4) dsts unfolding inv_positions_def by (simp add: tabs)
  show "inv_sessions m'"
    using inv(3) unfolding inv_sessions_def by (auto simp: tabs seat user sess dsts dusr)
  show "inv_users m'"
    using inv(4) unfolding inv_users_def by (auto simp: tabs user sess dusr)
  show "inv_devices m'"
    using inv(5) inv_devices_cong [of m' m] by (simp add: tabs)
  show "inv_queues m'"
    using inv(7) assms(4) unfolding inv_queues_def by (auto simp: tabs sess)
  show "inv_session_devices m'"
  proof (rule inv_session_devicesI)
    fix x n assume "x \<in> set (m_sessions m')" "n \<in> set (s_devices (ses m' x))"
    then show "sd_type (sdv m' (x, n)) \<noteq> DEVICE_TYPE_UNKNOWN \<and>
        sd_device (sdv m' (x, n)) \<in> set (m_devices m') \<and>
        (x, n) \<in> set (d_session_devices (dev m' (sd_device (sdv m' (x, n))))) \<and>
        s_seat (ses m' x) \<noteq> None \<and> d_seat (dev m' (sd_device (sdv m' (x, n)))) = s_seat (ses m' x)"
      using wf_sd [OF assms(1), of x n] by (simp add: tabs sess)
  next
    fix d x n assume "d \<in> set (m_devices m')" "(x, n) \<in> set (d_session_devices (dev m' d))"
    then show "x \<in> set (m_sessions m') \<and> n \<in> set (s_devices (ses m' x)) \<and> sd_device (sdv m' (x, n)) = d"
      using wf_dsd [OF assms(1), of d x n] assms(3) by (auto simp: tabs sess)
  qed (use wf_distinct(5,6) [OF assms(1)] in \<open>simp_all add: tabs sess\<close>)
qed

lemma same_core_sessions:
  "same_core m m' \<Longrightarrow> same_core (m\<lparr>m_sessions := x\<rparr>) (m'\<lparr>m_sessions := x\<rparr>)"
  by (cases m; cases m') (simp add: same_core_def)

lemma graph_unqueue:
  assumes "wf m" "s \<in> set (m_sessions m)"
  defines "m' \<equiv> if s_in_gc_queue (ses m s) then upd_ses s (s_in_gc_queue_update (\<lambda>_. False))
                  (m\<lparr>m_session_gc_queue := remove1 s (m_session_gc_queue m)\<rparr>) else m"
  shows "keeps_graph m m'" "s \<notin> set (m_session_gc_queue m')"
proof -
  note inv = wfD [OF assms(1)]
  have q: "distinct (m_session_gc_queue m)" "s \<in> set (m_session_gc_queue m) \<longrightarrow> s_in_gc_queue (ses m s)"
    using inv(7) by (simp_all add: inv_queues_def)
  then show "s \<notin> set (m_session_gc_queue m')"
    by (auto simp: m'_def set_remove1_distinct)
  have "wf m'"
  proof (rule wfI)
    show "inv_seats m'" "inv_positions m'" "inv_sessions m'" "inv_users m'" "inv_devices m'"
      "inv_session_devices m'" "inv_leaders m'"
      using inv inv_congs(1-6,8) [of m' m] by (simp_all add: m'_def upd_ses_def)
    show "inv_queues m'"
      using inv(7) q(1) unfolding inv_queues_def by (auto simp: m'_def upd_ses_def set_remove1_distinct)
  qed
  then show "keeps_graph m m'" by (simp add: keeps_graph_def m'_def upd_ses_def)
qed

lemma drop_controller_queue: "m_session_gc_queue (session_drop_controller s m) = m_session_gc_queue m"
  by (simp add: session_drop_controller_def session_release_controller_def session_set_type_def Let_def
      same_links_heaps [OF links_restore_vt [OF same_links_refl]])

lemma leaders_without:
  assumes "inv_leaders m" "\<And>p. (p, s) \<notin> set (m_sessions_by_leader m)" "distinct (m_sessions m)"
  shows "inv_leaders (session_release_cgroup s (safe_close fd (m\<lparr>m_sessions := remove1 s (m_sessions m)\<rparr>)))"
    (is "inv_leaders ?m")
proof -
  have t: "m_sessions ?m = remove1 s (m_sessions m)" "m_sessions_by_leader ?m = m_sessions_by_leader m"
    "m_cgroup_inotify_fd ?m = m_cgroup_inotify_fd m" "\<And>x. s_leader (ses ?m x) = s_leader (ses m x)"
    "\<And>x. x \<noteq> s \<Longrightarrow> ses ?m x = ses m x"
    by (simp_all add: session_release_cgroup_def Let_def upd_simps)
  have watch: "x \<noteq> s" "(w, x) \<in> set (m_cgroup_control_inotify_wd_session m)"
    if "0 \<le> m_cgroup_inotify_fd m" "(w, x) \<in> set (m_cgroup_control_inotify_wd_session ?m)" for w x
    using that assms(1) unfolding inv_leaders_def
    by (auto simp: session_release_cgroup_def Let_def upd_simps split: if_splits)
  have "distinct (map fst (m_cgroup_control_inotify_wd_session ?m))" if "0 \<le> m_cgroup_inotify_fd m"
    using that assms(1) by (simp add: inv_leaders_def session_release_cgroup_def Let_def distinct_map_filter)
  moreover have "x \<in> set (remove1 s (m_sessions m)) \<and> 0 < p \<and> pid_pid (s_leader (ses m x)) = p"
    if "(p, x) \<in> set (m_sessions_by_leader m)" for p x
    using leaderD [OF assms(1) that] that assms(2) by (auto simp: set_remove1_distinct [OF assms(3)])
  moreover have "x \<in> set (remove1 s (m_sessions m)) \<and> 0 \<le> w \<and> s_cgroup_control_inotify_wd (ses ?m x) = w"
    if f: "0 \<le> m_cgroup_inotify_fd m" and wx: "(w, x) \<in> set (m_cgroup_control_inotify_wd_session ?m)" for w x
    using assms(1) watch [OF f wx] f unfolding inv_leaders_def
    by (simp add: set_remove1_distinct [OF assms(3)] t)
  ultimately show ?thesis
    using assms(1) unfolding inv_leaders_def t by blast
qed

lemma wf_session_free:
  assumes "wf m" "s \<in> set (m_sessions m)"
  shows "wf (session_free s m)" "m_sessions (session_free s m) = remove1 s (m_sessions m)"
    "m_seats (session_free s m) = m_seats m" "m_users (session_free s m) = m_users m"
    "m_devices (session_free s m) = m_devices m" "m_malloc (session_free s m) = m_malloc m"
    "s_user (ses (session_free s m) x) = s_user (ses m x)"
    "s_seat (ses (session_free s m) x) = s_seat (ses m x)"
proof -
  define m1 where "m1 = (if s_in_gc_queue (ses m s) then upd_ses s (s_in_gc_queue_update (\<lambda>_. False))
                  (m\<lparr>m_session_gc_queue := remove1 s (m_session_gc_queue m)\<rparr>) else m)"
  define m2 where "m2 = session_drop_controller s m1"
  define m3 where "m3 = session_free_devices s m2"
  define m4 where "m4 = session_unlink_seat s (session_unlink_user s m3)"
  define m5 where "m5 = upd_ses s (\<lambda>x. x\<lparr>s_cgroup_leaf_path := None, s_cgroup_path := None\<rparr>) m4"
  define m6 where "m6 = session_reset_leader s True m5"
  define m7 where "m7 = m6\<lparr>m_sessions := remove1 s (m_sessions m6)\<rparr>"
  have free: "session_free s m = session_release_cgroup s (safe_close (s_fifo_fd (ses m7 s)) m7)"
    by (simp add: session_free_def Let_def m1_def m2_def m3_def m4_def m5_def m6_def m7_def)
  have g1: "keeps_graph m m1" "s \<notin> set (m_session_gc_queue m1)"
    using graph_unqueue [OF assms] by (simp_all add: m1_def)
  have g2: "keeps_graph m m2" unfolding m2_def by (rule graph_drop_controller [OF g1(1) assms(2)])
  have wf2: "wf m2" "s \<in> set (m_sessions m2)"
    using g2 assms by (simp_all add: keeps_graphD)
  have g3: "keeps_graph m m3" unfolding m3_def by (rule graph_free_devices [OF g2 assms(2)])
  have wf3: "wf m3" "s \<in> set (m_sessions m3)" "m_sessions m3 = m_sessions m"
    using g3 assms by (simp_all add: keeps_graphD)
  have no_dev: "s_devices (ses m3 s) = []" unfolding m3_def by (rule free_devices(2) [OF wf2])
  have no_q: "s \<notin> set (m_session_gc_queue m3)"
    using g1(2) by (simp add: m3_def m2_def drop_controller_queue)
  note inv = drop_session [OF wf3(1,2) no_dev no_q]
  have lead4: "inv_leaders m4"
    using wfD(8) [OF wf3(1)] inv_leaders_cong [of m4 m3] by (simp add: m4_def)
  have l45: "same_links m4 m5" by (simp add: m5_def links_basic)
  have lead5: "inv_leaders m5" by (rule leaders_links [OF l45 lead4])
  have core: "same_core m4 m6"
    unfolding m6_def by (rule core_reset_leader) (rule same_links_core [OF l45])
  have sess: "m_sessions m6 = m_sessions m"
    using same_core_fields(12) [OF core] wf3(3) by (simp add: m4_def)
  have dist: "distinct (m_sessions m6)"
    using wf_distinct(1) [OF wf3(1)] wf3(3) by (simp add: sess)
  have lead: "inv_leaders (session_free s m)"
    unfolding free m7_def using leaders_without [OF leaders_reset_leader [OF lead5] ] dist by (simp add: m6_def)
  have "same_core (m4\<lparr>m_sessions := remove1 s (m_sessions m3)\<rparr>) m7"
    unfolding m7_def sess wf3(3) by (rule same_core_sessions [OF core])
  then have c: "same_core (drop_session s m3) (session_free s m)"
    unfolding free drop_session_def m4_def
    by (intro core_release_cgroup core_step [OF _ links_basic(3) [OF same_links_refl]])
  then show "m_sessions (session_free s m) = remove1 s (m_sessions m)"
    by (simp add: same_core_fields(12) [OF c] drop_session_def wf3(3))
  show "m_seats (session_free s m) = m_seats m" "m_users (session_free s m) = m_users m"
    "m_devices (session_free s m) = m_devices m" "m_malloc (session_free s m) = m_malloc m"
    "s_user (ses (session_free s m) x) = s_user (ses m x)"
    "s_seat (ses (session_free s m) x) = s_seat (ses m x)"
    using same_core_simps [OF c] g3 by (simp_all add: drop_session_def keeps_graphD)
  show "wf (session_free s m)"
  proof (rule wfI)
    show "inv_seats (session_free s m)" "inv_positions (session_free s m)" "inv_sessions (session_free s m)"
      "inv_users (session_free s m)" "inv_devices (session_free s m)"
      "inv_session_devices (session_free s m)" "inv_queues (session_free s m)"
      using inv inv_congs(1-7) [of "session_free s m" "drop_session s m3"] by (simp_all add: same_core_simps [OF c])
  qed (rule lead)
qed

end
