(* ===== verification/Lifecycle.thy ===== *)
theory Lifecycle
  imports Session_Inv Env_File
begin

text \<open>
  Stopping, finalising and freeing seats and users (\<^verbatim>\<open>logind-seat.c\<close>, \<^verbatim>\<open>logind-user.c\<close>),
  reading a user's state file, and the garbage collector of \<^verbatim>\<open>logind.c\<close>. These operations act on
  all sessions of a seat or user, so they stand above the theories of the components.
\<close>

subsection \<open>Seats\<close>

text \<open>A loop that calls \<open>f\<close> for every element and gathers the return values with \<open>g\<close>.\<close>

definition gather_step :: "(int \<Rightarrow> int \<Rightarrow> int) \<Rightarrow> ('a \<Rightarrow> manager \<Rightarrow> int \<times> manager) \<Rightarrow> 'a \<Rightarrow>
  int \<times> manager \<Rightarrow> int \<times> manager" where
  "gather_step g f x acc = (case f x (snd acc) of (k, m) \<Rightarrow> (g (fst acc) k, m))"

definition gather :: "(int \<Rightarrow> int \<Rightarrow> int) \<Rightarrow> ('a \<Rightarrow> manager \<Rightarrow> int \<times> manager) \<Rightarrow> 'a list \<Rightarrow>
  int \<times> manager \<Rightarrow> int \<times> manager" where
  "gather g f xs acc = fold (gather_step g f) xs acc"

definition seat_stop_sessions :: "string \<Rightarrow> bool \<Rightarrow> manager \<Rightarrow> int \<times> manager" where
  "seat_stop_sessions st force m =
     gather (\<lambda>r k. if k < 0 then k else r) (\<lambda>s. session_stop s force) (st_sessions (sts m st)) (0, m)"

definition seat_stop :: "string \<Rightarrow> bool \<Rightarrow> manager \<Rightarrow> int \<times> manager" where
  "seat_stop st force m =
     (let (r, m) = seat_stop_sessions st force m;
          m = emit (Sys_unlink (seat_state_file st)) m;
          m = seat_add_to_gc_queue st m;
          m = (if st_started (sts m st) then seat_send_signal st False m else m)
      in (r, upd_seat st (st_started_update (\<lambda>_. False)) m))"

text \<open>Sessions and devices are freed until the lists are empty: each one leaves its list as it is
  freed.\<close>

definition seat_free :: "string \<Rightarrow> manager \<Rightarrow> manager" where
  "seat_free st m =
     (let m = (if st_in_gc_queue (sts m st)
               then m\<lparr>m_seat_gc_queue := remove1 st (m_seat_gc_queue m)\<rparr> else m);
          m = fold session_free (st_sessions (sts m st)) m;
          m = assert_that (st_active (sts m st) = None) m;
          m = fold device_free (st_devices (sts m st)) m
      in m\<lparr>m_seats := remove1 st (m_seats m)\<rparr>)"

subsection \<open>Users\<close>

definition user_stop :: "uid \<Rightarrow> bool \<Rightarrow> manager \<Rightarrow> int \<times> manager" where
  "user_stop u force m =
     (if \<not> u_started (usr m u) then (0, m)
      else if u_stopping (usr m u) then (0, snd (user_save u m))
      else
      let (r, m) = gather ret_gather (\<lambda>s. session_stop s force) (u_sessions (usr m u)) (0, m);
          m = user_add_to_gc_queue u m;
          m = upd_user u (u_stopping_update (\<lambda>_. True)) m
      in (r, snd (user_save u m)))"

text \<open>The boundary of the system users is fixed at build time or read from \<^verbatim>\<open>login.defs\<close>.\<close>

definition uid_is_system :: "uid \<Rightarrow> manager \<Rightarrow> bool" where
  "uid_is_system u m \<longleftrightarrow> int u \<le> ask Ask_system_uid_max m"

definition user_finalize :: "uid \<Rightarrow> manager \<Rightarrow> int \<times> manager" where
  "user_finalize u m =
     (let (r, m) = gather ret_gather session_finalize (u_sessions (usr m u)) (0, m);
          (r, m) = (if m_remove_ipc m \<and> \<not> uid_is_system u m
                    then (case sys (Sys_clean_ipc u) m of (k, m) \<Rightarrow> (ret_gather r k, m)) else (r, m));
          m = emit (Sys_unlink (user_state_file u)) m;
          m = user_add_to_gc_queue u m;
          m = (if u_started (usr m u)
               then upd_user u (u_started_update (\<lambda>_. False)) (user_send_signal u False m) else m)
      in (r, m))"

definition user_free :: "uid \<Rightarrow> manager \<Rightarrow> manager" where
  "user_free u m =
     (let m = (if u_in_gc_queue (usr m u)
               then m\<lparr>m_user_gc_queue := remove1 u (m_user_gc_queue m)\<rparr> else m);
          m = fold session_free (u_sessions (usr m u)) m;
          m = m\<lparr>m_users := remove1 u (m_users m)\<rparr>
      in emit (Sys_user_runtime_dir ''stop'' u) m)"

definition user_kill :: "uid \<Rightarrow> int \<Rightarrow> manager \<Rightarrow> int \<times> manager" where
  "user_kill u signo m =
     gather (\<lambda>res r. if res = 0 \<and> r < 0 then r else res) (\<lambda>s. session_kill s KILL_ALL signo)
       (u_sessions (usr m u)) (0, m)"

text \<open>A number that does not parse leaves the variable as it is.\<close>

definition deserialize_usec :: "string option \<Rightarrow> nat \<Rightarrow> nat" where
  "deserialize_usec value old =
     (case value of None \<Rightarrow> old | Some v \<Rightarrow> (case safe_atou64 v of Inl _ \<Rightarrow> old | Inr n \<Rightarrow> n))"

definition user_load_vars :: "env_vars \<Rightarrow> user \<Rightarrow> user" where
  "user_load_vars vars x =
     (let b = parse_boolean (vars ''STOPPING'')
      in x\<lparr>u_stopping := (if vars ''STOPPING'' = None \<or> b < 0 then u_stopping x else b \<noteq> 0),
           u_timestamp := \<lparr>ts_realtime = deserialize_usec (vars ''REALTIME'') (ts_realtime (u_timestamp x)),
                           ts_monotonic = deserialize_usec (vars ''MONOTONIC'') (ts_monotonic (u_timestamp x))\<rparr>,
           u_last_session_timestamp :=
             deserialize_usec (vars ''LAST_SESSION_TIMESTAMP'') (u_last_session_timestamp x),
           u_gc_mode := (case user_gc_mode_from_string (vars ''GC_MODE'') of
                           None \<Rightarrow> USER_GC_BY_PIN | Some g \<Rightarrow> g)\<rparr>)"

definition user_load :: "uid \<Rightarrow> manager \<Rightarrow> int \<times> manager" where
  "user_load u m =
     (case m_files m (user_state_file u) of
        Inl r \<Rightarrow> (if r = - ENOENT then 0 else r, m)
      | Inr contents \<Rightarrow>
          (case parse_env_file [''STOPPING'', ''REALTIME'', ''MONOTONIC'', ''LAST_SESSION_TIMESTAMP'', ''GC_MODE'']
                  contents (\<lambda>_. None) of
             Inl (r, _) \<Rightarrow> (r, m)
           | Inr vars \<Rightarrow> (0, upd_user u (user_load_vars vars) m)))"

subsection \<open>The garbage collector\<close>

text \<open>What the loops do with the object they have taken from the queue.\<close>

definition gc_seat :: "bool \<Rightarrow> string \<Rightarrow> manager \<Rightarrow> manager" where
  "gc_seat drop_not_started st m =
     (let m = upd_seat st (st_in_gc_queue_update (\<lambda>_. False)) m
      in if seat_may_gc st drop_not_started m then seat_free st (snd (seat_stop st False m)) else m)"

definition gc_session :: "bool \<Rightarrow> string \<Rightarrow> manager \<Rightarrow> manager" where
  "gc_session drop_not_started s m =
     (let m = upd_ses s (s_in_gc_queue_update (\<lambda>_. False)) m;
          m = (if session_may_gc s drop_not_started m \<and> session_get_state s m \<noteq> SESSION_CLOSING
               then snd (session_stop s False m) else m)
      in if session_may_gc s drop_not_started m then session_free s (snd (session_finalize s m)) else m)"

definition gc_user :: "bool \<Rightarrow> uid \<Rightarrow> manager \<Rightarrow> manager" where
  "gc_user drop_not_started u m =
     (let m = upd_user u (u_in_gc_queue_update (\<lambda>_. False)) m;
          m = (if user_may_gc u drop_not_started m then snd (user_stop u False m) else m)
      in if user_may_gc u drop_not_started m then user_free u (snd (user_finalize u m)) else m)"

partial_function (option) gc_seats :: "bool \<Rightarrow> manager \<Rightarrow> manager option" where
  "gc_seats d m =
     (case m_seat_gc_queue m of
        [] \<Rightarrow> Some m
      | st # q \<Rightarrow> gc_seats d (gc_seat d st (m\<lparr>m_seat_gc_queue := q\<rparr>)))"

partial_function (option) gc_sessions :: "bool \<Rightarrow> manager \<Rightarrow> manager option" where
  "gc_sessions d m =
     (case m_session_gc_queue m of
        [] \<Rightarrow> Some m
      | s # q \<Rightarrow> gc_sessions d (gc_session d s (m\<lparr>m_session_gc_queue := q\<rparr>)))"

partial_function (option) gc_users :: "bool \<Rightarrow> manager \<Rightarrow> manager option" where
  "gc_users d m =
     (case m_user_gc_queue m of
        [] \<Rightarrow> Some m
      | u # q \<Rightarrow> gc_users d (gc_user d u (m\<lparr>m_user_gc_queue := q\<rparr>)))"

text \<open>\<open>None\<close> would be a loop that does not end.\<close>

definition manager_gc :: "bool \<Rightarrow> manager \<Rightarrow> manager option" where
  "manager_gc drop_not_started m =
     Option.bind (gc_seats drop_not_started m)
       (\<lambda>m. Option.bind (gc_sessions drop_not_started m) (gc_users drop_not_started))"

end
