(* ===== verification/Lifecycle_Inv.thy ===== *)
theory Lifecycle_Inv
  imports Lifecycle
begin

text \<open>
  Stopping and freeing seats and users and collecting garbage keep the invariant of the object
  graph; the collector ends and leaves its queues empty.
\<close>

subsection \<open>Queues\<close>

text \<open>\<open>gc_within S U m m'\<close>: from \<open>m\<close> to \<open>m'\<close> at most the sessions \<open>S\<close> and the users \<open>U\<close> have been
  queued; seats were not, no user was started or stopped, and no device changed its seat.\<close>

definition gc_within :: "string set \<Rightarrow> uid set \<Rightarrow> manager \<Rightarrow> manager \<Rightarrow> bool" where
  "gc_within S U m m' \<longleftrightarrow> m_seat_gc_queue m' = m_seat_gc_queue m \<and>
     set (m_session_gc_queue m') \<subseteq> set (m_session_gc_queue m) \<union> S \<and>
     set (m_user_gc_queue m') \<subseteq> set (m_user_gc_queue m) \<union> U \<and>
     (\<forall>u. u_stopping (usr m' u) = u_stopping (usr m u)) \<and>
     (\<forall>u. u_started (usr m' u) = u_started (usr m u)) \<and>
     (\<forall>st. st_in_gc_queue (sts m' st) = st_in_gc_queue (sts m st)) \<and>
     (\<forall>st. st_started (sts m' st) = st_started (sts m st)) \<and>
     (\<forall>d. d_seat (dev m' d) = d_seat (dev m d))"

lemma gc_within_refl [simp, intro]: "gc_within S U m m"
  by (simp add: gc_within_def)

lemma gc_within_trans [trans]: "gc_within S U m m' \<Longrightarrow> gc_within S U m' m'' \<Longrightarrow> gc_within S U m m''"
  by (simp add: gc_within_def) blast

lemma gc_within_mono: "gc_within S U m m' \<Longrightarrow> S \<subseteq> S' \<Longrightarrow> U \<subseteq> U' \<Longrightarrow> gc_within S' U' m m'"
  unfolding gc_within_def by blast

lemma gc_withinD:
  assumes "gc_within S U m m'"
  shows "m_seat_gc_queue m' = m_seat_gc_queue m"
    "u_stopping (usr m' u) = u_stopping (usr m u)" "u_started (usr m' u) = u_started (usr m u)"
    "st_in_gc_queue (sts m' st) = st_in_gc_queue (sts m st)"
    "st_started (sts m' st) = st_started (sts m st)"
    "set (m_session_gc_queue m') \<subseteq> set (m_session_gc_queue m) \<union> S"
    "set (m_user_gc_queue m') \<subseteq> set (m_user_gc_queue m) \<union> U" "d_seat (dev m' d) = d_seat (dev m d)"
  using assms unfolding gc_within_def by blast+

lemma gc_links: "gc_within S U m m' \<Longrightarrow> same_links m' m'' \<Longrightarrow> gc_within S U m m''"
  by (simp add: gc_within_def same_links_simps)

lemma gc_core: "gc_within S U m m' \<Longrightarrow> same_core m' m'' \<Longrightarrow> gc_within S U m m''"
  by (simp add: gc_within_def same_core_simps)

lemma gc_evict: "gc_within S U m m' \<Longrightarrow> gc_within S U m (seat_evict_position st s m')"
  by (simp add: gc_within_def)

lemma gc_set_active: "gc_within S U m m' \<Longrightarrow> gc_within S U m (seat_set_active st x m')"
  by (simp add: gc_within_def sts_seat_set_active)

lemma gc_elect: "gc_within S U m m' \<Longrightarrow> gc_within S U m (user_elect_display u m')"
  by (rule user_elect_display_result [of u m']) (simp add: gc_within_def)

lemma gc_free_devices: "gc_within S U m m' \<Longrightarrow> gc_within S U m (session_free_devices s m')"
  by (simp add: gc_within_def session_free_devices_def)

lemma gc_on_seat:
  "gc_within S U m m' \<Longrightarrow> (\<And>st m''. gc_within S U m m'' \<Longrightarrow> gc_within S U m (f st m'')) \<Longrightarrow>
   gc_within S U m (on_seat f s m')"
  by (simp add: on_seat_def split: option.split)

lemma gc_queue_session:
  "gc_within S U m m' \<Longrightarrow> s \<in> S \<Longrightarrow> gc_within S U m (session_add_to_gc_queue s m')"
  by (auto simp: gc_within_def session_add_to_gc_queue_def)

lemma gc_queue_user: "gc_within S U m m' \<Longrightarrow> u \<in> U \<Longrightarrow> gc_within S U m (user_add_to_gc_queue u m')"
  by (auto simp: gc_within_def user_add_to_gc_queue_def upd_simps)

lemmas gc_basic =
  gc_links [OF _ links_basic(1) [OF same_links_refl]] gc_links [OF _ links_basic(2) [OF same_links_refl]]
  gc_links [OF _ links_basic(3) [OF same_links_refl]] gc_links [OF _ links_basic(4) [OF same_links_refl]]
  gc_links [OF _ links_basic(5) [OF same_links_refl]] gc_links [OF _ links_basic(6) [OF same_links_refl]]
  gc_links [OF _ links_basic(7) [OF same_links_refl]] gc_links [OF _ links_basic(8) [OF same_links_refl]]
  gc_links [OF _ links_basic(9) [OF same_links_refl]] gc_links [OF _ links_basic(10) [OF same_links_refl]]
  gc_links [OF _ links_basic(11) [OF same_links_refl]] gc_links [OF _ links_basic(12) [OF same_links_refl]]
  gc_links [OF _ links_upd [OF _ same_links_refl]]
  gc_links [OF _ links_restore_tty [OF same_links_refl]]
  gc_links [OF _ links_remove_fifo [OF same_links_refl]]
  gc_links [OF _ links_restore_vt [OF same_links_refl]]
  gc_links [OF _ links_kill [OF same_links_refl]]
  gc_core [OF _ core_release_cgroup [OF same_core_refl]]
  gc_core [OF _ core_reset_leader [OF same_core_refl]]

lemma gc_stop_scope: "gc_within S U m m' \<Longrightarrow> gc_within S U m (snd (session_stop_scope s f m'))"
  by (simp add: session_stop_scope_def Let_def case_prod_beta gc_basic)

lemmas gc_steps =
  gc_basic gc_evict gc_set_active gc_elect gc_free_devices gc_queue_session gc_queue_user gc_stop_scope

lemma gc_session_stop: "gc_within S U m m' \<Longrightarrow> gc_within S U m (snd (session_stop s f m'))"
  by (auto simp: session_stop_def Let_def case_prod_beta split: option.split
      intro!: gc_on_seat gc_steps)

lemma gc_session_finalize:
  assumes "gc_within S U m m'" "s \<in> S" "\<And>u. s_user (ses m' s) = Some u \<Longrightarrow> u \<in> U"
  shows "gc_within S U m (snd (session_finalize s m'))"
  using assms
  by (auto simp: session_finalize_def Let_def case_prod_beta split: option.split
      intro!: gc_on_seat gc_steps)

lemma gc_drop_controller: "gc_within S U m m' \<Longrightarrow> gc_within S U m (session_drop_controller s m')"
  by (simp add: session_drop_controller_def session_release_controller_def session_set_type_def
      Let_def gc_steps)

lemma gc_unlink_user: "gc_within S U m m' \<Longrightarrow> gc_within S U m (session_unlink_user s m')"
  by (simp add: gc_within_def session_unlink_user_def upd_simps split: option.split)

lemma gc_unlink_seat: "gc_within S U m m' \<Longrightarrow> gc_within S U m (session_unlink_seat s m')"
  by (simp add: gc_within_def session_unlink_seat_def Let_def upd_simps forget_session_def split: option.split)

lemma gc_tables:
  "gc_within S U m m' \<Longrightarrow> gc_within S U m (m'\<lparr>m_sessions := x\<rparr>)"
  "gc_within S U m m' \<Longrightarrow> gc_within S U m (m'\<lparr>m_users := y\<rparr>)"
  "gc_within S U m m' \<Longrightarrow> gc_within S U m (m'\<lparr>m_session_gc_queue := remove1 s (m_session_gc_queue m')\<rparr>)"
  "gc_within S U m m' \<Longrightarrow> gc_within S U m (upd_ses s (s_in_gc_queue_update f) m')"
  using set_remove1_subset [of s "m_session_gc_queue m'"] unfolding gc_within_def by auto

lemma gc_session_free: "gc_within S U m m' \<Longrightarrow> gc_within S U m (session_free s m')"
  by (simp add: session_free_def Let_def gc_steps gc_drop_controller gc_unlink_user gc_unlink_seat gc_tables)

subsection \<open>Many sessions at once\<close>

lemma snd_gather: "snd (gather g f xs acc) = fold (\<lambda>x m. snd (f x m)) xs (snd acc)"
  unfolding gather_def
  by (induction xs arbitrary: acc) (simp_all add: gather_step_def case_prod_beta)

lemma gather_graph:
  assumes "\<And>s m'. s \<in> set l \<Longrightarrow> keeps_graph m m' \<Longrightarrow> keeps_graph m (snd (f s m'))" "keeps_graph m (snd acc)"
  shows "keeps_graph m (snd (gather g f l acc))"
  using assms unfolding snd_gather by (induction l arbitrary: acc rule: rev_induct) auto

lemma gather_gc:
  assumes "\<And>s m'. s \<in> set l \<Longrightarrow> gc_within S U m m' \<Longrightarrow> gc_within S U m (snd (f s m'))"
    "gc_within S U m (snd acc)"
  shows "gc_within S U m (snd (gather g f l acc))"
  using assms unfolding snd_gather by (induction l arbitrary: acc rule: rev_induct) auto

lemma fold_session_free:
  assumes "wf m" "distinct l" "set l \<subseteq> set (m_sessions m)"
  defines "m' \<equiv> fold session_free l m"
  shows "wf m'" "set (m_sessions m') = set (m_sessions m) - set l"
    "m_seats m' = m_seats m" "m_users m' = m_users m" "m_devices m' = m_devices m"
    "m_malloc m' = m_malloc m" "s_user (ses m' x) = s_user (ses m x)"
    "s_seat (ses m' x) = s_seat (ses m x)" "gc_within S U m m'"
proof -
  have "wf m' \<and> set (m_sessions m') = set (m_sessions m) - set l \<and> m_seats m' = m_seats m \<and>
    m_users m' = m_users m \<and> m_devices m' = m_devices m \<and> m_malloc m' = m_malloc m \<and>
    s_user (ses m' x) = s_user (ses m x) \<and> s_seat (ses m' x) = s_seat (ses m x) \<and> gc_within S U m m'"
    using assms(1-3) unfolding m'_def
  proof (induction l arbitrary: m)
    case (Cons s l)
    let ?m = "session_free s m"
    have s: "s \<in> set (m_sessions m)" using Cons.prems by simp
    note free = wf_session_free [OF Cons.prems(1) s]
    have sess: "set (m_sessions ?m) = set (m_sessions m) - {s}"
      using free(2) wf_distinct(1) [OF Cons.prems(1)] by (simp add: set_remove1_distinct)
    have l: "distinct l" "set l \<subseteq> set (m_sessions ?m)"
      using Cons.prems sess by auto
    have "gc_within S U m ?m" by (rule gc_session_free) simp
    then show ?case
      using Cons.IH [OF free(1) l] free(3-8) sess by (auto intro: gc_within_trans)
  qed simp
  then show "wf m'" "set (m_sessions m') = set (m_sessions m) - set l"
    "m_seats m' = m_seats m" "m_users m' = m_users m" "m_devices m' = m_devices m"
    "m_malloc m' = m_malloc m" "s_user (ses m' x) = s_user (ses m x)"
    "s_seat (ses m' x) = s_seat (ses m x)" "gc_within S U m m'"
    by blast+
qed

subsection \<open>Users\<close>

lemma users_sessions:
  assumes "wf m" "u \<in> set (m_users m)"
  shows "set (u_sessions (usr m u)) = {s \<in> set (m_sessions m). s_user (ses m s) = Some u}"
  using wfD(4) [OF assms(1)] wf_session_user(2) [OF assms(1)] assms(2) by (auto simp: inv_users_def)

lemma seats_sessions:
  assumes "wf m" "st \<in> set (m_seats m)"
  shows "set (st_sessions (sts m st)) = {s \<in> set (m_sessions m). s_seat (ses m s) = Some st}"
  using wf_seat_session [OF assms] wf_session_seat(2) [OF assms(1)] by auto

text \<open>Taking an object out of its queue.\<close>

lemma wf_unqueue:
  assumes "wf m"
  shows "wf (m\<lparr>m_seat_gc_queue := remove1 st (m_seat_gc_queue m)\<rparr>)" (is "wf ?s")
    "wf (m\<lparr>m_user_gc_queue := remove1 u (m_user_gc_queue m)\<rparr>)" (is "wf ?u")
proof -
  note inv = wfD [OF assms]
  have "inv_queues ?s" "inv_queues ?u"
    using inv(7) unfolding inv_queues_def by (auto simp: set_remove1_distinct)
  then show "wf ?s" "wf ?u"
    using inv inv_congs(1-6,8) [of ?s m] inv_congs(1-6,8) [of ?u m] by (simp_all add: wf_def)
qed

text \<open>A user without sessions that is not queued can go.\<close>

lemma wf_remove_user:
  assumes "wf m" "u_sessions (usr m u) = []" "u \<notin> set (m_user_gc_queue m)" "u \<in> set (m_users m)"
  shows "wf (m\<lparr>m_users := remove1 u (m_users m)\<rparr>)" (is "wf ?m")
proof (rule wfI)
  note inv = wfD [OF assms(1)]
  have us: "set (m_users ?m) = set (m_users m) - {u}" "distinct (m_users ?m)"
    using wf_distinct(3) [OF assms(1)] by (simp_all add: set_remove1_distinct)
  show "inv_seats ?m" "inv_positions ?m" "inv_devices ?m" "inv_session_devices ?m" "inv_leaders ?m"
    using inv inv_congs(1,2,5,6,8) [of ?m m] by simp_all
  have "s_user (ses m s) \<noteq> Some u" if "s \<in> set (m_sessions m)" for s
    using wf_session_user(2) [OF assms(1) that, of u] assms(2) by auto
  then show "inv_sessions ?m"
    using inv(3) us unfolding inv_sessions_def by auto
  show "inv_users ?m"
    using inv(4) us unfolding inv_users_def by auto
  show "inv_queues ?m"
    using inv(7) us(1) assms(3) unfolding inv_queues_def by auto
qed

lemma wf_user_free:
  assumes "wf m" "u \<in> set (m_users m)"
  shows "wf (user_free u m)" "m_users (user_free u m) = remove1 u (m_users m)"
    "set (m_sessions (user_free u m)) = {s \<in> set (m_sessions m). s_user (ses m s) \<noteq> Some u}"
    "m_seats (user_free u m) = m_seats m"
    "m_devices (user_free u m) = m_devices m" "m_malloc (user_free u m) = m_malloc m"
    "s_user (ses (user_free u m) x) = s_user (ses m x)"
    "s_seat (ses (user_free u m) x) = s_seat (ses m x)" "gc_within {} {} m (user_free u m)"
proof -
  define m1 where "m1 = (if u_in_gc_queue (usr m u)
               then m\<lparr>m_user_gc_queue := remove1 u (m_user_gc_queue m)\<rparr> else m)"
  define m2 where "m2 = fold session_free (u_sessions (usr m u)) m1"
  have free: "user_free u m = emit (Sys_user_runtime_dir ''stop'' u) (m2\<lparr>m_users := remove1 u (m_users m2)\<rparr>)"
    by (simp add: user_free_def Let_def m1_def m2_def)
  have wf1: "wf m1" using assms(1) wf_unqueue(2) by (simp add: m1_def)
  have q1: "u \<notin> set (m_user_gc_queue m1)"
    using wfD(7) [OF assms(1)] by (auto simp: m1_def inv_queues_def set_remove1_distinct)
  have eq1: "m_sessions m1 = m_sessions m" "usr m1 = usr m" "m_users m1 = m_users m" "ses m1 = ses m"
    "m_seats m1 = m_seats m" "m_devices m1 = m_devices m" "m_malloc m1 = m_malloc m" "sts m1 = sts m"
    by (simp_all add: m1_def)
  have "set (m_user_gc_queue m1) \<subseteq> set (m_user_gc_queue m)"
    using set_remove1_subset [of u "m_user_gc_queue m"] by (auto simp: m1_def)
  then have g1: "gc_within {} {} m m1" by (simp add: gc_within_def m1_def)
  have l: "distinct (u_sessions (usr m u))" "set (u_sessions (usr m u)) \<subseteq> set (m_sessions m1)"
    using wf_distinct(9) [OF assms(1)] users_sessions [OF assms] assms(2) by (auto simp: eq1)
  note f = fold_session_free [OF wf1 l, folded m2_def]
  have u2: "u \<in> set (m_users m2)" using assms(2) f(4) by (simp add: eq1)
  have sess: "set (m_sessions m2) = {s \<in> set (m_sessions m). s_user (ses m s) \<noteq> Some u}"
    using f(2) users_sessions [OF assms] by (auto simp: eq1)
  have "set (u_sessions (usr m2 u)) = {}"
    using users_sessions [OF f(1) u2] sess f(7) by (auto simp: eq1)
  then have none: "u_sessions (usr m2 u) = []" by simp
  have q2: "u \<notin> set (m_user_gc_queue m2)" using gc_withinD(7) [OF f(9)] q1 by blast
  show "wf (user_free u m)" unfolding free using wf_remove_user [OF f(1) none q2 u2] by simp
  show "m_users (user_free u m) = remove1 u (m_users m)" "m_seats (user_free u m) = m_seats m"
    "m_devices (user_free u m) = m_devices m" "m_malloc (user_free u m) = m_malloc m"
    "s_user (ses (user_free u m) x) = s_user (ses m x)"
    "s_seat (ses (user_free u m) x) = s_seat (ses m x)"
    using f by (simp_all add: free eq1)
  show "set (m_sessions (user_free u m)) = {s \<in> set (m_sessions m). s_user (ses m s) \<noteq> Some u}"
    using sess by (simp add: free)
  show "gc_within {} {} m (user_free u m)"
    unfolding free by (intro gc_basic(2) gc_tables(2) gc_within_trans [OF g1 f(9)])
qed

lemma graph_upd_user: "keeps_graph m m' \<Longrightarrow> user_keeps f \<Longrightarrow> keeps_graph m (upd_user u f m')"
  using wf_upd_user [of f u m'] by (simp add: keeps_graph_def)

lemma graph_user_send_signal: "keeps_graph m m' \<Longrightarrow> keeps_graph m (user_send_signal u b m')"
  by (rule graph_links [OF _ same_objects_links [OF user_send_signal_same]])

lemma graph_user_stop:
  assumes "wf m" "u \<in> set (m_users m)"
  shows "keeps_graph m (snd (user_stop u force m))"
proof -
  have "s \<in> set (m_sessions m)" if "s \<in> set (u_sessions (usr m u))" for s
    using users_sessions [OF assms] that by blast
  then have "keeps_graph m (snd (gather ret_gather (\<lambda>s. session_stop s force) (u_sessions (usr m u)) (0, m)))"
    using assms(1) by (intro gather_graph graph_session_stop) simp_all
  then show ?thesis
    using assms(2) by (simp add: user_stop_def Let_def case_prod_beta graph_basic graph_user_gc graph_upd_user)
qed

lemma graph_user_finalize:
  assumes "wf m" "u \<in> set (m_users m)"
  shows "keeps_graph m (snd (user_finalize u m))"
proof -
  have "s \<in> set (m_sessions m)" if "s \<in> set (u_sessions (usr m u))" for s
    using users_sessions [OF assms] that by blast
  then have "keeps_graph m (snd (gather ret_gather session_finalize (u_sessions (usr m u)) (0, m)))"
    using assms(1) by (intro gather_graph graph_session_finalize) simp_all
  then show ?thesis
    using assms(2) by (simp add: user_finalize_def Let_def case_prod_beta graph_basic graph_user_gc
        graph_upd_user graph_user_send_signal)
qed

text \<open>What stopping and finalising do to the queues.\<close>

lemma gc_user_stop:
  defines "adds \<equiv> \<lambda>u m. if u_started (usr m u) \<and> \<not> u_stopping (usr m u) then {u} else {}"
  shows "m_seat_gc_queue (snd (user_stop u f m)) = m_seat_gc_queue m"
    "set (m_session_gc_queue (snd (user_stop u f m))) \<subseteq> set (m_session_gc_queue m)"
    "set (m_user_gc_queue (snd (user_stop u f m))) \<subseteq> set (m_user_gc_queue m) \<union> adds u m"
    "u_stopping (usr (snd (user_stop u f m)) x) =
       (u_stopping (usr m x) \<or> x = u \<and> u_started (usr m u))"
proof -
  let ?m = "snd (gather ret_gather (\<lambda>s. session_stop s f) (u_sessions (usr m u)) (0, m))"
  have g: "gc_within {} {} m ?m" by (rule gather_gc) (simp_all add: gc_session_stop)
  note d = gc_withinD [OF g]
  have q: "set (m_user_gc_queue (user_add_to_gc_queue u ?m)) \<subseteq> set (m_user_gc_queue m) \<union> {u}"
    using d(7) by (auto simp: user_add_to_gc_queue_def)
  have r: "m_seat_gc_queue (user_add_to_gc_queue u ?m) = m_seat_gc_queue m"
    "m_session_gc_queue (user_add_to_gc_queue u ?m) = m_session_gc_queue ?m"
    "u_stopping (usr (user_add_to_gc_queue u ?m) x) = u_stopping (usr m x)" for x
    using d(1,2) by (simp_all add: user_add_to_gc_queue_def upd_simps)
  show "m_seat_gc_queue (snd (user_stop u f m)) = m_seat_gc_queue m"
    "set (m_session_gc_queue (snd (user_stop u f m))) \<subseteq> set (m_session_gc_queue m)"
    "u_stopping (usr (snd (user_stop u f m)) x) =
       (u_stopping (usr m x) \<or> x = u \<and> u_started (usr m u))"
    using d(6) by (auto simp: user_stop_def Let_def case_prod_beta upd_simps r)
  show "set (m_user_gc_queue (snd (user_stop u f m))) \<subseteq> set (m_user_gc_queue m) \<union> adds u m"
    using q by (auto simp: user_stop_def Let_def case_prod_beta adds_def)
qed

lemma gc_user_finalize:
  assumes "wf m" "u \<in> set (m_users m)"
  shows "m_seat_gc_queue (snd (user_finalize u m)) = m_seat_gc_queue m"
    "set (m_session_gc_queue (snd (user_finalize u m))) \<subseteq>
       set (m_session_gc_queue m) \<union> set (u_sessions (usr m u))"
    "set (m_user_gc_queue (snd (user_finalize u m))) \<subseteq> set (m_user_gc_queue m) \<union> {u}"
    "u_stopping (usr (snd (user_finalize u m)) x) = u_stopping (usr m x)"
proof -
  let ?S = "set (u_sessions (usr m u))"
  let ?m = "snd (gather ret_gather session_finalize (u_sessions (usr m u)) (0, m))"
  have "keeps_graph m m' \<and> gc_within ?S {u} m m' \<Longrightarrow>
      keeps_graph m (snd (session_finalize s m')) \<and> gc_within ?S {u} m (snd (session_finalize s m'))"
    if "s \<in> ?S" for s m'
    using that users_sessions [OF assms] assms(1)
    by (intro conjI graph_session_finalize gc_session_finalize) (auto simp: keeps_graphD)
  then have "keeps_graph m (snd (gather ret_gather session_finalize l (0, m))) \<and>
      gc_within ?S {u} m (snd (gather ret_gather session_finalize l (0, m)))" if "set l \<subseteq> ?S" for l
    using that unfolding snd_gather by (induction l rule: rev_induct) auto
  then have g: "gc_within ?S {u} m ?m" by blast
  note d = gc_withinD [OF g]
  have q: "set (m_user_gc_queue (user_add_to_gc_queue u m')) \<subseteq> set (m_user_gc_queue m) \<union> {u}"
    if "set (m_user_gc_queue m') \<subseteq> set (m_user_gc_queue m) \<union> {u}" for m'
    using that by (auto simp: user_add_to_gc_queue_def)
  have r: "m_seat_gc_queue (user_add_to_gc_queue u m') = m_seat_gc_queue m'"
    "m_session_gc_queue (user_add_to_gc_queue u m') = m_session_gc_queue m'"
    "u_stopping (usr (user_add_to_gc_queue u m') x) = u_stopping (usr m' x)" for x m'
    by (simp_all add: user_add_to_gc_queue_def upd_simps)
  show "m_seat_gc_queue (snd (user_finalize u m)) = m_seat_gc_queue m"
    "set (m_session_gc_queue (snd (user_finalize u m))) \<subseteq>
       set (m_session_gc_queue m) \<union> set (u_sessions (usr m u))"
    "u_stopping (usr (snd (user_finalize u m)) x) = u_stopping (usr m x)"
    using d by (simp_all add: user_finalize_def Let_def case_prod_beta upd_simps r)
  show "set (m_user_gc_queue (snd (user_finalize u m))) \<subseteq> set (m_user_gc_queue m) \<union> {u}"
    using q d(7) by (simp add: user_finalize_def Let_def case_prod_beta)
qed

subsection \<open>Seats\<close>

lemma graph_seat_gc: "keeps_graph m m' \<Longrightarrow> st \<in> set (m_seats m) \<Longrightarrow> keeps_graph m (seat_add_to_gc_queue st m')"
  using wf_seat_add_to_gc_queue [of m' st] by (simp add: keeps_graph_def)

lemma graph_upd_seat: "keeps_graph m m' \<Longrightarrow> seat_keeps f \<Longrightarrow> keeps_graph m (upd_seat st f m')"
  using wf_upd_seat [of f st m'] by (simp add: keeps_graph_def)

lemma graph_seat_send_signal: "keeps_graph m m' \<Longrightarrow> keeps_graph m (seat_send_signal st b m')"
  by (rule graph_links [OF _ same_objects_links [OF seat_send_signal_same]])

lemma graph_seat_stop:
  assumes "wf m" "st \<in> set (m_seats m)"
  shows "keeps_graph m (snd (seat_stop st force m))"
proof -
  have "s \<in> set (m_sessions m)" if "s \<in> set (st_sessions (sts m st))" for s
    using wf_seat_session(1) [OF assms that] .
  then have "keeps_graph m (snd (seat_stop_sessions st force m))"
    unfolding seat_stop_sessions_def using assms(1) by (intro gather_graph graph_session_stop) simp_all
  moreover have "seat_keeps (st_started_update (\<lambda>_. False))" by (simp add: seat_keeps_def)
  ultimately show ?thesis
    using assms(2) by (simp add: seat_stop_def Let_def case_prod_beta graph_basic graph_seat_gc graph_upd_seat
        graph_seat_send_signal)
qed

lemma gc_seat_stop:
  shows "set (m_seat_gc_queue (snd (seat_stop st f m))) \<subseteq> set (m_seat_gc_queue m) \<union> {st}"
    "st_in_gc_queue (sts (snd (seat_stop st f m)) st)"
proof -
  let ?m = "snd (seat_stop_sessions st f m)"
  have g: "gc_within {} {} m ?m"
    unfolding seat_stop_sessions_def by (rule gather_gc) (simp_all add: gc_session_stop)
  show "set (m_seat_gc_queue (snd (seat_stop st f m))) \<subseteq> set (m_seat_gc_queue m) \<union> {st}"
    "st_in_gc_queue (sts (snd (seat_stop st f m)) st)"
    using gc_withinD(1) [OF g]
    by (auto simp: seat_stop_def Let_def case_prod_beta seat_add_to_gc_queue_def upd_simps)
qed

text \<open>Freeing a device of a seat that is flagged does not queue the seat.\<close>

lemma device_free_frame:
  assumes "d_seat (dev m d) = Some st" "st_in_gc_queue (sts m st)"
  shows "m_seat_gc_queue (device_free d m) = m_seat_gc_queue m"
    "m_session_gc_queue (device_free d m) = m_session_gc_queue m"
    "m_user_gc_queue (device_free d m) = m_user_gc_queue m"
    "usr (device_free d m) = usr m"
    "st_in_gc_queue (sts (device_free d m) st)"
    "st_sessions (sts (device_free d m) x) = st_sessions (sts m x)"
    "x \<noteq> d \<Longrightarrow> d_seat (dev (device_free d m) x) = d_seat (dev m x)"
  using assms by (simp_all add: device_free_def device_detach_unfold [OF assms(1)] Let_def seat_add_to_gc_queue_def)

lemma device_free_tables:
  "m_seats (device_free d m) = m_seats m" "m_sessions (device_free d m) = m_sessions m"
  "m_users (device_free d m) = m_users m" "m_malloc (device_free d m) = m_malloc m"
  "s_user (ses (device_free d m) s) = s_user (ses m s)"
  "s_seat (ses (device_free d m) s) = s_seat (ses m s)"
  by (simp_all add: device_free_def Let_def)

lemma fold_device_free:
  assumes "wf m" "distinct l" "set l \<subseteq> set (st_devices (sts m st))" "st \<in> set (m_seats m)"
    "st_in_gc_queue (sts m st)"
  defines "m' \<equiv> fold device_free l m"
  shows "wf m' \<and> set (m_devices m') = set (m_devices m) - set l \<and> m_seat_gc_queue m' = m_seat_gc_queue m \<and>
    m_session_gc_queue m' = m_session_gc_queue m \<and> m_user_gc_queue m' = m_user_gc_queue m \<and>
    usr m' = usr m \<and> m_seats m' = m_seats m \<and> m_sessions m' = m_sessions m \<and>
    m_users m' = m_users m \<and> m_malloc m' = m_malloc m \<and> s_user (ses m' s) = s_user (ses m s) \<and>
    s_seat (ses m' s) = s_seat (ses m s) \<and> st_sessions (sts m' st) = st_sessions (sts m st) \<and>
    (\<forall>x. x \<notin> set l \<longrightarrow> d_seat (dev m' x) = d_seat (dev m x))"
  using assms(1-5) unfolding m'_def
proof (induction l arbitrary: m)
  case (Cons d l)
  let ?m = "device_free d m"
  have d: "d \<in> set (m_devices m)" "d_seat (dev m d) = Some st"
    using wf_seat_device [OF Cons.prems(1,4), of d] Cons.prems(3) by auto
  note f = device_free_frame [OF d(2) Cons.prems(5)] device_free_tables [of d m]
  note wf' = wf_device_free [OF Cons.prems(1) d(1)]
  have devs: "set (m_devices ?m) = set (m_devices m) - {d}"
    using wf'(2) wf_distinct(4) [OF Cons.prems(1)] by (simp add: set_remove1_distinct)
  have l: "distinct l" "set l \<subseteq> set (st_devices (sts ?m st))"
  proof -
    have "x \<in> set (st_devices (sts ?m st))" if "x \<in> set l" for x
    proof (rule wf_device_seat(2) [OF wf'(1)])
      have "x \<noteq> d" "x \<in> set (st_devices (sts m st))" using that Cons.prems(2,3) by auto
      with wf_seat_device [OF Cons.prems(1,4) this(2)] devs f(7)
      show "x \<in> set (m_devices ?m)" "d_seat (dev ?m x) = Some st" by simp_all
    qed
    then show "distinct l" "set l \<subseteq> set (st_devices (sts ?m st))" using Cons.prems(2) by auto
  qed
  have "st \<in> set (m_seats ?m)" using Cons.prems(4) f(8) by simp
  from Cons.IH [OF wf'(1) l this f(5)] show ?case
    using devs f by auto
qed simp

lemma wf_remove_seat:
  assumes "wf m" "st_sessions (sts m st) = []" "st_devices (sts m st) = []" "st \<notin> set (m_seat_gc_queue m)"
  shows "wf (m\<lparr>m_seats := remove1 st (m_seats m)\<rparr>)" (is "wf ?m")
proof (rule wfI)
  note inv = wfD [OF assms(1)]
  have us: "set (m_seats ?m) = set (m_seats m) - {st}" "distinct (m_seats ?m)"
    using wf_distinct(2) [OF assms(1)] by (simp_all add: set_remove1_distinct)
  show "inv_users ?m" "inv_session_devices ?m" "inv_leaders ?m"
    using inv inv_congs(4,6,8) [of ?m m] by simp_all
  show "inv_seats ?m" using inv(1) us unfolding inv_seats_def by auto
  show "inv_positions ?m" using inv(2) us unfolding inv_positions_def by auto
  have "s_seat (ses m s) \<noteq> Some st" if "s \<in> set (m_sessions m)" for s
    using wf_session_seat(2) [OF assms(1) that, of st] assms(2) by auto
  then show "inv_sessions ?m" using inv(3) us unfolding inv_sessions_def by auto
  show "inv_queues ?m" using inv(7) us(1) assms(4) unfolding inv_queues_def by auto
  show "inv_devices ?m"
  proof (rule inv_devicesI)
    fix d x assume "d \<in> set (m_devices ?m)" "d_seat (dev ?m d) = Some x"
    then have d: "x \<in> set (m_seats m)" "d \<in> set (st_devices (sts m x))"
      using wf_device_seat [OF assms(1), of d x] by simp_all
    have "x \<noteq> st" using d(2) assms(3) by force
    with d show "x \<in> set (m_seats ?m) \<and> d \<in> set (st_devices (sts ?m x))" using us(1) by simp
  next
    fix x d assume "x \<in> set (m_seats ?m)" "d \<in> set (st_devices (sts ?m x))"
    then show "d \<in> set (m_devices ?m) \<and> d_seat (dev ?m d) = Some x"
      using wf_seat_device [OF assms(1), of x d] us by simp
  qed (use wf_distinct(4,7) [OF assms(1)] us in simp_all)
qed

lemma wf_seat_free:
  assumes "wf m" "st \<in> set (m_seats m)" "st_in_gc_queue (sts m st)"
  shows "wf (seat_free st m)" "m_seats (seat_free st m) = remove1 st (m_seats m)"
    "set (m_sessions (seat_free st m)) = {s \<in> set (m_sessions m). s_seat (ses m s) \<noteq> Some st}"
    "m_seat_gc_queue (seat_free st m) = remove1 st (m_seat_gc_queue m)"
    "m_users (seat_free st m) = m_users m" "m_malloc (seat_free st m) = m_malloc m"
    "set (m_devices (seat_free st m)) = {d \<in> set (m_devices m). d_seat (dev m d) \<noteq> Some st}"
proof -
  define m1 where "m1 = m\<lparr>m_seat_gc_queue := remove1 st (m_seat_gc_queue m)\<rparr>"
  define m2 where "m2 = fold session_free (st_sessions (sts m1 st)) m1"
  define m3 where "m3 = assert_that (st_active (sts m2 st) = None) m2"
  define m4 where "m4 = fold device_free (st_devices (sts m3 st)) m3"
  have free: "seat_free st m = m4\<lparr>m_seats := remove1 st (m_seats m4)\<rparr>"
    using assms(3) by (simp add: seat_free_def Let_def m1_def m2_def m3_def m4_def)
  have wf1: "wf m1" unfolding m1_def by (rule wf_unqueue(1) [OF assms(1)])
  have q1: "st \<notin> set (m_seat_gc_queue m1)"
    using wfD(7) [OF assms(1)] by (auto simp: m1_def inv_queues_def set_remove1_distinct)
  have st1: "st \<in> set (m_seats m1)" using assms(2) by (simp add: m1_def)
  note ss = seats_sessions [OF wf1 st1]
  have l: "distinct (st_sessions (sts m1 st))" "set (st_sessions (sts m1 st)) \<subseteq> set (m_sessions m1)"
    using wf_distinct(8) [OF wf1 st1] ss by auto
  note f = fold_session_free [OF wf1 l, folded m2_def]
  have g2: "gc_within {} {} m1 m2" by (rule f(9))
  have wf3: "wf m3" and st3: "st \<in> set (m_seats m3)" and flag3: "st_in_gc_queue (sts m3 st)"
    using f(1,3) st1 gc_withinD(4) [OF g2, of st] assms(3) by (simp_all add: m3_def m1_def)
  have sess3: "st_sessions (sts m3 st) = []"
  proof -
    have "set (st_sessions (sts m3 st)) = {}"
      using seats_sessions [OF wf3 st3] f(2,8) ss by (auto simp: m3_def)
    then show ?thesis by simp
  qed
  have l3: "distinct (st_devices (sts m3 st))" using wf_distinct(7) [OF wf3 st3] .
  note dv = fold_device_free [OF wf3 l3 subset_refl st3 flag3, folded m4_def]
  have devs: "set (st_devices (sts m3 st)) = {d \<in> set (m_devices m3). d_seat (dev m3 d) = Some st}"
    using wf_seat_device [OF wf3 st3] wf_device_seat(2) [OF wf3] by auto
  have st4: "st \<in> set (m_seats m4)" using dv st3 by simp
  have "d \<notin> set (st_devices (sts m4 st))" for d
    using wf_seat_device [OF _ st4, of d] dv devs by auto
  then have "set (st_devices (sts m4 st)) = {}" by (simp only: set_eq_iff) blast
  then have dev4: "st_devices (sts m4 st) = []" by simp
  have sess4: "st_sessions (sts m4 st) = []" and q4: "st \<notin> set (m_seat_gc_queue m4)"
    using dv sess3 q1 gc_withinD(1) [OF g2] by (simp_all add: m3_def)
  show "wf (seat_free st m)"
    unfolding free using wf_remove_seat [OF _ sess4 dev4 q4] dv by simp
  show "m_seats (seat_free st m) = remove1 st (m_seats m)"
    "m_seat_gc_queue (seat_free st m) = remove1 st (m_seat_gc_queue m)"
    "m_users (seat_free st m) = m_users m" "m_malloc (seat_free st m) = m_malloc m"
    using dv f(3,4,6) gc_withinD(1) [OF g2] by (simp_all add: free m3_def m1_def)
  show "set (m_sessions (seat_free st m)) = {s \<in> set (m_sessions m). s_seat (ses m s) \<noteq> Some st}"
    using dv f(2) ss by (auto simp: free m3_def m1_def)
  show "set (m_devices (seat_free st m)) = {d \<in> set (m_devices m). d_seat (dev m d) \<noteq> Some st}"
    using dv devs f(5) gc_withinD(8) [OF g2] by (auto simp: free m3_def m1_def)
qed

subsection \<open>The garbage collector\<close>

text \<open>Taking the first object off a queue and clearing its flag keeps the invariant.\<close>

lemma wf_pop:
  assumes "wf m"
  shows "m_seat_gc_queue m = st # q \<Longrightarrow>
      wf (upd_seat st (st_in_gc_queue_update (\<lambda>_. False)) (m\<lparr>m_seat_gc_queue := q\<rparr>)) \<and> st \<in> set (m_seats m)"
    "m_session_gc_queue m = s # q' \<Longrightarrow>
      wf (upd_ses s (s_in_gc_queue_update (\<lambda>_. False)) (m\<lparr>m_session_gc_queue := q'\<rparr>)) \<and> s \<in> set (m_sessions m)"
    "m_user_gc_queue m = u # q'' \<Longrightarrow>
      wf (upd_user u (u_in_gc_queue_update (\<lambda>_. False)) (m\<lparr>m_user_gc_queue := q''\<rparr>)) \<and> u \<in> set (m_users m)"
proof -
  note inv = wfD [OF assms]
  let ?a = "upd_seat st (st_in_gc_queue_update (\<lambda>_. False)) (m\<lparr>m_seat_gc_queue := q\<rparr>)"
  let ?b = "upd_ses s (s_in_gc_queue_update (\<lambda>_. False)) (m\<lparr>m_session_gc_queue := q'\<rparr>)"
  let ?c = "upd_user u (u_in_gc_queue_update (\<lambda>_. False)) (m\<lparr>m_user_gc_queue := q''\<rparr>)"
  have q: "m_seat_gc_queue m = st # q \<Longrightarrow> inv_queues ?a \<and> st \<in> set (m_seats m)"
    "m_session_gc_queue m = s # q' \<Longrightarrow> inv_queues ?b \<and> s \<in> set (m_sessions m)"
    "m_user_gc_queue m = u # q'' \<Longrightarrow> inv_queues ?c \<and> u \<in> set (m_users m)"
    using inv(7) unfolding inv_queues_def by (auto simp: upd_simps)
  have rest: "inv_seats x" "inv_positions x" "inv_sessions x" "inv_users x" "inv_devices x"
    "inv_session_devices x" "inv_leaders x" if "x \<in> {?a, ?b, ?c}" for x
    using that inv inv_congs(1-6,8) [of x m] by (auto simp: upd_defs)
  show "m_seat_gc_queue m = st # q \<Longrightarrow> wf ?a \<and> st \<in> set (m_seats m)"
    "m_session_gc_queue m = s # q' \<Longrightarrow> wf ?b \<and> s \<in> set (m_sessions m)"
    "m_user_gc_queue m = u # q'' \<Longrightarrow> wf ?c \<and> u \<in> set (m_users m)"
    using q rest by (simp_all add: wf_def)
qed

lemma queue_shrinks:
  assumes "wf m'" "set (m_seat_gc_queue m') \<subseteq> set q"
  shows "length (m_seat_gc_queue m') \<le> length q"
  using assms wfD(7) [OF assms(1)] card_length [of q] card_mono [OF _ assms(2)]
  by (auto simp: inv_queues_def distinct_card [symmetric])

lemma session_queue_shrinks:
  assumes "wf m'" "set (m_session_gc_queue m') \<subseteq> set q"
  shows "length (m_session_gc_queue m') \<le> length q"
  using assms wfD(7) [OF assms(1)] card_length [of q] card_mono [OF _ assms(2)]
  by (auto simp: inv_queues_def distinct_card [symmetric])

lemma gc_seat_step:
  fixes d :: bool
  assumes "wf m" "m_seat_gc_queue m = st # q"
  defines "m' \<equiv> gc_seat d st (m\<lparr>m_seat_gc_queue := q\<rparr>)"
  shows "wf m'" "length (m_seat_gc_queue m') < length (m_seat_gc_queue m)"
proof -
  let ?m1 = "upd_seat st (st_in_gc_queue_update (\<lambda>_. False)) (m\<lparr>m_seat_gc_queue := q\<rparr>)"
  let ?m2 = "snd (seat_stop st False ?m1)"
  have m1: "wf ?m1" "st \<in> set (m_seats ?m1)" using wf_pop(1) [OF assms(1,2)] by simp_all
  have g: "keeps_graph ?m1 ?m2" by (rule graph_seat_stop [OF m1])
  have m2: "wf ?m2" "st \<in> set (m_seats ?m2)" "st_in_gc_queue (sts ?m2 st)"
    using keeps_graphD [OF g] m1 gc_seat_stop(2) by simp_all
  note free = wf_seat_free [OF m2]
  have "set (m_seat_gc_queue (seat_free st ?m2)) \<subseteq> set q"
    using free(4) gc_seat_stop(1) [of st False ?m1] wfD(7) [OF m2(1)]
    by (auto simp: inv_queues_def set_remove1_distinct)
  then have shrink: "length (m_seat_gc_queue (seat_free st ?m2)) \<le> length q"
    by (rule queue_shrinks [OF free(1)])
  have m': "m' = (if seat_may_gc st d ?m1 then seat_free st ?m2 else ?m1)"
    by (simp add: m'_def gc_seat_def Let_def)
  show "wf m'" using m1(1) free(1) by (simp add: m')
  show "length (m_seat_gc_queue m') < length (m_seat_gc_queue m)"
    using shrink assms(2) by (simp add: m' less_Suc_eq_le)
qed

lemma gc_session_step:
  fixes d :: bool
  assumes "wf m" "m_session_gc_queue m = s # q"
  defines "m' \<equiv> gc_session d s (m\<lparr>m_session_gc_queue := q\<rparr>)"
  shows "wf m'" "length (m_session_gc_queue m') < length (m_session_gc_queue m)"
    "m_seat_gc_queue m' = m_seat_gc_queue m"
proof -
  define m1 where "m1 = upd_ses s (s_in_gc_queue_update (\<lambda>_. False)) (m\<lparr>m_session_gc_queue := q\<rparr>)"
  define m2 where "m2 = (if session_may_gc s d m1 \<and> session_get_state s m1 \<noteq> SESSION_CLOSING
               then snd (session_stop s False m1) else m1)"
  define m3 where "m3 = snd (session_finalize s m2)"
  have m': "m' = (if session_may_gc s d m2 then session_free s m3 else m2)"
    by (simp add: m'_def gc_session_def Let_def m1_def m2_def m3_def)
  have m1: "wf m1" "s \<in> set (m_sessions m1)"
    using wf_pop(2) [OF assms(1,2)] by (simp_all add: m1_def)
  have g2: "keeps_graph m1 m2" "gc_within {} {} m1 m2"
    using graph_session_stop [OF keeps_graph_refl m1] gc_session_stop [OF gc_within_refl]
    by (simp_all add: m2_def)
  have m2: "wf m2" "s \<in> set (m_sessions m2)" using keeps_graphD [OF g2(1)] m1 by simp_all
  have g3: "keeps_graph m2 m3" "gc_within {s} UNIV m2 m3"
    unfolding m3_def by (rule graph_session_finalize [OF keeps_graph_refl m2])
      (rule gc_session_finalize, simp_all)
  have m3: "wf m3" "s \<in> set (m_sessions m3)" using keeps_graphD [OF g3(1)] m2 by simp_all
  note free = wf_session_free [OF m3]
  have "s \<notin> set (m_session_gc_queue (session_free s m3))"
    using wfD(7) [OF free(1)] free(2) wf_distinct(1) [OF m3(1)]
    by (auto simp: inv_queues_def set_remove1_distinct)
  moreover have "gc_within {s} UNIV m1 (session_free s m3)"
    using gc_within_trans [OF gc_within_mono [OF g2(2)] g3(2)] by (intro gc_session_free) simp
  ultimately have sub: "set (m_session_gc_queue (session_free s m3)) \<subseteq> set q"
      "m_seat_gc_queue (session_free s m3) = m_seat_gc_queue m"
    using gc_withinD(1,6) by (fastforce simp: m1_def)+
  have sub2: "set (m_session_gc_queue m2) \<subseteq> set q" "m_seat_gc_queue m2 = m_seat_gc_queue m"
    using gc_withinD(1,6) [OF g2(2)] by (auto simp: m1_def)
  show "wf m'" using m2(1) free(1) by (simp add: m')
  then show "length (m_session_gc_queue m') < length (m_session_gc_queue m)"
    using session_queue_shrinks [of m' q] sub sub2 assms(2) by (simp add: m' less_Suc_eq_le)
  show "m_seat_gc_queue m' = m_seat_gc_queue m" using sub sub2 by (simp add: m')
qed

text \<open>A user that is not stopping yet can come back to the queue once, as a stopping one.\<close>

definition gc_weight :: "user \<Rightarrow> nat" where
  "gc_weight x = (if u_stopping x then 1 else 2)"

definition gc_rank :: "manager \<Rightarrow> nat" where
  "gc_rank m = (\<Sum>u \<in> set (m_user_gc_queue m). gc_weight (usr m u))"

lemma gc_rank_less:
  assumes "m_user_gc_queue m = u # q" "distinct (u # q)"
    "\<And>x. x \<in> set q \<Longrightarrow> u_stopping (usr m' x) = u_stopping (usr m x)"
    "set (m_user_gc_queue m') \<subseteq> insert u (set q)"
    "u \<in> set (m_user_gc_queue m') \<Longrightarrow> \<not> u_stopping (usr m u) \<and> u_stopping (usr m' u)"
  shows "gc_rank m' < gc_rank m"
proof -
  let ?q = "set (m_user_gc_queue m')"
  let ?w = "\<lambda>x. if x = u then (if u \<in> ?q then 1 else 0) else gc_weight (usr m x)"
  have "gc_rank m' = (\<Sum>x \<in> ?q. ?w x)"
    unfolding gc_rank_def
  proof (rule sum.cong)
    fix x assume x: "x \<in> ?q"
    show "gc_weight (usr m' x) = ?w x"
    proof (cases "x = u")
      case True
      with x assms(5) show ?thesis by (simp add: gc_weight_def)
    next
      case False
      with x assms(4) have "x \<in> set q" by blast
      with False assms(3) show ?thesis by (simp add: gc_weight_def)
    qed
  qed simp
  also have "\<dots> \<le> (\<Sum>x \<in> insert u (set q). ?w x)"
    by (rule sum_mono2) (use assms(4) in auto)
  also have "\<dots> = ?w u + (\<Sum>x \<in> set q. gc_weight (usr m x))"
    using assms(2) by (auto intro!: sum.cong)
  also have "\<dots> < gc_weight (usr m u) + (\<Sum>x \<in> set q. gc_weight (usr m x))"
    using assms(5) by (auto simp: gc_weight_def)
  also have "\<dots> = gc_rank m" using assms(1,2) by (simp add: gc_rank_def)
  finally show ?thesis .
qed

lemma gc_user_step:
  fixes d :: bool
  assumes "wf m" "m_user_gc_queue m = u # q"
  defines "m' \<equiv> gc_user d u (m\<lparr>m_user_gc_queue := q\<rparr>)"
  shows "wf m'" "gc_rank m' < gc_rank m" "m_seat_gc_queue m' = m_seat_gc_queue m"
    "set (m_session_gc_queue m') \<subseteq> set (m_session_gc_queue m)"
proof -
  define m1 where "m1 = upd_user u (u_in_gc_queue_update (\<lambda>_. False)) (m\<lparr>m_user_gc_queue := q\<rparr>)"
  define m2 where "m2 = (if user_may_gc u d m1 then snd (user_stop u False m1) else m1)"
  define m3 where "m3 = snd (user_finalize u m2)"
  have m': "m' = (if user_may_gc u d m2 then user_free u m3 else m2)"
    by (simp add: m'_def gc_user_def Let_def m1_def m2_def m3_def)
  have m1: "wf m1" "u \<in> set (m_users m1)" using wf_pop(3) [OF assms(1,2)] by (simp_all add: m1_def)
  have eq1: "u_stopping (usr m1 x) = u_stopping (usr m x)" "m_seat_gc_queue m1 = m_seat_gc_queue m"
    "m_session_gc_queue m1 = m_session_gc_queue m" "m_user_gc_queue m1 = q" for x
    by (simp_all add: m1_def upd_simps)
  have g2: "keeps_graph m1 m2" using graph_user_stop [OF m1] by (simp add: m2_def)
  have m2: "wf m2" "u \<in> set (m_users m2)" using keeps_graphD [OF g2] m1 by simp_all
  have q2: "m_seat_gc_queue m2 = m_seat_gc_queue m"
    "set (m_session_gc_queue m2) \<subseteq> set (m_session_gc_queue m)"
    "set (m_user_gc_queue m2) \<subseteq> insert u (set q)"
    "u \<in> set (m_user_gc_queue m2) \<Longrightarrow> u \<notin> set q \<Longrightarrow> \<not> u_stopping (usr m u) \<and> u_stopping (usr m2 u)"
    "x \<noteq> u \<Longrightarrow> u_stopping (usr m2 x) = u_stopping (usr m x)" for x
    using gc_user_stop [of u False m1] by (auto simp: m2_def eq1 split: if_splits)
  have dist: "distinct (u # q)" using wfD(7) [OF assms(1)] assms(2) by (simp add: inv_queues_def)
  have g3: "keeps_graph m2 m3" unfolding m3_def by (rule graph_user_finalize [OF m2])
  have m3: "wf m3" "u \<in> set (m_users m3)" using keeps_graphD [OF g3] m2 by simp_all
  note fin = gc_user_finalize [OF m2, folded m3_def]
  note free = wf_user_free [OF m3]
  note within = gc_withinD [OF free(9)]
  have "u \<notin> set (m_user_gc_queue (user_free u m3))"
    using wfD(7) [OF free(1)] free(2) wf_distinct(3) [OF m3(1)]
    by (auto simp: inv_queues_def set_remove1_distinct)
  then have users: "set (m_user_gc_queue (user_free u m3)) \<subseteq> set q"
    using within(7) fin(3) q2(3) by blast
  have sess: "set (m_session_gc_queue (user_free u m3)) \<subseteq> set (m_session_gc_queue m)"
  proof
    fix s assume s: "s \<in> set (m_session_gc_queue (user_free u m3))"
    then have "s \<in> set (m_sessions (user_free u m3))" using wfD(7) [OF free(1)] by (auto simp: inv_queues_def)
    then have "s_user (ses m2 s) \<noteq> Some u" using free(3) keeps_graphD(7) [OF g3] by auto
    then have "s \<notin> set (u_sessions (usr m2 u))" using users_sessions [OF m2] by blast
    with s within(6) fin(2) q2(2) show "s \<in> set (m_session_gc_queue m)" by blast
  qed
  have stop: "u_stopping (usr (user_free u m3) x) = u_stopping (usr m x)" if "x \<in> set q" for x
    using that dist within(2) fin(4) q2(5) by force
  show "wf m'" using m2(1) free(1) by (simp add: m')
  show "m_seat_gc_queue m' = m_seat_gc_queue m" using within(1) fin(1) q2(1) by (simp add: m')
  show "set (m_session_gc_queue m') \<subseteq> set (m_session_gc_queue m)" using sess q2(2) by (simp add: m')
  have "gc_rank (user_free u m3) < gc_rank m"
    by (rule gc_rank_less [OF assms(2) dist]) (use stop users dist in auto)
  moreover have "gc_rank m2 < gc_rank m"
  proof (rule gc_rank_less [OF assms(2) dist])
    show "u_stopping (usr m2 x) = u_stopping (usr m x)" if "x \<in> set q" for x
      using q2(5) [of x] that dist by auto
  qed (use q2(3,4) dist in auto)
  ultimately show "gc_rank m' < gc_rank m" by (simp add: m')
qed

text \<open>The three loops end, with the invariant and an empty queue.\<close>

lemma gc_seats_ends:
  "wf m \<Longrightarrow> \<exists>m'. gc_seats d m = Some m' \<and> wf m' \<and> m_seat_gc_queue m' = []"
proof (induction "length (m_seat_gc_queue m)" arbitrary: m rule: less_induct)
  case less
  show ?case
  proof (cases "m_seat_gc_queue m")
    case Nil
    then show ?thesis using less.prems by (subst gc_seats.simps) simp
  next
    case (Cons st q)
    from less.hyps [OF gc_seat_step(2) [OF less.prems Cons] gc_seat_step(1) [OF less.prems Cons]]
    show ?thesis by (subst gc_seats.simps) (simp add: Cons)
  qed
qed

lemma gc_sessions_ends:
  "wf m \<Longrightarrow> \<exists>m'. gc_sessions d m = Some m' \<and> wf m' \<and> m_session_gc_queue m' = [] \<and>
     m_seat_gc_queue m' = m_seat_gc_queue m"
proof (induction "length (m_session_gc_queue m)" arbitrary: m rule: less_induct)
  case less
  show ?case
  proof (cases "m_session_gc_queue m")
    case Nil
    then show ?thesis using less.prems by (subst gc_sessions.simps) simp
  next
    case (Cons s q)
    note step = gc_session_step [OF less.prems Cons, of d]
    from less.hyps [OF step(2,1)] step(3)
    show ?thesis by (subst gc_sessions.simps) (simp add: Cons)
  qed
qed

lemma gc_users_ends:
  "wf m \<Longrightarrow> \<exists>m'. gc_users d m = Some m' \<and> wf m' \<and> m_user_gc_queue m' = [] \<and>
     m_seat_gc_queue m' = m_seat_gc_queue m \<and> set (m_session_gc_queue m') \<subseteq> set (m_session_gc_queue m)"
proof (induction "gc_rank m" arbitrary: m rule: less_induct)
  case less
  show ?case
  proof (cases "m_user_gc_queue m")
    case Nil
    then show ?thesis using less.prems by (subst gc_users.simps) simp
  next
    case (Cons u q)
    note step = gc_user_step [OF less.prems Cons, of d]
    from less.hyps [OF step(2,1)] step(3,4)
    show ?thesis by (subst gc_users.simps) (auto simp: Cons)
  qed
qed

lemma manager_gc_ends:
  assumes "wf m"
  shows "\<exists>m'. manager_gc d m = Some m' \<and> wf m' \<and> m_seat_gc_queue m' = [] \<and>
    m_session_gc_queue m' = [] \<and> m_user_gc_queue m' = []"
proof -
  obtain m1 where m1: "gc_seats d m = Some m1" "wf m1" "m_seat_gc_queue m1 = []"
    using gc_seats_ends [OF assms] by blast
  obtain m2 where m2: "gc_sessions d m1 = Some m2" "wf m2" "m_session_gc_queue m2 = []"
      "m_seat_gc_queue m2 = []"
    using gc_sessions_ends [OF m1(2), of d] m1(3) by auto
  obtain m3 where "gc_users d m2 = Some m3" "wf m3" "m_user_gc_queue m3 = []"
      "m_seat_gc_queue m3 = []" "m_session_gc_queue m3 = []"
    using gc_users_ends [OF m2(2), of d] m2(3,4) by auto
  then show ?thesis using m1(1) m2(1) by (auto simp: manager_gc_def)
qed

end
