(* ===== verification/Inhibit.thy ===== *)
theory Inhibit
  imports Lifecycle_Inv Extract_Word
begin

text \<open>
  \<^verbatim>\<open>logind-inhibit.c\<close>: the locks with which programs block or delay shutdown, sleep, idling and
  the handling of keys; \<^verbatim>\<open>pidref.c\<close>: making a process reference from a PID.
\<close>

unbundle bit_operations_syntax

subsection \<open>Process references\<close>

definition ERRNO_IS_NEG_RESOURCE :: "int \<Rightarrow> bool" where
  "ERRNO_IS_NEG_RESOURCE r \<longleftrightarrow> r \<in> {- 24, - 23, - 12}"

definition ERRNO_IS_NEG_NOT_SUPPORTED :: "int \<Rightarrow> bool" where
  "ERRNO_IS_NEG_NOT_SUPPORTED r \<longleftrightarrow> r \<in> {- 95, - 25, - 38, - 97, - 96, - 93, - 94, - 92}"

definition ERRNO_IS_NEG_PRIVILEGE :: "int \<Rightarrow> bool" where
  "ERRNO_IS_NEG_PRIVILEGE r \<longleftrightarrow> r \<in> {- 13, - 1}"

text \<open>The PIDs handed in here are positive. The inode number of the pidfd is looked up when it is first
  needed; here it is part of the reference.\<close>

definition pidref_set_pid :: "pidref \<Rightarrow> pid \<Rightarrow> manager \<Rightarrow> int \<times> pidref \<times> manager" where
  "pidref_set_pid old p m =
     (case sys (Sys_pidfd_open p) m of (fd, m) \<Rightarrow>
        if fd < 0 \<and> \<not> ERRNO_IS_NEG_NOT_SUPPORTED fd \<and> \<not> ERRNO_IS_NEG_PRIVILEGE fd \<and>
           \<not> ERRNO_IS_NEG_RESOURCE fd
        then (fd, old, m)
        else let i = ask (Ask_pidfd_id fd) m
             in (0, \<lparr>pid_pid = p, pid_fd = (if fd < 0 then - EBADF else fd),
                     pid_fd_id = (if fd < 0 \<or> i < 0 then None else Some (nat i))\<rparr>, m))"

definition pidref_set_pidstr :: "pidref \<Rightarrow> string \<Rightarrow> manager \<Rightarrow> int \<times> pidref \<times> manager" where
  "pidref_set_pidstr old s m =
     (case parse_pid s of Inl r \<Rightarrow> (r, old, m) | Inr p \<Rightarrow> pidref_set_pid old p m)"

subsection \<open>Sets of locks\<close>

abbreviation INHIBIT_SHUTDOWN :: int where "INHIBIT_SHUTDOWN \<equiv> 1"
abbreviation INHIBIT_SLEEP :: int where "INHIBIT_SLEEP \<equiv> 2"
abbreviation INHIBIT_IDLE :: int where "INHIBIT_IDLE \<equiv> 4"
abbreviation INHIBIT_HANDLE_POWER_KEY :: int where "INHIBIT_HANDLE_POWER_KEY \<equiv> 8"
abbreviation INHIBIT_HANDLE_SUSPEND_KEY :: int where "INHIBIT_HANDLE_SUSPEND_KEY \<equiv> 16"
abbreviation INHIBIT_HANDLE_HIBERNATE_KEY :: int where "INHIBIT_HANDLE_HIBERNATE_KEY \<equiv> 32"
abbreviation INHIBIT_HANDLE_LID_SWITCH :: int where "INHIBIT_HANDLE_LID_SWITCH \<equiv> 64"
abbreviation INHIBIT_HANDLE_REBOOT_KEY :: int where "INHIBIT_HANDLE_REBOOT_KEY \<equiv> 128"
abbreviation INHIBIT_WHAT_MAX :: int where "INHIBIT_WHAT_MAX \<equiv> 256"
abbreviation INHIBIT_WHAT_INVALID :: int where "INHIBIT_WHAT_INVALID \<equiv> - 22"

definition inhibit_what_is_valid :: "int \<Rightarrow> bool" where
  "inhibit_what_is_valid w \<longleftrightarrow> 0 < w \<and> w < INHIBIT_WHAT_MAX"

definition inhibit_what_names :: "(int \<times> string) list" where
  "inhibit_what_names =
    [(INHIBIT_SHUTDOWN, ''shutdown''), (INHIBIT_SLEEP, ''sleep''), (INHIBIT_IDLE, ''idle''),
     (INHIBIT_HANDLE_POWER_KEY, ''handle-power-key''),
     (INHIBIT_HANDLE_SUSPEND_KEY, ''handle-suspend-key''),
     (INHIBIT_HANDLE_HIBERNATE_KEY, ''handle-hibernate-key''),
     (INHIBIT_HANDLE_LID_SWITCH, ''handle-lid-switch''),
     (INHIBIT_HANDLE_REBOOT_KEY, ''handle-reboot-key'')]"

text \<open>What the \<^verbatim>\<open>stpcpy\<close> calls put into the buffer, each name with a colon; then the last colon is
  overwritten with NUL.\<close>

definition inhibit_what_buffer :: "int \<Rightarrow> string" where
  "inhibit_what_buffer w =
     concat (map (\<lambda>(b, name). if w AND b \<noteq> 0 then name @ '':'' else []) inhibit_what_names)"

definition inhibit_what_to_string :: "int \<Rightarrow> string option" where
  "inhibit_what_to_string w =
     (if \<not> inhibit_what_is_valid w then None else Some (butlast (inhibit_what_buffer w)))"

text \<open>The size of the buffer, and the bytes written to it: the text and a NUL.\<close>

definition inhibit_what_buffer_size :: nat where
  "inhibit_what_buffer_size =
     length ''shutdown:sleep:idle:handle-power-key:handle-suspend-key:handle-hibernate-key:handle-lid-switch:handle-reboot-key'' + 1"

definition inhibit_what_bytes_written :: "int \<Rightarrow> nat" where
  "inhibit_what_bytes_written w = length (inhibit_what_buffer w) + 1"

function inhibit_what_loop :: "string option \<Rightarrow> int \<Rightarrow> int" where
  "inhibit_what_loop p what =
     (case extract_first_word p (Some '':'') {EXTRACT_DONT_COALESCE_SEPARATORS} of (r, word, p') \<Rightarrow>
        if r < 0 then r
        else if r = 0 then what
        else case find (\<lambda>x. snd x = the word) inhibit_what_names of
               None \<Rightarrow> INHIBIT_WHAT_INVALID
             | Some (b, _) \<Rightarrow> inhibit_what_loop p' (what OR b))"
  by pat_completeness auto
termination
  by (relation "measure (\<lambda>(p, _). rest_len p)")
    (auto dest: extract_first_word_progress [OF sym])

declare inhibit_what_loop.simps [simp del]

definition inhibit_what_from_string :: "string \<Rightarrow> int" where
  "inhibit_what_from_string s = inhibit_what_loop (Some s) 0"

subsection \<open>Inhibitors\<close>

definition UID_INVALID :: uid where
  "UID_INVALID = 2 ^ 32 - 1"

definition new_inhibitor :: inhibitor where
  "new_inhibitor = \<lparr>i_event_source = False, i_started = False, i_what = INHIBIT_WHAT_INVALID,
     i_who = None, i_why = None, i_mode = None, i_pid = PIDREF_NULL, i_uid = UID_INVALID,
     i_since = DUAL_TIMESTAMP_NULL, i_fifo_path = None, i_fifo_fd = - EBADF\<rparr>"

text \<open>As with seats and sessions, the clean-up after a name clash removes the other's entry.\<close>

definition inhibitor_new :: "string \<Rightarrow> manager \<Rightarrow> int \<times> manager" where
  "inhibitor_new name m =
     (if name \<in> set (m_inhibitors m) then (- EEXIST, m\<lparr>m_inhibitors := remove1 name (m_inhibitors m)\<rparr>)
      else (0, (upd_inh name (\<lambda>_. new_inhibitor) m)\<lparr>m_inhibitors := name # m_inhibitors m\<rparr>))"

definition inhibitor_free :: "string \<Rightarrow> manager \<Rightarrow> manager" where
  "inhibitor_free i m =
     (let m = safe_close (i_fifo_fd (inh m i)) m;
          m = m\<lparr>m_inhibitors := remove1 i (m_inhibitors m)\<rparr>
      in safe_close (pid_fd (i_pid (inh m i))) m)"

definition inhibitor_contents :: "inhibitor \<Rightarrow> string" where
  "inhibitor_contents x =
     private_data @
     line ''WHAT'' (case inhibit_what_to_string (i_what x) of None \<Rightarrow> ''(null)'' | Some s \<Rightarrow> s) @
     line ''MODE'' (case i_mode x of None \<Rightarrow> ''(null)'' | Some mode \<Rightarrow> inhibit_mode_to_string mode) @
     line ''UID'' (dec (i_uid x)) @
     line ''PID'' (dec (pid_pid (i_pid x))) @
     opt_line ''WHO'' (map_option cescape (i_who x)) @
     opt_line ''WHY'' (map_option cescape (i_why x)) @
     opt_line ''FIFO'' (i_fifo_path x)"

definition inhibitor_save :: "string \<Rightarrow> manager \<Rightarrow> int \<times> manager" where
  "inhibitor_save i m =
     save_file ''/run/systemd/inhibit'' (inhibitor_state_file i) True (inhibitor_contents (inh m i)) m"

definition bus_manager_send_inhibited_change :: "string \<Rightarrow> manager \<Rightarrow> manager" where
  "bus_manager_send_inhibited_change i m =
     manager_send_changed
       [if i_mode (inh m i) \<in> {Some INHIBIT_BLOCK, Some INHIBIT_BLOCK_WEAK} then ''BlockInhibited''
        else ''DelayInhibited''] m"

definition inhibitor_start :: "string \<Rightarrow> manager \<Rightarrow> manager" where
  "inhibitor_start i m =
     (if i_started (inh m i) then m
      else
      let m = upd_inh i (\<lambda>x. x\<lparr>i_since := dual_timestamp_now m, i_started := True\<rparr>) m;
          m = snd (inhibitor_save i m)
      in bus_manager_send_inhibited_change i m)"

definition inhibitor_remove_fifo :: "string \<Rightarrow> manager \<Rightarrow> manager" where
  "inhibitor_remove_fifo i m =
     (let current_fifo_fd = i_fifo_fd (inh m i);
          m = safe_close current_fifo_fd m;
          m = upd_inh i (\<lambda>x. x\<lparr>i_event_source := False, i_fifo_fd := - EBADF\<rparr>) m
      in case i_fifo_path (inh m i) of
           None \<Rightarrow> m
         | Some p \<Rightarrow>
             if m_do_interrupt m \<and> current_fifo_fd \<ge> 0 then m
             else upd_inh i (i_fifo_path_update (\<lambda>_. None)) (emit (Sys_unlink p) m))"

definition inhibitor_stop :: "string \<Rightarrow> manager \<Rightarrow> manager" where
  "inhibitor_stop i m =
     (let m = inhibitor_remove_fifo i m;
          m = emit (Sys_unlink (inhibitor_state_file i)) m;
          m = upd_inh i (i_started_update (\<lambda>_. False)) m
      in bus_manager_send_inhibited_change i m)"

definition inhibitor_dispatch_fifo :: "string \<Rightarrow> manager \<Rightarrow> manager" where
  "inhibitor_dispatch_fifo i m = inhibitor_free i (inhibitor_stop i m)"

text \<open>The FIFO, as for sessions: the file, the reading side, the watch, the writing side.\<close>

definition inhibitor_fifo_make :: "string \<Rightarrow> manager \<Rightarrow> int \<times> manager" where
  "inhibitor_fifo_make i m =
     (if i_fifo_path (inh m i) \<noteq> None then (0, m)
      else case sys (Sys_mkdir ''/run/systemd/inhibit'') m of (r, m) \<Rightarrow>
        if r < 0 then (r, m)
        else
        let path = ''/run/systemd/inhibit/'' @ i @ ''.ref''
        in case sys (Sys_mkfifo path) (upd_inh i (i_fifo_path_update (\<lambda>_. Some path)) m) of (r, m) \<Rightarrow>
             if r < 0 \<and> r \<noteq> - EEXIST then (r, m) else (0, m))"

definition inhibitor_fifo_open :: "string \<Rightarrow> string \<Rightarrow> manager \<Rightarrow> int \<times> manager" where
  "inhibitor_fifo_open i path m =
     (if i_fifo_fd (inh m i) \<ge> 0 then (0, m)
      else case sys (Sys_open_read path) m of (fd, m) \<Rightarrow>
        if fd < 0 then (fd, upd_inh i (i_fifo_fd_update (\<lambda>_. - 1)) m)
        else (0, upd_inh i (i_fifo_fd_update (\<lambda>_. fd)) m))"

definition inhibitor_fifo_watch :: "string \<Rightarrow> manager \<Rightarrow> int \<times> manager" where
  "inhibitor_fifo_watch i m =
     (if i_event_source (inh m i) then (0, m)
      else case sys (Sys_add_io ''inhibitor-ref'') m of (r, m) \<Rightarrow>
        if r < 0 then (r, m)
        else sys (Sys_event_source ''inhibitor-ref'') (upd_inh i (i_event_source_update (\<lambda>_. True)) m))"

definition inhibitor_create_fifo :: "string \<Rightarrow> manager \<Rightarrow> int \<times> manager" where
  "inhibitor_create_fifo i m =
     (case inhibitor_fifo_make i m of (r, m) \<Rightarrow> if r < 0 then (r, m) else
      let path = (case i_fifo_path (inh m i) of None \<Rightarrow> [] | Some p \<Rightarrow> p)
      in case inhibitor_fifo_open i path m of (r, m) \<Rightarrow> if r < 0 then (r, m) else
         case inhibitor_fifo_watch i m of (r, m) \<Rightarrow> if r < 0 then (r, m) else
         sys (Sys_open_write path) m)"

text \<open>Loading: the variables as they are read, who and why unescaped, the FIFO made again.\<close>

definition inhibitor_load_vars :: "env_vars \<Rightarrow> inhibitor \<Rightarrow> inhibitor" where
  "inhibitor_load_vars vars x =
     (let w = (case vars ''WHAT'' of None \<Rightarrow> 0 | Some s \<Rightarrow> inhibit_what_from_string s);
          mm = (case vars ''MODE'' of None \<Rightarrow> Some INHIBIT_BLOCK
                | Some s \<Rightarrow> inhibit_mode_from_string (Some s))
      in x\<lparr>i_what := (if w \<ge> 0 then w else i_what x),
           i_mode := (case mm of None \<Rightarrow> i_mode x | Some k \<Rightarrow> Some k),
           i_uid := (case vars ''UID'' of None \<Rightarrow> i_uid x
                     | Some s \<Rightarrow> (case parse_uid s of Inl _ \<Rightarrow> i_uid x | Inr u \<Rightarrow> u)),
           i_fifo_path := vars ''FIFO''\<rparr>)"

definition inhibitor_load_pid :: "string \<Rightarrow> string option \<Rightarrow> manager \<Rightarrow> manager" where
  "inhibitor_load_pid i p m =
     (case p of
        None \<Rightarrow> m
      | Some s \<Rightarrow>
          let m = upd_inh i (i_pid_update (\<lambda>_. PIDREF_NULL)) (safe_close (pid_fd (i_pid (inh m i))) m)
          in case pidref_set_pidstr PIDREF_NULL s m of (_, q, m) \<Rightarrow> upd_inh i (i_pid_update (\<lambda>_. q)) m)"

definition inhibitor_load_fifo :: "string \<Rightarrow> manager \<Rightarrow> int \<times> manager" where
  "inhibitor_load_fifo i m =
     (case i_fifo_path (inh m i) of
        None \<Rightarrow> (0, m)
      | Some p \<Rightarrow>
          (case sys (Sys_mkfifo p) m of (r, m) \<Rightarrow>
           let m = (if r < 0 \<and> r \<noteq> - EEXIST then upd_inh i (i_fifo_path_update (\<lambda>_. None)) m else m)
           in case inhibitor_create_fifo i m of (fd, m) \<Rightarrow>
                if fd < 0 then (fd, m) else (0, safe_close fd m)))"

text \<open>A name that cannot be unescaped ends the loading.\<close>

definition inhibitor_load_strings :: "string \<Rightarrow> env_vars \<Rightarrow> manager \<Rightarrow> int \<times> manager" where
  "inhibitor_load_strings i vars m =
     (let unescaped = (\<lambda>k. case vars k of None \<Rightarrow> Some None | Some s \<Rightarrow> map_option Some (cunescape s))
      in case unescaped ''WHO'' of
           None \<Rightarrow> (- EINVAL, m)
         | Some who \<Rightarrow>
             let m = (if who = None then m else upd_inh i (i_who_update (\<lambda>_. who)) m)
             in case unescaped ''WHY'' of
                  None \<Rightarrow> (- EINVAL, m)
                | Some why \<Rightarrow>
                    let m = (if why = None then m else upd_inh i (i_why_update (\<lambda>_. why)) m)
                    in inhibitor_load_fifo i m)"

definition inhibitor_load :: "string \<Rightarrow> manager \<Rightarrow> int \<times> manager" where
  "inhibitor_load i m =
     (case m_files m (inhibitor_state_file i) of
        Inl r \<Rightarrow> (r, m)
      | Inr contents \<Rightarrow>
          (case parse_env_file [''WHAT'', ''UID'', ''PID'', ''WHO'', ''WHY'', ''MODE'', ''FIFO'']
                  contents (\<lambda>k. if k = ''FIFO'' then i_fifo_path (inh m i) else None) of
             Inl (r, vars) \<Rightarrow> (r, upd_inh i (i_fifo_path_update (\<lambda>_. vars ''FIFO'')) m)
           | Inr vars \<Rightarrow>
               let m = upd_inh i (inhibitor_load_vars vars) m;
                   m = inhibitor_load_pid i (vars ''PID'') m
               in inhibitor_load_strings i vars m))"

definition inhibitor_is_orphan :: "string \<Rightarrow> manager \<Rightarrow> bool" where
  "inhibitor_is_orphan i m \<longleftrightarrow>
     (if \<not> i_started (inh m i) then True
      else if i_fifo_path (inh m i) = None then True
      else if i_fifo_fd (inh m i) < 0 then True
      else ask (Ask_pipe_eof (i_fifo_fd (inh m i))) m \<noteq> 0)"

subsection \<open>Who inhibits what\<close>

definition manager_inhibit_what :: "InhibitMode \<Rightarrow> manager \<Rightarrow> int" where
  "manager_inhibit_what mode m =
     foldl (\<lambda>what i. if i_started (inh m i) \<and> i_mode (inh m i) = Some mode then what OR i_what (inh m i)
                     else what) 0 (m_inhibitors m)"

definition pidref_is_active_session :: "manager \<Rightarrow> pidref \<Rightarrow> int" where
  "pidref_is_active_session m p =
     (case manager_get_session_by_pidref m p of
        (r, s) \<Rightarrow> if r < 0 then r
                  else case s of None \<Rightarrow> 1 | Some x \<Rightarrow> of_bool (session_is_active x m))"

fun mode_rank :: "InhibitMode \<Rightarrow> nat" where
  "mode_rank INHIBIT_BLOCK = 0"
| "mode_rank INHIBIT_BLOCK_WEAK = 1"
| "mode_rank INHIBIT_DELAY = 2"

text \<open>The conditions under which the loop passes an inhibitor over.\<close>

definition inhibitor_counts ::
  "manager \<Rightarrow> int \<Rightarrow> bool \<Rightarrow> bool \<Rightarrow> bool \<Rightarrow> uid \<Rightarrow> string \<Rightarrow> bool" where
  "inhibitor_counts m w block ignore_inactive ignore_uid uid i \<longleftrightarrow>
     (let x = inh m i
      in if \<not> i_started x then False
         else if i_what x AND w = 0 then False
         else if block \<and> i_mode x \<notin> {Some INHIBIT_BLOCK, Some INHIBIT_BLOCK_WEAK} \<or>
                 \<not> block \<and> i_mode x \<noteq> Some INHIBIT_DELAY then False
         else if ignore_inactive \<and> pidref_is_active_session m (i_pid x) \<le> 0 then False
         else if i_mode x = Some INHIBIT_BLOCK_WEAK \<and> ignore_uid \<and> i_uid x = uid then False
         else True)"

definition inhibit_step :: "manager \<Rightarrow> (bool \<times> dual_timestamp \<times> string option) \<Rightarrow> string \<Rightarrow>
  bool \<times> dual_timestamp \<times> string option" where
  "inhibit_step m acc i =
     (case acc of (inhibited, ts, offending) \<Rightarrow>
        (True,
         if \<not> inhibited \<or> ts_monotonic (i_since (inh m i)) < ts_monotonic ts then i_since (inh m i) else ts,
         case offending of
           None \<Rightarrow> Some i
         | Some o' \<Rightarrow>
             if mode_rank (the (i_mode (inh m i))) < mode_rank (the (i_mode (inh m o'))) then Some i
             else offending))"

text \<open>Whether the locks \<open>w\<close> are taken, since when, and by whom. The callers hand in a valid \<open>w\<close>, which the
  function asserts; the assertion is recorded where it is called.\<close>

definition manager_is_inhibited ::
  "int \<Rightarrow> bool \<Rightarrow> bool \<Rightarrow> bool \<Rightarrow> uid \<Rightarrow> manager \<Rightarrow> bool \<times> dual_timestamp \<times> string option" where
  "manager_is_inhibited w block ignore_inactive ignore_uid uid m =
     foldl (\<lambda>acc i. if inhibitor_counts m w block ignore_inactive ignore_uid uid i
                    then inhibit_step m acc i else acc)
       (False, DUAL_TIMESTAMP_NULL, None) (m_inhibitors m)"

subsection \<open>What the locks mean\<close>

text \<open>The loop over the inhibitors computes what one expects: somebody counts; the earliest time; a
  strongest one.\<close>

lemma inhibit_step_simps:
  "inhibit_step m (False, ts, None) i = (True, i_since (inh m i), Some i)"
  "inhibit_step m (True, ts, Some j) i =
     (True, if ts_monotonic (i_since (inh m i)) < ts_monotonic ts then i_since (inh m i) else ts,
      Some (if mode_rank (the (i_mode (inh m i))) < mode_rank (the (i_mode (inh m j))) then i else j))"
  by (simp_all add: inhibit_step_def)

lemma inhibit_loop:
  fixes m :: manager and l :: "string list"
  defines "res \<equiv> foldl (inhibit_step m) (False, DUAL_TIMESTAMP_NULL, None) l"
  shows "(l = [] \<and> res = (False, DUAL_TIMESTAMP_NULL, None)) \<or>
    (\<exists>i o'. i \<in> set l \<and> o' \<in> set l \<and> res = (True, i_since (inh m i), Some o') \<and>
       (\<forall>x \<in> set l. ts_monotonic (i_since (inh m i)) \<le> ts_monotonic (i_since (inh m x))) \<and>
       (\<forall>x \<in> set l. mode_rank (the (i_mode (inh m o'))) \<le> mode_rank (the (i_mode (inh m x)))))"
  unfolding res_def
proof (induction l rule: rev_induct)
  case (snoc j l)
  let ?res = "foldl (inhibit_step m) (False, DUAL_TIMESTAMP_NULL, None) l"
  from snoc show ?case
  proof (elim disjE exE conjE)
    assume "l = []"
    then show ?thesis by (simp add: inhibit_step_simps)
  next
    fix i o'
    assume i: "i \<in> set l" "o' \<in> set l" "?res = (True, i_since (inh m i), Some o')"
      "\<forall>x \<in> set l. ts_monotonic (i_since (inh m i)) \<le> ts_monotonic (i_since (inh m x))"
      "\<forall>x \<in> set l. mode_rank (the (i_mode (inh m o'))) \<le> mode_rank (the (i_mode (inh m x)))"
    let ?i = "if ts_monotonic (i_since (inh m j)) < ts_monotonic (i_since (inh m i)) then j else i"
    let ?o = "if mode_rank (the (i_mode (inh m j))) < mode_rank (the (i_mode (inh m o'))) then j else o'"
    show ?thesis
      by (rule disjI2, rule exI [of _ ?i], rule exI [of _ ?o])
        (use i in \<open>auto simp: inhibit_step_simps not_less intro: order_trans less_imp_le\<close>)
  qed
qed simp

lemma foldl_filter: "foldl (\<lambda>acc i. if P i then f acc i else acc) a l = foldl f a (filter P l)"
  by (induction l arbitrary: a) simp_all

definition inhibitors_counting :: "int \<Rightarrow> bool \<Rightarrow> bool \<Rightarrow> bool \<Rightarrow> uid \<Rightarrow> manager \<Rightarrow> string list" where
  "inhibitors_counting w block ignore_inactive ignore_uid uid m =
     filter (inhibitor_counts m w block ignore_inactive ignore_uid uid) (m_inhibitors m)"

lemma manager_is_inhibited_spec:
  fixes m :: manager
  assumes "C = set (inhibitors_counting w block ignore_inactive ignore_uid uid m)"
  shows "(C = {} \<and> manager_is_inhibited w block ignore_inactive ignore_uid uid m =
           (False, DUAL_TIMESTAMP_NULL, None)) \<or>
    (\<exists>i \<in> C. \<exists>o' \<in> C. manager_is_inhibited w block ignore_inactive ignore_uid uid m =
         (True, i_since (inh m i), Some o') \<and>
       (\<forall>x \<in> C. ts_monotonic (i_since (inh m i)) \<le> ts_monotonic (i_since (inh m x))) \<and>
       (\<forall>x \<in> C. mode_rank (the (i_mode (inh m o'))) \<le> mode_rank (the (i_mode (inh m x)))))"
  using inhibit_loop [of "inhibitors_counting w block ignore_inactive ignore_uid uid m" m] assms
  unfolding manager_is_inhibited_def foldl_filter inhibitors_counting_def [symmetric] by auto

lemma manager_is_inhibited_iff:
  "fst (manager_is_inhibited w block ii iu uid m) \<longleftrightarrow>
     (\<exists>i \<in> set (m_inhibitors m). inhibitor_counts m w block ii iu uid i)"
  using manager_is_inhibited_spec [OF refl, of w block ii iu uid m]
  by (auto simp: inhibitors_counting_def)

subsection \<open>The names of the locks\<close>

text \<open>The buffer holds the words of the set, joined with colons, which the splitter takes apart again.\<close>

fun join_colon :: "string list \<Rightarrow> string" where
  "join_colon [] = []"
| "join_colon [w] = w"
| "join_colon (w # ws) = w @ '':'' @ join_colon ws"

definition inhibit_words :: "int \<Rightarrow> string list" where
  "inhibit_words w = map snd (filter (\<lambda>(b, _). w AND b \<noteq> 0) inhibit_what_names)"

text \<open>The bit of a name.\<close>

definition inhibit_bit :: "string \<Rightarrow> int" where
  "inhibit_bit s = (case find (\<lambda>x. snd x = s) inhibit_what_names of None \<Rightarrow> 0 | Some (b, _) \<Rightarrow> b)"

lemma names_known:
  assumes "s \<in> snd ` set inhibit_what_names"
  shows "find (\<lambda>x. snd x = s) inhibit_what_names = Some (inhibit_bit s, s)" "plain_word '':'' s"
  using assms by (auto simp: inhibit_what_names_def inhibit_bit_def plain_word_def)

lemma inhibit_loop_words:
  "ws \<noteq> [] \<Longrightarrow> set ws \<subseteq> snd ` set inhibit_what_names \<Longrightarrow>
   inhibit_what_loop (Some (join_colon ws)) w = foldl (\<lambda>w s. w OR inhibit_bit s) w ws"
proof (induction ws arbitrary: w rule: join_colon.induct)
  case (2 s)
  then have k: "s \<in> snd ` set inhibit_what_names" by simp
  have e: "extract_first_word None (Some '':'') {EXTRACT_DONT_COALESCE_SEPARATORS} = (0, None, None)"
    by (simp add: extract_first_word_def)
  show ?case
    by (subst inhibit_what_loop.simps)
      (simp add: extract_first_word_plain_last names_known [OF k] inhibit_what_loop.simps [of None] e)
next
  case (3 s s' ws)
  then have k: "s \<in> snd ` set inhibit_what_names" by simp
  have "inhibit_what_loop (Some (join_colon (s' # ws))) (w OR inhibit_bit s) =
    foldl (\<lambda>w s. w OR inhibit_bit s) (w OR inhibit_bit s) (s' # ws)"
    using 3 by (intro "3.IH") simp_all
  then show ?case
    by (subst inhibit_what_loop.simps)
      (simp add: extract_first_word_plain [OF names_known(2) [OF k]] names_known [OF k] extract_at_separator_def)
qed simp

lemma butlast_concat:
  "butlast (concat (map (\<lambda>s. s @ '':'') ws)) = join_colon ws"
  by (induction ws rule: join_colon.induct) (simp_all add: butlast_append)

lemma inhibit_buffer_words: "inhibit_what_buffer w = concat (map (\<lambda>s. s @ '':'') (inhibit_words w))"
  by (simp add: inhibit_what_buffer_def inhibit_words_def inhibit_what_names_def)

lemma inhibit_words_bits: "\<forall>w \<in> set [1..255]. inhibit_words w \<noteq> [] \<and> foldl (\<lambda>w s. w OR inhibit_bit s) 0 (inhibit_words w) = w"
  by code_simp

lemma inhibit_what_roundtrip:
  assumes "inhibit_what_to_string w = Some s"
  shows "inhibit_what_from_string s = w"
proof -
  have w: "0 < w" "w < 256" and s: "s = join_colon (inhibit_words w)"
    using assms by (auto simp: inhibit_what_to_string_def inhibit_what_is_valid_def inhibit_buffer_words
        butlast_concat split: if_splits)
  have "w \<in> set [1..255]" using w by simp
  with inhibit_words_bits have b: "inhibit_words w \<noteq> []" "foldl (\<lambda>w s. w OR inhibit_bit s) 0 (inhibit_words w) = w" by blast+
  have "set (inhibit_words w) \<subseteq> snd ` set inhibit_what_names" by (auto simp: inhibit_words_def)
  from inhibit_loop_words [OF b(1) this, of 0] b(2) show ?thesis
    by (simp add: inhibit_what_from_string_def s)
qed

lemma inhibit_written: "\<forall>w \<in> set [1..254]. inhibit_what_bytes_written w \<le> inhibit_what_buffer_size"
  by code_simp

lemma inhibit_written_all: "inhibit_what_bytes_written 255 = inhibit_what_buffer_size + 1"
  by code_simp

subsection \<open>The object graph is not touched\<close>

text \<open>\<open>same_graph m m'\<close>: nothing that the invariant of the object graph reads has changed. Inhibitors,
  buttons and the state of power operations are outside of it.\<close>

definition same_graph :: "manager \<Rightarrow> manager \<Rightarrow> bool" where
  "same_graph m m' \<longleftrightarrow> ses m' = ses m \<and> sts m' = sts m \<and> usr m' = usr m \<and> dev m' = dev m \<and> sdv m' = sdv m \<and>
     m_devices m' = m_devices m \<and> m_seats m' = m_seats m \<and> m_sessions m' = m_sessions m \<and>
     m_sessions_by_leader m' = m_sessions_by_leader m \<and> m_users m' = m_users m \<and>
     m_seat_gc_queue m' = m_seat_gc_queue m \<and> m_session_gc_queue m' = m_session_gc_queue m \<and>
     m_user_gc_queue m' = m_user_gc_queue m \<and> m_cgroup_inotify_fd m' = m_cgroup_inotify_fd m \<and>
     m_cgroup_control_inotify_wd_session m' = m_cgroup_control_inotify_wd_session m \<and>
     m_malloc m' = m_malloc m \<and> m_world m' = m_world m \<and> m_files m' = m_files m \<and>
     m_seat0 m' = m_seat0 m \<and> m_console_active_fd m' = m_console_active_fd m"

lemma same_graph_refl [simp, intro]: "same_graph m m"
  by (simp add: same_graph_def)

lemma same_graph_trans [trans]: "same_graph m m' \<Longrightarrow> same_graph m' m'' \<Longrightarrow> same_graph m m''"
  by (simp add: same_graph_def)

interpretation same_graph: step_frame same_graph
  by unfold_locales (auto intro: same_graph_trans)

lemma wf_same_graph: "same_graph m m' \<Longrightarrow> wf m' = wf m"
  unfolding wf_def inv_defs by (simp add: same_graph_def)

lemma keeps_graph_same: "keeps_graph m m' \<Longrightarrow> same_graph m' m'' \<Longrightarrow> keeps_graph m m''"
  using wf_same_graph [of m' m''] by (simp add: keeps_graph_def same_graph_def)

lemma sg_objects: "same_graph m m' \<Longrightarrow> same_objects m' m'' \<Longrightarrow> same_graph m m''"
  by (simp add: same_graph_def same_objects_fields)

lemma sg_upd:
  "same_graph m m' \<Longrightarrow> same_graph m (upd_inh i f m')"
  "same_graph m m' \<Longrightarrow> same_graph m (upd_btn b g m')"
  "same_graph m m' \<Longrightarrow> same_graph m (m'\<lparr>m_inhibitors := x\<rparr>)"
  "same_graph m m' \<Longrightarrow> same_graph m (m'\<lparr>m_buttons := y\<rparr>)"
  "same_graph m m' \<Longrightarrow> same_graph m (m'\<lparr>m_schedule := z\<rparr>)"
  "same_graph m m' \<Longrightarrow> same_graph m (m'\<lparr>m_polkit_registry := r\<rparr>)"
  "same_graph m m' \<Longrightarrow> same_graph m (m'\<lparr>m_brightness_writers := v\<rparr>)"
  "same_graph m m' \<Longrightarrow> same_graph m (m'\<lparr>m_inhibit_counter := n\<rparr>)"
  "same_graph m m' \<Longrightarrow> same_graph m (m'\<lparr>m_session_counter := n\<rparr>)"
  "same_graph m m' \<Longrightarrow> same_graph m (m'\<lparr>m_utmp_event_source := w\<rparr>)"
  by (simp_all add: same_graph_def upd_inh_def upd_btn_def)

lemmas sg_basic =
  sg_objects [OF _ sys_same] sg_objects [OF _ emit_same] sg_objects [OF _ safe_close_same]
  sg_objects [OF _ assert_that_same [OF same_objects_refl]]
  sg_objects [OF _ manager_send_changed_same] sg_objects [OF _ save_file_same] sg_upd

lemma sg_inhibitors:
  "same_graph m m' \<Longrightarrow> same_graph m (snd (inhibitor_new name m'))"
  "same_graph m m' \<Longrightarrow> same_graph m (inhibitor_free i m')"
  "same_graph m m' \<Longrightarrow> same_graph m (inhibitor_start i m')"
  "same_graph m m' \<Longrightarrow> same_graph m (inhibitor_stop i m')"
  "same_graph m m' \<Longrightarrow> same_graph m (inhibitor_dispatch_fifo i m')"
  by (simp_all add: inhibitor_new_def inhibitor_free_def inhibitor_start_def inhibitor_stop_def
      inhibitor_dispatch_fifo_def inhibitor_save_def bus_manager_send_inhibited_change_def
      inhibitor_remove_fifo_def Let_def sg_basic split: option.split)

lemma sg_inhibitor_fifo: "same_graph m m' \<Longrightarrow> same_graph m (snd (inhibitor_create_fifo i m'))"
proof -
  have "same_graph m m1 \<Longrightarrow> same_graph m (snd (inhibitor_fifo_make i m1))"
    "same_graph m m1 \<Longrightarrow> same_graph m (snd (inhibitor_fifo_open i path m1))"
    "same_graph m m1 \<Longrightarrow> same_graph m (snd (inhibitor_fifo_watch i m1))" for path m1
    by (simp_all add: inhibitor_fifo_make_def inhibitor_fifo_open_def inhibitor_fifo_watch_def Let_def
        case_prod_beta sg_basic)
  then show "same_graph m m' \<Longrightarrow> same_graph m (snd (inhibitor_create_fifo i m'))"
    by (simp add: inhibitor_create_fifo_def Let_def case_prod_beta sg_basic)
qed

lemma sg_pidref:
  "same_graph m m' \<Longrightarrow> same_graph m (snd (snd (pidref_set_pid old p m')))"
  "same_graph m m' \<Longrightarrow> same_graph m (snd (snd (pidref_set_pidstr old s m')))"
  by (simp_all add: pidref_set_pidstr_def pidref_set_pid_def Let_def case_prod_beta sg_basic split: sum.split)

lemma sg_inhibitor_load: "same_graph m m' \<Longrightarrow> same_graph m (snd (inhibitor_load i m'))"
proof -
  have fifo: "same_graph m m1 \<Longrightarrow> same_graph m (snd (inhibitor_load_fifo i m1))" for m1
    by (simp add: inhibitor_load_fifo_def Let_def case_prod_beta sg_basic sg_inhibitor_fifo split: option.split)
  have str: "same_graph m m1 \<Longrightarrow> same_graph m (snd (inhibitor_load_strings i vars m1))" for m1 vars
    by (simp add: inhibitor_load_strings_def Let_def sg_basic fifo split: option.split)
  have p: "same_graph m m1 \<Longrightarrow> same_graph m (inhibitor_load_pid i p m1)" for m1 p
    by (simp add: inhibitor_load_pid_def Let_def case_prod_beta sg_basic sg_pidref split: option.split)
  show "same_graph m m' \<Longrightarrow> same_graph m (snd (inhibitor_load i m'))"
    by (simp add: inhibitor_load_def Let_def sg_basic str p split: sum.split)
qed

text \<open>A program that goes away takes its lock with it: once the daemon has seen the end of the FIFO the
  inhibitor counts nowhere.\<close>

lemma dispatch_fifo_releases:
  assumes "distinct (m_inhibitors m)"
  shows "set (m_inhibitors (inhibitor_dispatch_fifo i m)) = set (m_inhibitors m) - {i}"
proof -
  have "m_inhibitors (inhibitor_stop i m) = m_inhibitors m"
    by (simp add: inhibitor_stop_def inhibitor_remove_fifo_def bus_manager_send_inhibited_change_def
        manager_send_changed_def safe_close_def upd_inh_def emit_def Let_def split: option.split)
  then show ?thesis
    using assms by (simp add: inhibitor_dispatch_fifo_def inhibitor_free_def Let_def safe_close_def emit_def
        set_remove1_distinct)
qed

interpretation inhibit_what: codec inhibit_what_to_string "map_option inhibit_what_from_string" inhibit_what_is_valid
proof
  show "map_option inhibit_what_from_string (inhibit_what_to_string w) = Some w" if "inhibit_what_is_valid w" for w
    using that inhibit_what_roundtrip [of w] by (auto simp: inhibit_what_to_string_def)
qed

end
