(* ===== verification/Action.thy ===== *)
theory Action
  imports Inhibit
begin

text \<open>
  Power operations: the actions of \<^verbatim>\<open>logind-action.c\<close>, their execution, delay and completion in
  \<^verbatim>\<open>logind-dbus.c\<close> and \<^verbatim>\<open>elogind.c\<close>, and the idle action of \<^verbatim>\<open>logind.c\<close>. An action is named by
  its \<^verbatim>\<open>HandleAction\<close>, which stands for the pointer into the table of action data. Of the child
  that carries the operation out only the fork is modelled.
\<close>


subsection \<open>The table of actions\<close>

datatype SleepOperation =
  SLEEP_SUSPEND | SLEEP_HIBERNATE | SLEEP_HYBRID_SLEEP | SLEEP_SUSPEND_THEN_HIBERNATE

definition sleep_operation_table :: "(SleepOperation \<times> string) list" where
  "sleep_operation_table =
    [(SLEEP_SUSPEND, ''suspend''), (SLEEP_HIBERNATE, ''hibernate''), (SLEEP_HYBRID_SLEEP, ''hybrid-sleep''),
     (SLEEP_SUSPEND_THEN_HIBERNATE, ''suspend-then-hibernate'')]"

interpretation sleep_operation: string_table sleep_operation_table
proof
  show "e \<in> fst ` set sleep_operation_table" for e
    by (cases e) (simp_all add: sleep_operation_table_def)
qed (simp_all add: sleep_operation_table_def)

definition sleep_operation_to_string :: "SleepOperation \<Rightarrow> string" where
  "sleep_operation_to_string op = the (string_table_to_string sleep_operation_table op)"

definition handle_action_number :: "HandleAction \<Rightarrow> nat" where
  "handle_action_number a = (case a of
      HANDLE_IGNORE \<Rightarrow> 0 | HANDLE_POWEROFF \<Rightarrow> 1 | HANDLE_REBOOT \<Rightarrow> 2 | HANDLE_HALT \<Rightarrow> 3 | HANDLE_KEXEC \<Rightarrow> 4
    | HANDLE_SUSPEND \<Rightarrow> 5 | HANDLE_HIBERNATE \<Rightarrow> 6 | HANDLE_HYBRID_SLEEP \<Rightarrow> 7
    | HANDLE_SUSPEND_THEN_HIBERNATE \<Rightarrow> 8 | HANDLE_SLEEP \<Rightarrow> 9 | HANDLE_SECURE_ATTENTION_KEY \<Rightarrow> 10
    | HANDLE_LOCK \<Rightarrow> 11 | HANDLE_FACTORY_RESET \<Rightarrow> 12)"

definition HANDLE_ACTION_IS_SHUTDOWN :: "HandleAction \<Rightarrow> bool" where
  "HANDLE_ACTION_IS_SHUTDOWN a \<longleftrightarrow> 1 \<le> handle_action_number a \<and> handle_action_number a \<le> 4"

definition HANDLE_ACTION_IS_SLEEP :: "HandleAction \<Rightarrow> bool" where
  "HANDLE_ACTION_IS_SLEEP a \<longleftrightarrow> 5 \<le> handle_action_number a \<and> handle_action_number a \<le> 9"

text \<open>The data of an action that the daemon decides by. Entries the table leaves out are zero.\<close>

record HandleActionData =
  had_inhibit_what :: int
  had_sleep_operation :: "SleepOperation option"

definition handle_action_lookup :: "HandleAction \<Rightarrow> HandleActionData" where
  "handle_action_lookup a =
     (if a \<in> {HANDLE_POWEROFF, HANDLE_REBOOT, HANDLE_HALT, HANDLE_KEXEC}
        then \<lparr>had_inhibit_what = INHIBIT_SHUTDOWN, had_sleep_operation = None\<rparr>
      else if a = HANDLE_SUSPEND
        then \<lparr>had_inhibit_what = INHIBIT_SLEEP, had_sleep_operation = Some SLEEP_SUSPEND\<rparr>
      else if a = HANDLE_HIBERNATE
        then \<lparr>had_inhibit_what = INHIBIT_SLEEP, had_sleep_operation = Some SLEEP_HIBERNATE\<rparr>
      else if a = HANDLE_HYBRID_SLEEP
        then \<lparr>had_inhibit_what = INHIBIT_SLEEP, had_sleep_operation = Some SLEEP_HYBRID_SLEEP\<rparr>
      else if a = HANDLE_SUSPEND_THEN_HIBERNATE
        then \<lparr>had_inhibit_what = INHIBIT_SLEEP, had_sleep_operation = Some SLEEP_SUSPEND_THEN_HIBERNATE\<rparr>
      else if a = HANDLE_FACTORY_RESET
        then \<lparr>had_inhibit_what = INHIBIT_WHAT_INVALID, had_sleep_operation = None\<rparr>
      else \<lparr>had_inhibit_what = 0, had_sleep_operation = Some SLEEP_SUSPEND\<rparr>)"

abbreviation inhibit_what_of :: "HandleAction \<Rightarrow> int" where
  "inhibit_what_of a \<equiv> had_inhibit_what (handle_action_lookup a)"

definition sleep_supported :: "SleepOperation \<Rightarrow> manager \<Rightarrow> int" where
  "sleep_supported op m = ask (Ask_can_sleep (sleep_operation_to_string op)) m"

definition handle_action_sleep_supported :: "HandleAction \<Rightarrow> manager \<Rightarrow> bool" where
  "handle_action_sleep_supported a m \<longleftrightarrow>
     (case had_sleep_operation (handle_action_lookup a) of
        None \<Rightarrow> False | Some op \<Rightarrow> sleep_supported op m > 0)"

definition sleep_actions :: "HandleAction list" where
  "sleep_actions = [HANDLE_SUSPEND_THEN_HIBERNATE, HANDLE_HYBRID_SLEEP, HANDLE_SUSPEND, HANDLE_HIBERNATE]"

definition sleep_mask_has :: "nat \<Rightarrow> HandleAction \<Rightarrow> bool" where
  "sleep_mask_has sleep_mask a \<longleftrightarrow> bit sleep_mask (handle_action_number a)"

definition handle_action_get_enabled_sleep_actions :: "nat \<Rightarrow> string list" where
  "handle_action_get_enabled_sleep_actions sleep_mask =
     map handle_action_to_string (filter (sleep_mask_has sleep_mask) sleep_actions)"

definition handle_action_sleep_select :: "manager \<Rightarrow> HandleAction option" where
  "handle_action_sleep_select m =
     find (\<lambda>a. sleep_mask_has (m_handle_action_sleep_mask m) a \<and> handle_action_sleep_supported a m)
       sleep_actions"

definition HANDLE_ACTION_SLEEP_MASK_DEFAULT :: nat where
  "HANDLE_ACTION_SLEEP_MASK_DEFAULT = 2 ^ 8 + 2 ^ 5 + 2 ^ 6"

text \<open>\<^verbatim>\<open>strv_split_full\<close>: the words of a string, or the error of the first that cannot be read. With
  the flag that keeps separators the loop would not advance; no caller sets it.\<close>

function strv_split_loop :: "string option \<Rightarrow> string option \<Rightarrow> ExtractFlags \<Rightarrow> int + string list" where
  "strv_split_loop seps p flags =
     (if EXTRACT_RETAIN_SEPARATORS \<in> flags then Inl (- EINVAL)
      else case extract_first_word p seps flags of (r, word, p') \<Rightarrow>
        if r < 0 then Inl r
        else if r = 0 then Inr []
        else case strv_split_loop seps p' flags of Inl e \<Rightarrow> Inl e | Inr ws \<Rightarrow> Inr (the word # ws))"
  by pat_completeness auto
termination
  by (relation "measure (\<lambda>(_, p, _). rest_len p)") (auto dest: extract_first_word_progress [OF sym])

declare strv_split_loop.simps [simp del]

definition strv_split_full :: "string \<Rightarrow> string option \<Rightarrow> ExtractFlags \<Rightarrow> int + string list" where
  "strv_split_full s seps flags = strv_split_loop seps (Some s) flags"

text \<open>The configuration of \<^verbatim>\<open>SleepOperation=\<close>: the return value and the new mask.\<close>

definition config_parse_handle_action_sleep :: "string \<Rightarrow> nat \<Rightarrow> int \<times> nat" where
  "config_parse_handle_action_sleep rvalue sleep_mask =
     (if rvalue = [] then (0, HANDLE_ACTION_SLEEP_MASK_DEFAULT)
      else case strv_split_full rvalue None {EXTRACT_UNQUOTE, EXTRACT_RETAIN_ESCAPE} of
             Inl _ \<Rightarrow> (- ENOMEM, sleep_mask)
           | Inr actions \<Rightarrow>
               let sleep_mask = foldl (\<lambda>mk action.
                     case handle_action_from_string (Some action) of
                       None \<Rightarrow> mk
                     | Some a \<Rightarrow> if \<not> HANDLE_ACTION_IS_SLEEP a \<or> a = HANDLE_SLEEP then mk
                                 else mk OR 2 ^ handle_action_number a) 0 actions
               in (0, if sleep_mask = 0 then HANDLE_ACTION_SLEEP_MASK_DEFAULT else sleep_mask))"

subsection \<open>Execution\<close>

definition lid_switch_ignore_handler :: "manager \<Rightarrow> manager" where
  "lid_switch_ignore_handler m = m\<lparr>m_lid_switch_ignore_event_source := False\<rparr>"

definition manager_set_lid_switch_ignore :: "nat \<Rightarrow> manager \<Rightarrow> int \<times> manager" where
  "manager_set_lid_switch_ignore until m =
     (if until \<le> now_monotonic m then (0, m)
      else if m_lid_switch_ignore_event_source m then
        let u = ask (Ask_event_time ''lid-switch-ignore'') m
        in if u < 0 then (u, m)
           else if until \<le> nat u then (0, m)
           else sys (Sys_event_source ''lid-switch-ignore'') m
      else case sys (Sys_add_time ''lid-switch-ignore'' until) m of (r, m) \<Rightarrow>
        (r, if r < 0 then m else m\<lparr>m_lid_switch_ignore_event_source := True\<rparr>))"

definition send_prepare_for :: "HandleAction \<Rightarrow> bool \<Rightarrow> manager \<Rightarrow> int \<times> manager" where
  "send_prepare_for a active m =
     (let m = assert_that (inhibit_what_of a \<in> {INHIBIT_SHUTDOWN, INHIBIT_SLEEP}) m;
          arg = (if active then '' true'' else '' false'');
          (k, m) = (if inhibit_what_of a = INHIBIT_SHUTDOWN
                    then sys (Sys_emit (''PrepareForShutdownWithMetadata'' @ arg @ '' type='' @ handle_action_to_string a)) m
                    else (0, m));
          (r, m) = sys (Sys_emit ((if inhibit_what_of a = INHIBIT_SHUTDOWN then ''PrepareForShutdown''
                                   else ''PrepareForSleep'') @ arg)) m
      in (ret_gather k r, m))"

text \<open>The daemon is the parent of the fork; the answer is the child's PID or an error.\<close>

definition elogind_execute_shutdown_or_sleep :: "HandleAction \<Rightarrow> manager \<Rightarrow> int \<times> manager" where
  "elogind_execute_shutdown_or_sleep a m =
     (let m = assert_that (inhibit_what_of a \<ge> 0 \<and> inhibit_what_of a < INHIBIT_WHAT_MAX) m;
          m = (if a \<in> {HANDLE_HALT, HANDLE_POWEROFF, HANDLE_REBOOT}
               then emit (Sys_run (if a = HANDLE_REBOOT then ''update-utmp reboot'' else ''update-utmp shutdown'')) m
               else m);
          m = m\<lparr>m_sleep_fork_action := Some a, m_action_job := Some (handle_action_to_string a)\<rparr>
      in case sys (Sys_run (''e-'' @ handle_action_to_string a)) m of (t, m) \<Rightarrow>
           if t < 0 then (t, m\<lparr>m_sleep_fork_action := None, m_action_job := None\<rparr>)
           else (t, m\<lparr>m_sleep_fork_pid := t\<rparr>))"

definition bus_manager_log_shutdown :: "HandleAction \<Rightarrow> manager \<Rightarrow> manager" where
  "bus_manager_log_shutdown a m = emit (Sys_emit (''log '' @ handle_action_to_string a)) m"

definition execute_shutdown_or_sleep :: "HandleAction \<Rightarrow> manager \<Rightarrow> int \<times> manager" where
  "execute_shutdown_or_sleep a m =
     (let m = assert_that (m_action_job m = None) m;
          m = (if inhibit_what_of a = INHIBIT_SHUTDOWN then bus_manager_log_shutdown a m else m)
      in if m_sleep_fork_action m \<noteq> None then (0, m)
         else case elogind_execute_shutdown_or_sleep a m of (r, m) \<Rightarrow>
           if r < 0 then (r, snd (send_prepare_for a False m))
           else
           let m = m\<lparr>m_delayed_action := Some a\<rparr>
           in (0, snd (manager_set_lid_switch_ignore
                         (usec_add (now_monotonic m) (m_holdoff_timeout_usec m)) m)))"

definition delay_inhibited :: "HandleAction \<Rightarrow> manager \<Rightarrow> bool" where
  "delay_inhibited a m = fst (manager_is_inhibited (inhibit_what_of a) False False False 0 m)"

definition manager_dispatch_delayed :: "bool \<Rightarrow> manager \<Rightarrow> int \<times> manager" where
  "manager_dispatch_delayed timeout m =
     (case m_delayed_action m of
        None \<Rightarrow> (0, m)
      | Some a \<Rightarrow>
          if m_action_job m \<noteq> None then (0, m)
          else
          let m = assert_that (inhibit_what_is_valid (inhibit_what_of a)) m
          in if delay_inhibited a m \<and> \<not> timeout then (0, m)
             else case execute_shutdown_or_sleep a m of (r, m) \<Rightarrow>
               (1, if r < 0 then m\<lparr>m_delayed_action := None\<rparr> else m))"

definition manager_inhibit_timeout_handler :: "manager \<Rightarrow> int \<times> manager" where
  "manager_inhibit_timeout_handler m = manager_dispatch_delayed True m"

definition delay_shutdown_or_sleep :: "HandleAction \<Rightarrow> manager \<Rightarrow> int \<times> manager" where
  "delay_shutdown_or_sleep a m =
     (case sys (Sys_add_time ''inhibit-timeout'' (m_inhibit_delay_max m)) m of (r, m) \<Rightarrow>
        if r < 0 then (r, m)
        else (0, m\<lparr>m_inhibit_timeout_source := True, m_delayed_action := Some a\<rparr>))"

definition cancel_delayed_action :: "manager \<Rightarrow> manager" where
  "cancel_delayed_action m =
     (let m = emit (Sys_event_source ''inhibit-timeout off'') m
      in if m_action_job m = None then m\<lparr>m_delayed_action := None\<rparr> else m)"

text \<open>Without a delay allowed the locks are not looked at, so their set is not checked either. Hook
  scripts that may interrupt the operation postpone the signal.\<close>

definition bus_manager_shutdown_or_sleep_now_or_later :: "HandleAction \<Rightarrow> manager \<Rightarrow> int \<times> manager" where
  "bus_manager_shutdown_or_sleep_now_or_later a m =
     (let m = assert_that (m_action_job m = None) m;
          r = ask (Ask_sleep_config ''parse'') m;
          what = inhibit_what_of a
      in if r < 0 then (r, m)
         else
         let m = (if what = INHIBIT_SHUTDOWN \<and> ask (Ask_sleep_config ''AllowPowerOffInterrupts'') m \<le> 0 \<or>
                     what = INHIBIT_SLEEP \<and> ask (Ask_sleep_config ''AllowSuspendInterrupts'') m \<le> 0
                  then snd (send_prepare_for a True m) else m);
             m = (if m_inhibit_delay_max m > 0 then assert_that (inhibit_what_is_valid what) m else m)
         in if m_inhibit_delay_max m > 0 \<and> delay_inhibited a m then delay_shutdown_or_sleep a m
            else execute_shutdown_or_sleep a m)"

definition handle_action_execute :: "HandleAction \<Rightarrow> bool \<Rightarrow> bool \<Rightarrow> manager \<Rightarrow> int \<times> manager" where
  "handle_action_execute handle ignore_inhibited is_edge m =
     (let m = assert_that (handle \<notin> {HANDLE_IGNORE, HANDLE_LOCK, HANDLE_SLEEP}) m
      in if handle = HANDLE_KEXEC \<and> ask (Ask_access ''kexec'') m < 0 then (- EOPNOTSUPP, m)
         else if m_delayed_action m \<noteq> None then (- EALREADY, m)
         else if inhibit_what_is_valid (inhibit_what_of handle) \<and> \<not> ignore_inhibited \<and>
                 fst (manager_is_inhibited (inhibit_what_of handle) True False False 0 m)
           then (if is_edge then - EPERM else 0, m)
         else case bus_manager_shutdown_or_sleep_now_or_later handle m of (r, m) \<Rightarrow>
           (if r < 0 then r else 1, m))"

text \<open>A low-level sleep operation; when it is not supported, suspend is tried instead.\<close>

definition handle_action_sleep_one :: "HandleAction \<Rightarrow> bool \<Rightarrow> bool \<Rightarrow> manager \<Rightarrow> int \<times> manager" where
  "handle_action_sleep_one handle ignore_inhibited is_edge m =
     (let m = assert_that (HANDLE_ACTION_IS_SLEEP handle) m
      in if handle_action_sleep_supported handle m then handle_action_execute handle ignore_inhibited is_edge m
         else if handle \<noteq> HANDLE_SUSPEND \<and> sleep_supported SLEEP_SUSPEND m > 0
           then handle_action_execute HANDLE_SUSPEND ignore_inhibited is_edge m
         else (- EOPNOTSUPP, m))"

definition handle_action_sleep_execute :: "HandleAction \<Rightarrow> bool \<Rightarrow> bool \<Rightarrow> manager \<Rightarrow> int \<times> manager" where
  "handle_action_sleep_execute handle ignore_inhibited is_edge m =
     (if handle = HANDLE_SLEEP then
        (case handle_action_sleep_select m of
           None \<Rightarrow> (- EOPNOTSUPP, m)
         | Some a \<Rightarrow> handle_action_sleep_one a ignore_inhibited is_edge m)
      else handle_action_sleep_one handle ignore_inhibited is_edge m)"

definition manager_handle_action_secure_attention_key :: "bool \<Rightarrow> string option \<Rightarrow> manager \<Rightarrow> int \<times> manager" where
  "manager_handle_action_secure_attention_key is_edge seat m =
     (case seat of
        Some st \<Rightarrow> (0, if is_edge \<and> st \<in> set (m_seats m)
                        then emit (Sys_emit (''SecureAttentionKey '' @ st)) m else m)
      | None \<Rightarrow> (0, m))"

definition session_send_lock :: "string \<Rightarrow> bool \<Rightarrow> manager \<Rightarrow> int \<times> manager" where
  "session_send_lock s lock m =
     (if \<not> SESSION_CLASS_CAN_LOCK (s_class (ses m s)) then (- ENOTTY, m)
      else sys (Sys_emit ((if lock then ''Lock '' else ''Unlock '') @ s)) m)"

definition session_send_lock_all :: "bool \<Rightarrow> manager \<Rightarrow> int \<times> manager" where
  "session_send_lock_all lock m =
     gather ret_gather (\<lambda>s. session_send_lock s lock)
       (filter (\<lambda>s. SESSION_CLASS_CAN_LOCK (s_class (ses m s))) (m_sessions m)) (0, m)"

definition manager_handle_action ::
  "int \<Rightarrow> HandleAction \<Rightarrow> bool \<Rightarrow> bool \<Rightarrow> string option \<Rightarrow> manager \<Rightarrow> int \<times> manager" where
  "manager_handle_action inhibit_key handle ignore_inhibited is_edge action_seat m =
     (if handle = HANDLE_IGNORE then (0, m)
      else if inhibit_key = INHIBIT_HANDLE_LID_SWITCH \<and> m_lid_switch_ignore_event_source m then (0, m)
      else
      let m = (if inhibit_key > 0 then assert_that (inhibit_what_is_valid inhibit_key) m else m)
      in if inhibit_key > 0 \<and> fst (manager_is_inhibited inhibit_key True True False 0 m) then (0, m)
         else if handle = HANDLE_LOCK then
           (if \<not> is_edge then (0, m) else (1, snd (session_send_lock_all True m)))
         else if handle = HANDLE_SECURE_ATTENTION_KEY then
           manager_handle_action_secure_attention_key is_edge action_seat m
         else if HANDLE_ACTION_IS_SLEEP handle then
           handle_action_sleep_execute handle ignore_inhibited is_edge m
         else handle_action_execute handle ignore_inhibited is_edge m)"

text \<open>The end of a child. \<open>Ask_event_finished\<close> says that the event loop is over, \<open>Ask_child_exited\<close> that
  a process has ended.\<close>

definition elogind_sigchld_handler :: "manager \<Rightarrow> manager" where
  "elogind_sigchld_handler m =
     (if ask Ask_event_finished m > 0 then m
      else
      let m = (if m_tool_fork_pid m > 0 \<and> ask (Ask_child_exited (m_tool_fork_pid m)) m > 0
               then m\<lparr>m_tool_fork_pid := 0\<rparr> else m)
      in if m_sleep_fork_pid m > 0 then
           let m = (if ask (Ask_child_exited (m_sleep_fork_pid m)) m > 0 then m\<lparr>m_sleep_fork_pid := 0\<rparr> else m)
           in case m_sleep_fork_action m of
                None \<Rightarrow> m
              | Some a \<Rightarrow>
                  if had_sleep_operation (handle_action_lookup a) \<noteq> None then
                    (snd (send_prepare_for a False m))\<lparr>m_action_job := None, m_delayed_action := None,
                      m_sleep_fork_action := None\<rparr>
                  else m
         else m)"

subsection \<open>The idle action\<close>

definition manager_get_idle_hint :: "manager \<Rightarrow> bool \<times> dual_timestamp" where
  "manager_get_idle_hint m =
     foldl (\<lambda>acc s. if \<not> SESSION_CLASS_CAN_IDLE (s_class (ses m s)) then acc
              else case session_get_idle_hint s m of (ih, k) \<Rightarrow> idle_merge (<) acc (ih, stored m k))
       (\<not> fst (manager_is_inhibited INHIBIT_IDLE True False False 0 m), DUAL_TIMESTAMP_NULL) (m_sessions m)"

definition U64 :: nat where "U64 = 2 ^ 64"

definition idle_action_timer :: "nat \<Rightarrow> manager \<Rightarrow> int \<times> manager" where
  "idle_action_timer elapse m =
     (if \<not> m_idle_action_event_source m then
        (case sys (Sys_add_time ''idle-action'' elapse) m of (r, m) \<Rightarrow>
           if r < 0 then (r, m)
           else case sys (Sys_event_source ''idle-action priority'')
                       (m\<lparr>m_idle_action_event_source := True\<rparr>) of (r, m) \<Rightarrow>
             if r < 0 then (r, m) else (0, m))
      else case sys (Sys_event_source ''idle-action time'') m of (r, m) \<Rightarrow>
        if r < 0 then (r, m)
        else case sys (Sys_event_source ''idle-action enable'') m of (r, m) \<Rightarrow>
          if r < 0 then (r, m) else (0, m))"

text \<open>The arithmetic on times is that of 64-bit words.\<close>

definition manager_dispatch_idle_action :: "manager \<Rightarrow> int \<times> manager" where
  "manager_dispatch_idle_action m =
     (if m_idle_action m = HANDLE_IGNORE \<or> m_idle_action_usec m = 0 then (0, m)
      else
      let n = now_monotonic m; (idle, since) = manager_get_idle_hint m; usec = m_idle_action_usec m
      in if \<not> idle then idle_action_timer ((n + usec) mod U64) (m\<lparr>m_was_idle := False\<rparr>)
         else
         let m = (if n \<ge> (ts_monotonic since + usec) mod U64 \<and>
                     (m_idle_action_not_before_usec m = 0 \<or>
                      n \<ge> (m_idle_action_not_before_usec m + usec) mod U64) then
                    let is_edge = (\<not> m_was_idle m \<or> ts_monotonic since \<ge> m_idle_action_not_before_usec m);
                        m = (if is_edge then m\<lparr>m_was_idle := True\<rparr> else m);
                        m = snd (manager_handle_action 0 (m_idle_action m) False is_edge None m)
                    in m\<lparr>m_idle_action_not_before_usec := n\<rparr>
                  else m)
         in idle_action_timer ((max (ts_monotonic since) (m_idle_action_not_before_usec m) + usec) mod U64) m)"

subsection \<open>One operation at a time\<close>

text \<open>The state of a power operation: the action that waits for delay locks or is being executed, the
  job, the action the child was forked for. A job runs only for the recorded action, and an action is recorded only
  when it is a shutdown or a sleep.\<close>

definition power_action :: "HandleAction \<Rightarrow> bool" where
  "power_action a \<longleftrightarrow> inhibit_what_of a \<in> {INHIBIT_SHUTDOWN, INHIBIT_SLEEP}"

definition power_ok :: "manager \<Rightarrow> bool" where
  "power_ok m \<longleftrightarrow>
     (m_action_job m = None \<longleftrightarrow> m_sleep_fork_action m = None) \<and>
     (\<forall>a. m_delayed_action m = Some a \<longrightarrow> power_action a) \<and>
     (\<forall>a. m_sleep_fork_action m = Some a \<longrightarrow> m_delayed_action m = Some a)"

definition same_power :: "manager \<Rightarrow> manager \<Rightarrow> bool" where
  "same_power m m' \<longleftrightarrow> m_action_job m' = m_action_job m \<and> m_sleep_fork_action m' = m_sleep_fork_action m \<and>
     m_delayed_action m' = m_delayed_action m \<and> m_abort m' = m_abort m"

lemma power_action_cases:
  "power_action a \<longleftrightarrow> a \<in> {HANDLE_POWEROFF, HANDLE_REBOOT, HANDLE_HALT, HANDLE_KEXEC, HANDLE_SUSPEND,
     HANDLE_HIBERNATE, HANDLE_HYBRID_SLEEP, HANDLE_SUSPEND_THEN_HIBERNATE}"
  by (cases a) (simp_all add: power_action_def handle_action_lookup_def)

lemma power_action_what:
  "power_action a \<Longrightarrow> inhibit_what_is_valid (inhibit_what_of a)"
  "power_action a \<Longrightarrow> 0 \<le> inhibit_what_of a" "power_action a \<Longrightarrow> inhibit_what_of a < INHIBIT_WHAT_MAX"
  by (auto simp: power_action_def inhibit_what_is_valid_def)

lemma same_power_refl [simp, intro]: "same_power m m"
  by (simp add: same_power_def)

lemma same_power_trans [trans]: "same_power m m' \<Longrightarrow> same_power m' m'' \<Longrightarrow> same_power m m''"
  by (simp add: same_power_def)

lemma power_ok_same: "same_power m m' \<Longrightarrow> power_ok m' = power_ok m"
  by (simp add: same_power_def power_ok_def)

lemma same_power_sys: "same_power m (snd (sys e m))" "same_power m (emit e m)"
  by (simp_all add: same_power_def sys_def emit_def)

lemma same_power_prepare: "power_action a \<Longrightarrow> same_power m (snd (send_prepare_for a b m))"
  by (auto simp: send_prepare_for_def same_power_def power_action_def Let_def sys_def assert_that_def)

lemma same_power_lid: "same_power m (snd (manager_set_lid_switch_ignore t m))"
  by (simp add: manager_set_lid_switch_ignore_def same_power_def Let_def sys_def)

lemma same_power_fields:
  assumes "same_power m m'"
  shows "m_action_job m' = m_action_job m" "m_sleep_fork_action m' = m_sleep_fork_action m"
    "m_delayed_action m' = m_delayed_action m" "m_abort m' = m_abort m"
  using assms by (simp_all add: same_power_def)

lemmas power_frames = same_power_fields [OF same_power_lid] same_power_fields [OF same_power_sys(1)]
  same_power_fields [OF same_power_sys(2)]

text \<open>Executing an action with nothing in progress: it is recorded with its job, or nothing is.\<close>

lemma execute_result:
  assumes "m_action_job m = None" "m_sleep_fork_action m = None" "power_action a"
  shows "m_abort (snd (execute_shutdown_or_sleep a m)) = m_abort m"
    "fst (execute_shutdown_or_sleep a m) < 0 \<Longrightarrow>
       m_action_job (snd (execute_shutdown_or_sleep a m)) = None \<and>
       m_sleep_fork_action (snd (execute_shutdown_or_sleep a m)) = None \<and>
       m_delayed_action (snd (execute_shutdown_or_sleep a m)) = m_delayed_action m"
    "0 \<le> fst (execute_shutdown_or_sleep a m) \<Longrightarrow>
       m_action_job (snd (execute_shutdown_or_sleep a m)) = Some (handle_action_to_string a) \<and>
       m_sleep_fork_action (snd (execute_shutdown_or_sleep a m)) = Some a \<and>
       m_delayed_action (snd (execute_shutdown_or_sleep a m)) = Some a"
proof -
  define m0 where "m0 = (if inhibit_what_of a = INHIBIT_SHUTDOWN then bus_manager_log_shutdown a m else m)"
  have m0: "same_power m m0" by (simp add: m0_def bus_manager_log_shutdown_def same_power_sys)
  note f0 = same_power_fields [OF m0]
  obtain t m1 where e: "elogind_execute_shutdown_or_sleep a m0 = (t, m1)" by (cases "elogind_execute_shutdown_or_sleep a m0")
  have m1: "m_abort m1 = m_abort m" "m_delayed_action m1 = m_delayed_action m"
    "t < 0 \<Longrightarrow> m_action_job m1 = None \<and> m_sleep_fork_action m1 = None"
    "0 \<le> t \<Longrightarrow> m_action_job m1 = Some (handle_action_to_string a) \<and> m_sleep_fork_action m1 = Some a"
    using e assms(3) by (auto simp: elogind_execute_shutdown_or_sleep_def Let_def sys_def emit_def
        assert_that_def power_action_what(2,3) f0 split: if_splits)
  note p = same_power_fields [OF same_power_prepare [OF assms(3)]]
  have ex: "execute_shutdown_or_sleep a m =
    (if t < 0 then (t, snd (send_prepare_for a False m1))
     else (0, snd (manager_set_lid_switch_ignore (usec_add (now_monotonic (m1\<lparr>m_delayed_action := Some a\<rparr>))
            (m_holdoff_timeout_usec m1)) (m1\<lparr>m_delayed_action := Some a\<rparr>))))"
    using assms(1,2) by (simp add: execute_shutdown_or_sleep_def assert_that_def m0_def [symmetric] f0 e Let_def)
  show "m_abort (snd (execute_shutdown_or_sleep a m)) = m_abort m"
    using m1(1) by (simp add: ex p power_frames)
  show "m_action_job (snd (execute_shutdown_or_sleep a m)) = None \<and>
       m_sleep_fork_action (snd (execute_shutdown_or_sleep a m)) = None \<and>
       m_delayed_action (snd (execute_shutdown_or_sleep a m)) = m_delayed_action m"
    if "fst (execute_shutdown_or_sleep a m) < 0"
    using that m1(2,3) by (simp add: ex p split: if_splits)
  show "m_action_job (snd (execute_shutdown_or_sleep a m)) = Some (handle_action_to_string a) \<and>
       m_sleep_fork_action (snd (execute_shutdown_or_sleep a m)) = Some a \<and>
       m_delayed_action (snd (execute_shutdown_or_sleep a m)) = Some a"
    if "0 \<le> fst (execute_shutdown_or_sleep a m)"
    using that m1(4) by (simp add: ex power_frames split: if_splits)
qed

lemma power_execute:
  assumes "m_action_job m = None" "m_sleep_fork_action m = None" "power_action a"
    "m_delayed_action m = None \<or> m_delayed_action m = Some a"
  shows "power_ok (snd (execute_shutdown_or_sleep a m))"
proof (cases "fst (execute_shutdown_or_sleep a m) < 0")
  case True
  then show ?thesis using execute_result(2) [OF assms(1-3)] assms(3,4) by (auto simp: power_ok_def)
next
  case False
  then show ?thesis using execute_result(3) [OF assms(1-3)] assms(3) by (auto simp: power_ok_def)
qed

lemma power_dispatch_delayed:
  assumes "power_ok m"
  shows "power_ok (snd (manager_dispatch_delayed timeout m))"
    "m_abort (snd (manager_dispatch_delayed timeout m)) = m_abort m"
proof -
  have "power_ok (snd (manager_dispatch_delayed timeout m)) \<and>
      m_abort (snd (manager_dispatch_delayed timeout m)) = m_abort m"
  proof (cases "m_delayed_action m")
    case None
    then show ?thesis using assms by (simp add: manager_dispatch_delayed_def)
  next
    case (Some a)
    show ?thesis
    proof (cases "m_action_job m")
      case job: None
      have a: "power_action a" "m_sleep_fork_action m = None" using assms Some job by (auto simp: power_ok_def)
      have s: "assert_that (inhibit_what_is_valid (inhibit_what_of a)) m = m"
        using power_action_what(1) [OF a(1)] by (simp add: assert_that_def)
      obtain r m1 where ex: "execute_shutdown_or_sleep a m = (r, m1)" by (cases "execute_shutdown_or_sleep a m")
      have ok: "power_ok m1" "m_abort m1 = m_abort m"
        using power_execute [OF job a(2,1)] execute_result(1) [OF job a(2,1)] Some ex by simp_all
      have neg: "r < 0 \<Longrightarrow> m_action_job m1 = None \<and> m_sleep_fork_action m1 = None"
        using execute_result(2) [OF job a(2,1)] ex by simp
      show ?thesis
        using ok neg assms
        by (simp add: manager_dispatch_delayed_def Some job s ex power_ok_def)
    next
      case (Some j)
      then show ?thesis using assms by (simp add: manager_dispatch_delayed_def split: option.split)
    qed
  qed
  then show "power_ok (snd (manager_dispatch_delayed timeout m))"
    "m_abort (snd (manager_dispatch_delayed timeout m)) = m_abort m" by simp_all
qed

text \<open>A request that comes when nothing is recorded.\<close>

lemma power_now_or_later:
  assumes "power_ok m" "m_delayed_action m = None" "power_action a"
  shows "power_ok (snd (bus_manager_shutdown_or_sleep_now_or_later a m)) \<and>
    m_abort (snd (bus_manager_shutdown_or_sleep_now_or_later a m)) = m_abort m"
proof -
  have free: "m_action_job m = None" "m_sleep_fork_action m = None"
    using assms(1,2) by (auto simp: power_ok_def)
  define m1 where "m1 = (if inhibit_what_of a = INHIBIT_SHUTDOWN \<and> ask (Ask_sleep_config ''AllowPowerOffInterrupts'') m \<le> 0 \<or>
                     inhibit_what_of a = INHIBIT_SLEEP \<and> ask (Ask_sleep_config ''AllowSuspendInterrupts'') m \<le> 0
                  then snd (send_prepare_for a True m) else m)"
  have m1: "same_power m m1" using same_power_prepare [OF assms(3)] by (simp add: m1_def)
  note f = same_power_fields [OF m1]
  have delay: "power_ok (snd (delay_shutdown_or_sleep a m1)) \<and> m_abort (snd (delay_shutdown_or_sleep a m1)) = m_abort m"
    using free assms(2,3) by (auto simp: delay_shutdown_or_sleep_def power_ok_def f power_frames case_prod_beta)
  have exec: "power_ok (snd (execute_shutdown_or_sleep a m1)) \<and>
      m_abort (snd (execute_shutdown_or_sleep a m1)) = m_abort m"
    using power_execute [of m1 a] execute_result(1) [of m1 a] free assms(2,3) by (simp add: f)
  have res: "bus_manager_shutdown_or_sleep_now_or_later a m =
    (if ask (Ask_sleep_config ''parse'') m < 0 then (ask (Ask_sleep_config ''parse'') m, m)
     else if m_inhibit_delay_max m1 > 0 \<and> delay_inhibited a m1 then delay_shutdown_or_sleep a m1
     else execute_shutdown_or_sleep a m1)"
    using free power_action_what(1) [OF assms(3)]
    by (simp add: bus_manager_shutdown_or_sleep_now_or_later_def Let_def assert_that_def m1_def)
  show ?thesis using delay exec assms(1) by (simp add: res)
qed

lemma power_handle_execute:
  assumes "power_ok m" "power_action a"
  shows "power_ok (snd (handle_action_execute a ii e m)) \<and> m_abort (snd (handle_action_execute a ii e m)) = m_abort m"
proof -
  have "assert_that (a \<notin> {HANDLE_IGNORE, HANDLE_LOCK, HANDLE_SLEEP}) m = m"
    using assms(2) by (auto simp: assert_that_def power_action_cases)
  then show ?thesis
    using power_now_or_later [OF assms(1) _ assms(2)] assms(1)
    by (simp add: handle_action_execute_def case_prod_beta)
qed

lemma power_sleep_one:
  assumes "power_ok m" "power_action a" "HANDLE_ACTION_IS_SLEEP a"
  shows "power_ok (snd (handle_action_sleep_one a ii e m)) \<and> m_abort (snd (handle_action_sleep_one a ii e m)) = m_abort m"
proof -
  have "power_action HANDLE_SUSPEND" by (simp add: power_action_cases)
  then show ?thesis
    using power_handle_execute [OF assms(1,2)] power_handle_execute [OF assms(1)] assms(1,3)
    by (simp add: handle_action_sleep_one_def assert_that_def)
qed

lemma sleep_select_power:
  "handle_action_sleep_select m = Some b \<Longrightarrow> power_action b \<and> HANDLE_ACTION_IS_SLEEP b"
  unfolding handle_action_sleep_select_def by (drule find_Some_in)
    (auto simp: sleep_actions_def power_action_cases HANDLE_ACTION_IS_SLEEP_def handle_action_number_def)

lemma power_sleep_execute:
  assumes "power_ok m" "HANDLE_ACTION_IS_SLEEP a"
  shows "power_ok (snd (handle_action_sleep_execute a ii e m)) \<and>
    m_abort (snd (handle_action_sleep_execute a ii e m)) = m_abort m"
proof (cases "a = HANDLE_SLEEP")
  case True
  have "power_action b \<and> HANDLE_ACTION_IS_SLEEP b" if "handle_action_sleep_select m = Some b" for b
    by (rule sleep_select_power [OF that])
  then show ?thesis
    using True power_sleep_one [OF assms(1)] assms(1)
    by (simp add: handle_action_sleep_execute_def split: option.split)
next
  case False
  then have "power_action a"
    using assms(2) by (cases a) (simp_all add: HANDLE_ACTION_IS_SLEEP_def handle_action_number_def power_action_cases)
  then show ?thesis using False power_sleep_one [OF assms(1)] assms(2) by (simp add: handle_action_sleep_execute_def)
qed

lemma same_power_gather:
  assumes "\<And>x m. same_power m (snd (f x m))"
  shows "same_power m (snd (gather g f l (r, m)))"
  unfolding snd_gather using assms by (induction l arbitrary: m rule: rev_induct) (auto intro: same_power_trans)

lemma same_power_lock_all: "same_power m (snd (session_send_lock_all b m))"
  unfolding session_send_lock_all_def by (rule same_power_gather) (simp add: session_send_lock_def same_power_sys)

lemma power_handle_action:
  assumes "power_ok m" "a \<noteq> HANDLE_FACTORY_RESET" "key \<le> 0 \<or> inhibit_what_is_valid key"
  shows "power_ok (snd (manager_handle_action key a ii e st m)) \<and>
    m_abort (snd (manager_handle_action key a ii e st m)) = m_abort m"
proof -
  let ?m = "if key > 0 then assert_that (inhibit_what_is_valid key) m else m"
  have s: "?m = m" using assms(3) by (auto simp: assert_that_def)
  have lock: "power_ok (snd (session_send_lock_all True m)) \<and> m_abort (snd (session_send_lock_all True m)) = m_abort m"
    using power_ok_same [OF same_power_lock_all] same_power_fields(4) [OF same_power_lock_all] assms(1) by simp
  have sak: "power_ok (snd (manager_handle_action_secure_attention_key e st m)) \<and>
      m_abort (snd (manager_handle_action_secure_attention_key e st m)) = m_abort m" for e
    using assms(1) power_ok_same [OF same_power_sys(2)]
    by (simp add: manager_handle_action_secure_attention_key_def power_frames split: option.split)
  have "power_action a" if "a \<notin> {HANDLE_IGNORE, HANDLE_LOCK, HANDLE_SECURE_ATTENTION_KEY}"
      "\<not> HANDLE_ACTION_IS_SLEEP a"
    using that assms(2)
    by (cases a) (simp_all add: HANDLE_ACTION_IS_SLEEP_def handle_action_number_def power_action_cases)
  then show ?thesis
    using lock sak power_sleep_execute [OF assms(1)] power_handle_execute [OF assms(1)] assms(1)
    unfolding manager_handle_action_def Let_def s by simp
qed

lemma power_cancel: "power_ok m \<Longrightarrow> power_ok (cancel_delayed_action m) \<and> m_abort (cancel_delayed_action m) = m_abort m"
  by (auto simp: cancel_delayed_action_def Let_def power_ok_def emit_def)

lemma power_sigchld:
  assumes "power_ok m"
  shows "power_ok (elogind_sigchld_handler m) \<and> m_abort (elogind_sigchld_handler m) = m_abort m"
proof -
  define m1 where "m1 = (if m_tool_fork_pid m > 0 \<and> ask (Ask_child_exited (m_tool_fork_pid m)) m > 0
               then m\<lparr>m_tool_fork_pid := 0\<rparr> else m)"
  define m2 where "m2 = (if ask (Ask_child_exited (m_sleep_fork_pid m1)) m1 > 0 then m1\<lparr>m_sleep_fork_pid := 0\<rparr> else m1)"
  have s: "same_power m m1" "same_power m m2" by (simp_all add: m1_def m2_def same_power_def)
  have ok: "power_ok m1" "power_ok m2" using power_ok_same s assms by simp_all
  have res: "elogind_sigchld_handler m = (if ask Ask_event_finished m > 0 then m
     else if m_sleep_fork_pid m1 > 0 then
           (case m_sleep_fork_action m2 of None \<Rightarrow> m2
            | Some a \<Rightarrow> if had_sleep_operation (handle_action_lookup a) \<noteq> None then
                (snd (send_prepare_for a False m2))\<lparr>m_action_job := None, m_delayed_action := None,
                      m_sleep_fork_action := None\<rparr> else m2)
         else m1)"
    by (simp only: elogind_sigchld_handler_def m1_def m2_def Let_def)
  have "power_action a" if "m_sleep_fork_action m2 = Some a" for a
    using ok(2) that by (auto simp: power_ok_def)
  then have "m_abort (snd (send_prepare_for a False m2)) = m_abort m" if "m_sleep_fork_action m2 = Some a" for a
    using that same_power_fields(4) [OF same_power_prepare] same_power_fields(4) [OF s(2)] by simp
  then show ?thesis
    using ok assms same_power_fields(4) [OF s(1)] same_power_fields(4) [OF s(2)]
    by (auto simp: res power_ok_def split: option.split)
qed

lemma same_power_idle_timer: "same_power m (snd (idle_action_timer t m))"
  by (simp add: idle_action_timer_def same_power_def sys_def case_prod_beta)

lemma power_idle_action:
  assumes "power_ok m" "m_idle_action m \<noteq> HANDLE_FACTORY_RESET"
  shows "power_ok (snd (manager_dispatch_idle_action m)) \<and>
    m_abort (snd (manager_dispatch_idle_action m)) = m_abort m"
proof -
  have timer: "power_ok (snd (idle_action_timer t x)) \<and> m_abort (snd (idle_action_timer t x)) = m_abort m"
    if "power_ok x" "m_abort x = m_abort m" for t x
    using that power_ok_same [OF same_power_idle_timer] same_power_fields(4) [OF same_power_idle_timer] by simp
  have idle: "power_ok (x\<lparr>m_was_idle := b\<rparr>) = power_ok x" "power_ok (x\<lparr>m_idle_action_not_before_usec := n\<rparr>) = power_ok x" for x b n
    by (simp_all add: power_ok_def)
  have act: "power_ok (snd (manager_handle_action 0 (m_idle_action m) False e None x)) \<and>
      m_abort (snd (manager_handle_action 0 (m_idle_action m) False e None x)) = m_abort m"
    if "power_ok x" "m_abort x = m_abort m" for x e
    using power_handle_action [OF that(1) assms(2), of 0 False e None] that(2) by simp
  show ?thesis
    unfolding manager_dispatch_idle_action_def Let_def case_prod_beta
    using assms(1) timer by (auto simp: idle act)
qed

subsection \<open>Refused actions\<close>

text \<open>While an action is recorded no other one is started, and a lock that blocks an operation keeps it
  from being started.\<close>

lemma handle_execute_busy:
  assumes "m_delayed_action m = Some b" "a \<notin> {HANDLE_IGNORE, HANDLE_LOCK, HANDLE_SLEEP, HANDLE_KEXEC}"
  shows "handle_action_execute a ii e m = (- EALREADY, m)"
  using assms by (simp add: handle_action_execute_def assert_that_def Let_def)

lemma handle_execute_blocked:
  assumes "i \<in> set (m_inhibitors m)" "i_started (inh m i)" "i_mode (inh m i) \<in> {Some INHIBIT_BLOCK, Some INHIBIT_BLOCK_WEAK}"
    "i_what (inh m i) AND inhibit_what_of a \<noteq> 0" "power_action a"
  shows "snd (handle_action_execute a False e m) = m" "fst (handle_action_execute a False e m) \<le> 0"
proof -
  have "inhibitor_counts m (inhibit_what_of a) True False False 0 i"
    using assms(2-4) by (auto simp: inhibitor_counts_def Let_def)
  then have "fst (manager_is_inhibited (inhibit_what_of a) True False False 0 m)"
    using assms(1) manager_is_inhibited_iff by blast
  moreover have "assert_that (a \<notin> {HANDLE_IGNORE, HANDLE_LOCK, HANDLE_SLEEP}) m = m"
    using assms(5) by (auto simp: assert_that_def power_action_cases)
  ultimately show "snd (handle_action_execute a False e m) = m" "fst (handle_action_execute a False e m) \<le> 0"
    using power_action_what(1) [OF assms(5)] by (simp_all add: handle_action_execute_def)
qed

text \<open>A factory reset fails an assertion as soon as it is carried out or may be delayed.\<close>

lemma factory_reset_aborts:
  assumes "m_delayed_action m = None" "m_action_job m = None" "m_sleep_fork_action m = None"
    "0 \<le> ask (Ask_sleep_config ''parse'') m"
  shows "m_abort (snd (handle_action_execute HANDLE_FACTORY_RESET ii e m))"
proof -
  have what: "inhibit_what_of HANDLE_FACTORY_RESET = - 22" by (simp add: handle_action_lookup_def)
  show ?thesis
  proof (cases "m_inhibit_delay_max m > 0")
    case True
    have keep: "m_abort x \<Longrightarrow> m_abort (snd (delay_shutdown_or_sleep a x))" for a x
      by (simp add: delay_shutdown_or_sleep_def sys_def)
    have prepare: "m_abort x \<Longrightarrow> m_abort (snd (send_prepare_for a b x))" for a b x
      by (simp add: send_prepare_for_def sys_def assert_that_def Let_def)
    have run: "m_abort x \<Longrightarrow> m_abort (snd (elogind_execute_shutdown_or_sleep a x))" for a x
      by (simp add: elogind_execute_shutdown_or_sleep_def sys_def emit_def assert_that_def Let_def)
    have log: "m_abort x \<Longrightarrow> m_abort (if c then bus_manager_log_shutdown a x else x)" "m_abort x \<Longrightarrow> m_abort (assert_that d x)" for a c d x
      by (simp_all add: bus_manager_log_shutdown_def emit_def assert_that_def)
    have keep': "m_abort x \<Longrightarrow> m_abort (snd (execute_shutdown_or_sleep a x))" for a x
      unfolding execute_shutdown_or_sleep_def Let_def case_prod_beta by (simp add: power_frames prepare run log)
    show ?thesis using True assms
      by (simp add: handle_action_execute_def bus_manager_shutdown_or_sleep_now_or_later_def what
          inhibit_what_is_valid_def Let_def case_prod_beta assert_that_def keep keep')
  next
    case False
    have "m_abort (snd (send_prepare_for a b x)) \<longleftrightarrow> m_abort x \<or> inhibit_what_of a \<notin> {1, 2}" for a b x
      by (auto simp: send_prepare_for_def sys_def assert_that_def Let_def)
    then show ?thesis using False assms
      by (simp add: handle_action_execute_def bus_manager_shutdown_or_sleep_now_or_later_def what
          inhibit_what_is_valid_def Let_def case_prod_beta assert_that_def execute_shutdown_or_sleep_def
          elogind_execute_shutdown_or_sleep_def bus_manager_log_shutdown_def power_frames sys_def emit_def)
  qed
qed

end
