(* ===== verification/Button.thy ===== *)
theory Button
  imports Action
begin

text \<open>
  Power buttons, the lid and the dock (\<^verbatim>\<open>logind-button.c\<close>), with the questions of
  \<^verbatim>\<open>logind-core.c\<close> that decide what a closed lid means. An input device reports bit arrays, which
  are lists of 64-bit words as in C; the event read from it is an argument of the handler. The key
  codes are those of the kernel's \<^verbatim>\<open>input-event-codes.h\<close>.
\<close>

unbundle bit_operations_syntax

subsection \<open>Key codes and bit arrays\<close>

abbreviation (input) KEY_ESC :: nat where "KEY_ESC \<equiv> 1"
abbreviation (input) KEY_LEFTCTRL :: nat where "KEY_LEFTCTRL \<equiv> 29"
abbreviation (input) KEY_LEFTSHIFT :: nat where "KEY_LEFTSHIFT \<equiv> 42"
abbreviation (input) KEY_RIGHTSHIFT :: nat where "KEY_RIGHTSHIFT \<equiv> 54"
abbreviation (input) KEY_LEFTALT :: nat where "KEY_LEFTALT \<equiv> 56"
abbreviation (input) KEY_RIGHTCTRL :: nat where "KEY_RIGHTCTRL \<equiv> 97"
abbreviation (input) KEY_RIGHTALT :: nat where "KEY_RIGHTALT \<equiv> 100"
abbreviation (input) KEY_POWER :: nat where "KEY_POWER \<equiv> 116"
abbreviation (input) KEY_SLEEP :: nat where "KEY_SLEEP \<equiv> 142"
abbreviation (input) KEY_SUSPEND :: nat where "KEY_SUSPEND \<equiv> 205"
abbreviation (input) KEY_POWER2 :: nat where "KEY_POWER2 \<equiv> 356"
abbreviation (input) KEY_RESTART :: nat where "KEY_RESTART \<equiv> 408"
abbreviation (input) EV_KEY :: nat where "EV_KEY \<equiv> 1"
abbreviation (input) EV_SW :: nat where "EV_SW \<equiv> 5"
abbreviation (input) SW_LID :: nat where "SW_LID \<equiv> 0"
abbreviation (input) SW_DOCK :: nat where "SW_DOCK \<equiv> 5"
abbreviation (input) EADDRNOTAVAIL :: int where "EADDRNOTAVAIL \<equiv> 99"

definition keys_interested :: "nat list" where
  "keys_interested =
    [KEY_ESC, KEY_LEFTCTRL, KEY_LEFTSHIFT, KEY_RIGHTSHIFT, KEY_LEFTALT, KEY_RIGHTCTRL, KEY_RIGHTALT,
     KEY_POWER, KEY_SLEEP, KEY_SUSPEND, KEY_POWER2, KEY_RESTART]"

abbreviation (input) BUTTON_MODIFIER_NONE :: int where "BUTTON_MODIFIER_NONE \<equiv> 0"

definition keycode_modifier_table :: "(nat \<times> int) list" where
  "keycode_modifier_table =
    [(KEY_LEFTSHIFT, 1), (KEY_RIGHTSHIFT, 2), (KEY_LEFTCTRL, 4), (KEY_RIGHTCTRL, 8), (KEY_LEFTALT, 16),
     (KEY_RIGHTALT, 32)]"

definition BUTTON_MODIFIER_HAS_SHIFT :: "int \<Rightarrow> bool" where
  "BUTTON_MODIFIER_HAS_SHIFT modifier \<longleftrightarrow> modifier AND (1 OR 2) \<noteq> 0"

definition BUTTON_MODIFIER_HAS_CTRL :: "int \<Rightarrow> bool" where
  "BUTTON_MODIFIER_HAS_CTRL modifier \<longleftrightarrow> modifier AND (4 OR 8) \<noteq> 0"

definition BUTTON_MODIFIER_HAS_ALT :: "int \<Rightarrow> bool" where
  "BUTTON_MODIFIER_HAS_ALT modifier \<longleftrightarrow> modifier AND (16 OR 32) \<noteq> 0"

definition bitset_get :: "u64 list \<Rightarrow> nat \<Rightarrow> bool" where
  "bitset_get bits i = bit (bits ! (i div 64)) (i mod 64)"

definition bitset_put :: "nat \<Rightarrow> u64 list \<Rightarrow> u64 list" where
  "bitset_put i bits = bits[i div 64 := bits ! (i div 64) OR push_bit (i mod 64) 1]"

subsection \<open>What a closed lid means\<close>

definition manager_is_lid_closed :: "manager \<Rightarrow> bool" where
  "manager_is_lid_closed m = list_ex (\<lambda>b. b_lid_closed (btn m b)) (m_buttons m)"

definition manager_is_docked :: "manager \<Rightarrow> bool" where
  "manager_is_docked m = list_ex (\<lambda>b. b_docked (btn m b)) (m_buttons m)"

text \<open>The fourth entry is two string literals without a comma between them.\<close>

definition external_connectors :: "string list" where
  "external_connectors =
    [''VGA-'', ''DVI-I-'', ''DVI-D-'', ''DVI-A-'' @ ''Composite-'', ''SVIDEO-'', ''Component-'',
     ''DIN-'', ''DP-'', ''HDMI-A-'', ''HDMI-B-'', ''TV-'']"

definition counts_as_external :: "drm_device \<Rightarrow> bool" where
  "counts_as_external d \<longleftrightarrow>
     dr_parent_subsystem d = Some ''drm'' \<and>
     (case dr_sysname d of
        None \<Rightarrow> False
      | Some nn \<Rightarrow>
          (case dropWhile (\<lambda>c. c \<noteq> CHR ''-'') nn of
             [] \<Rightarrow> False
           | _ # rest \<Rightarrow> list_ex (\<lambda>p. take (length p) rest = p) external_connectors)) \<and>
     dr_enabled d = Some ''enabled'' \<and> dr_status d \<noteq> Some ''disconnected''"

definition manager_count_external_displays :: "manager \<Rightarrow> int" where
  "manager_count_external_displays m =
     (case w_drm (m_world m) of
        Inl r \<Rightarrow> r | Inr ds \<Rightarrow> int (length (filter counts_as_external ds)))"

definition manager_is_docked_or_external_displays :: "manager \<Rightarrow> bool" where
  "manager_is_docked_or_external_displays m \<longleftrightarrow>
     manager_is_docked m \<or> manager_count_external_displays m \<ge> 1"

definition manager_is_on_external_power :: "manager \<Rightarrow> bool" where
  "manager_is_on_external_power m \<longleftrightarrow> ask Ask_on_ac_power m \<noteq> 0"

definition manager_all_buttons_ignored :: "manager \<Rightarrow> bool" where
  "manager_all_buttons_ignored m \<longleftrightarrow>
     m_handle_power_key m = HANDLE_IGNORE \<and> m_handle_power_key_long_press m = HANDLE_IGNORE \<and>
     m_handle_suspend_key m = HANDLE_IGNORE \<and> m_handle_suspend_key_long_press m = HANDLE_IGNORE \<and>
     m_handle_hibernate_key m = HANDLE_IGNORE \<and> m_handle_hibernate_key_long_press m = HANDLE_IGNORE \<and>
     m_handle_reboot_key m = HANDLE_IGNORE \<and> m_handle_reboot_key_long_press m = HANDLE_IGNORE \<and>
     m_handle_lid_switch m = HANDLE_IGNORE \<and> m_handle_lid_switch_ep m \<in> {None, Some HANDLE_IGNORE} \<and>
     m_handle_lid_switch_docked m = HANDLE_IGNORE \<and> m_handle_secure_attention_key m = HANDLE_IGNORE"

subsection \<open>Buttons\<close>

definition new_button :: button where
  "new_button = \<lparr>b_io_event_source = False, b_check_event_source = False, b_seat = None, b_fd = - EBADF,
     b_modifier_mask = BUTTON_MODIFIER_NONE, b_lid_closed = False, b_docked = False\<rparr>"

text \<open>The result says whether the button could be entered.\<close>

definition button_new :: "string \<Rightarrow> manager \<Rightarrow> bool \<times> manager" where
  "button_new name m =
     (if name \<in> set (m_buttons m) then (False, m)
      else (True, upd_btn name (\<lambda>_. new_button) (m\<lparr>m_buttons := m_buttons m @ [name]\<rparr>)))"

definition button_free :: "string \<Rightarrow> manager \<Rightarrow> manager" where
  "button_free b m = safe_close (b_fd (btn m b)) (m\<lparr>m_buttons := remove1 b (m_buttons m)\<rparr>)"

definition button_set_seat :: "string \<Rightarrow> string option \<Rightarrow> manager \<Rightarrow> manager" where
  "button_set_seat b sn m = upd_btn b (b_seat_update (\<lambda>_. sn)) m"

definition button_get_keycode_modifier_mask :: "nat \<Rightarrow> int" where
  "button_get_keycode_modifier_mask keycode =
     (case map_of keycode_modifier_table keycode of None \<Rightarrow> BUTTON_MODIFIER_NONE | Some mk \<Rightarrow> mk)"

definition button_lid_switch_handle_action :: "bool \<Rightarrow> string option \<Rightarrow> manager \<Rightarrow> manager" where
  "button_lid_switch_handle_action is_edge seat m =
     (let handle = (if manager_is_docked_or_external_displays m then m_handle_lid_switch_docked m
                    else case m_handle_lid_switch_ep m of
                           None \<Rightarrow> m_handle_lid_switch m
                         | Some ep \<Rightarrow> if manager_is_on_external_power m then ep else m_handle_lid_switch m)
      in snd (manager_handle_action INHIBIT_HANDLE_LID_SWITCH handle (m_lid_switch_ignore_inhibited m)
                is_edge seat m))"

definition button_recheck :: "string \<Rightarrow> manager \<Rightarrow> manager" where
  "button_recheck b m =
     button_lid_switch_handle_action False (b_seat (btn m b)) (assert_that (b_lid_closed (btn m b)) m)"

definition button_install_check_event_source :: "string \<Rightarrow> manager \<Rightarrow> int \<times> manager" where
  "button_install_check_event_source b m =
     (if b_check_event_source (btn m b) then (0, m)
      else case sys (Sys_event_source ''button-check'') m of (r, m) \<Rightarrow>
        if r < 0 then (r, m)
        else sys (Sys_event_source ''button-check-priority'') (upd_btn b (b_check_event_source_update (\<lambda>_. True)) m))"

text \<open>The four keys with a long press: what is configured for each, the lock that inhibits it, and its
  timer.\<close>

datatype power_key = Power_key | Reboot_key | Suspend_key | Hibernate_key

definition handle_key :: "power_key \<Rightarrow> manager \<Rightarrow> HandleAction" where
  "handle_key k m = (case k of Power_key \<Rightarrow> m_handle_power_key m | Reboot_key \<Rightarrow> m_handle_reboot_key m
     | Suspend_key \<Rightarrow> m_handle_suspend_key m | Hibernate_key \<Rightarrow> m_handle_hibernate_key m)"

definition handle_key_long_press :: "power_key \<Rightarrow> manager \<Rightarrow> HandleAction" where
  "handle_key_long_press k m = (case k of
       Power_key \<Rightarrow> m_handle_power_key_long_press m | Reboot_key \<Rightarrow> m_handle_reboot_key_long_press m
     | Suspend_key \<Rightarrow> m_handle_suspend_key_long_press m | Hibernate_key \<Rightarrow> m_handle_hibernate_key_long_press m)"

definition key_ignore_inhibited :: "power_key \<Rightarrow> manager \<Rightarrow> bool" where
  "key_ignore_inhibited k m = (case k of
       Power_key \<Rightarrow> m_power_key_ignore_inhibited m | Reboot_key \<Rightarrow> m_reboot_key_ignore_inhibited m
     | Suspend_key \<Rightarrow> m_suspend_key_ignore_inhibited m | Hibernate_key \<Rightarrow> m_hibernate_key_ignore_inhibited m)"

definition key_inhibit_what :: "power_key \<Rightarrow> int" where
  "key_inhibit_what k = (case k of
       Power_key \<Rightarrow> INHIBIT_HANDLE_POWER_KEY | Reboot_key \<Rightarrow> INHIBIT_HANDLE_REBOOT_KEY
     | Suspend_key \<Rightarrow> INHIBIT_HANDLE_SUSPEND_KEY | Hibernate_key \<Rightarrow> INHIBIT_HANDLE_HIBERNATE_KEY)"

definition key_timer :: "power_key \<Rightarrow> manager \<Rightarrow> bool" where
  "key_timer k m = (case k of
       Power_key \<Rightarrow> m_power_key_long_press_event_source m
     | Reboot_key \<Rightarrow> m_reboot_key_long_press_event_source m
     | Suspend_key \<Rightarrow> m_suspend_key_long_press_event_source m
     | Hibernate_key \<Rightarrow> m_hibernate_key_long_press_event_source m)"

definition set_key_timer :: "power_key \<Rightarrow> bool \<Rightarrow> manager \<Rightarrow> manager" where
  "set_key_timer k x m = (case k of
       Power_key \<Rightarrow> m\<lparr>m_power_key_long_press_event_source := x\<rparr>
     | Reboot_key \<Rightarrow> m\<lparr>m_reboot_key_long_press_event_source := x\<rparr>
     | Suspend_key \<Rightarrow> m\<lparr>m_suspend_key_long_press_event_source := x\<rparr>
     | Hibernate_key \<Rightarrow> m\<lparr>m_hibernate_key_long_press_event_source := x\<rparr>)"

definition key_action :: "power_key \<Rightarrow> HandleAction \<Rightarrow> string \<Rightarrow> manager \<Rightarrow> manager" where
  "key_action k handle b m =
     snd (manager_handle_action (key_inhibit_what k) handle (key_ignore_inhibited k m) True (b_seat (btn m b)) m)"

definition long_press_handler :: "power_key \<Rightarrow> string \<Rightarrow> manager \<Rightarrow> manager" where
  "long_press_handler k b m =
     (let m = set_key_timer k False m in key_action k (handle_key_long_press k m) b m)"

abbreviation (input) LONG_PRESS_DURATION :: nat where "LONG_PRESS_DURATION \<equiv> 5 * USEC_PER_SEC"

definition start_long_press :: "power_key \<Rightarrow> manager \<Rightarrow> manager" where
  "start_long_press k m =
     (if key_timer k m then m
      else case sys (Sys_add_time ''long-press'' LONG_PRESS_DURATION) m of (r, m) \<Rightarrow>
        if r < 0 then m else set_key_timer k True m)"

definition key_pressed :: "power_key \<Rightarrow> string \<Rightarrow> manager \<Rightarrow> manager" where
  "key_pressed k b m =
     (if handle_key_long_press k m \<noteq> HANDLE_IGNORE \<and> handle_key_long_press k m \<noteq> handle_key k m
      then start_long_press k m
      else key_action k (handle_key k m) b m)"

definition key_released :: "power_key \<Rightarrow> string \<Rightarrow> manager \<Rightarrow> manager" where
  "key_released k b m =
     (if key_timer k m then key_action k (handle_key k m) b (set_key_timer k False m) else m)"

definition power_key_of :: "nat \<Rightarrow> power_key option" where
  "power_key_of c =
     (if c = KEY_POWER \<or> c = KEY_POWER2 then Some Power_key
      else if c = KEY_RESTART then Some Reboot_key
      else if c = KEY_SLEEP then Some Suspend_key
      else if c = KEY_SUSPEND then Some Hibernate_key
      else None)"

definition secure_attention :: "string \<Rightarrow> manager \<Rightarrow> manager" where
  "secure_attention b m =
     (if m_handle_secure_attention_key m = HANDLE_IGNORE then m
      else if \<not> BUTTON_MODIFIER_HAS_SHIFT (b_modifier_mask (btn m b)) \<or>
              \<not> BUTTON_MODIFIER_HAS_CTRL (b_modifier_mask (btn m b)) \<or>
              \<not> BUTTON_MODIFIER_HAS_ALT (b_modifier_mask (btn m b)) then m
      else snd (manager_handle_action 0 (m_handle_secure_attention_key m) True True (b_seat (btn m b)) m))"

record input_event =
  ev_type :: nat
  ev_code :: nat
  ev_value :: int

datatype event_read = Read_error int | Read_short | Read_event input_event

definition button_key_down :: "string \<Rightarrow> nat \<Rightarrow> manager \<Rightarrow> manager" where
  "button_key_down b c m =
     (case power_key_of c of
        Some k \<Rightarrow> key_pressed k b m
      | None \<Rightarrow>
          if c = KEY_ESC then secure_attention b m
          else upd_btn b (b_modifier_mask_update (\<lambda>x. x OR button_get_keycode_modifier_mask c))
                 (assert_that (c > 0) m))"

definition button_key_up :: "string \<Rightarrow> nat \<Rightarrow> manager \<Rightarrow> manager" where
  "button_key_up b c m =
     (case power_key_of c of
        Some k \<Rightarrow> key_released k b m
      | None \<Rightarrow>
          if c = KEY_ESC then m
          else upd_btn b (b_modifier_mask_update (\<lambda>x. x AND NOT (button_get_keycode_modifier_mask c)))
                 (assert_that (c > 0) m))"

definition button_switch_on :: "string \<Rightarrow> nat \<Rightarrow> manager \<Rightarrow> manager" where
  "button_switch_on b c m =
     (if c = SW_LID then
        let m = upd_btn b (b_lid_closed_update (\<lambda>_. True)) m;
            m = button_lid_switch_handle_action True (b_seat (btn m b)) m;
            m = snd (button_install_check_event_source b m)
        in manager_send_changed [''LidClosed''] m
      else if c = SW_DOCK then upd_btn b (b_docked_update (\<lambda>_. True)) m
      else m)"

definition button_switch_off :: "string \<Rightarrow> nat \<Rightarrow> manager \<Rightarrow> manager" where
  "button_switch_off b c m =
     (if c = SW_LID then
        manager_send_changed [''LidClosed'']
          (upd_btn b (b_lid_closed_update (\<lambda>_. False) \<circ> b_check_event_source_update (\<lambda>_. False)) m)
      else if c = SW_DOCK then upd_btn b (b_docked_update (\<lambda>_. False)) m
      else m)"

definition button_dispatch :: "string \<Rightarrow> event_read \<Rightarrow> manager \<Rightarrow> int \<times> manager" where
  "button_dispatch b x m =
     (case x of
        Read_error r \<Rightarrow> (if r \<noteq> - EAGAIN then r else 0, m)
      | Read_short \<Rightarrow> (- EIO, m)
      | Read_event ev \<Rightarrow>
          (0, if ev_type ev = EV_KEY \<and> ev_value ev > 0 then button_key_down b (ev_code ev) m
              else if ev_type ev = EV_KEY \<and> ev_value ev = 0 then button_key_up b (ev_code ev) m
              else if ev_type ev = EV_SW \<and> ev_value ev > 0 then button_switch_on b (ev_code ev) m
              else if ev_type ev = EV_SW \<and> ev_value ev = 0 then button_switch_off b (ev_code ev) m
              else m))"

subsection \<open>Opening the device\<close>

definition input_bits :: "int \<Rightarrow> string \<Rightarrow> manager \<Rightarrow> u64 list" where
  "input_bits fd req m = w_input_bits (m_world m) fd req"

definition has_power_keys :: "u64 list \<Rightarrow> bool" where
  "has_power_keys keys \<longleftrightarrow>
     bitset_get keys KEY_POWER \<or> bitset_get keys KEY_POWER2 \<or> bitset_get keys KEY_SLEEP \<or>
     bitset_get keys KEY_SUSPEND \<or> bitset_get keys KEY_RESTART"

definition has_secure_attention_keys :: "u64 list \<Rightarrow> bool" where
  "has_secure_attention_keys keys \<longleftrightarrow>
     (bitset_get keys KEY_LEFTSHIFT \<or> bitset_get keys KEY_RIGHTSHIFT) \<and>
     (bitset_get keys KEY_LEFTCTRL \<or> bitset_get keys KEY_RIGHTCTRL) \<and>
     (bitset_get keys KEY_LEFTALT \<or> bitset_get keys KEY_RIGHTALT) \<and> bitset_get keys KEY_ESC"

definition button_suitable_switches :: "int \<Rightarrow> u64 list \<Rightarrow> manager \<Rightarrow> int \<times> manager" where
  "button_suitable_switches fd types m =
     (if bitset_get types EV_SW then
        case sys (Sys_ioctl fd ''EVIOCGBIT(EV_SW)'') m of (r, m) \<Rightarrow>
          if r < 0 then (r, m)
          else let switches = input_bits fd ''EVIOCGBIT(EV_SW)'' m
               in (if bitset_get switches SW_LID \<or> bitset_get switches SW_DOCK then 1 else 0, m)
      else (0, m))"

definition button_suitable :: "int \<Rightarrow> manager \<Rightarrow> int \<times> manager" where
  "button_suitable fd m =
     (case sys (Sys_ioctl fd ''EVIOCGBIT(EV_SYN)'') m of (r, m) \<Rightarrow>
        if r < 0 then (r, m)
        else
        let types = input_bits fd ''EVIOCGBIT(EV_SYN)'' m
        in if bitset_get types EV_KEY then
             case sys (Sys_ioctl fd ''EVIOCGBIT(EV_KEY)'') m of (r, m) \<Rightarrow>
               if r < 0 then (r, m)
               else let keys = input_bits fd ''EVIOCGBIT(EV_KEY)'' m
                    in if has_power_keys keys \<or> has_secure_attention_keys keys then (1, m)
                       else button_suitable_switches fd types m
           else button_suitable_switches fd types m)"

definition modifier_mask_of :: "u64 list \<Rightarrow> int" where
  "modifier_mask_of keys =
     foldl (\<lambda>mk e. if bitset_get keys (fst e) then mk OR snd e else mk) BUTTON_MODIFIER_NONE keycode_modifier_table"

definition button_initialize_modifier_mask :: "string \<Rightarrow> manager \<Rightarrow> int \<times> manager" where
  "button_initialize_modifier_mask b m =
     (case sys (Sys_ioctl (b_fd (btn m b)) ''EVIOCGKEY'') m of (r, m) \<Rightarrow>
        if r < 0 then (r, m)
        else (0, upd_btn b (b_modifier_mask_update
                   (\<lambda>_. modifier_mask_of (input_bits (b_fd (btn m b)) ''EVIOCGKEY'' m))) m))"

text \<open>The arrays given to \<^verbatim>\<open>EVIOCSMASK\<close>, with the sizes of the source.\<close>

definition types_mask :: "u64 list" where
  "types_mask = bitset_put EV_SW (bitset_put EV_KEY (replicate (max EV_KEY EV_SW div 64 + 1) 0))"

definition keys_mask :: "u64 list" where
  "keys_mask = fold bitset_put keys_interested (replicate (KEY_RESTART div 64 + 1) 0)"

definition switches_mask :: "u64 list" where
  "switches_mask = bitset_put SW_DOCK (bitset_put SW_LID (replicate (max SW_LID SW_DOCK div 64 + 1) 0))"

definition button_set_mask :: "int \<Rightarrow> manager \<Rightarrow> int \<times> manager" where
  "button_set_mask fd m =
     (case sys (Sys_ioctl fd ''EVIOCSMASK(EV_SYN)'') m of (r, m) \<Rightarrow>
        if r < 0 then (r, m)
        else case sys (Sys_ioctl fd ''EVIOCSMASK(EV_KEY)'') m of (r, m) \<Rightarrow>
          if r < 0 then (r, m)
          else case sys (Sys_ioctl fd ''EVIOCSMASK(EV_SW)'') m of (r, m) \<Rightarrow>
            (if r < 0 then r else 0, m))"

text \<open>The part after the device has been found suitable; an error closes the descriptor.\<close>

definition button_watch :: "string \<Rightarrow> int \<Rightarrow> manager \<Rightarrow> int \<times> manager" where
  "button_watch b fd m =
     (let m = snd (button_set_mask fd m);
          m = upd_btn b (b_io_event_source_update (\<lambda>_. False)) m
      in case sys (Sys_add_io ''button'') m of (r, m) \<Rightarrow>
           if r < 0 then (r, safe_close fd m)
           else
           let m = upd_btn b (b_io_event_source_update (\<lambda>_. True) \<circ> b_fd_update (\<lambda>_. fd)) m;
               (r, m) = button_initialize_modifier_mask b m
           in (if r < 0 then r else 0, m))"

definition button_open :: "string \<Rightarrow> manager \<Rightarrow> int \<times> manager" where
  "button_open b m =
     (let m = upd_btn b (b_fd_update (\<lambda>_. - EBADF)) (safe_close (b_fd (btn m b)) m)
      in case sys (Sys_open_device (''/dev/input/'' @ b)) m of (fd, m) \<Rightarrow>
           if fd < 0 then (fd, m)
           else case button_suitable fd m of (r, m) \<Rightarrow>
             if r < 0 then (r, safe_close fd m)
             else if r = 0 then (- EADDRNOTAVAIL, safe_close fd m)
             else case sys (Sys_ioctl fd ''EVIOCGNAME'') m of (r, m) \<Rightarrow>
               if r < 0 then (r, safe_close fd m) else button_watch b fd m)"

definition button_check_switches :: "string \<Rightarrow> manager \<Rightarrow> int \<times> manager" where
  "button_check_switches b m =
     (if b_fd (btn m b) < 0 then (- EINVAL, m)
      else case sys (Sys_ioctl (b_fd (btn m b)) ''EVIOCGSW'') m of (r, m) \<Rightarrow>
        if r < 0 then (r, m)
        else
        let switches = input_bits (b_fd (btn m b)) ''EVIOCGSW'' m;
            m = upd_btn b (b_lid_closed_update (\<lambda>_. bitset_get switches SW_LID) \<circ>
                           b_docked_update (\<lambda>_. bitset_get switches SW_DOCK)) m;
            m = manager_send_changed [''LidClosed''] m
        in (0, if b_lid_closed (btn m b) then snd (button_install_check_event_source b m) else m))"

end
