(* ===== verification/Button_Inv.thy ===== *)
theory Button_Inv
  imports Button
begin

text \<open>
  Facts about buttons and keys: which part of the state a power operation leaves alone, the bit
  arrays, the modifier keys as a refinement of the set of held keys, a key press as exactly one
  action, the lid, and that no event of an input device disturbs the object graph or the power
  invariant.
\<close>

subsection \<open>What a power operation leaves alone\<close>

text \<open>Everything but the trace and the power and idle state.\<close>

definition power_part :: "manager \<Rightarrow> manager" where
  "power_part m = m\<lparr>m_trace := [], m_abort := False, m_delayed_action := None, m_action_job := None,
     m_inhibit_timeout_source := False, m_sleep_fork_action := None, m_sleep_fork_pid := 0, m_tool_fork_pid := 0,
     m_lid_switch_ignore_event_source := False, m_was_idle := False, m_idle_action_not_before_usec := 0,
     m_idle_action_event_source := False\<rparr>"

definition power_only :: "manager \<Rightarrow> manager \<Rightarrow> bool" where
  "power_only m m' \<longleftrightarrow> power_part m' = power_part m"

lemma power_only_refl [simp, intro]: "power_only m m"
  by (simp add: power_only_def)

lemma power_only_trans [trans]: "power_only m m' \<Longrightarrow> power_only m' m'' \<Longrightarrow> power_only m m''"
  by (simp add: power_only_def)

lemma power_only_field:
  assumes "power_only m m'" "\<And>x. f (power_part x) = f x"
  shows "f m' = f m"
  using assms unfolding power_only_def by metis

lemma power_only_fields:
  assumes "power_only m m'"
  shows "btn m' = btn m" "m_buttons m' = m_buttons m" "inh m' = inh m" "m_inhibitors m' = m_inhibitors m"
    "key_timer k m' = key_timer k m" "m_idle_action m' = m_idle_action m" "m_env m' = m_env m"
    "handle_key k m' = handle_key k m" "handle_key_long_press k m' = handle_key_long_press k m"
    "m_handle_lid_switch m' = m_handle_lid_switch m" "m_handle_lid_switch_ep m' = m_handle_lid_switch_ep m"
    "m_handle_lid_switch_docked m' = m_handle_lid_switch_docked m"
    "m_handle_secure_attention_key m' = m_handle_secure_attention_key m" "m_world m' = m_world m"
  by (rule power_only_field [OF assms],
      simp add: power_part_def key_timer_def handle_key_def handle_key_long_press_def split: power_key.split)+

lemma power_only_graph:
  assumes "power_only m m'"
  shows "same_graph m m'"
  unfolding same_graph_def
  by (intro conjI; rule power_only_field [OF assms]; simp add: power_part_def)

lemma power_only_upd:
  "power_only m (m\<lparr>m_trace := a\<rparr>)" "power_only m (m\<lparr>m_abort := b\<rparr>)" "power_only m (m\<lparr>m_delayed_action := c\<rparr>)"
  "power_only m (m\<lparr>m_action_job := d\<rparr>)" "power_only m (m\<lparr>m_inhibit_timeout_source := e\<rparr>)"
  "power_only m (m\<lparr>m_sleep_fork_action := f\<rparr>)" "power_only m (m\<lparr>m_sleep_fork_pid := g\<rparr>)"
  "power_only m (m\<lparr>m_tool_fork_pid := h\<rparr>)" "power_only m (m\<lparr>m_lid_switch_ignore_event_source := i\<rparr>)"
  "power_only m (m\<lparr>m_was_idle := j\<rparr>)" "power_only m (m\<lparr>m_idle_action_not_before_usec := k\<rparr>)"
  "power_only m (m\<lparr>m_idle_action_event_source := l\<rparr>)"
  by (simp_all add: power_only_def power_part_def)

lemmas po_upd = power_only_upd [THEN [2] power_only_trans]

lemma po_sys:
  "power_only m m' \<Longrightarrow> power_only m (snd (sys e m'))" "power_only m m' \<Longrightarrow> power_only m (emit e m')"
  "power_only m m' \<Longrightarrow> power_only m (assert_that b m')"
  by (simp_all add: sys_def emit_def assert_that_def po_upd)

lemma po_prepare: "power_only m m' \<Longrightarrow> power_only m (snd (send_prepare_for a b m'))"
  by (simp add: send_prepare_for_def Let_def case_prod_beta po_sys)

lemma po_lid_ignore: "power_only m m' \<Longrightarrow> power_only m (snd (manager_set_lid_switch_ignore t m'))"
  by (simp add: manager_set_lid_switch_ignore_def Let_def case_prod_beta po_sys po_upd)

lemma po_elogind: "power_only m m' \<Longrightarrow> power_only m (snd (elogind_execute_shutdown_or_sleep a m'))"
  by (simp add: elogind_execute_shutdown_or_sleep_def Let_def case_prod_beta po_sys po_upd)

lemma po_execute: "power_only m m' \<Longrightarrow> power_only m (snd (execute_shutdown_or_sleep a m'))"
  by (simp add: execute_shutdown_or_sleep_def bus_manager_log_shutdown_def Let_def case_prod_beta po_sys po_upd po_elogind
      po_prepare po_lid_ignore)

lemma po_dispatch_delayed: "power_only m m' \<Longrightarrow> power_only m (snd (manager_dispatch_delayed t m'))"
  by (simp add: manager_dispatch_delayed_def Let_def case_prod_beta po_sys po_upd po_execute split: option.split)

lemma po_delay: "power_only m m' \<Longrightarrow> power_only m (snd (delay_shutdown_or_sleep a m'))"
  by (simp add: delay_shutdown_or_sleep_def case_prod_beta po_sys po_upd)

lemma po_cancel: "power_only m m' \<Longrightarrow> power_only m (cancel_delayed_action m')"
  by (simp add: cancel_delayed_action_def Let_def po_sys po_upd)

lemma po_now_or_later: "power_only m m' \<Longrightarrow> power_only m (snd (bus_manager_shutdown_or_sleep_now_or_later a m'))"
  by (simp add: bus_manager_shutdown_or_sleep_now_or_later_def Let_def po_sys po_prepare po_delay po_execute)

lemma po_handle_execute: "power_only m m' \<Longrightarrow> power_only m (snd (handle_action_execute a i e m'))"
  by (simp add: handle_action_execute_def Let_def case_prod_beta po_sys po_now_or_later)

lemma po_sleep_execute: "power_only m m' \<Longrightarrow> power_only m (snd (handle_action_sleep_execute a i e m'))"
  by (simp add: handle_action_sleep_execute_def handle_action_sleep_one_def Let_def po_sys po_handle_execute split: option.split)

lemma po_lock_all: "power_only m m' \<Longrightarrow> power_only m (snd (session_send_lock_all l m'))"
  unfolding session_send_lock_all_def session_send_lock_def snd_gather
  by (rule fold_invariant [where Q = "\<lambda>_. True"]) (auto intro: po_sys)

lemma po_handle_action: "power_only m m' \<Longrightarrow> power_only m (snd (manager_handle_action k a i e st m'))"
  by (simp add: manager_handle_action_def manager_handle_action_secure_attention_key_def Let_def po_sys
      po_lock_all po_sleep_execute po_handle_execute split: option.split)

lemma po_sigchld: "power_only m m' \<Longrightarrow> power_only m (elogind_sigchld_handler m')"
  unfolding elogind_sigchld_handler_def Let_def
  by (auto intro!: po_upd po_prepare split: option.split)

lemma po_idle_timer: "power_only m m' \<Longrightarrow> power_only m (snd (idle_action_timer t m'))"
  by (simp add: idle_action_timer_def case_prod_beta po_sys po_upd)

lemma po_idle: "power_only m m' \<Longrightarrow> power_only m (snd (manager_dispatch_idle_action m'))"
  unfolding manager_dispatch_idle_action_def Let_def case_prod_beta
  by (auto intro!: po_idle_timer po_upd po_handle_action)

subsection \<open>Bit arrays\<close>

lemma length_bitset_put [simp]: "length (bitset_put i bits) = length bits"
  by (simp add: bitset_put_def)

lemma bitset_put_get:
  assumes "i < 64 * length bits"
  shows "bitset_get (bitset_put i bits) j \<longleftrightarrow> j = i \<or> bitset_get bits j"
proof -
  have len: "i div 64 < length bits" using assms by (simp add: less_mult_imp_div_less)
  show ?thesis
  proof (cases "j div 64 = i div 64")
    case True
    have "i mod 64 = j mod 64 \<longleftrightarrow> j = i" using True by (metis div_mod_decomp)
    then show ?thesis
      using True len by (auto simp: bitset_get_def bitset_put_def bit_or_iff bit_exp_iff)
  next
    case False
    then show ?thesis using len by (auto simp: bitset_get_def bitset_put_def)
  qed
qed

lemma bitset_fold_get:
  assumes "\<forall>i \<in> set is. i < 64 * length bits"
  shows "bitset_get (fold bitset_put is bits) j \<longleftrightarrow> j \<in> set is \<or> bitset_get bits j"
  using assms by (induction "is" arbitrary: bits) (auto simp: bitset_put_get)

lemma bitset_zero: "i < 64 * n \<Longrightarrow> \<not> bitset_get (replicate n 0) i"
  by (simp add: bitset_get_def less_mult_imp_div_less)

text \<open>Every key of the table has a place in the array, and the array holds exactly these keys.\<close>

lemma keys_mask_get:
  assumes "j < 64 * length keys_mask"
  shows "bitset_get keys_mask j \<longleftrightarrow> j \<in> set keys_interested"
proof -
  have fits: "\<forall>i \<in> set keys_interested. i < 64 * length (replicate (408 div 64 + 1) (0 :: u64))"
    by (simp add: keys_interested_def)
  have "length (fold bitset_put is bits) = length bits" for "is" bits
    by (induction "is" arbitrary: bits) simp_all
  then have "j < 64 * (408 div 64 + 1)" using assms by (simp add: keys_mask_def)
  then show ?thesis
    using bitset_fold_get [OF fits, of j] bitset_zero by (simp add: keys_mask_def)
qed

subsection \<open>Modifier keys\<close>

text \<open>The abstract state is the set of keys held down; the mask represents it.\<close>

definition mask_of_held :: "nat set \<Rightarrow> int" where
  "mask_of_held H = foldl (\<lambda>mk e. if fst e \<in> H then mk OR snd e else mk) 0 keycode_modifier_table"

definition held_step :: "event_read \<Rightarrow> nat set \<Rightarrow> nat set" where
  "held_step x H = (case x of
       Read_event ev \<Rightarrow> if ev_type ev = EV_KEY \<and> ev_value ev > 0 then insert (ev_code ev) H
                        else if ev_type ev = EV_KEY \<and> ev_value ev = 0 then H - {ev_code ev} else H
     | _ \<Rightarrow> H)"

lemma bit_powers:
  "bit (1 :: int) n \<longleftrightarrow> n = 0" "bit (2 :: int) n \<longleftrightarrow> n = 1" "bit (4 :: int) n \<longleftrightarrow> n = 2" "bit (8 :: int) n \<longleftrightarrow> n = 3"
  "bit (16 :: int) n \<longleftrightarrow> n = 4" "bit (32 :: int) n \<longleftrightarrow> n = 5"
  using bit_exp_iff [of 0 n, where 'a = int] bit_exp_iff [of 1 n, where 'a = int] bit_exp_iff [of 2 n, where 'a = int]
    bit_exp_iff [of 3 n, where 'a = int] bit_exp_iff [of 4 n, where 'a = int] bit_exp_iff [of 5 n, where 'a = int]
  by (auto simp: possible_bit_def)

lemma bit_mask_of_held:
  "bit (mask_of_held H) n \<longleftrightarrow> n = 0 \<and> 42 \<in> H \<or> n = 1 \<and> 54 \<in> H \<or> n = 2 \<and> 29 \<in> H \<or> n = 3 \<and> 97 \<in> H \<or>
     n = 4 \<and> 56 \<in> H \<or> n = 5 \<and> 100 \<in> H"
proof -
  have opt: "(if P then x OR y else x) = x OR (if P then y else 0)" for P and x y :: int by simp
  have bit_if: "bit (if P then y else 0) n \<longleftrightarrow> P \<and> bit y n" for P and y :: int by simp
  show ?thesis
    unfolding mask_of_held_def keycode_modifier_table_def foldl.simps fst_conv snd_conv opt bit_or_iff bit_if bit_powers
    by auto
qed

lemma bit_modifier_mask:
  "bit (button_get_keycode_modifier_mask c) n \<longleftrightarrow> bit (mask_of_held {c}) n"
  unfolding bit_mask_of_held
  by (auto simp: button_get_keycode_modifier_mask_def keycode_modifier_table_def bit_powers)

lemma mask_of_held_insert: "mask_of_held (insert c H) = mask_of_held H OR button_get_keycode_modifier_mask c"
  by (rule bit_eqI) (auto simp: bit_or_iff bit_modifier_mask bit_mask_of_held)

lemma mask_of_held_remove: "mask_of_held (H - {c}) = mask_of_held H AND NOT (button_get_keycode_modifier_mask c)"
  by (rule bit_eqI) (auto simp: bit_and_iff bit_not_iff bit_modifier_mask bit_mask_of_held)

lemma mask_of_held_has:
  "BUTTON_MODIFIER_HAS_SHIFT (mask_of_held H) \<longleftrightarrow> 42 \<in> H \<or> 54 \<in> H"
  "BUTTON_MODIFIER_HAS_CTRL (mask_of_held H) \<longleftrightarrow> 29 \<in> H \<or> 97 \<in> H"
  "BUTTON_MODIFIER_HAS_ALT (mask_of_held H) \<longleftrightarrow> 56 \<in> H \<or> 100 \<in> H"
  unfolding BUTTON_MODIFIER_HAS_SHIFT_def BUTTON_MODIFIER_HAS_CTRL_def BUTTON_MODIFIER_HAS_ALT_def
  by (cases "42 \<in> H"; cases "54 \<in> H"; cases "29 \<in> H"; cases "97 \<in> H"; cases "56 \<in> H"; cases "100 \<in> H";
      simp add: mask_of_held_def keycode_modifier_table_def)+

lemma power_keys_no_modifiers: "power_key_of c = Some k \<Longrightarrow> button_get_keycode_modifier_mask c = 0"
  by (auto simp: power_key_of_def button_get_keycode_modifier_mask_def keycode_modifier_table_def split: if_splits)

lemma key_timer_set [simp]:
  "key_timer k (set_key_timer k x m) = x" "btn (set_key_timer k x m) = btn m"
  "m_buttons (set_key_timer k x m) = m_buttons m" "handle_key k (set_key_timer k x m) = handle_key k m"
  "handle_key_long_press k (set_key_timer k x m) = handle_key_long_press k m"
  by (cases k; simp add: key_timer_def set_key_timer_def handle_key_def handle_key_long_press_def)+

lemma set_key_timer_again:
  "set_key_timer k x (set_key_timer k y m) = set_key_timer k x m" "key_timer k m = x \<Longrightarrow> set_key_timer k x m = m"
  by (cases k; auto simp: key_timer_def set_key_timer_def)+

lemma key_action_only: "power_only m m' \<Longrightarrow> power_only m (key_action k a b m')"
  by (simp add: key_action_def po_handle_action)

text \<open>Key events change no button but for the mask of the one they come from.\<close>

lemma btn_keys:
  "btn (key_action k a b m) = btn m" "btn (start_long_press k m) = btn m" "btn (key_pressed k b m) = btn m"
  "btn (key_released k b m) = btn m" "btn (long_press_handler k b m) = btn m" "btn (secure_attention b m) = btn m"
  "btn (button_lid_switch_handle_action e st m) = btn m"
proof -
  show act: "btn (key_action k a b m) = btn m" for a m
    using power_only_fields(1) [OF key_action_only [OF power_only_refl]] by simp
  show start: "btn (start_long_press k m) = btn m"
    by (simp add: start_long_press_def sys_def)
  show "btn (key_pressed k b m) = btn m" "btn (key_released k b m) = btn m" "btn (long_press_handler k b m) = btn m"
    by (simp_all add: key_pressed_def key_released_def long_press_handler_def act start)
  show "btn (secure_attention b m) = btn m" "btn (button_lid_switch_handle_action e st m) = btn m"
    using power_only_fields(1) [OF po_handle_action [OF power_only_refl]]
    by (simp_all add: secure_attention_def button_lid_switch_handle_action_def Let_def)
qed

lemma btn_sys [simp]: "btn (snd (sys e m)) = btn m" "btn (emit e m) = btn m" "btn (assert_that c m) = btn m"
  by (simp_all add: sys_def emit_def assert_that_def)

lemma btn_upd [simp]: "btn (upd_btn b f m) = (btn m)(b := f (btn m b))"
  by (simp add: upd_btn_def)

lemma modifiers_switches:
  "b_modifier_mask (btn (button_switch_on b c m) b) = b_modifier_mask (btn m b)"
  "b_modifier_mask (btn (button_switch_off b c m) b) = b_modifier_mask (btn m b)"
  by (simp_all add: button_switch_on_def button_switch_off_def Let_def button_install_check_event_source_def
      case_prod_beta manager_send_changed_def btn_keys)

lemma modifiers_refine:
  assumes "b_modifier_mask (btn m b) = mask_of_held H"
  shows "b_modifier_mask (btn (snd (button_dispatch b x m)) b) = mask_of_held (held_step x H)"
proof (cases x)
  case (Read_event ev)
  have esc: "button_get_keycode_modifier_mask (Suc 0) = 0"
    by (simp add: button_get_keycode_modifier_mask_def keycode_modifier_table_def)
  have down: "b_modifier_mask (btn (button_key_down b c m) b) = mask_of_held (insert c H)" for c
    using assms power_keys_no_modifiers [of c]
    by (auto simp: button_key_down_def btn_keys mask_of_held_insert esc split: option.split)
  have up: "b_modifier_mask (btn (button_key_up b c m) b) = mask_of_held (H - {c})" for c
    using assms power_keys_no_modifiers [of c]
    by (auto simp: button_key_up_def btn_keys mask_of_held_remove esc split: option.split)
  show ?thesis
    using assms by (simp add: Read_event button_dispatch_def held_step_def down up modifiers_switches)
qed (use assms in \<open>simp_all add: button_dispatch_def held_step_def\<close>)

text \<open>So the secure attention key is recognised exactly when its modifiers are held.\<close>

lemma secure_attention_held:
  assumes "b_modifier_mask (btn m b) = mask_of_held H" "m_handle_secure_attention_key m = HANDLE_SECURE_ATTENTION_KEY"
    "b_seat (btn m b) = Some st" "st \<in> set (m_seats m)"
  shows "button_key_down b 1 m =
    (if (42 \<in> H \<or> 54 \<in> H) \<and> (29 \<in> H \<or> 97 \<in> H) \<and> (56 \<in> H \<or> 100 \<in> H)
     then emit (Sys_emit (''SecureAttentionKey '' @ st)) m else m)"
  using assms
  by (auto simp: button_key_down_def power_key_of_def secure_attention_def mask_of_held_has manager_handle_action_def
      manager_handle_action_secure_attention_key_def)

subsection \<open>One action for each press of a key\<close>

lemma key_press_once:
  assumes "\<not> key_timer k m"
  defines "long \<equiv> handle_key_long_press k m"
    and "m1 \<equiv> snd (sys (Sys_add_time ''long-press'' (5 * USEC_PER_SEC)) m)"
  shows "long = HANDLE_IGNORE \<or> long = handle_key k m \<Longrightarrow>
      key_released k b (key_pressed k b m) = key_action k (handle_key k m) b m"
    "long \<noteq> HANDLE_IGNORE \<Longrightarrow> long \<noteq> handle_key k m \<Longrightarrow>
      0 \<le> ask (Sys_add_time ''long-press'' (5 * USEC_PER_SEC)) m \<Longrightarrow>
      key_released k b (key_pressed k b m) = key_action k (handle_key k m) b m1"
    "long \<noteq> HANDLE_IGNORE \<Longrightarrow> long \<noteq> handle_key k m \<Longrightarrow>
      0 \<le> ask (Sys_add_time ''long-press'' (5 * USEC_PER_SEC)) m \<Longrightarrow>
      key_released k b (long_press_handler k b (key_pressed k b m)) = key_action k long b m1"
proof -
  have timer: "key_timer k (key_action k a b x) = key_timer k x" for a x
    using power_only_fields(5) [OF key_action_only [OF power_only_refl]] by simp
  have m1: "\<not> key_timer k m1" "handle_key k m1 = handle_key k m" "handle_key_long_press k m1 = handle_key_long_press k m"
    using assms(1) by (cases k; simp add: m1_def sys_def key_timer_def handle_key_def handle_key_long_press_def)+
  have off: "set_key_timer k False (set_key_timer k True m1) = m1" "set_key_timer k False m1 = m1"
    using m1(1) by (simp_all add: set_key_timer_again)
  have press: "key_pressed k b m = set_key_timer k True m1"
    if "long \<noteq> HANDLE_IGNORE" "long \<noteq> handle_key k m" "0 \<le> ask (Sys_add_time ''long-press'' (5 * USEC_PER_SEC)) m"
    using assms(1) that by (simp add: key_pressed_def start_long_press_def long_def m1_def sys_def ask_def)
  show "long = HANDLE_IGNORE \<or> long = handle_key k m \<Longrightarrow>
      key_released k b (key_pressed k b m) = key_action k (handle_key k m) b m"
    using assms(1) timer by (auto simp: key_released_def key_pressed_def long_def)
  show "long \<noteq> HANDLE_IGNORE \<Longrightarrow> long \<noteq> handle_key k m \<Longrightarrow>
      0 \<le> ask (Sys_add_time ''long-press'' (5 * USEC_PER_SEC)) m \<Longrightarrow>
      key_released k b (key_pressed k b m) = key_action k (handle_key k m) b m1"
    by (simp add: press key_released_def off m1)
  show "long \<noteq> HANDLE_IGNORE \<Longrightarrow> long \<noteq> handle_key k m \<Longrightarrow>
      0 \<le> ask (Sys_add_time ''long-press'' (5 * USEC_PER_SEC)) m \<Longrightarrow>
      key_released k b (long_press_handler k b (key_pressed k b m)) = key_action k long b m1"
    using m1(1) by (simp add: press key_released_def long_press_handler_def off m1 long_def timer)
qed

text \<open>The timer holds a pointer to the button, and freeing the button does not cancel it.\<close>

lemma long_press_outlives_button:
  assumes "key_timer k m" "distinct (m_buttons m)"
  shows "key_timer k (button_free b m)" "b \<notin> set (m_buttons (button_free b m))"
  using assms by (cases k; simp add: button_free_def safe_close_def emit_def key_timer_def)+

subsection \<open>The lid\<close>

text \<open>While the recheck handler is installed the lid is closed, so its assertion holds.\<close>

definition lid_ok :: "manager \<Rightarrow> bool" where
  "lid_ok m \<longleftrightarrow> distinct (m_buttons m) \<and>
     (\<forall>b \<in> set (m_buttons m). b_check_event_source (btn m b) \<longrightarrow> b_lid_closed (btn m b))"

lemma buttons_upd [simp]:
  "m_buttons (upd_btn b f m) = m_buttons m" "m_buttons (snd (sys e m)) = m_buttons m" "m_buttons (emit e m) = m_buttons m"
  "m_buttons (assert_that c m) = m_buttons m" "m_buttons (manager_send_changed ps m) = m_buttons m"
  "btn (manager_send_changed ps m) = btn m" "btn (safe_close fd m) = btn m" "m_buttons (safe_close fd m) = m_buttons m"
  by (simp_all add: upd_btn_def sys_def emit_def assert_that_def manager_send_changed_def safe_close_def)

lemma buttons_keys:
  "m_buttons (key_action k a b m) = m_buttons m" "m_buttons (start_long_press k m) = m_buttons m"
  "m_buttons (key_pressed k b m) = m_buttons m" "m_buttons (key_released k b m) = m_buttons m"
  "m_buttons (long_press_handler k b m) = m_buttons m" "m_buttons (secure_attention b m) = m_buttons m"
  "m_buttons (button_lid_switch_handle_action e st m) = m_buttons m"
proof -
  show act: "m_buttons (key_action k a b m) = m_buttons m" for a m
    using power_only_fields(2) [OF key_action_only [OF power_only_refl]] by simp
  show start: "m_buttons (start_long_press k m) = m_buttons m"
    by (simp add: start_long_press_def sys_def)
  show "m_buttons (key_pressed k b m) = m_buttons m" "m_buttons (key_released k b m) = m_buttons m"
    "m_buttons (long_press_handler k b m) = m_buttons m"
    by (simp_all add: key_pressed_def key_released_def long_press_handler_def act start)
  show "m_buttons (secure_attention b m) = m_buttons m" "m_buttons (button_lid_switch_handle_action e st m) = m_buttons m"
    using power_only_fields(2) [OF po_handle_action [OF power_only_refl]]
    by (simp_all add: secure_attention_def button_lid_switch_handle_action_def Let_def)
qed

lemma lid_ok_dispatch: "lid_ok m \<Longrightarrow> lid_ok (snd (button_dispatch b x m))"
  by (auto simp: lid_ok_def button_dispatch_def button_key_down_def button_key_up_def button_switch_on_def
      button_switch_off_def Let_def button_install_check_event_source_def case_prod_beta btn_keys buttons_keys
      split: event_read.split option.split)

lemma lid_ok_ops:
  "lid_ok m \<Longrightarrow> lid_ok (snd (button_new b m))" "lid_ok m \<Longrightarrow> lid_ok (button_free b m)"
  "lid_ok m \<Longrightarrow> lid_ok (button_set_seat b st m)" "lid_ok m \<Longrightarrow> lid_ok (long_press_handler k b m)"
  "lid_ok m \<Longrightarrow> lid_ok (button_recheck b m)"
  "lid_ok m \<Longrightarrow> \<not> b_check_event_source (btn m b) \<Longrightarrow> lid_ok (snd (button_check_switches b m))"
  by (auto simp: lid_ok_def button_new_def new_button_def button_free_def button_set_seat_def button_recheck_def
      button_check_switches_def Let_def button_install_check_event_source_def case_prod_beta btn_keys buttons_keys)

text \<open>Of a button, opening its device touches the descriptor, the event source and the mask.\<close>

lemma suitable_btn [simp]:
  "btn (snd (button_suitable fd m)) = btn m" "m_buttons (snd (button_suitable fd m)) = m_buttons m"
  "btn (snd (button_set_mask fd m)) = btn m" "m_buttons (snd (button_set_mask fd m)) = m_buttons m"
  by (simp_all add: button_suitable_def button_suitable_switches_def button_set_mask_def Let_def case_prod_beta)

lemma lid_ok_frames:
  "lid_ok (snd (sys e m)) = lid_ok m" "lid_ok (safe_close fd m) = lid_ok m"
  "lid_ok (snd (button_set_mask fd m)) = lid_ok m" "lid_ok (snd (button_suitable fd m)) = lid_ok m"
  by (simp_all add: lid_ok_def)

lemma lid_ok_upd:
  assumes "\<And>x. b_check_event_source (f x) = b_check_event_source x" "\<And>x. b_lid_closed (f x) = b_lid_closed x"
  shows "lid_ok (upd_btn b f m) = lid_ok m"
  using assms by (auto simp: lid_ok_def)

lemma lid_ok_open: "lid_ok m \<Longrightarrow> lid_ok (snd (button_open b m))"
  by (simp add: button_open_def button_watch_def button_initialize_modifier_mask_def Let_def case_prod_beta
      lid_ok_frames lid_ok_upd)

lemma recheck_closed:
  assumes "lid_ok m" "b \<in> set (m_buttons m)" "b_check_event_source (btn m b)"
  shows "button_recheck b m = button_lid_switch_handle_action False (b_seat (btn m b)) m"
  using assms by (simp add: lid_ok_def button_recheck_def assert_that_def)

subsection \<open>The object graph\<close>

lemma sg_power: "same_graph m m' \<Longrightarrow> power_only m' m'' \<Longrightarrow> same_graph m m''"
  using power_only_graph same_graph_trans by blast

lemma sg_key_timer: "same_graph m m' \<Longrightarrow> same_graph m (set_key_timer k x m')"
  by (cases k) (simp_all add: set_key_timer_def same_graph_def)

lemma sg_keys:
  "same_graph m m' \<Longrightarrow> same_graph m (key_action k a b m')" "same_graph m m' \<Longrightarrow> same_graph m (key_pressed k b m')"
  "same_graph m m' \<Longrightarrow> same_graph m (key_released k b m')" "same_graph m m' \<Longrightarrow> same_graph m (long_press_handler k b m')"
  "same_graph m m' \<Longrightarrow> same_graph m (secure_attention b m')"
  "same_graph m m' \<Longrightarrow> same_graph m (button_lid_switch_handle_action e st m')"
proof -
  show act: "same_graph m m' \<Longrightarrow> same_graph m (key_action k a b m')" for a m'
    using sg_power [OF _ key_action_only [OF power_only_refl]] .
  have start: "same_graph m m' \<Longrightarrow> same_graph m (start_long_press k m')"
    by (simp add: start_long_press_def case_prod_beta sg_basic sg_key_timer)
  show "same_graph m m' \<Longrightarrow> same_graph m (key_pressed k b m')" "same_graph m m' \<Longrightarrow> same_graph m (key_released k b m')"
    "same_graph m m' \<Longrightarrow> same_graph m (long_press_handler k b m')"
    by (simp_all add: key_pressed_def key_released_def long_press_handler_def Let_def act start sg_key_timer)
  show "same_graph m m' \<Longrightarrow> same_graph m (secure_attention b m')"
    "same_graph m m' \<Longrightarrow> same_graph m (button_lid_switch_handle_action e st m')"
    using sg_power [OF _ po_handle_action [OF power_only_refl]]
    by (simp_all add: secure_attention_def button_lid_switch_handle_action_def Let_def)
qed

lemma sg_install: "same_graph m m' \<Longrightarrow> same_graph m (snd (button_install_check_event_source b m'))"
  by (simp add: button_install_check_event_source_def case_prod_beta sg_basic)

lemma sg_dispatch: "same_graph m m' \<Longrightarrow> same_graph m (snd (button_dispatch b x m'))"
  by (simp add: button_dispatch_def button_key_down_def button_key_up_def button_switch_on_def button_switch_off_def
      Let_def sg_keys sg_basic sg_install split: event_read.split option.split)

lemma sg_buttons:
  "same_graph m m' \<Longrightarrow> same_graph m (snd (button_new b m'))" "same_graph m m' \<Longrightarrow> same_graph m (button_free b m')"
  "same_graph m m' \<Longrightarrow> same_graph m (button_set_seat b st m')" "same_graph m m' \<Longrightarrow> same_graph m (button_recheck b m')"
  "same_graph m m' \<Longrightarrow> same_graph m (snd (button_check_switches b m'))"
  by (simp_all add: button_new_def button_free_def button_set_seat_def button_recheck_def button_check_switches_def
      Let_def case_prod_beta sg_keys sg_basic sg_install)

lemma sg_suitable:
  "same_graph m m' \<Longrightarrow> same_graph m (snd (button_suitable fd m'))"
  "same_graph m m' \<Longrightarrow> same_graph m (snd (button_set_mask fd m'))"
  "same_graph m m' \<Longrightarrow> same_graph m (snd (button_initialize_modifier_mask b m'))"
  by (simp_all add: button_suitable_def button_suitable_switches_def button_set_mask_def
      button_initialize_modifier_mask_def Let_def case_prod_beta sg_basic)

lemma sg_open: "same_graph m m' \<Longrightarrow> same_graph m (snd (button_open b m'))"
  by (simp add: button_open_def button_watch_def Let_def case_prod_beta sg_basic sg_suitable)

subsection \<open>The power state\<close>

text \<open>No key, switch or idle period is configured to a factory reset, whose handling fails an assertion.\<close>

definition config_ok :: "manager \<Rightarrow> bool" where
  "config_ok m \<longleftrightarrow> (\<forall>k. handle_key k m \<noteq> HANDLE_FACTORY_RESET \<and> handle_key_long_press k m \<noteq> HANDLE_FACTORY_RESET) \<and>
     m_handle_lid_switch m \<noteq> HANDLE_FACTORY_RESET \<and> m_handle_lid_switch_docked m \<noteq> HANDLE_FACTORY_RESET \<and>
     m_handle_lid_switch_ep m \<noteq> Some HANDLE_FACTORY_RESET \<and> m_handle_secure_attention_key m \<noteq> HANDLE_FACTORY_RESET \<and>
     m_idle_action m \<noteq> HANDLE_FACTORY_RESET"

definition power_safe :: "manager \<Rightarrow> manager \<Rightarrow> bool" where
  "power_safe m m' \<longleftrightarrow> (power_ok m \<longrightarrow> power_ok m' \<and> m_abort m' = m_abort m)"

lemma power_safe_same: "same_power m m' \<Longrightarrow> power_safe m m'"
  by (simp add: power_safe_def power_ok_same same_power_fields)

lemma power_safe_trans [trans]: "power_safe m m' \<Longrightarrow> power_safe m' m'' \<Longrightarrow> power_safe m m''"
  by (auto simp: power_safe_def)

lemma same_power_key_timer: "same_power m (set_key_timer k x m)"
  by (cases k) (simp_all add: set_key_timer_def same_power_def)

lemma same_power_btn: "same_power m (upd_btn b f m)" "same_power m (manager_send_changed ps m)"
  "c \<Longrightarrow> same_power m (assert_that c m)"
  by (simp_all add: same_power_def upd_btn_def manager_send_changed_def emit_def assert_that_def)

lemma key_action_safe:
  assumes "a \<noteq> HANDLE_FACTORY_RESET"
  shows "power_safe m (key_action k a b m)"
proof -
  have "inhibit_what_is_valid (key_inhibit_what k)"
    by (cases k) (simp_all add: key_inhibit_what_def inhibit_what_is_valid_def)
  then show ?thesis using power_handle_action [OF _ assms] by (simp add: power_safe_def key_action_def)
qed

lemma keys_safe:
  assumes "config_ok m"
  shows "power_safe m (key_pressed k b m)" "power_safe m (key_released k b m)" "power_safe m (long_press_handler k b m)"
    "power_safe m (secure_attention b m)" "power_safe m (button_lid_switch_handle_action e st m)"
proof -
  have a: "handle_key k m \<noteq> HANDLE_FACTORY_RESET" "handle_key_long_press k m \<noteq> HANDLE_FACTORY_RESET"
    using assms by (simp_all add: config_ok_def)
  have "same_power m (start_long_press k m)"
    using same_power_trans [OF same_power_sys(1) same_power_key_timer] same_power_sys(1)
    by (simp add: start_long_press_def case_prod_beta)
  then show "power_safe m (key_pressed k b m)"
    using key_action_safe [OF a(1)] by (simp add: key_pressed_def power_safe_same)
  show "power_safe m (key_released k b m)"
    using power_safe_trans [OF power_safe_same [OF same_power_key_timer] key_action_safe [OF a(1)]]
    by (simp add: key_released_def power_safe_def)
  show "power_safe m (long_press_handler k b m)"
    using power_safe_trans [OF power_safe_same [OF same_power_key_timer] key_action_safe [OF a(2)]]
    by (simp add: long_press_handler_def)
  show "power_safe m (secure_attention b m)"
    using assms power_handle_action [of m "m_handle_secure_attention_key m" 0]
    by (simp add: power_safe_def secure_attention_def config_ok_def)
  have "inhibit_what_is_valid INHIBIT_HANDLE_LID_SWITCH" by (simp add: inhibit_what_is_valid_def)
  then show "power_safe m (button_lid_switch_handle_action e st m)"
    using assms power_handle_action [of m _ INHIBIT_HANDLE_LID_SWITCH]
    by (auto simp: power_safe_def button_lid_switch_handle_action_def config_ok_def split: option.split)
qed

lemma same_power_install: "same_power m (snd (button_install_check_event_source b m))"
  by (simp add: button_install_check_event_source_def same_power_def sys_def upd_btn_def)

lemma config_ok_upd_btn [simp]: "config_ok (upd_btn b f m) = config_ok m"
  by (simp add: config_ok_def upd_btn_def handle_key_def handle_key_long_press_def split: power_key.split)

lemma switch_on_safe:
  assumes "config_ok m"
  shows "power_safe m (button_switch_on b c m)"
proof -
  let ?m1 = "upd_btn b (b_lid_closed_update (\<lambda>_. True)) m"
  let ?m2 = "button_lid_switch_handle_action True (b_seat (btn ?m1 b)) ?m1"
  have "power_safe m ?m1" by (rule power_safe_same [OF same_power_btn(1)])
  also have "power_safe ?m1 ?m2" using assms by (intro keys_safe(5)) simp
  also have "power_safe ?m2 (manager_send_changed [''LidClosed''] (snd (button_install_check_event_source b ?m2)))"
    by (rule power_safe_same [OF same_power_trans [OF same_power_install same_power_btn(2)]])
  finally show ?thesis
    by (auto simp: button_switch_on_def intro: power_safe_same same_power_btn)
qed

lemma key_events_safe:
  assumes "config_ok m" "0 < c"
  shows "power_safe m (button_key_down b c m)" "power_safe m (button_key_up b c m)"
  using assms
  by (simp_all add: button_key_down_def button_key_up_def keys_safe assert_that_def power_safe_same same_power_btn
      split: option.split)

lemma switch_off_safe: "power_safe m (button_switch_off b c m)"
  using power_safe_same [OF same_power_trans [OF same_power_btn(1) same_power_btn(2)]]
    power_safe_same [OF same_power_btn(1)] power_safe_same [OF same_power_refl]
  by (simp add: button_switch_off_def)

lemma dispatch_safe:
  assumes "config_ok m" "\<And>ev. x = Read_event ev \<Longrightarrow> ev_type ev = EV_KEY \<Longrightarrow> 0 < ev_code ev"
  shows "power_safe m (snd (button_dispatch b x m))"
proof (cases x)
  case (Read_event ev)
  then show ?thesis
    using assms(2) [OF Read_event] key_events_safe [OF assms(1)] switch_on_safe [OF assms(1)] switch_off_safe
      power_safe_same [OF same_power_refl]
    by (simp add: button_dispatch_def)
qed (simp_all add: button_dispatch_def power_safe_same)

end
