(* ===== verification/Manager.thy ===== *)
theory Manager
  imports Button_Inv
begin

text \<open>
  The manager's operations of \<^verbatim>\<open>logind-core.c\<close> that create objects and process devices, and the
  operations of other components that call them: taking a device for a session
  (\<^verbatim>\<open>logind-session-device.c\<close>) and reading a session's state file (\<^verbatim>\<open>logind-session.c\<close>).
\<close>

subsection \<open>Adding objects\<close>

definition manager_add_device :: "string \<Rightarrow> bool \<Rightarrow> manager \<Rightarrow> int \<times> manager" where
  "manager_add_device sysfs master m =
     (if sysfs \<in> set (m_devices m) then (0, upd_dev sysfs (d_master_update (\<lambda>x. x \<or> master)) m)
      else case device_new sysfs master m of None \<Rightarrow> (- ENOMEM, m) | Some m \<Rightarrow> (0, m))"

definition manager_add_seat :: "string \<Rightarrow> manager \<Rightarrow> int \<times> manager" where
  "manager_add_seat name m =
     (if name \<in> set (m_seats m) then (0, m)
      else case seat_new name m of (r, m) \<Rightarrow> (if r < 0 then r else 0, m))"

definition manager_add_session :: "string \<Rightarrow> manager \<Rightarrow> int \<times> manager" where
  "manager_add_session name m =
     (if name \<in> set (m_sessions m) then (0, m)
      else case session_new name m of (r, m) \<Rightarrow> (if r < 0 then r else 0, m))"

definition manager_add_user :: "user_record \<Rightarrow> manager \<Rightarrow> int \<times> manager" where
  "manager_add_user ur m =
     (if ur_uid ur \<in> set (m_users m) then (0, m)
      else case user_new ur m of (r, m) \<Rightarrow> (if r < 0 then r else 0, m))"

definition manager_add_user_by_name :: "string \<Rightarrow> manager \<Rightarrow> int \<times> manager" where
  "manager_add_user_by_name name m =
     (case w_userdb_by_name (m_world m) name of Inl r \<Rightarrow> (r, m) | Inr ur \<Rightarrow> manager_add_user ur m)"

text \<open>The result names the user: the database may answer with a record of another UID.\<close>

definition manager_add_user_by_uid :: "uid \<Rightarrow> manager \<Rightarrow> (int + uid) \<times> manager" where
  "manager_add_user_by_uid u m =
     (case w_userdb_by_uid (m_world m) u of
        Inl r \<Rightarrow> (Inl r, m)
      | Inr ur \<Rightarrow> (case manager_add_user ur m of (r, m) \<Rightarrow> (if r < 0 then Inl r else Inr (ur_uid ur), m)))"

definition manager_add_inhibitor :: "string \<Rightarrow> manager \<Rightarrow> int \<times> manager" where
  "manager_add_inhibitor name m =
     (if name \<in> set (m_inhibitors m) then (0, m)
      else case inhibitor_new name m of (r, m) \<Rightarrow> (if r < 0 then r else 0, m))"

definition manager_add_button :: "string \<Rightarrow> manager \<Rightarrow> int \<times> manager" where
  "manager_add_button name m =
     (if name \<in> set (m_buttons m) then (0, m)
      else case button_new name m of (ok, m) \<Rightarrow> (if ok then 0 else - ENOMEM, m))"

subsection \<open>Devices\<close>

definition device_seat_name :: "udev \<Rightarrow> string" where
  "device_seat_name d = (case ud_id_seat d of None \<Rightarrow> ''seat0'' | Some sn \<Rightarrow> if sn = [] then ''seat0'' else sn)"

text \<open>A device that is on no seat makes \<^verbatim>\<open>seat_add_to_gc_queue\<close> fail its assertion.\<close>

definition manager_forget_device :: "string \<Rightarrow> manager \<Rightarrow> manager" where
  "manager_forget_device sp m =
     (if sp \<notin> set (m_devices m) then m
      else device_free sp (case d_seat (dev m sp) of
                             None \<Rightarrow> assert_that False m | Some st \<Rightarrow> seat_add_to_gc_queue st m))"

definition manager_process_seat_device :: "udev \<Rightarrow> manager \<Rightarrow> int \<times> manager" where
  "manager_process_seat_device d m =
     (if ud_removed d \<or> ''seat'' \<notin> set (ud_tags d) then
        (0, case ud_syspath d of None \<Rightarrow> m | Some sp \<Rightarrow> manager_forget_device sp m)
      else
      let sn = device_seat_name d;
          known = (sn \<in> set (m_seats m));
          master = (''master-of-seat'' \<in> set (ud_tags d))
      in if \<not> seat_name_is_valid sn then (0, m)
         else if \<not> master \<and> \<not> known then (0, m)
         else case ud_syspath d of
                None \<Rightarrow> (- EINVAL, m)
              | Some sp \<Rightarrow>
                  (case manager_add_device sp master m of (r, m) \<Rightarrow> if r < 0 then (r, m) else
                   case (if known then (0, m) else manager_add_seat sn m) of (r, m) \<Rightarrow>
                   if r < 0 then (r, if d_seat (dev m sp) = None then device_free sp m else m)
                   else (0, snd (seat_start sn (device_attach sp sn m)))))"

definition manager_process_button_device :: "udev \<Rightarrow> manager \<Rightarrow> int \<times> manager" where
  "manager_process_button_device d m =
     (case ud_sysname d of
        None \<Rightarrow> (- EINVAL, m)
      | Some b \<Rightarrow>
          if ud_removed d \<or> ''power-switch'' \<notin> set (ud_tags d)
          then (0, if b \<in> set (m_buttons m) then button_free b m else m)
          else
          case manager_add_button b m of (r, m) \<Rightarrow>
          if r < 0 then (r, m)
          else
          case button_open b (button_set_seat b (Some (device_seat_name d)) m) of (r, m) \<Rightarrow>
          (0, if r < 0 then button_free b m else m))"

subsection \<open>Taking a device\<close>

definition detect_device_type :: "udev \<Rightarrow> DeviceType" where
  "detect_device_type d =
     (case ud_sysname d of
        None \<Rightarrow> DEVICE_TYPE_UNKNOWN
      | Some sysname \<Rightarrow>
          if ud_subsystem d = Some ''drm'' then
            (if take 4 sysname = ''card'' then DEVICE_TYPE_DRM else DEVICE_TYPE_UNKNOWN)
          else if ud_subsystem d = Some ''input'' then
            (if take 5 sysname = ''event'' then DEVICE_TYPE_EVDEV else DEVICE_TYPE_UNKNOWN)
          else if ud_subsystem d = Some ''hidraw'' then
            (if take 6 sysname = ''hidraw'' then DEVICE_TYPE_HIDRAW else DEVICE_TYPE_UNKNOWN)
          else DEVICE_TYPE_UNKNOWN)"

text \<open>The device of the seat behind a device node: for an input device it is the parent.\<close>

definition seat_device_of :: "udev \<Rightarrow> manager \<Rightarrow> int + udev \<times> string" where
  "seat_device_of d m =
     (case detect_device_type d of
        DEVICE_TYPE_UNKNOWN \<Rightarrow> Inl (- ENODEV)
      | DEVICE_TYPE_EVDEV \<Rightarrow>
          (case ud_input_parent d of
             None \<Rightarrow> Inl (- ENODEV)
           | Some sp \<Rightarrow> Inr (w_udev_by_syspath (m_world m) sp, sp))
      | _ \<Rightarrow> (case ud_syspath d of None \<Rightarrow> Inl (- EINVAL) | Some sp \<Rightarrow> Inr (d, sp)))"

text \<open>\<open>Inr\<close> is the session device to enter. A device number without a device is \<^verbatim>\<open>ENODEV\<close>.\<close>

definition session_device_verify :: "string \<Rightarrow> devt \<Rightarrow> manager \<Rightarrow> (int + session_device) \<times> manager" where
  "session_device_verify s n m =
     (case m_udev m n of
        None \<Rightarrow> (Inl (- ENODEV), m)
      | Some d \<Rightarrow>
          (case (ud_syspath d, ud_devname d) of
             (Some _, Some node) \<Rightarrow>
               (case seat_device_of d m of
                  Inl r \<Rightarrow> (Inl r, m)
                | Inr (sd_dev, sp) \<Rightarrow>
                    (case (if sp \<in> set (m_devices m) then (0, m) else manager_process_seat_device sd_dev m) of
                       (r, m) \<Rightarrow>
                         if r < 0 then (Inl r, m)
                         else if sp \<notin> set (m_devices m) then (Inl (- ENODEV), m)
                         else if d_seat (dev m sp) \<noteq> s_seat (ses m s) then (Inl (- EPERM), m)
                         else (Inr \<lparr>sd_device = sp, sd_node = node, sd_fd = - EBADF,
                                    sd_type = detect_device_type d, sd_active = False, sd_pushed_fd = False\<rparr>, m)))
           | _ \<Rightarrow> (Inl (- EINVAL), m)))"

text \<open>Opening for the first time; a session that is not the DRM master is tried again as inactive.\<close>

definition session_device_first_open :: "string \<times> devt \<Rightarrow> manager \<Rightarrow> int \<times> manager" where
  "session_device_first_open sd m =
     (let active = session_is_active (fst sd) m;
          m = upd_sd sd (sd_active_update (\<lambda>_. active)) m
      in case session_device_open (sdv m sd) active m of (r, m) \<Rightarrow>
           if r = - EINVAL \<and> active then
             let m = upd_sd sd (sd_active_update (\<lambda>_. False)) m
             in session_device_open (sdv m sd) False m
           else (r, m))"

text \<open>Whatever fails, the entry for the device number leaves the table of the session.\<close>

definition session_device_new :: "string \<Rightarrow> devt \<Rightarrow> bool \<Rightarrow> manager \<Rightarrow> int \<times> manager" where
  "session_device_new s n open_device m =
     (let undo = upd_ses s (s_devices_update (remove1 n))
      in if s_seat (ses m s) = None then (- EPERM, m)
         else case session_device_verify s n m of (x, m) \<Rightarrow>
           (case x of
              Inl r \<Rightarrow> (r, undo m)
            | Inr x \<Rightarrow>
                if n \<in> set (s_devices (ses m s)) then (- EEXIST, undo m)
                else
                let m = upd_sd (s, n) (\<lambda>_. x) (upd_ses s (s_devices_update (\<lambda>l. n # l)) m)
                in case (if open_device then session_device_first_open (s, n) m else (- EBADF, m)) of (r, m) \<Rightarrow>
                   if open_device \<and> r < 0 then (r, undo m)
                   else
                   (0, upd_dev (sd_device x) (d_session_devices_update (\<lambda>l. (s, n) # l))
                         (upd_sd (s, n) (sd_fd_update (\<lambda>_. r)) m))))"

subsection \<open>Reading a session back\<close>

function session_load_devices_loop :: "string \<Rightarrow> string option \<Rightarrow> int \<times> manager \<Rightarrow> int \<times> manager" where
  "session_load_devices_loop s p rm =
     (case extract_first_word p None {} of (k, word, p') \<Rightarrow>
        if k \<le> 0 then (ret_gather (fst rm) k, snd rm)
        else session_load_devices_loop s p'
               (case parse_devnum (the word) of
                  Inl e \<Rightarrow> (ret_gather (fst rm) e, snd rm)
                | Inr n \<Rightarrow> (case session_device_new s n False (snd rm) of (k, m) \<Rightarrow> (ret_gather (fst rm) k, m))))"
  by pat_completeness auto
termination
  by (relation "measure (\<lambda>(_, p, _). rest_len p)") (auto dest: extract_first_word_progress [OF sym])

declare session_load_devices_loop.simps [simp del]

definition session_load_devices :: "string \<Rightarrow> string option \<Rightarrow> manager \<Rightarrow> int \<times> manager" where
  "session_load_devices s devices m = session_load_devices_loop s devices (0, m)"

definition session_load_keys :: "string list" where
  "session_load_keys =
    [''REMOTE'', ''SCOPE'', ''FIFO'', ''SEAT'', ''TTY'', ''TTY_VALIDITY'', ''DISPLAY'', ''REMOTE_HOST'',
     ''REMOTE_USER'', ''SERVICE'', ''DESKTOP'', ''VTNR'', ''STATE'', ''POSITION'', ''LEADER'', ''LEADER_FD_SAVED'',
     ''TYPE'', ''ORIGINAL_TYPE'', ''CLASS'', ''UID'', ''REALTIME'', ''MONOTONIC'', ''CONTROLLER'', ''ACTIVE'',
     ''DEVICES'', ''IS_DISPLAY'']"

text \<open>The fields that are read in place, also when a later line is not valid.\<close>

definition session_load_init :: "session \<Rightarrow> env_vars" where
  "session_load_init x =
     (\<lambda>_. None)(''SCOPE'' := s_scope x, ''FIFO'' := s_fifo_path x, ''TTY'' := s_tty x, ''DISPLAY'' := s_display x,
        ''REMOTE_HOST'' := s_remote_host x, ''REMOTE_USER'' := s_remote_user x, ''SERVICE'' := s_service x,
        ''DESKTOP'' := s_desktop x)"

definition session_load_strings :: "env_vars \<Rightarrow> session \<Rightarrow> session" where
  "session_load_strings vars x =
     x\<lparr>s_scope := vars ''SCOPE'', s_fifo_path := vars ''FIFO'', s_tty := vars ''TTY'', s_display := vars ''DISPLAY'',
       s_remote_host := vars ''REMOTE_HOST'', s_remote_user := vars ''REMOTE_USER'', s_service := vars ''SERVICE'',
       s_desktop := vars ''DESKTOP''\<rparr>"

definition session_load_user :: "string \<Rightarrow> env_vars \<Rightarrow> manager \<Rightarrow> int \<times> manager" where
  "session_load_user s vars m =
     (if s_user (ses m s) \<noteq> None then (0, m)
      else case vars ''UID'' of
             None \<Rightarrow> (- ENOENT, m)
           | Some x \<Rightarrow>
               (case parse_uid x of
                  Inl r \<Rightarrow> (r, m)
                | Inr u \<Rightarrow> if u \<in> set (m_users m) then (0, session_set_user s u m) else (- ENOENT, m)))"

text \<open>The seat, the virtual terminal and the position. A position that does not parse is an
  uninitialised variable.\<close>

definition session_load_seat :: "string \<Rightarrow> env_vars \<Rightarrow> manager \<Rightarrow> int \<times> manager" where
  "session_load_seat s vars m =
     (let b = parse_boolean (vars ''REMOTE'');
          m = (if vars ''REMOTE'' = None \<or> b < 0 then m else upd_ses s (s_remote_update (\<lambda>_. b > 0)) m);
          m = (case vars ''VTNR'' of
                 None \<Rightarrow> m
               | Some v \<Rightarrow> (case safe_atou v of Inl _ \<Rightarrow> m | Inr n \<Rightarrow> upd_ses s (s_vtnr_update (\<lambda>_. n)) m));
          (r, m) = (case vars ''SEAT'' of
                      None \<Rightarrow> (0, m)
                    | Some st \<Rightarrow> if s_seat (ses m s) = None \<and> st \<in> set (m_seats m)
                                 then seat_attach_session st s m else (0, m));
          m = (case s_seat (ses m s) of
                 None \<Rightarrow> upd_ses s (s_vtnr_update (\<lambda>_. 0)) m
               | Some st \<Rightarrow> if seat_has_vts st m then m else upd_ses s (s_vtnr_update (\<lambda>_. 0)) m)
      in (r, case (vars ''POSITION'', s_seat (ses m s)) of
               (Some p, Some st) \<Rightarrow>
                 seat_claim_position st s
                   (case safe_atou p of Inl _ \<Rightarrow> m_uninit_unsigned m | Inr n \<Rightarrow> n) m
             | _ \<Rightarrow> m))"

definition session_load_types :: "env_vars \<Rightarrow> session \<Rightarrow> session" where
  "session_load_types vars x =
     (let ty = (case session_type_from_string (vars ''TYPE'') of None \<Rightarrow> s_type x | Some t \<Rightarrow> t);
          ot = (case vars ''ORIGINAL_TYPE'' of
                  None \<Rightarrow> ty
                | Some o' \<Rightarrow> (case session_type_from_string (Some o') of None \<Rightarrow> s_original_type x | Some t \<Rightarrow> t))
      in x\<lparr>s_tty_validity := (case tty_validity_from_string (vars ''TTY_VALIDITY'') of
                                None \<Rightarrow> s_tty_validity x | Some v \<Rightarrow> Some v),
           s_type := ty, s_original_type := ot,
           s_class := (case session_class_from_string (vars ''CLASS'') of None \<Rightarrow> s_class x | Some c \<Rightarrow> c),
           s_stopping := (s_stopping x \<or> vars ''STATE'' = Some ''closing'')\<rparr>)"

definition session_load_fifo :: "string \<Rightarrow> manager \<Rightarrow> manager" where
  "session_load_fifo s m =
     (case s_fifo_path (ses m s) of
        None \<Rightarrow> m
      | Some p \<Rightarrow>
          (case sys (Sys_mkfifo p) m of (r, m) \<Rightarrow>
           let m = (if r < 0 \<and> r \<noteq> - EEXIST then upd_ses s (s_fifo_path_update (\<lambda>_. None)) m else m)
           in case session_create_fifo s m of (fd, m) \<Rightarrow> safe_close fd m))"

definition session_load_times :: "env_vars \<Rightarrow> session \<Rightarrow> session" where
  "session_load_times vars x =
     (let b = parse_boolean (vars ''ACTIVE'')
      in x\<lparr>s_timestamp := \<lparr>ts_realtime = deserialize_usec (vars ''REALTIME'') (ts_realtime (s_timestamp x)),
                           ts_monotonic = deserialize_usec (vars ''MONOTONIC'') (ts_monotonic (s_timestamp x))\<rparr>,
           s_was_active := (if vars ''ACTIVE'' = None \<or> b < 0 then s_was_active x else b > 0)\<rparr>)"

definition session_load_display :: "string \<Rightarrow> string option \<Rightarrow> manager \<Rightarrow> manager" where
  "session_load_display s is_display m =
     (if is_display \<noteq> None \<and> parse_boolean is_display > 0 then
        (case s_user (ses m s) of
           None \<Rightarrow> assert_that False m
         | Some u \<Rightarrow> upd_user u (u_display_update (\<lambda>_. Some s)) m)
      else m)"

definition session_load_controller :: "string \<Rightarrow> env_vars \<Rightarrow> manager \<Rightarrow> manager" where
  "session_load_controller s vars m =
     (case vars ''CONTROLLER'' of
        None \<Rightarrow> m
      | Some c \<Rightarrow>
          if ask (Ask_name_has_owner c) m > 0 then
            snd (session_load_devices s (vars ''DEVICES'') (snd (session_set_controller s c False False m)))
          else session_restore_vt s m)"

definition session_load_leader :: "string \<Rightarrow> env_vars \<Rightarrow> int \<Rightarrow> manager \<Rightarrow> int \<times> manager" where
  "session_load_leader s vars r m =
     (case vars ''LEADER'' of
        None \<Rightarrow> (r, m)
      | Some l \<Rightarrow>
          let m = assert_that (\<not> pidref_is_set (s_leader (ses m s))) m
          in case parse_pid l of
               Inl e \<Rightarrow> (e, m)
             | Inr p \<Rightarrow>
                 let m = upd_ses s (s_deserialized_pid_update (\<lambda>_. p)) m;
                     saved = vars ''LEADER_FD_SAVED''; b = parse_boolean saved
                 in if saved \<noteq> None \<and> b < 0 then (b, m)
                    else
                    let m = (if saved \<noteq> None then upd_ses s (s_leader_fd_saved_update (\<lambda>_. b > 0)) m else m)
                    in if saved \<noteq> None \<and> b > 0 then (0, m)
                       else case pidref_set_pid PIDREF_NULL p m of (k, pr, m) \<Rightarrow>
                         if k \<ge> 0 then session_set_leader_consume s pr m else (k, m))"

definition session_load_rest :: "string \<Rightarrow> env_vars \<Rightarrow> manager \<Rightarrow> int \<times> manager" where
  "session_load_rest s vars m =
     (case session_load_seat s vars m of (r, m) \<Rightarrow>
      let m = upd_ses s (session_load_types vars) m;
          m = session_load_fifo s m;
          m = upd_ses s (session_load_times vars) m;
          m = session_load_display s (vars ''IS_DISPLAY'') m;
          m = session_load_controller s vars m
      in session_load_leader s vars r m)"

definition session_load :: "string \<Rightarrow> manager \<Rightarrow> int \<times> manager" where
  "session_load s m =
     (case m_files m (session_state_file s) of
        Inl r \<Rightarrow> (r, m)
      | Inr contents \<Rightarrow>
          (case parse_env_file session_load_keys contents (session_load_init (ses m s)) of
             Inl (r, vars) \<Rightarrow> (r, upd_ses s (session_load_strings vars) m)
           | Inr vars \<Rightarrow>
               (case session_load_user s vars (upd_ses s (session_load_strings vars) m) of (r, m) \<Rightarrow>
                  if r < 0 then (r, m) else session_load_rest s vars m)))"

subsection \<open>Finding the user of a process\<close>

text \<open>The table of user units is keyed by \<^verbatim>\<open>user-<uid>.slice\<close>.\<close>

definition user_slice_name :: "uid \<Rightarrow> string" where
  "user_slice_name u = ''user-'' @ dec u @ ''.slice''"

definition manager_get_user_by_pid :: "manager \<Rightarrow> pid \<Rightarrow> int \<times> uid option" where
  "manager_get_user_by_pid m p =
     (if p = 0 then (- EINVAL, None)
      else
      let direct = (case m_cgroup_session m p of
                      Inl _ \<Rightarrow> None | Inr name \<Rightarrow> find (\<lambda>u. user_slice_name u = name) (m_users m));
          u = (if direct \<noteq> None then direct
               else case manager_get_session_by_pidref m \<lparr>pid_pid = p, pid_fd = - EBADF, pid_fd_id = None\<rparr> of
                      (r, Some s) \<Rightarrow> if r > 0 \<and> session_get_state s m \<noteq> SESSION_CLOSING then s_user (ses m s) else None
                    | (_, None) \<Rightarrow> None)
      in (if u = None then 0 else 1, u))"

subsection \<open>utmp\<close>

definition utmp_line :: "utmp \<Rightarrow> string" where
  "utmp_line u = (case path_startswith (ut_line u) ''/dev/'' of None \<Rightarrow> ut_line u | Some c \<Rightarrow> c)"

definition manager_read_utmp_entry :: "utmp \<Rightarrow> manager \<Rightarrow> manager" where
  "manager_read_utmp_entry u m =
     (if \<not> ut_user_process u \<or> ut_pid u \<le> 0 \<or> utmp_line u = [] then m
      else case manager_get_session_by_pidref m \<lparr>pid_pid = nat (ut_pid u), pid_fd = - EBADF, pid_fd_id = None\<rparr> of
             (r, None) \<Rightarrow> m
           | (r, Some s) \<Rightarrow>
               if r \<le> 0 then m
               else if s_tty_validity (ses m s) = Some TTY_FROM_UTMP \<and> s_tty (ses m s) \<noteq> Some (utmp_line u) then
                 upd_ses s (\<lambda>x. x\<lparr>s_tty := None, s_tty_validity := Some TTY_UTMP_INCONSISTENT\<rparr>) m
               else if s_tty (ses m s) \<noteq> None \<or> s_tty_validity (ses m s) \<noteq> None then m
               else upd_ses s (\<lambda>x. x\<lparr>s_tty := Some (utmp_line u), s_tty_validity := Some TTY_FROM_UTMP\<rparr>) m)"

definition manager_read_utmp :: "manager \<Rightarrow> int \<times> manager" where
  "manager_read_utmp m =
     (case sys (Sys_open_read ''/run/utmp'') m of (r, m) \<Rightarrow>
        if r < 0 then (r, m) else (0, fold manager_read_utmp_entry (w_utmp (m_world m)) m))"

text \<open>The watch on the file: an old one is dropped also when there is no new one.\<close>

definition manager_connect_utmp :: "manager \<Rightarrow> manager" where
  "manager_connect_utmp m =
     (case sys (Sys_inotify_add_watch ''/run/utmp'') m of (r, m) \<Rightarrow>
        if r < 0 then m\<lparr>m_utmp_event_source := False\<rparr>
        else (emit (Sys_event_source ''utmp'') m)\<lparr>m_utmp_event_source := True\<rparr>)"

definition manager_reconnect_utmp :: "manager \<Rightarrow> manager" where
  "manager_reconnect_utmp m = (if m_utmp_event_source m then m else manager_connect_utmp m)"

text \<open>\<open>gone\<close> is whether the event says that the file may have been removed.\<close>

definition manager_dispatch_utmp :: "bool \<Rightarrow> manager \<Rightarrow> manager" where
  "manager_dispatch_utmp gone m = snd (manager_read_utmp (if gone then manager_connect_utmp m else m))"

end
