(* ===== verification/Manager_Inv.thy ===== *)
theory Manager_Inv
  imports Manager
begin

text \<open>
  The operations of theory \<open>Manager\<close> keep the object graph well-formed: adding objects, processing
  devices, taking a device for a session, and reading a session back.
\<close>

subsection \<open>Adding objects\<close>

lemma wf_seat_new:
  assumes "wf m" "name \<notin> set (m_seats m)"
  shows "wf (snd (seat_new name m))"
proof (cases "seat_name_is_valid name")
  case True
  let ?m = "(upd_seat name (\<lambda>_. new_seat) m)\<lparr>m_seats := name # m_seats m\<rparr>"
  have m: "snd (seat_new name m) = ?m" using True assms(2) by (simp add: seat_new_def)
  note inv = wfD [OF assms(1)]
  have new: "s_seat (ses m s) \<noteq> Some name" if "s \<in> set (m_sessions m)" for s
    using wf_session_seat(1) [OF assms(1) that] assms(2) by blast
  have newd: "d_seat (dev m d) \<noteq> Some name" if "d \<in> set (m_devices m)" for d
    using wf_device_seat(1) [OF assms(1) that] assms(2) by blast
  have newq: "name \<notin> set (m_seat_gc_queue m)"
    using inv(7) assms(2) by (auto simp: inv_queues_def)
  show ?thesis unfolding m
  proof (rule wfI)
    show "inv_users ?m" "inv_session_devices ?m" "inv_leaders ?m"
      using inv inv_congs(4,6,8) [of ?m m] by simp_all
    show "inv_seats ?m"
      using inv(1) assms(2) unfolding inv_seats_def by (auto simp: upd_simps new_seat_def)
    show "inv_positions ?m"
      using inv(2) unfolding inv_positions_def by (auto simp: upd_simps new_seat_def)
    show "inv_sessions ?m"
      using inv(3) new unfolding inv_sessions_def by (auto simp: upd_simps)
    show "inv_devices ?m"
    proof (rule inv_devicesI)
      show "d \<in> set (m_devices ?m) \<Longrightarrow> d_seat (dev ?m d) = Some st \<Longrightarrow>
          st \<in> set (m_seats ?m) \<and> d \<in> set (st_devices (sts ?m st))" for d st
        using wf_device_seat [OF assms(1), of d st] newd [of d] by (auto simp: upd_simps)
      show "st \<in> set (m_seats ?m) \<Longrightarrow> d \<in> set (st_devices (sts ?m st)) \<Longrightarrow>
          d \<in> set (m_devices ?m) \<and> d_seat (dev ?m d) = Some st" for st d
        using wf_seat_device [OF assms(1), of st d] by (auto simp: upd_simps new_seat_def split: if_splits)
    qed (use inv(5) in \<open>auto simp: inv_devices_def upd_simps new_seat_def\<close>)
    show "inv_queues ?m"
      using inv(7) newq unfolding inv_queues_def by (auto simp: upd_simps)
  qed
qed (use assms in \<open>simp add: seat_new_def\<close>)

lemma seat_new_frame:
  "name \<notin> set (m_seats m) \<Longrightarrow> set (m_seats (snd (seat_new name m))) =
     (if seat_name_is_valid name then insert name (set (m_seats m)) else set (m_seats m))"
  "fst (seat_new name m) = 0 \<longleftrightarrow> seat_name_is_valid name \<and> name \<notin> set (m_seats m)"
  "fst (seat_new name m) \<le> 0"
  "ses (snd (seat_new name m)) = ses m" "dev (snd (seat_new name m)) = dev m" "sdv (snd (seat_new name m)) = sdv m"
  "m_devices (snd (seat_new name m)) = m_devices m" "m_sessions (snd (seat_new name m)) = m_sessions m"
  "m_users (snd (seat_new name m)) = m_users m" "m_world (snd (seat_new name m)) = m_world m"
  "m_malloc (snd (seat_new name m)) = m_malloc m"
  by (auto simp: seat_new_def upd_seat_def)

lemma graph_objects: "keeps_graph m m' \<Longrightarrow> same_objects m' m'' \<Longrightarrow> keeps_graph m m''"
  using graph_links same_objects_links by blast

lemma graph_seat_start:
  assumes "keeps_graph m m'" "st \<in> set (m_seats m)"
  shows "keeps_graph m (snd (seat_start st m'))"
proof -
  have "seat_keeps (st_started_update (\<lambda>_. True))" by (simp add: seat_keeps_def)
  then show ?thesis
    using assms by (simp add: seat_start_def Let_def graph_seat_send_signal graph_objects [OF _ seat_save_same]
        graph_upd_seat graph_read_active_vt)
qed

lemma ses_active_vt: "ses (snd (seat_read_active_vt st m)) = ses m" "same_tables m (snd (seat_read_active_vt st m))"
proof -
  have "ses (snd (seat_active_vt_changed st v m)) = ses m" "same_tables m (snd (seat_active_vt_changed st v m))" for v
    by (auto simp: seat_active_vt_changed_def Let_def intro!: seat_set_active_tables
        same_tables_trans [OF _ seat_set_active_tables] tables_basic)
  then show "ses (snd (seat_read_active_vt st m)) = ses m" "same_tables m (snd (seat_read_active_vt st m))"
    by (auto simp: seat_read_active_vt_def split: sum.split)
qed

lemma ses_seat_start: "ses (snd (seat_start st m)) = ses m"
  by (simp add: seat_start_def Let_def ses_active_vt seat_send_signal_def)

lemma wf_upd_master: "wf (upd_dev d (d_master_update f) m) = wf m"
proof -
  let ?m = "upd_dev d (d_master_update f) m"
  have "d_seat (dev ?m x) = d_seat (dev m x)" "d_session_devices (dev ?m x) = d_session_devices (dev m x)" for x
    by (simp_all add: upd_dev_def)
  moreover have "ses ?m = ses m" "sts ?m = sts m" "usr ?m = usr m" "sdv ?m = sdv m" "m_devices ?m = m_devices m"
    "m_seats ?m = m_seats m" "m_sessions ?m = m_sessions m" "m_sessions_by_leader ?m = m_sessions_by_leader m"
    "m_users ?m = m_users m" "m_seat_gc_queue ?m = m_seat_gc_queue m" "m_session_gc_queue ?m = m_session_gc_queue m"
    "m_user_gc_queue ?m = m_user_gc_queue m" "m_cgroup_inotify_fd ?m = m_cgroup_inotify_fd m"
    "m_cgroup_control_inotify_wd_session ?m = m_cgroup_control_inotify_wd_session m"
    by (simp_all add: upd_dev_def)
  ultimately show ?thesis unfolding wf_def inv_defs by simp
qed

lemma wf_add_device:
  assumes "wf m"
  shows "wf (snd (manager_add_device sp master m))" "fst (manager_add_device sp master m) = 0"
    "set (m_devices (snd (manager_add_device sp master m))) = insert sp (set (m_devices m))"
    "ses (snd (manager_add_device sp master m)) = ses m" "m_seats (snd (manager_add_device sp master m)) = m_seats m"
    "sp \<notin> set (m_devices m) \<Longrightarrow> d_seat (dev (snd (manager_add_device sp master m)) sp) = None"
    "d_seat (dev (snd (manager_add_device sp master m)) sp) = None \<or> sp \<in> set (m_devices m)"
proof -
  obtain x where x: "sp \<notin> set (m_devices m) \<Longrightarrow> device_new sp master m = Some x"
    by (simp add: device_new_def)
  note new = wf_device_new [OF assms x]
  have fr: "sp \<notin> set (m_devices m) \<Longrightarrow> ses x = ses m \<and> m_seats x = m_seats m"
    using x by (auto simp: device_new_def)
  show "wf (snd (manager_add_device sp master m))" "fst (manager_add_device sp master m) = 0"
    "set (m_devices (snd (manager_add_device sp master m))) = insert sp (set (m_devices m))"
    "ses (snd (manager_add_device sp master m)) = ses m" "m_seats (snd (manager_add_device sp master m)) = m_seats m"
    "sp \<notin> set (m_devices m) \<Longrightarrow> d_seat (dev (snd (manager_add_device sp master m)) sp) = None"
    "d_seat (dev (snd (manager_add_device sp master m)) sp) = None \<or> sp \<in> set (m_devices m)"
    using assms x new fr by (auto simp: manager_add_device_def wf_upd_master)
qed

lemma wf_add_seat:
  assumes "wf m"
  shows "wf (snd (manager_add_seat name m))" "ses (snd (manager_add_seat name m)) = ses m"
    "dev (snd (manager_add_seat name m)) = dev m" "m_devices (snd (manager_add_seat name m)) = m_devices m"
    "0 \<le> fst (manager_add_seat name m) \<Longrightarrow> name \<in> set (m_seats (snd (manager_add_seat name m)))"
    "set (m_seats m) \<subseteq> set (m_seats (snd (manager_add_seat name m)))"
    "m_sessions (snd (manager_add_seat name m)) = m_sessions m"
  using assms wf_seat_new [OF assms, of name] seat_new_frame(2,3) [of name m] seat_new_frame(1) [of name m]
  by (auto simp: manager_add_seat_def case_prod_beta seat_new_frame(4-) split: if_splits)

lemma wf_add_session: "wf m \<Longrightarrow> wf (snd (manager_add_session name m))"
  using wf_session_new by (simp add: manager_add_session_def case_prod_beta)

lemma wf_add_user:
  assumes "wf m"
  shows "wf (snd (manager_add_user ur m))" "wf (snd (manager_add_user_by_name name m))"
    "wf (snd (manager_add_user_by_uid u m))"
  using assms wf_user_new [OF assms]
  by (auto simp: manager_add_user_def manager_add_user_by_name_def manager_add_user_by_uid_def case_prod_beta
      split: sum.split)

lemma add_user_known:
  assumes "fst (manager_add_user_by_uid u m) = Inr v"
  shows "v \<in> set (m_users (snd (manager_add_user_by_uid u m)))"
  using assms
  by (auto simp: manager_add_user_by_uid_def manager_add_user_def user_new_def split: sum.splits if_splits prod.splits)

subsection \<open>Devices\<close>

lemma wf_assert [simp]: "wf (assert_that b m) = wf m"
  by (rule wf_same_objects [OF assert_that_same [OF same_objects_refl]])

lemma wf_forget_device:
  assumes "wf m"
  shows "wf (manager_forget_device sp m)"
proof (cases "sp \<in> set (m_devices m)")
  case True
  show ?thesis
  proof (cases "d_seat (dev m sp)")
    case None
    have "wf (device_free sp (assert_that False m))"
      using assms True same_objects_simps [OF assert_that_same [OF same_objects_refl]]
      by (intro wf_device_free(1)) simp_all
    then show ?thesis using True None by (simp add: manager_forget_device_def)
  next
    case (Some st)
    have "wf (device_free sp (seat_add_to_gc_queue st m))"
      using assms True wf_seat_add_to_gc_queue [OF assms wf_device_seat(1) [OF assms True Some]]
      by (intro wf_device_free(1)) (simp_all add: same_tables_simps [OF gc_queue_tables])
    then show ?thesis using True Some by (simp add: manager_forget_device_def)
  qed
qed (use assms in \<open>simp add: manager_forget_device_def\<close>)

text \<open>What adding a device comes to, once it is entered and its seat is known.\<close>

definition place_on_seat :: "string \<Rightarrow> string \<Rightarrow> manager \<Rightarrow> manager" where
  "place_on_seat sp sn m = snd (seat_start sn (device_attach sp sn m))"

lemma process_add_cases:
  assumes "\<not> ud_removed d" "''seat'' \<in> set (ud_tags d)" "ud_syspath d = Some sp" "wf m"
  obtains (ignored) "manager_process_seat_device d m = (0, m)"
  | (failed) r m2 where "wf m2" "sp \<in> set (m_devices m2)" "ses m2 = ses m" "m_sessions m2 = m_sessions m"
      "sp \<notin> set (m_devices m) \<Longrightarrow> d_seat (dev m2 sp) = None" "r < 0"
      "manager_process_seat_device d m = (r, if d_seat (dev m2 sp) = None then device_free sp m2 else m2)"
  | (placed) sn m2 where "wf m2" "sp \<in> set (m_devices m2)" "sn \<in> set (m_seats m2)" "ses m2 = ses m"
      "m_sessions m2 = m_sessions m" "sp \<notin> set (m_devices m) \<Longrightarrow> d_seat (dev m2 sp) = None"
      "manager_process_seat_device d m = (0, place_on_seat sp sn m2)"
proof -
  define sn where "sn = device_seat_name d"
  define master where "master = (''master-of-seat'' \<in> set (ud_tags d))"
  define m1 where "m1 = snd (manager_add_device sp master m)"
  define rm where "rm = (if sn \<in> set (m_seats m) then (0, m1) else manager_add_seat sn m1)"
  note dev = wf_add_device [OF assms(4), of sp master, folded m1_def]
  note seat = wf_add_seat [OF dev(1), of sn]
  have ses: "m_sessions m1 = m_sessions m"
    by (simp add: m1_def manager_add_device_def device_new_def upd_dev_def split: option.split)
  have rm: "wf (snd rm)" "sp \<in> set (m_devices (snd rm))" "ses (snd rm) = ses m" "m_sessions (snd rm) = m_sessions m"
      "sp \<notin> set (m_devices m) \<Longrightarrow> d_seat (dev (snd rm) sp) = None"
      "0 \<le> fst rm \<Longrightarrow> sn \<in> set (m_seats (snd rm))"
    using dev seat ses by (auto simp: rm_def)
  have res: "manager_process_seat_device d m =
     (if \<not> seat_name_is_valid sn \<or> \<not> master \<and> sn \<notin> set (m_seats m) then (0, m)
      else if fst rm < 0 then (fst rm, if d_seat (dev (snd rm) sp) = None then device_free sp (snd rm) else snd rm)
      else (0, place_on_seat sp sn (snd rm)))"
  proof -
    have add: "manager_add_device sp master m = (0, m1)" using dev(2) by (simp add: m1_def prod_eq_iff)
    have split: "(if P then x else if Q then x else y) = (if P \<or> Q then x else y)" for P Q and x y :: "int \<times> manager"
      by simp
    show ?thesis
      unfolding manager_process_seat_device_def sn_def [symmetric] master_def [symmetric] Let_def split assms(3)
        option.case add prod.case rm_def [symmetric]
      using assms(1,2) by (simp add: case_prod_beta place_on_seat_def)
  qed
  show thesis
  proof (cases "\<not> seat_name_is_valid sn \<or> \<not> master \<and> sn \<notin> set (m_seats m)")
    case True
    then show thesis using res by (intro ignored) simp
  next
    case False
    show thesis
    proof (cases "fst rm < 0")
      case True
      then have "manager_process_seat_device d m =
          (fst rm, if d_seat (dev (snd rm) sp) = None then device_free sp (snd rm) else snd rm)"
        using False unfolding res by auto
      then show thesis using rm True by (intro failed [of "snd rm" "fst rm"]) simp_all
    next
      case ok: False
      then have "manager_process_seat_device d m = (0, place_on_seat sp sn (snd rm))"
        using False unfolding res by auto
      then show thesis using rm ok by (intro placed [of "snd rm" sn]) simp_all
    qed
  qed
qed

lemma wf_place_on_seat:
  assumes "wf m" "sp \<in> set (m_devices m)" "sn \<in> set (m_seats m)"
  shows "wf (place_on_seat sp sn m)"
  using keeps_graphD(1) [OF graph_seat_start [OF keeps_graph_refl, of sn "device_attach sp sn m"]]
    wf_device_attach(1) [OF assms] assms(3)
  by (simp add: place_on_seat_def)

lemma wf_process_seat_device:
  assumes "wf m"
  shows "wf (snd (manager_process_seat_device d m))"
proof (cases "ud_removed d \<or> ''seat'' \<notin> set (ud_tags d)")
  case True
  then show ?thesis
    using assms wf_forget_device by (simp add: manager_process_seat_device_def split: option.split)
next
  case add: False
  show ?thesis
  proof (cases "ud_syspath d")
    case None
    then show ?thesis using add assms by (simp add: manager_process_seat_device_def Let_def)
  next
    case (Some sp)
    from add have "\<not> ud_removed d" "''seat'' \<in> set (ud_tags d)" by simp_all
    then show ?thesis
      by (rule process_add_cases [OF _ _ Some assms]) (simp_all add: assms wf_device_free(1) wf_place_on_seat)
  qed
qed

text \<open>Adding a new device leaves the sessions alone.\<close>

lemma process_new_device:
  assumes "wf m" "ud_syspath d = Some sp" "sp \<notin> set (m_devices m)"
  shows "ses (snd (manager_process_seat_device d m)) = ses m"
    "m_sessions (snd (manager_process_seat_device d m)) = m_sessions m"
proof -
  have goal: "ses (snd (manager_process_seat_device d m)) = ses m \<and>
    m_sessions (snd (manager_process_seat_device d m)) = m_sessions m"
  proof (cases "ud_removed d \<or> ''seat'' \<notin> set (ud_tags d)")
    case True
    then show ?thesis
      using assms(2,3) by (simp add: manager_process_seat_device_def manager_forget_device_def)
  next
    case False
    then have "\<not> ud_removed d" "''seat'' \<in> set (ud_tags d)" by simp_all
    then show ?thesis
    proof (rule process_add_cases [OF _ _ assms(2,1)])
      fix r m2
      assume "ses m2 = ses m" "m_sessions m2 = m_sessions m" "sp \<notin> set (m_devices m) \<Longrightarrow> d_seat (dev m2 sp) = None"
        "manager_process_seat_device d m = (r, if d_seat (dev m2 sp) = None then device_free sp m2 else m2)"
      then show ?thesis using assms(3) by (simp add: device_free_def device_detach_def)
    next
      fix sn m2
      assume placed: "sn \<in> set (m_seats m2)" "ses m2 = ses m" "m_sessions m2 = m_sessions m"
        "sp \<notin> set (m_devices m) \<Longrightarrow> d_seat (dev m2 sp) = None"
        "manager_process_seat_device d m = (0, place_on_seat sp sn m2)"
      have "ses (device_attach sp sn m2) = ses m2"
        using placed(4) [OF assms(3)] by (simp add: device_attach_def Let_def)
      then show ?thesis
        using placed keeps_graphD(2) [OF graph_seat_start [OF keeps_graph_refl, of sn "device_attach sp sn m2"]]
        by (simp add: place_on_seat_def ses_seat_start)
    qed simp
  qed
  then show "ses (snd (manager_process_seat_device d m)) = ses m"
    "m_sessions (snd (manager_process_seat_device d m)) = m_sessions m" by simp_all
qed

subsection \<open>Taking a device\<close>

text \<open>The udev database gives, for a path, the device with that path.\<close>

definition udev_ok :: "manager \<Rightarrow> bool" where
  "udev_ok m \<longleftrightarrow> (\<forall>sp. ud_syspath (w_udev_by_syspath (m_world m) sp) = Some sp)"

lemma seat_device_path: "udev_ok m \<Longrightarrow> seat_device_of d m = Inr (sd_dev, sp) \<Longrightarrow>
    ud_syspath sd_dev = Some sp \<and> detect_device_type d \<noteq> DEVICE_TYPE_UNKNOWN"
  by (auto simp: seat_device_of_def udev_ok_def split: DeviceType.splits option.splits)

lemma session_device_verify_graph:
  assumes "wf m" "udev_ok m" "session_device_verify s n m = (x, m')"
  shows "wf m'" "ses m' = ses m" "m_sessions m' = m_sessions m"
    "x = Inr sd \<Longrightarrow> sd_device sd \<in> set (m_devices m') \<and>
       d_seat (dev m' (sd_device sd)) = s_seat (ses m s) \<and> sd_type sd \<noteq> DEVICE_TYPE_UNKNOWN"
proof -
  have "wf m' \<and> ses m' = ses m \<and> m_sessions m' = m_sessions m \<and>
    (x = Inr sd \<longrightarrow> sd_device sd \<in> set (m_devices m') \<and>
       d_seat (dev m' (sd_device sd)) = s_seat (ses m s) \<and> sd_type sd \<noteq> DEVICE_TYPE_UNKNOWN)"
  proof (cases "\<exists>d node sd_dev sp. m_udev m n = Some d \<and> ud_syspath d \<noteq> None \<and> ud_devname d = Some node \<and>
      seat_device_of d m = Inr (sd_dev, sp)")
    case False
    then show ?thesis
      using assms(1,3) by (auto simp: session_device_verify_def split: option.splits sum.splits)
  next
    case True
    then obtain d node sd_dev sp where d: "m_udev m n = Some d" "ud_syspath d \<noteq> None" "ud_devname d = Some node"
      "seat_device_of d m = Inr (sd_dev, sp)" by blast
    define rm where "rm = (if sp \<in> set (m_devices m) then (0, m) else manager_process_seat_device sd_dev m)"
    have sp: "ud_syspath sd_dev = Some sp" "detect_device_type d \<noteq> DEVICE_TYPE_UNKNOWN"
      using seat_device_path [OF assms(2) d(4)] by simp_all
    have rm: "wf (snd rm)" "ses (snd rm) = ses m" "m_sessions (snd rm) = m_sessions m"
      using assms(1) wf_process_seat_device [OF assms(1)] process_new_device [OF assms(1) sp(1)]
      by (simp_all add: rm_def)
    have "session_device_verify s n m =
       (if fst rm < 0 then (Inl (fst rm), snd rm)
        else if sp \<notin> set (m_devices (snd rm)) then (Inl (- ENODEV), snd rm)
        else if d_seat (dev (snd rm) sp) \<noteq> s_seat (ses (snd rm) s) then (Inl (- EPERM), snd rm)
        else (Inr \<lparr>sd_device = sp, sd_node = node, sd_fd = - EBADF, sd_type = detect_device_type d,
                   sd_active = False, sd_pushed_fd = False\<rparr>, snd rm))"
      unfolding session_device_verify_def d(1) option.case d(4) sum.case prod.case rm_def [symmetric]
      using d(2,3) by (auto simp: case_prod_beta split: option.splits)
    then show ?thesis
      using assms(3) rm sp(2) by (auto split: if_splits)
  qed
  then show "wf m'" "ses m' = ses m" "m_sessions m' = m_sessions m"
    "x = Inr sd \<Longrightarrow> sd_device sd \<in> set (m_devices m') \<and>
       d_seat (dev m' (sd_device sd)) = s_seat (ses m s) \<and> sd_type sd \<noteq> DEVICE_TYPE_UNKNOWN"
    by blast+
qed

text \<open>Entering a session device with both its links.\<close>

lemma wf_link_session_device:
  assumes "wf m" "s \<in> set (m_sessions m)" "n \<notin> set (s_devices (ses m s))" "s_seat (ses m s) \<noteq> None"
    "sd_device x \<in> set (m_devices m)" "d_seat (dev m (sd_device x)) = s_seat (ses m s)"
    "sd_type x \<noteq> DEVICE_TYPE_UNKNOWN"
  shows "wf (upd_dev (sd_device x) (d_session_devices_update (\<lambda>l. (s, n) # l))
           (upd_sd (s, n) (\<lambda>_. x) (upd_ses s (s_devices_update (\<lambda>l. n # l)) m)))" (is "wf ?m")
proof -
  note inv = wfD [OF assms(1)]
  have fresh: "(s, n) \<notin> set (d_session_devices (dev m d))" if "d \<in> set (m_devices m)" for d
    using wf_dsd [OF assms(1) that] assms(3) by blast
  have tables: "m_devices ?m = m_devices m" "m_seats ?m = m_seats m" "m_sessions ?m = m_sessions m"
    "m_sessions_by_leader ?m = m_sessions_by_leader m" "m_users ?m = m_users m" "m_seat_gc_queue ?m = m_seat_gc_queue m"
    "m_session_gc_queue ?m = m_session_gc_queue m" "m_user_gc_queue ?m = m_user_gc_queue m"
    "m_cgroup_inotify_fd ?m = m_cgroup_inotify_fd m" "sts ?m = sts m" "usr ?m = usr m"
    "m_cgroup_control_inotify_wd_session ?m = m_cgroup_control_inotify_wd_session m"
    by (simp_all add: upd_defs)
  have fields: "s_seat (ses ?m y) = s_seat (ses m y)" "s_user (ses ?m y) = s_user (ses m y)"
    "s_position (ses ?m y) = s_position (ses m y)" "s_in_gc_queue (ses ?m y) = s_in_gc_queue (ses m y)"
    "s_leader (ses ?m y) = s_leader (ses m y)" "d_seat (dev ?m y) = d_seat (dev m y)"
    "s_cgroup_control_inotify_wd (ses ?m y) = s_cgroup_control_inotify_wd (ses m y)" for y
    by (simp_all add: upd_defs)
  show ?thesis
  proof (rule wfI)
    show "inv_seats ?m" "inv_positions ?m" "inv_sessions ?m" "inv_users ?m" "inv_devices ?m" "inv_queues ?m"
      "inv_leaders ?m"
      using inv unfolding inv_defs tables fields by blast+
    show "inv_session_devices ?m"
    proof (rule inv_session_devicesI)
      fix s' n' assume *: "s' \<in> set (m_sessions ?m)" "n' \<in> set (s_devices (ses ?m s'))"
      show "sd_type (sdv ?m (s', n')) \<noteq> DEVICE_TYPE_UNKNOWN \<and>
          sd_device (sdv ?m (s', n')) \<in> set (m_devices ?m) \<and>
          (s', n') \<in> set (d_session_devices (dev ?m (sd_device (sdv ?m (s', n'))))) \<and>
          s_seat (ses ?m s') \<noteq> None \<and> d_seat (dev ?m (sd_device (sdv ?m (s', n')))) = s_seat (ses ?m s')"
      proof (cases "(s', n') = (s, n)")
        case True
        then show ?thesis using assms by (simp add: upd_simps)
      next
        case False
        have "sdv ?m (s', n') = sdv m (s', n')" using False by (auto simp: upd_defs)
        moreover have "set (d_session_devices (dev m d)) \<subseteq> set (d_session_devices (dev ?m d))" for d
          by (auto simp: upd_defs)
        moreover have "s' \<in> set (m_sessions m)" "n' \<in> set (s_devices (ses m s'))"
          using * False by (auto simp: tables upd_defs split: if_splits)
        ultimately show ?thesis using wf_sd [OF assms(1), of s' n'] unfolding tables fields by auto
      qed
    next
      fix d s' n' assume *: "d \<in> set (m_devices ?m)" "(s', n') \<in> set (d_session_devices (dev ?m d))"
      show "s' \<in> set (m_sessions ?m) \<and> n' \<in> set (s_devices (ses ?m s')) \<and> sd_device (sdv ?m (s', n')) = d"
      proof (cases "(s', n') = (s, n)")
        case True
        then show ?thesis using * assms(2) fresh by (auto simp: upd_simps split: if_splits)
      next
        case False
        then have "(s', n') \<in> set (d_session_devices (dev m d))" using * by (auto simp: upd_simps split: if_splits)
        then show ?thesis using * False wf_dsd [OF assms(1), of d s' n'] by (auto simp: upd_defs)
      qed
    qed (use inv(6) assms(3) fresh in \<open>auto simp: inv_session_devices_def upd_simps\<close>)
  qed
qed

text \<open>An entry of the heap of session devices that no session refers to does not matter.\<close>

lemma wf_unused_device:
  assumes "wf m" "same_but_devices m m'" "n \<notin> set (s_devices (ses m s))"
    "\<And>k. k \<noteq> (s, n) \<Longrightarrow> sd_device (sdv m' k) = sd_device (sdv m k) \<and> sd_type (sdv m' k) = sd_type (sdv m k)"
  shows "wf m'"
proof -
  let ?x = "m'\<lparr>sdv := (sdv m')((s, n) := sdv m (s, n))\<rparr>"
  have x: "same_but_devices m ?x" "sd_keeps m ?x"
    using assms(2,4) by (simp_all add: same_but_devices_def sd_keeps_def)
  then have "wf ?x" using wf_same_but_devices assms(1) by blast
  note inv = wfD [OF this]
  have eq: "m_sessions ?x = m_sessions m'" "ses ?x = ses m'" "dev ?x = dev m'" "m_devices ?x = m_devices m'" by simp_all
  have sn: "n \<notin> set (s_devices (ses m' s))" using assms(2,3) by (simp add: same_but_devices_fields)
  have dsn: "(s, n) \<notin> set (d_session_devices (dev m' d))" if "d \<in> set (m_devices m')" for d
    using wf_dsd [OF \<open>wf ?x\<close>, of d s n] sn that by auto
  have "inv_session_devices m'"
  proof (rule inv_session_devicesI)
    fix s' n' assume *: "s' \<in> set (m_sessions m')" "n' \<in> set (s_devices (ses m' s'))"
    then have "sdv ?x (s', n') = sdv m' (s', n')" using sn by auto
    then show "sd_type (sdv m' (s', n')) \<noteq> DEVICE_TYPE_UNKNOWN \<and>
          sd_device (sdv m' (s', n')) \<in> set (m_devices m') \<and>
          (s', n') \<in> set (d_session_devices (dev m' (sd_device (sdv m' (s', n'))))) \<and>
          s_seat (ses m' s') \<noteq> None \<and> d_seat (dev m' (sd_device (sdv m' (s', n')))) = s_seat (ses m' s')"
      using wf_sd [OF \<open>wf ?x\<close>, of s' n'] * unfolding eq by simp
  next
    fix d s' n' assume *: "d \<in> set (m_devices m')" "(s', n') \<in> set (d_session_devices (dev m' d))"
    then have "sdv ?x (s', n') = sdv m' (s', n')" using dsn by auto
    then show "s' \<in> set (m_sessions m') \<and> n' \<in> set (s_devices (ses m' s')) \<and> sd_device (sdv m' (s', n')) = d"
      using wf_dsd [OF \<open>wf ?x\<close>, of d s' n'] * unfolding eq by simp
  qed (use inv(6) in \<open>simp_all add: inv_session_devices_def\<close>)
  moreover have "inv_seats m'" "inv_positions m'" "inv_sessions m'" "inv_users m'" "inv_devices m'" "inv_queues m'"
      "inv_leaders m'"
    using inv(1-5,7,8) inv_congs(1-5,7,8) [of m' ?x] by simp_all
  ultimately show ?thesis by (simp add: wf_def)
qed

lemma first_open_sbd:
  "same_but_devices m (snd (session_device_first_open sd m))" "sd_keeps m (snd (session_device_first_open sd m))"
proof -
  show "same_but_devices m (snd (session_device_first_open sd m))"
    by (simp add: session_device_first_open_def Let_def case_prod_beta sbd_open sbd_upd_sd)
  have "sdv (snd (session_device_open x a m')) = sdv m'" for x a m'
    by simp
  then show "sd_keeps m (snd (session_device_first_open sd m))"
    by (simp add: session_device_first_open_def Let_def case_prod_beta sd_keeps_def upd_sd_def)
qed

lemma sbd_upd_dev: "same_but_devices m m' \<Longrightarrow> same_but_devices (upd_dev d f m) (upd_dev d f m')"
  by (cases m; cases m') (simp add: same_but_devices_def upd_dev_def)

lemma sbd_upd_ses: "same_but_devices m m' \<Longrightarrow> same_but_devices (upd_ses s f m) (upd_ses s f m')"
  by (cases m; cases m') (simp add: same_but_devices_def upd_ses_def)

lemma wf_session_device_new:
  assumes "wf m" "udev_ok m" "s \<in> set (m_sessions m)" "n \<notin> set (s_devices (ses m s))"
  shows "wf (snd (session_device_new s n open_device m))"
proof (cases "s_seat (ses m s) = None")
  case True
  then show ?thesis using assms(1) by (simp add: session_device_new_def)
next
  case seat: False
  define undo where "undo = upd_ses s (s_devices_update (remove1 n))"
  obtain x m1 where v: "session_device_verify s n m = (x, m1)" by fastforce
  note g = session_device_verify_graph [OF assms(1,2) v]
  have n1: "n \<notin> set (s_devices (ses m1 s))" using g(2) assms(4) by simp
  have undo: "undo y = y" if "ses y = ses m1" for y
    using n1 that by (cases y) (simp add: undo_def upd_ses_def remove1_idem fun_upd_idem)
  show ?thesis
  proof (cases x)
    case (Inl r)
    then show ?thesis
      using seat v g(1) undo [of m1] by (auto simp: session_device_new_def undo_def [symmetric] Let_def)
  next
    case (Inr x)
    note sd = g(4) [OF Inr]
    define m2 where "m2 = upd_sd (s, n) (\<lambda>_. x) (upd_ses s (s_devices_update (\<lambda>l. n # l)) m1)"
    define rm where "rm = (if open_device then session_device_first_open (s, n) m2 else (- EBADF, m2))"
    have rm: "same_but_devices m2 (snd rm)" "sd_keeps m2 (snd rm)"
      using first_open_sbd by (simp_all add: rm_def)
    have res: "snd (session_device_new s n open_device m) =
      (if open_device \<and> fst rm < 0 then undo (snd rm)
       else upd_dev (sd_device x) (d_session_devices_update (\<lambda>l. (s, n) # l))
              (upd_sd (s, n) (sd_fd_update (\<lambda>_. fst rm)) (snd rm)))"
      unfolding session_device_new_def Let_def v undo_def [symmetric] prod.case Inr sum.case m2_def [symmetric]
        rm_def [symmetric]
      using seat n1 by (auto simp: case_prod_beta)
    have linked: "wf (upd_dev (sd_device x) (d_session_devices_update (\<lambda>l. (s, n) # l)) m2)" (is "wf ?l")
      unfolding m2_def using g sd seat n1 assms(3) by (intro wf_link_session_device) simp_all
    let ?f = "upd_dev (sd_device x) (d_session_devices_update (\<lambda>l. (s, n) # l))
              (upd_sd (s, n) (sd_fd_update (\<lambda>_. fst rm)) (snd rm))"
    have "same_but_devices ?l ?f" by (intro sbd_upd_dev sbd_upd_sd rm(1))
    moreover have "sd_keeps ?l ?f"
      unfolding sd_keeps_def using sd_keepsD [OF rm(2)] by (auto simp: upd_defs)
    ultimately have final: "wf ?f" using wf_same_but_devices linked by blast
    have "same_but_devices (undo m2) (undo (snd rm))" unfolding undo_def by (rule sbd_upd_ses [OF rm(1)])
    moreover have "same_but_devices m1 (undo m2)"
      by (cases m1) (simp add: undo_def m2_def upd_defs same_but_devices_def fun_upd_idem)
    ultimately have "same_but_devices m1 (undo (snd rm))" by (rule same_but_devices_trans [rotated])
    moreover have "sd_device (sdv (undo (snd rm)) k) = sd_device (sdv m1 k) \<and>
        sd_type (sdv (undo (snd rm)) k) = sd_type (sdv m1 k)" if "k \<noteq> (s, n)" for k
      using sd_keepsD [OF rm(2), of k] that by (auto simp: undo_def m2_def upd_defs)
    ultimately have "wf (undo (snd rm))" using wf_unused_device [OF g(1) _ n1] by blast
    with final show ?thesis by (simp add: res)
  qed
qed

subsection \<open>Reading a session back\<close>

text \<open>The state of affairs while a session is being read: it has its user and no devices yet.\<close>

definition loading :: "string \<Rightarrow> manager \<Rightarrow> bool" where
  "loading s m \<longleftrightarrow> wf m \<and> udev_ok m \<and> s \<in> set (m_sessions m) \<and> s_user (ses m s) \<noteq> None \<and> s_devices (ses m s) = []"

lemma udev_ok_world: "m_world m' = m_world m \<Longrightarrow> udev_ok m' = udev_ok m"
  by (simp add: udev_ok_def)

lemma loading_links: "loading s m \<Longrightarrow> same_links m m' \<Longrightarrow> loading s m'"
  using wf_same_links [of m m'] udev_ok_world [of m' m] by (simp add: loading_def same_links_simps)

lemma loading_upd:
  "loading s m \<Longrightarrow> ses_keeps f \<Longrightarrow> loading s (upd_ses s f m)"
  using wf_upd_ses [of f s m] udev_ok_world [of "upd_ses s f m" m]
  by (simp add: loading_def ses_keepsD upd_ses_def ses_keeps_def)

lemma loading_claim:
  assumes "loading s m" "s_seat (ses m s) = Some st"
  shows "loading s (seat_claim_position st s p m)"
  using assms wf_claim [of m st s p] wf_session_seat [of m s st] udev_ok_world [of "seat_claim_position st s p m" m]
  by (simp add: loading_def)

lemma loading_attach:
  assumes "loading s m" "s_seat (ses m s) = None" "st \<in> set (m_seats m)"
  shows "loading s (snd (seat_attach_session st s m))"
proof -
  have w: "m_world (snd (seat_attach_session st s m)) = m_world m"
    by (simp add: attach_unfold [OF assms(2)] Let_def same_tables_simps [OF link_seat_tables])
  show ?thesis
    using assms wf_attach [of m st s] udev_ok_world [OF w]
    by (simp add: loading_def attach_unfold [OF assms(2)] Let_def same_tables_simps [OF link_seat_tables])
qed

lemma loading_display:
  assumes "loading s m" "s_user (ses m s) = Some u"
  shows "loading s (upd_user u (u_display_update (\<lambda>_. Some s)) m)" (is "loading s ?m")
proof -
  have s: "s \<in> set (u_sessions (usr m u))" "wf m" using assms wf_session_user(2) by (auto simp: loading_def)
  note inv = wfD [OF s(2)]
  have "wf ?m"
  proof (rule wfI)
    show "inv_seats ?m" "inv_positions ?m" "inv_devices ?m" "inv_session_devices ?m" "inv_leaders ?m"
      using inv inv_congs(1,2,5,6,8) [of ?m m] by simp_all
    show "inv_sessions ?m" using inv(3) unfolding inv_sessions_def by (simp add: upd_user_def)
    show "inv_users ?m" using inv(4) s(1) unfolding inv_users_def by (auto simp: upd_user_def)
    show "inv_queues ?m" using inv(7) unfolding inv_queues_def by (simp add: upd_user_def)
  qed
  then show ?thesis using assms(1) udev_ok_world [of ?m m] by (simp add: loading_def upd_user_def)
qed

text \<open>What loading the seat keeps: whatever its parts keep.\<close>

lemma load_seat_keeps:
  assumes "P m" "\<And>f m. P m \<Longrightarrow> P (upd_ses s (s_remote_update f) m)" "\<And>f m. P m \<Longrightarrow> P (upd_ses s (s_vtnr_update f) m)"
    "\<And>st m. P m \<Longrightarrow> s_seat (ses m s) = None \<Longrightarrow> st \<in> set (m_seats m) \<Longrightarrow> P (snd (seat_attach_session st s m))"
    "\<And>st p m. P m \<Longrightarrow> s_seat (ses m s) = Some st \<Longrightarrow> P (seat_claim_position st s p m)"
  shows "P (snd (session_load_seat s vars m))"
proof -
  define m1 where "m1 = (if vars ''REMOTE'' = None \<or> parse_boolean (vars ''REMOTE'') < 0 then m
    else upd_ses s (s_remote_update (\<lambda>_. parse_boolean (vars ''REMOTE'') > 0)) m)"
  define m2 where "m2 = (case vars ''VTNR'' of None \<Rightarrow> m1
    | Some v \<Rightarrow> (case safe_atou v of Inl _ \<Rightarrow> m1 | Inr n \<Rightarrow> upd_ses s (s_vtnr_update (\<lambda>_. n)) m1))"
  define rm where "rm = (case vars ''SEAT'' of None \<Rightarrow> (0, m2)
    | Some st \<Rightarrow> if s_seat (ses m2 s) = None \<and> st \<in> set (m_seats m2) then seat_attach_session st s m2 else (0, m2))"
  define m4 where "m4 = (case s_seat (ses (snd rm) s) of None \<Rightarrow> upd_ses s (s_vtnr_update (\<lambda>_. 0)) (snd rm)
    | Some st \<Rightarrow> if seat_has_vts st (snd rm) then snd rm else upd_ses s (s_vtnr_update (\<lambda>_. 0)) (snd rm))"
  have "P m1" using assms by (simp add: m1_def)
  then have "P m2" using assms(3) by (simp add: m2_def split: option.split sum.split)
  then have "P (snd rm)" using assms(4) by (simp add: rm_def split: option.split)
  then have m4: "P m4" using assms(3) by (simp add: m4_def split: option.split)
  have "snd (session_load_seat s vars m) = (case (vars ''POSITION'', s_seat (ses m4 s)) of
       (Some p, Some st) \<Rightarrow> seat_claim_position st s
           (case safe_atou p of Inl _ \<Rightarrow> m_uninit_unsigned m4 | Inr n \<Rightarrow> n) m4
     | _ \<Rightarrow> m4)"
    unfolding session_load_seat_def Let_def m1_def [symmetric] m2_def [symmetric] rm_def [symmetric] case_prod_beta
      m4_def [symmetric] snd_conv ..
  then show ?thesis using m4 assms(5) by (simp split: option.split)
qed

lemma loading_seat:
  assumes "loading s m"
  shows "loading s (snd (session_load_seat s vars m))"
  by (rule load_seat_keeps [where P = "loading s", OF assms])
    (simp_all add: loading_upd ses_keeps_def loading_attach loading_claim)

lemma parse_pid_positive: "parse_pid l = Inr p \<Longrightarrow> 0 < p"
  by (auto simp: parse_pid_def Let_def split: sum.splits if_splits)

lemma loading_fifo: "loading s m \<Longrightarrow> loading s (session_load_fifo s m)"
  by (erule loading_links)
    (auto simp: session_load_fifo_def Let_def case_prod_beta split: option.split
      intro!: links_basic links_create_fifo same_links_refl)

lemma loading_set_controller:
  assumes "loading s m"
  shows "loading s (snd (session_set_controller s c False False m))"
proof (cases "s_controller (ses m s) = None")
  case True
  let ?m = "snd (session_set_controller s c False False m)"
  have "same_links m ?m"
    using True by (auto simp: session_set_controller_def session_is_controller_def session_release_controller_def
        Let_def case_prod_beta upd_simps intro!: links_basic)
  with assms show ?thesis by (rule loading_links)
next
  case False
  then show ?thesis using assms by (simp add: session_set_controller_def)
qed

text \<open>The device numbers that a list of words names.\<close>

function load_devnums :: "string option \<Rightarrow> devt list" where
  "load_devnums p =
     (case extract_first_word p None {} of (k, word, p') \<Rightarrow>
        if k \<le> 0 then []
        else (case parse_devnum (the word) of Inl _ \<Rightarrow> [] | Inr n \<Rightarrow> [n]) @ load_devnums p')"
  by pat_completeness auto
termination
  by (relation "measure rest_len") (auto dest: extract_first_word_progress [OF sym])

declare load_devnums.simps [simp del]

lemma device_new_frame:
  assumes "wf m" "udev_ok m"
  shows "m_sessions (snd (session_device_new s n b m)) = m_sessions m"
    "set (s_devices (ses (snd (session_device_new s n b m)) s)) \<subseteq> insert n (set (s_devices (ses m s)))"
    "s_user (ses (snd (session_device_new s n b m)) s) = s_user (ses m s)"
proof -
  obtain x m1 where v: "session_device_verify s n m = (x, m1)" by fastforce
  note g = session_device_verify_graph [OF assms v]
  have o: "m_sessions (snd (session_device_first_open (s, n) y)) = m_sessions y"
      "ses (snd (session_device_first_open (s, n) y)) = ses y" for y
    using first_open_sbd(1) [of y "(s, n)"] by (simp_all add: same_but_devices_fields)
  show "m_sessions (snd (session_device_new s n b m)) = m_sessions m"
    "set (s_devices (ses (snd (session_device_new s n b m)) s)) \<subseteq> insert n (set (s_devices (ses m s)))"
    "s_user (ses (snd (session_device_new s n b m)) s) = s_user (ses m s)"
    using g o set_remove1_subset
    by (auto simp: session_device_new_def Let_def v case_prod_beta upd_defs split: sum.split)
qed

lemma world_device_free: "m_world (device_free d m) = m_world m"
  using device_detach_tables [of m d] by (simp add: device_free_def Let_def same_tables_simps)

lemma world_seat_start: "m_world (snd (seat_start st m)) = m_world m"
  using ses_active_vt(2) [of m st] by (simp add: seat_start_def Let_def seat_send_signal_def upd_seat_def same_tables_simps)

lemma world_process: "m_world (snd (manager_process_seat_device d m)) = m_world m"
  by (auto simp: manager_process_seat_device_def manager_forget_device_def manager_add_device_def manager_add_seat_def
      seat_new_def device_new_def Let_def case_prod_beta world_device_free world_seat_start
      same_tables_simps [OF device_attach_tables] same_tables_simps [OF gc_queue_tables] upd_defs assert_that_def
      split: option.split)

lemma world_verify: "m_world (snd (session_device_verify s n m)) = m_world m"
  by (auto simp: session_device_verify_def world_process case_prod_beta split: option.split sum.split)

lemma world_device_new: "m_world (snd (session_device_new s n b m)) = m_world m"
proof -
  have o: "m_world (snd (session_device_first_open (s, n) y)) = m_world y" for y
    using first_open_sbd(1) [of y "(s, n)"] by (simp add: same_but_devices_fields)
  show ?thesis
    using world_verify [of s n m] o
    by (auto simp: session_device_new_def Let_def case_prod_beta upd_defs split: sum.split)
qed

lemma wf_load_devices:
  assumes "wf m" "udev_ok m" "s \<in> set (m_sessions m)" "distinct (load_devnums p)"
    "set (load_devnums p) \<inter> set (s_devices (ses m s)) = {}"
  shows "wf (snd (session_load_devices_loop s p (r, m))) \<and> s \<in> set (m_sessions (snd (session_load_devices_loop s p (r, m))))"
  using assms
proof (induction "rest_len p" arbitrary: p r m rule: less_induct)
  case less
  obtain k word p' where w: "extract_first_word p None {} = (k, word, p')" by (metis prod_cases3)
  show ?case
  proof (cases "k \<le> 0")
    case True
    then show ?thesis using less.prems by (subst (1 2) session_load_devices_loop.simps) (simp add: w)
  next
    case False
    then have shorter: "rest_len p' < rest_len p"
      using extract_first_word_progress [OF w] by simp
    have nums: "load_devnums p = (case parse_devnum (the word) of Inl _ \<Rightarrow> [] | Inr n \<Rightarrow> [n]) @ load_devnums p'"
      using False by (subst load_devnums.simps) (simp add: w)
    show ?thesis
    proof (cases "parse_devnum (the word)")
      case (Inl e)
      then show ?thesis
        using less.hyps [OF shorter, of m "ret_gather r e"] less.prems nums False
        by (subst (1 2) session_load_devices_loop.simps) (simp add: w)
    next
      case (Inr n)
      let ?m = "snd (session_device_new s n False m)"
      have n: "n \<notin> set (s_devices (ses m s))" "n \<notin> set (load_devnums p')" "distinct (load_devnums p')"
        using less.prems(4,5) nums Inr by auto
      have "wf ?m" "udev_ok ?m" "s \<in> set (m_sessions ?m)"
        using wf_session_device_new [OF less.prems(1-3) n(1)] udev_ok_world [OF world_device_new] device_new_frame(1)
          less.prems(1-3) by simp_all
      moreover have "set (load_devnums p') \<inter> set (s_devices (ses ?m s)) = {}"
        using device_new_frame(2) [OF less.prems(1,2), of s n False] n(2) less.prems(5) nums Inr by auto
      ultimately show ?thesis
        using less.hyps [OF shorter, of ?m "ret_gather r (fst (session_device_new s n False m))"] n(3) False Inr
        by (subst (1 2) session_load_devices_loop.simps) (simp add: w case_prod_beta)
    qed
  qed
qed

lemma wf_load_controller:
  assumes "loading s m" "distinct (load_devnums (vars ''DEVICES''))"
  shows "wf (session_load_controller s vars m) \<and> s \<in> set (m_sessions (session_load_controller s vars m))"
proof (cases "vars ''CONTROLLER''")
  case None
  then show ?thesis using assms(1) by (simp add: session_load_controller_def loading_def)
next
  case (Some c)
  have "loading s (session_restore_vt s m)"
    using assms(1) links_restore_vt [OF same_links_refl] by (rule loading_links)
  moreover have "loading s (snd (session_set_controller s c False False m))"
    using assms(1) by (rule loading_set_controller)
  ultimately show ?thesis
    using Some assms(2) wf_load_devices [of "snd (session_set_controller s c False False m)" s "vars ''DEVICES''" 0]
    by (simp add: session_load_controller_def session_load_devices_def loading_def)
qed

lemma wf_load_leader:
  assumes "wf m" "s \<in> set (m_sessions m)"
  shows "wf (snd (session_load_leader s vars r m))"
proof (cases "\<exists>l p. vars ''LEADER'' = Some l \<and> parse_pid l = Inr p")
  case False
  then show ?thesis
    using assms(1)
    by (cases "vars ''LEADER''"; cases "parse_pid (the (vars ''LEADER''))") (auto simp: session_load_leader_def Let_def)
next
  case True
  then obtain l p where l: "vars ''LEADER'' = Some l" "parse_pid l = Inr p" by blast
  define saved where "saved = vars ''LEADER_FD_SAVED''"
  define m1 where "m1 = upd_ses s (s_deserialized_pid_update (\<lambda>_. p)) (assert_that (\<not> pidref_is_set (s_leader (ses m s))) m)"
  define m2 where "m2 = (if saved \<noteq> None then upd_ses s (s_leader_fd_saved_update (\<lambda>_. parse_boolean saved > 0)) m1 else m1)"
  have m1: "wf m1" "s \<in> set (m_sessions m1)"
    using assms by (simp_all add: m1_def wf_upd_ses ses_keeps_def)
  then have m2: "wf m2" "s \<in> set (m_sessions m2)"
    by (simp_all add: m2_def wf_upd_ses ses_keeps_def)
  obtain k pr m3 where pr: "pidref_set_pid PIDREF_NULL p m2 = (k, pr, m3)" by (metis prod_cases3)
  have m3: "wf m3" "s \<in> set (m_sessions m3)" "0 \<le> k \<Longrightarrow> pidref_is_set pr"
    using pr m2 parse_pid_positive [OF l(2)]
    by (auto simp: pidref_set_pid_def case_prod_beta Let_def pidref_is_set_def split: if_splits)
  have "snd (session_load_leader s vars r m) =
    (if saved \<noteq> None \<and> parse_boolean saved < 0 then m1
     else if saved \<noteq> None \<and> parse_boolean saved > 0 then m2
     else if k \<ge> 0 then snd (session_set_leader_consume s pr m3) else m3)"
    unfolding session_load_leader_def l option.case sum.case Let_def m1_def [symmetric] saved_def [symmetric]
      m2_def [symmetric] pr prod.case by simp
  then show ?thesis using m1 m2 m3 wf_set_leader [OF m3(1,2)] by simp
qed

lemma load_user:
  assumes "wf m" "udev_ok m" "s \<in> set (m_sessions m)" "s_devices (ses m s) = []"
  shows "fst (session_load_user s vars m) < 0 \<and> wf (snd (session_load_user s vars m)) \<or>
    loading s (snd (session_load_user s vars m))"
proof -
  have "loading s (session_set_user s u m)" if "s_user (ses m s) = None" "u \<in> set (m_users m)" for u
  proof -
    let ?m = "session_set_user s u m"
    have eq: "s_user (ses ?m s) = Some u" "s_devices (ses ?m s) = s_devices (ses m s)" "m_sessions ?m = m_sessions m"
      "m_world ?m = m_world m"
      by (simp_all add: session_set_user_def user_update_last_session_timer_def Let_def upd_defs sys_def emit_def
          assert_that_def case_prod_beta split: option.split)
    show ?thesis
      using graph_set_user [OF assms(1,3) that] udev_ok_world [OF eq(4)] assms by (simp add: loading_def eq)
  qed
  moreover have "parse_uid x = Inl r \<Longrightarrow> r < 0" for x r
    by (auto simp: parse_uid_def safe_atou_full_def safe_ato_unsigned_def Let_def split: sum.splits if_splits prod.splits option.splits)
  ultimately show ?thesis
    using assms by (auto simp: session_load_user_def loading_def split: option.split sum.split)
qed

text \<open>A file that names no device twice is read into a well-formed state.\<close>

definition session_file_ok :: "string \<Rightarrow> manager \<Rightarrow> bool" where
  "session_file_ok s m \<longleftrightarrow>
     (case m_files m (session_state_file s) of
        Inl _ \<Rightarrow> True
      | Inr contents \<Rightarrow>
          (case parse_env_file session_load_keys contents (session_load_init (ses m s)) of
             Inl _ \<Rightarrow> True
           | Inr vars \<Rightarrow> distinct (load_devnums (vars ''DEVICES''))))"

lemma wf_load_rest:
  assumes "loading s m" "distinct (load_devnums (vars ''DEVICES''))"
  shows "wf (snd (session_load_rest s vars m))"
proof -
  have keeps: "ses_keeps (session_load_types vars)" "ses_keeps (session_load_times vars)"
    by (simp_all add: ses_keeps_def session_load_types_def session_load_times_def Let_def)
  define m1 where "m1 = snd (session_load_seat s vars m)"
  define m2 where "m2 = upd_ses s (session_load_times vars) (session_load_fifo s (upd_ses s (session_load_types vars) m1))"
  define m3 where "m3 = session_load_display s (vars ''IS_DISPLAY'') m2"
  have "loading s m1" using assms(1) loading_seat by (simp add: m1_def)
  then have "loading s m2" using keeps by (simp add: m2_def loading_upd loading_fifo)
  then have "loading s m3"
    using loading_display by (auto simp: m3_def session_load_display_def loading_def split: option.split)
  then have "wf (session_load_controller s vars m3) \<and> s \<in> set (m_sessions (session_load_controller s vars m3))"
    using assms(2) by (rule wf_load_controller)
  then show ?thesis
    unfolding session_load_rest_def case_prod_beta Let_def m1_def [symmetric] m2_def [symmetric] m3_def [symmetric]
    using wf_load_leader by blast
qed

lemma wf_session_load:
  assumes "wf m" "udev_ok m" "s \<in> set (m_sessions m)" "s_devices (ses m s) = []" "session_file_ok s m"
  shows "wf (snd (session_load s m))"
proof (cases "\<exists>contents vars. m_files m (session_state_file s) = Inr contents \<and>
    parse_env_file session_load_keys contents (session_load_init (ses m s)) = Inr vars")
  case False
  have "ses_keeps (session_load_strings vars)" for vars
    by (simp add: ses_keeps_def session_load_strings_def)
  then show ?thesis
    using False assms(1) by (auto simp: session_load_def wf_upd_ses split: sum.splits)
next
  case True
  then obtain contents vars where f: "m_files m (session_state_file s) = Inr contents"
    "parse_env_file session_load_keys contents (session_load_init (ses m s)) = Inr vars" by blast
  let ?m = "upd_ses s (session_load_strings vars) m"
  have keeps: "ses_keeps (session_load_strings vars)" by (simp add: ses_keeps_def session_load_strings_def)
  have m: "wf ?m" "s \<in> set (m_sessions ?m)" "udev_ok ?m" "s_devices (ses ?m s) = []"
    using assms keeps udev_ok_world [of ?m m] by (simp_all add: wf_upd_ses ses_keepsD)
  have dist: "distinct (load_devnums (vars ''DEVICES''))"
    using assms(5) f by (simp add: session_file_ok_def)
  have user: "fst (session_load_user s vars ?m) < 0 \<and> wf (snd (session_load_user s vars ?m)) \<or>
      loading s (snd (session_load_user s vars ?m))"
    using load_user [OF m(1,3,2,4)] by simp
  show ?thesis
    using user wf_load_rest [where vars = vars, OF _ dist] by (auto simp: session_load_def f case_prod_beta loading_def)
qed

end
