(* ===== verification/Schedule.thy ===== *)
theory Schedule
  imports Button_Inv
begin

text \<open>
  The scheduled shutdown (\<^verbatim>\<open>logind-dbus.c\<close>) and the warnings about it (\<^verbatim>\<open>logind-wall.c\<close>): the timers, the
  file that keeps the schedule over a restart of the daemon, and the messages to the terminals of users.
\<close>

subsection \<open>Names\<close>

definition handle_action_verb_table :: "(HandleAction \<times> string) list" where
  "handle_action_verb_table =
    [(HANDLE_IGNORE, ''do nothing''), (HANDLE_POWEROFF, ''power off''), (HANDLE_REBOOT, ''reboot''),
     (HANDLE_HALT, ''halt''), (HANDLE_KEXEC, ''kexec''), (HANDLE_SUSPEND, ''suspend''),
     (HANDLE_HIBERNATE, ''hibernate''), (HANDLE_HYBRID_SLEEP, ''hybrid sleep''),
     (HANDLE_SUSPEND_THEN_HIBERNATE, ''suspend and later hibernate''), (HANDLE_SLEEP, ''sleep''),
     (HANDLE_FACTORY_RESET, ''perform a factory reset''), (HANDLE_LOCK, ''be locked''),
     (HANDLE_SECURE_ATTENTION_KEY, ''handle the secure attention key'')]"

interpretation handle_action_verb: string_table handle_action_verb_table
proof
  show "e \<in> fst ` set handle_action_verb_table" for e
    by (cases e) (simp_all add: handle_action_verb_table_def)
qed (simp_all add: handle_action_verb_table_def)

definition handle_action_verb_to_string :: "HandleAction \<Rightarrow> string" where
  "handle_action_verb_to_string x = the (string_table_to_string handle_action_verb_table x)"

definition SHUTDOWN_SCHEDULE_FILE :: string where
  "SHUTDOWN_SCHEDULE_FILE = ''/run/systemd/shutdown/scheduled''"

abbreviation USEC_PER_MINUTE :: nat where "USEC_PER_MINUTE \<equiv> 60 * USEC_PER_SEC"
abbreviation USEC_PER_HOUR :: nat where "USEC_PER_HOUR \<equiv> 60 * USEC_PER_MINUTE"

subsection \<open>The state\<close>

text \<open>As the initialiser in \<^verbatim>\<open>manager_new\<close> leaves it.\<close>

definition new_schedule :: schedule where
  "new_schedule = \<lparr>sch_action = None, sch_timeout = 0, sch_timeout_source = False, sch_uid = 0, sch_tty = None,
     sch_dry_run = False, sch_nologin_source = False, sch_unlink_nologin = False, sch_wall_message = None,
     sch_enable_wall_messages = True, sch_wall_source = False, sch_sleep_uid = 0, sch_maintenance_time = None\<rparr>"

definition upd_sch :: "(schedule \<Rightarrow> schedule) \<Rightarrow> manager \<Rightarrow> manager" where
  "upd_sch f m = m\<lparr>m_schedule := f (m_schedule m)\<rparr>"

text \<open>The program sets a timer; a timer that cannot be set stays as it was.\<close>

definition event_reset_time :: "string \<Rightarrow> nat \<Rightarrow> ((bool \<Rightarrow> bool) \<Rightarrow> schedule \<Rightarrow> schedule) \<Rightarrow> manager \<Rightarrow> int \<times> manager" where
  "event_reset_time name usec source m =
     (case sys (Sys_add_time name usec) m of (r, m) \<Rightarrow>
        if r < 0 then (r, m) else (0, upd_sch (source (\<lambda>_. True)) m))"

definition reset_scheduled_shutdown :: "manager \<Rightarrow> manager" where
  "reset_scheduled_shutdown m =
     (let m = upd_sch (\<lambda>x. x\<lparr>sch_timeout_source := False, sch_wall_source := False, sch_nologin_source := False,
                sch_action := None, sch_timeout := USEC_INFINITY, sch_uid := UID_INVALID, sch_tty := None,
                sch_dry_run := False\<rparr>) m;
          m = (if sch_unlink_nologin (m_schedule m)
               then upd_sch (sch_unlink_nologin_update (\<lambda>_. False)) (emit (Sys_unlink ''/run/nologin'') m) else m)
      in manager_send_changed [''ScheduledShutdown''] (emit (Sys_unlink SHUTDOWN_SCHEDULE_FILE) m))"

definition nologin_timeout_handler :: "manager \<Rightarrow> manager" where
  "nologin_timeout_handler m =
     (case sys (Sys_write_file ''/run/nologin''
        ''System is going down. Unprivileged users are not permitted to log in anymore. For technical details, see pam_nologin(8).'') m of
        (r, m) \<Rightarrow> upd_sch (sch_unlink_nologin_update (\<lambda>_. r \<ge> 0)) m)"

definition nologin_timeout_usec :: "nat \<Rightarrow> nat" where
  "nologin_timeout_usec elapse = (if elapse > 5 * USEC_PER_MINUTE then elapse - 5 * USEC_PER_MINUTE else 0)"

subsection \<open>The file\<close>

definition LONG_LINE_MAX :: nat where
  "LONG_LINE_MAX = 1024 * 1024"

text \<open>One line, or an error when it could not be read back.\<close>

definition serialize_item :: "string \<Rightarrow> string \<Rightarrow> int + string" where
  "serialize_item key value =
     (if length key + 1 + length value + 1 > LONG_LINE_MAX then Inl (- EINVAL) else Inr (line key value))"

definition serialize_item_escaped :: "string \<Rightarrow> string \<Rightarrow> int + string" where
  "serialize_item_escaped key value = serialize_item key (xescape value '' '')"

text \<open>Errors of the lines that are not escaped are not looked at: such a line is left out.\<close>

definition serialize_item_format :: "string \<Rightarrow> string \<Rightarrow> string" where
  "serialize_item_format key value = (case serialize_item key value of Inl _ \<Rightarrow> [] | Inr l \<Rightarrow> l)"

definition serialize_usec :: "string \<Rightarrow> nat \<Rightarrow> string" where
  "serialize_usec key usec = (if usec = USEC_INFINITY then [] else serialize_item_format key (dec usec))"

definition schedule_lines :: "HandleAction \<Rightarrow> schedule \<Rightarrow> string" where
  "schedule_lines a x =
     serialize_usec ''USEC'' (sch_timeout x) @
     serialize_item_format ''WARN_WALL'' (one_zero (sch_enable_wall_messages x)) @
     serialize_item_format ''MODE'' (handle_action_to_string a) @
     serialize_item_format ''UID'' (dec (sch_uid x)) @
     (case sch_tty x of None \<Rightarrow> [] | Some t \<Rightarrow> serialize_item_format ''TTY'' t)"

definition schedule_contents :: "HandleAction \<Rightarrow> schedule \<Rightarrow> int + string" where
  "schedule_contents a x =
     (case sch_wall_message x of
        None \<Rightarrow> Inr (schedule_lines a x)
      | Some msg \<Rightarrow>
          if msg = [] then Inr (schedule_lines a x)
          else case serialize_item_escaped ''WALL_MESSAGE'' msg of
                 Inl r \<Rightarrow> Inl r
               | Inr l \<Rightarrow> Inr (schedule_lines a x @ l))"

text \<open>The action is asserted to be valid.\<close>

definition update_schedule_file :: "manager \<Rightarrow> int \<times> manager" where
  "update_schedule_file m =
     (case sch_action (m_schedule m) of
        None \<Rightarrow> (- EINVAL, assert_that False m)
      | Some a \<Rightarrow>
          case sys (Sys_mkdir ''/run/systemd/shutdown'') m of (r, m) \<Rightarrow> if r < 0 then (r, m) else
          case sys (Sys_fopen_temporary SHUTDOWN_SCHEDULE_FILE) m of (r, m) \<Rightarrow> if r < 0 then (r, m) else
          case schedule_contents a (m_schedule m) of
            Inl r \<Rightarrow> (r, emit (Sys_unlink SHUTDOWN_SCHEDULE_FILE) m)
          | Inr text \<Rightarrow>
              case sys (Sys_fflush SHUTDOWN_SCHEDULE_FILE text) m of (r, m) \<Rightarrow>
              if r < 0 then (r, emit (Sys_unlink SHUTDOWN_SCHEDULE_FILE) m) else
              case sys (Sys_rename SHUTDOWN_SCHEDULE_FILE) m of (r, m) \<Rightarrow>
              if r < 0 then (r, emit (Sys_unlink SHUTDOWN_SCHEDULE_FILE) m) else (0, m))"

subsection \<open>Warnings\<close>

definition wall_timers :: "nat list" where
  "wall_timers = [0, 1, 2, 3, 4, 5, 6, 7, 8, 9, 10, 25, 40, 55, 70, 100, 130, 150, 180]"

text \<open>The loop over the timers, from the second on, with the one before.\<close>

fun wall_loop :: "nat \<Rightarrow> nat list \<Rightarrow> nat \<Rightarrow> nat option" where
  "wall_loop prev [] left = None"
| "wall_loop prev (t # ts) left =
     (if t * USEC_PER_MINUTE \<ge> left then Some (left - prev * USEC_PER_MINUTE) else wall_loop t ts left)"

definition when_wall :: "nat \<Rightarrow> nat \<Rightarrow> nat" where
  "when_wall n elapse =
     (if n \<ge> elapse then 0
      else case wall_loop (hd wall_timers) (tl wall_timers) (elapse - n) of
             Some w \<Rightarrow> w
           | None \<Rightarrow> (elapse - n) mod USEC_PER_HOUR)"

text \<open>Whether a terminal gets the message; an action that is not valid fails an assertion, which
  \<open>warn_wall\<close> excludes.\<close>

definition logind_wall_tty_filter :: "string \<Rightarrow> bool \<Rightarrow> schedule \<Rightarrow> bool" where
  "logind_wall_tty_filter tty is_local x =
     (case path_startswith tty ''/dev/'' of
        None \<Rightarrow> True
      | Some p \<Rightarrow>
          if is_local \<and> (case sch_action x of None \<Rightarrow> False | Some a \<Rightarrow> HANDLE_ACTION_IS_SLEEP a) then False
          else sch_tty x \<noteq> Some p)"

definition wall_text :: "HandleAction \<Rightarrow> nat \<Rightarrow> manager \<Rightarrow> string" where
  "wall_text a n m =
     (let x = m_schedule m;
          msg = (case sch_wall_message x of None \<Rightarrow> [] | Some s \<Rightarrow> s);
          left = sch_timeout x > n
      in msg @ (if msg = [] then [] else [NL]) @ ''The system will '' @ handle_action_verb_to_string a @ '' '' @
         (if left then ''at '' @ w_format_timestamp (m_world m) (sch_timeout x) else ''now'') @ ''!'')"

text \<open>True when there was something to say.\<close>

definition warn_wall :: "nat \<Rightarrow> manager \<Rightarrow> bool \<times> manager" where
  "warn_wall n m =
     (case sch_action (m_schedule m) of
        None \<Rightarrow> (False, m)
      | Some a \<Rightarrow>
          (True, if sch_enable_wall_messages (m_schedule m)
                 then emit (Sys_wall (wall_text a n m) (sch_uid (m_schedule m)) (sch_tty (m_schedule m))) m
                 else m))"

definition wall_message_timeout_handler :: "manager \<Rightarrow> int \<times> manager" where
  "wall_message_timeout_handler m =
     (let n = now_realtime m
      in case warn_wall n m of (said, m) \<Rightarrow>
         if \<not> said then (0, m)
         else
         let nxt = when_wall n (sch_timeout (m_schedule m))
         in if nxt > 0 then
              (case sys (Sys_add_time ''wall-message-timer'' (n + nxt)) m of (r, m) \<Rightarrow>
                 if r < 0 then (r, m) else sys (Sys_event_source ''wall-message-timer'') m)
            else (0, m))"

definition manager_setup_wall_message_timer :: "manager \<Rightarrow> int \<times> manager" where
  "manager_setup_wall_message_timer m =
     (let n = now_realtime m;
          elapse = sch_timeout (m_schedule m)
      in if sch_action (m_schedule m) = None then (0, m)
         else if elapse > 0 \<and> elapse < n then (0, m)
         else
         case (if elapse = 0 \<or> elapse - n < 15 * USEC_PER_MINUTE then warn_wall n m else (True, m)) of (said, m) \<Rightarrow>
         if \<not> said then (0, m)
         else if when_wall n elapse = 0 then (0, m)
         else case event_reset_time ''wall-message-timer'' (n + when_wall n elapse) sch_wall_source_update m of (r, m) \<Rightarrow>
           if r < 0 then (r, upd_sch (sch_wall_source_update (\<lambda>_. False)) m) else (0, m))"

subsection \<open>Timers and reading back\<close>

text \<open>The timer only runs with a valid action; the lookup of another would fail an assertion.\<close>

definition manager_scheduled_shutdown_handler :: "manager \<Rightarrow> int \<times> manager" where
  "manager_scheduled_shutdown_handler m =
     (case sch_action (m_schedule m) of
        None \<Rightarrow> (0, assert_that False m)
      | Some a \<Rightarrow>
          if m_delayed_action m \<noteq> None then (- EALREADY, reset_scheduled_shutdown m)
          else if sch_dry_run (m_schedule m) then (0, reset_scheduled_shutdown (bus_manager_log_shutdown a m))
          else case bus_manager_shutdown_or_sleep_now_or_later a m of (r, m) \<Rightarrow>
            if r < 0 then (r, reset_scheduled_shutdown m) else (0, m))"

definition manager_setup_shutdown_timers :: "manager \<Rightarrow> int \<times> manager" where
  "manager_setup_shutdown_timers m =
     (let fail = upd_sch (\<lambda>x. x\<lparr>sch_timeout_source := False, sch_nologin_source := False\<rparr>);
          timeout = sch_timeout (m_schedule m)
      in case event_reset_time ''scheduled-shutdown-timeout'' timeout sch_timeout_source_update m of (r, m) \<Rightarrow>
         if r < 0 then (r, fail m) else
         case event_reset_time ''nologin-timeout'' (nologin_timeout_usec timeout) sch_nologin_source_update m of (r, m) \<Rightarrow>
         if r < 0 then (r, fail m) else (0, m))"

definition schedule_keys :: "string list" where
  "schedule_keys = [''USEC'', ''WARN_WALL'', ''MODE'', ''WALL_MESSAGE'', ''UID'', ''TTY'']"

text \<open>The fields after the action and the time are known to be good.\<close>

definition schedule_read :: "HandleAction \<Rightarrow> nat \<Rightarrow> env_vars \<Rightarrow> schedule \<Rightarrow> schedule" where
  "schedule_read a usec vars x =
     (let x = x\<lparr>sch_timeout := usec, sch_action := Some a\<rparr>;
          x = (case vars ''WARN_WALL'' of None \<Rightarrow> x
               | Some b \<Rightarrow> if parse_boolean (Some b) < 0 then x
                           else x\<lparr>sch_enable_wall_messages := parse_boolean (Some b) \<noteq> 0\<rparr>);
          x = (case vars ''WALL_MESSAGE'' of None \<Rightarrow> x
               | Some w \<Rightarrow> (case cunescape w of None \<Rightarrow> x | Some s \<Rightarrow> x\<lparr>sch_wall_message := Some s\<rparr>));
          x = (case vars ''UID'' of None \<Rightarrow> x
               | Some u \<Rightarrow> (case parse_uid u of Inl _ \<Rightarrow> x | Inr u \<Rightarrow> x\<lparr>sch_uid := u\<rparr>))
      in x\<lparr>sch_tty := vars ''TTY''\<rparr>)"

definition manager_load_scheduled_shutdown :: "manager \<Rightarrow> manager" where
  "manager_load_scheduled_shutdown m =
     (let parsed = (case m_files m SHUTDOWN_SCHEDULE_FILE of
                      Inl _ \<Rightarrow> None
                    | Inr text \<Rightarrow> success (parse_env_file schedule_keys text (\<lambda>_. None)));
          m = reset_scheduled_shutdown m
      in case parsed of
           None \<Rightarrow> m
         | Some vars \<Rightarrow>
             (case handle_action_from_string (vars ''MODE'') of
                None \<Rightarrow> m
              | Some a \<Rightarrow>
                  (case vars ''USEC'' of
                     None \<Rightarrow> m
                   | Some u \<Rightarrow>
                       (case safe_atou64 u of
                          Inl _ \<Rightarrow> m
                        | Inr usec \<Rightarrow>
                            case manager_setup_shutdown_timers (upd_sch (schedule_read a usec vars) m) of (r, m) \<Rightarrow>
                            if r < 0 then reset_scheduled_shutdown m
                            else snd (update_schedule_file (snd (manager_setup_wall_message_timer m)))))))"

end
