(* ===== verification/Schedule_Inv.thy ===== *)
theory Schedule_Inv
  imports Schedule
begin

text \<open>
  What the schedule operations keep: the object graph and the state of the power actions. The file that keeps
  the schedule over a restart is read back, but for the message to users; and when the next warning is due.
\<close>

subsection \<open>Frames\<close>

lemma sg_upd_sch: "same_graph m m' \<Longrightarrow> same_graph m (upd_sch f m')"
  by (simp add: upd_sch_def sg_upd)

lemma sg_event_reset: "same_graph m m' \<Longrightarrow> same_graph m (snd (event_reset_time n u f m'))"
  by (simp add: event_reset_time_def case_prod_beta sg_basic sg_upd_sch)

lemma sg_send_changed: "same_graph m m' \<Longrightarrow> same_graph m (manager_send_changed ps m')"
  by (rule sg_objects [OF _ manager_send_changed_same])

lemma sg_assert: "same_graph m m' \<Longrightarrow> same_graph m (assert_that b m')"
  by (simp add: same_graph_def assert_that_def)

lemmas sg_sch = sg_basic sg_upd_sch sg_event_reset sg_send_changed sg_assert

lemma sg_reset_schedule: "same_graph m m' \<Longrightarrow> same_graph m (reset_scheduled_shutdown m')"
  by (simp add: reset_scheduled_shutdown_def Let_def sg_sch)

lemma sg_update_file: "same_graph m m' \<Longrightarrow> same_graph m (snd (update_schedule_file m'))"
  by (simp add: update_schedule_file_def case_prod_beta sg_sch split: option.split sum.split)

lemma sg_warn_wall: "same_graph m m' \<Longrightarrow> same_graph m (snd (warn_wall n m'))"
  by (simp add: warn_wall_def sg_sch split: option.split)

lemma sg_wall_timer: "same_graph m m' \<Longrightarrow> same_graph m (snd (manager_setup_wall_message_timer m'))"
  by (simp add: manager_setup_wall_message_timer_def case_prod_beta Let_def sg_sch sg_warn_wall)

lemma sg_wall_handler: "same_graph m m' \<Longrightarrow> same_graph m (snd (wall_message_timeout_handler m'))"
  by (simp add: wall_message_timeout_handler_def case_prod_beta Let_def sg_sch sg_warn_wall)

lemma sg_nologin_handler: "same_graph m m' \<Longrightarrow> same_graph m (nologin_timeout_handler m')"
  by (simp add: nologin_timeout_handler_def case_prod_beta sg_sch)

lemma sg_shutdown_timers: "same_graph m m' \<Longrightarrow> same_graph m (snd (manager_setup_shutdown_timers m'))"
  by (simp add: manager_setup_shutdown_timers_def case_prod_beta Let_def sg_sch)

lemma sg_shutdown_handler: "same_graph m m' \<Longrightarrow> same_graph m (snd (manager_scheduled_shutdown_handler m'))"
  by (auto simp: manager_scheduled_shutdown_handler_def case_prod_beta bus_manager_log_shutdown_def sg_sch
      sg_power [OF _ po_now_or_later [OF power_only_refl]] intro!: sg_reset_schedule split: option.split)

lemma sg_load_schedule: "same_graph m m' \<Longrightarrow> same_graph m (manager_load_scheduled_shutdown m')"
  by (auto simp: manager_load_scheduled_shutdown_def case_prod_beta Let_def sg_reset_schedule sg_update_file
      sg_wall_timer sg_shutdown_timers sg_upd_sch split: option.split sum.split)

text \<open>The power actions.\<close>

lemma same_power_sch: "same_power m (upd_sch f m)"
  by (simp add: same_power_def upd_sch_def)

lemma same_power_event_reset: "same_power m (snd (event_reset_time n u f m))"
  by (simp add: same_power_def event_reset_time_def case_prod_beta upd_sch_def sys_def)

lemma same_power_reset_schedule: "same_power m (reset_scheduled_shutdown m)"
  by (simp add: same_power_def reset_scheduled_shutdown_def Let_def upd_sch_def emit_def manager_send_changed_def)

subsection \<open>The next warning\<close>

lemma wall_loop_due:
  assumes "wall_loop prev ts left = Some w" "prev * USEC_PER_MINUTE < left"
  shows "0 < w \<and> w \<le> left \<and> (\<exists>t \<in> set (prev # ts). left - w = t * USEC_PER_MINUTE)"
  using assms
proof (induction prev ts left rule: wall_loop.induct)
  case (2 prev t ts left)
  show ?case
  proof (cases "t * USEC_PER_MINUTE \<ge> left")
    case True
    with 2 show ?thesis by auto
  next
    case False
    with 2 show ?thesis by auto
  qed
qed simp

lemma wall_loop_none: "wall_loop prev ts left = None \<longleftrightarrow> (\<forall>t \<in> set ts. t * USEC_PER_MINUTE < left)"
  by (induction prev ts left rule: wall_loop.induct) auto

lemma when_wall_near:
  assumes "n < elapse" "elapse - n \<le> 180 * USEC_PER_MINUTE"
  shows "0 < when_wall n elapse \<and> when_wall n elapse \<le> elapse - n \<and>
    (\<exists>t \<in> set wall_timers. elapse - (n + when_wall n elapse) = t * USEC_PER_MINUTE)"
proof -
  have "180 \<in> set (tl wall_timers)" by (simp add: wall_timers_def)
  then have "wall_loop (hd wall_timers) (tl wall_timers) (elapse - n) \<noteq> None"
    unfolding wall_loop_none using assms(2) by (meson not_less)
  then obtain w where w: "wall_loop (hd wall_timers) (tl wall_timers) (elapse - n) = Some w" by blast
  have "hd wall_timers * USEC_PER_MINUTE < elapse - n" "set (hd wall_timers # tl wall_timers) = set wall_timers"
    using assms(1) by (simp_all add: wall_timers_def)
  from wall_loop_due [OF w this(1), unfolded this(2)]
  have "0 < w \<and> w \<le> elapse - n \<and> (\<exists>t \<in> set wall_timers. elapse - n - w = t * USEC_PER_MINUTE)" .
  moreover have "when_wall n elapse = w" using assms(1) w by (simp add: when_wall_def)
  ultimately show ?thesis by (simp add: diff_diff_left)
qed

lemma when_wall_far:
  assumes "180 * USEC_PER_MINUTE < elapse - n"
  shows "when_wall n elapse = (elapse - n) mod USEC_PER_HOUR"
proof -
  have "\<forall>t \<in> set (tl wall_timers). t * USEC_PER_MINUTE < elapse - n"
  proof
    fix t assume "t \<in> set (tl wall_timers)"
    then have "t \<le> 180" by (auto simp: wall_timers_def)
    then have "t * USEC_PER_MINUTE \<le> 180 * USEC_PER_MINUTE" by simp
    from this assms show "t * USEC_PER_MINUTE < elapse - n" by (rule le_less_trans)
  qed
  then show ?thesis using assms by (simp add: when_wall_def wall_loop_none [THEN iffD2])
qed

subsection \<open>Reading the schedule back\<close>

text \<open>Values of printable characters without quotes and backslashes come back from a file as they are.\<close>

definition simple_value :: "string \<Rightarrow> bool" where
  "simple_value v \<longleftrightarrow> v \<noteq> [] \<and> (\<forall>c \<in> set v. 33 \<le> code c \<and> code c \<le> 126 \<and> c \<notin> {BACKSLASH, SQUOTE, DQUOTE})"

lemma complete_without_escapes: "BACKSLASH \<notin> set v \<Longrightarrow> complete_escapes v"
  by (induction v rule: complete_escapes.induct) auto

lemma printable:
  assumes "33 \<le> code c"
  shows "c \<notin> set WHITESPACE" "c \<notin> set NEWLINE"
  using assms by (auto simp: char_class_defs)

lemma simple_value_read:
  assumes "simple_value v"
  shows "unquoted_value v = v" "plain_value v" "utf8_is_valid v"
proof -
  have v: "v \<noteq> []" "BACKSLASH \<notin> set v" and c: "\<And>c. c \<in> set v \<Longrightarrow> 33 \<le> code c \<and> code c \<le> 126 \<and> c \<notin> {SQUOTE, DQUOTE}"
    using assms by (auto simp: simple_value_def)
  have last: "last v \<notin> set WHITESPACE" using printable(1) c v(1) last_in_set by blast
  then show "unquoted_value v = v" using v by (intro unquoted_value_plain) auto
  have "hd v \<notin> set (SQUOTE # DQUOTE # WHITESPACE)" using c [of "hd v"] v(1) printable(1) by simp
  moreover have "\<forall>x \<in> set v. x \<notin> set NEWLINE" using c printable(2) by blast
  ultimately show "plain_value v" using v complete_without_escapes by (simp add: plain_value_def)
  show "utf8_is_valid v" using c by (intro utf8_is_valid_ascii) force
qed

lemma simple_dec: "simple_value (dec n)"
proof -
  have "c \<notin> {BACKSLASH, SQUOTE, DQUOTE}" if "48 \<le> code c" "code c \<le> 57" for c
    using that by auto
  then show ?thesis using dec_digits [of _ n] by (fastforce simp: simple_value_def)
qed

lemma simple_action: "simple_value (handle_action_to_string a)"
  by (cases a) (simp_all add: simple_value_def handle_action_to_string_def string_table_to_string_def handle_action_table_def)

text \<open>The message is escaped for \<^verbatim>\<open>cunescape\<close>, but the reader of the file takes the backslashes away first.\<close>

definition garbled :: "string \<Rightarrow> string" where
  "garbled s = concat (map (\<lambda>c. if length (xescape_char '' '' c) = 1 then [c] else tl (xescape_char '' '' c)) s)"

lemma garbled_simps [simp]:
  "garbled [] = []"
  "garbled (c # s) = (if length (xescape_char '' '' c) = 1 then [c] else tl (xescape_char '' '' c)) @ garbled s"
  by (simp_all add: garbled_def)

lemma xescape_simps [simp]: "xescape [] bad = []" "xescape (c # s) bad = xescape_char bad c @ xescape s bad"
  by (simp_all add: xescape_def)

lemma hexchar_printable: "48 \<le> code (hexchar x)" "code (hexchar x) \<le> 102" "hexchar x \<notin> {BACKSLASH, SQUOTE, DQUOTE}"
proof -
  have "hexchar x \<in> set ''0123456789abcdef''" unfolding hexchar_def by (rule nth_mem) (simp add: and_masks nat_less_iff)
  then show "48 \<le> code (hexchar x)" "code (hexchar x) \<le> 102" "hexchar x \<notin> {BACKSLASH, SQUOTE, DQUOTE}" by auto
qed

lemma unquoted_xescape:
  "unquoted_value (xescape s '' '') = garbled s" "complete_escapes (xescape s '' '')"
proof -
  have plain: "unquoted_value (c # v) = c # unquoted_value v" "complete_escapes (c # v) = complete_escapes v"
    if "33 \<le> code c" "c \<noteq> BACKSLASH" for c v
    using that printable(1) [of c] by (cases v; simp)+
  have h: "33 \<le> code (hexchar x)" "hexchar x \<noteq> BACKSLASH" for x using hexchar_printable [of x] by auto
  have "unquoted_value (xescape_char '' '' c @ v) =
        (if length (xescape_char '' '' c) = 1 then [c] else tl (xescape_char '' '' c)) @ unquoted_value v \<and>
      complete_escapes (xescape_char '' '' c @ v) = complete_escapes v" for c v
  proof (cases "code c < 32 \<or> 127 \<le> code c \<or> c = BACKSLASH \<or> c = CHR '' ''")
    case True
    then show ?thesis using plain [OF h] h(2) by (auto simp: xescape_char_def)
  next
    case False
    then have "code c \<noteq> code (CHR '' '')" by (metis code_inject)
    with False have "33 \<le> code c" by simp
    with False show ?thesis using plain [of c] by (auto simp: xescape_char_def)
  qed
  then have "unquoted_value (xescape s '' '') = garbled s \<and> complete_escapes (xescape s '' '')"
    by (induction s) simp_all
  then show "unquoted_value (xescape s '' '') = garbled s" "complete_escapes (xescape s '' '')" by simp_all
qed

lemma garbled_chars:
  assumes "c \<in> set (garbled s)"
  shows "33 \<le> code c \<and> code c \<le> 126 \<and> c \<noteq> BACKSLASH"
  using assms
proof (induction s)
  case (Cons x s)
  have h: "33 \<le> code (hexchar n) \<and> code (hexchar n) \<le> 126 \<and> hexchar n \<noteq> BACKSLASH" for n
    using hexchar_printable [of n] by auto
  show ?case
  proof (cases "c \<in> set (garbled s)")
    case False
    then consider "c = x" "\<not> (code x < 32 \<or> 127 \<le> code x \<or> x = BACKSLASH \<or> x = CHR '' '')"
      | "c \<in> {CHR ''x'', hexchar (drop_bit 4 (int (code x))), hexchar (int (code x))}"
      using Cons.prems by (auto simp: xescape_char_def split: if_splits)
    then show ?thesis
    proof cases
      case 1
      then have "code x \<noteq> code (CHR '' '')" by (metis code_inject)
      with 1 show ?thesis by simp
    next
      case 2
      then show ?thesis using h by auto
    qed
  qed (rule Cons.IH)
qed simp

lemma cunescape_plain: "BACKSLASH \<notin> set s \<Longrightarrow> cunescape s = Some s"
proof -
  assume "BACKSLASH \<notin> set s"
  then have "cunescape_loop False False s = Some s" by (induction s) auto
  then show ?thesis by (simp add: cunescape_def cunescape_length_with_prefix_def)
qed

text \<open>The entries of the file.\<close>

definition schedule_entries :: "HandleAction \<Rightarrow> schedule \<Rightarrow> (string \<times> string) list" where
  "schedule_entries a x =
     [(''USEC'', dec (sch_timeout x)), (''WARN_WALL'', one_zero (sch_enable_wall_messages x)),
      (''MODE'', handle_action_to_string a), (''UID'', dec (sch_uid x))] @
     (case sch_tty x of None \<Rightarrow> [] | Some t \<Rightarrow> [(''TTY'', t)]) @
     (case sch_wall_message x of None \<Rightarrow> []
      | Some msg \<Rightarrow> if msg = [] then [] else [(''WALL_MESSAGE'', xescape msg '' '')])"

text \<open>A schedule as the daemon keeps it: a time before infinity, a user, a terminal's name, and a message
  that does not begin with a quote.\<close>

definition schedule_ok :: "schedule \<Rightarrow> bool" where
  "schedule_ok x \<longleftrightarrow> sch_timeout x < USEC_INFINITY \<and> sch_uid x < 2 ^ 32 \<and> uid_is_valid (sch_uid x) \<and>
     (\<forall>t. sch_tty x = Some t \<longrightarrow> simple_value t \<and> length t < 1000) \<and>
     (\<forall>msg. sch_wall_message x = Some msg \<longrightarrow> msg \<noteq> [] \<longrightarrow> hd msg \<notin> {SQUOTE, DQUOTE})"

lemma serialize_short:
  "length key + length value + 2 \<le> LONG_LINE_MAX \<Longrightarrow> serialize_item_format key value = env_line key value"
  by (simp add: serialize_item_format_def serialize_item_def line_def)

lemma schedule_contents_entries:
  assumes "schedule_ok x" "schedule_contents a x = Inr text"
  shows "text = env_file (schedule_entries a x)"
proof -
  have "sch_timeout x < 10 ^ 20" "sch_uid x < 10 ^ 20"
    using assms(1) by (simp_all add: schedule_ok_def USEC_INFINITY_def)
  from dec_length [OF this(1)] dec_length [OF this(2)]
  have d: "length (dec (sch_timeout x)) \<le> 20" "length (dec (sch_uid x)) \<le> 20" by simp_all
  have a: "length (handle_action_to_string a) \<le> 100"
    by (cases a) (simp_all add: handle_action_to_string_def string_table_to_string_def handle_action_table_def)
  have o: "length (one_zero b) = 1" for b by (simp add: one_zero_def)
  have t: "serialize_item_format ''TTY'' t = env_line ''TTY'' t" if "sch_tty x = Some t" for t
    using assms(1) that by (intro serialize_short) (auto simp: schedule_ok_def LONG_LINE_MAX_def)
  have u: "serialize_usec ''USEC'' (sch_timeout x) = env_line ''USEC'' (dec (sch_timeout x))"
    using assms(1) d by (simp add: serialize_usec_def schedule_ok_def serialize_short LONG_LINE_MAX_def)
  have lines: "schedule_lines a x =
    env_file ([(''USEC'', dec (sch_timeout x)), (''WARN_WALL'', one_zero (sch_enable_wall_messages x)),
      (''MODE'', handle_action_to_string a), (''UID'', dec (sch_uid x))] @
     (case sch_tty x of None \<Rightarrow> [] | Some t \<Rightarrow> [(''TTY'', t)]))"
    using d a t unfolding schedule_lines_def u
    by (cases "sch_tty x") (simp_all add: env_file_def serialize_short o LONG_LINE_MAX_def)
  show ?thesis
  proof (cases "case sch_wall_message x of None \<Rightarrow> True | Some msg \<Rightarrow> msg = []")
    case True
    with assms(2) show ?thesis
      by (auto simp: schedule_contents_def schedule_entries_def lines split: option.splits)
  next
    case False
    then obtain msg where "sch_wall_message x = Some msg" "msg \<noteq> []" by (auto split: option.splits)
    with assms(2) show ?thesis
      by (auto simp: schedule_contents_def schedule_entries_def lines serialize_item_escaped_def serialize_item_def
          env_file_def line_def split: if_splits)
  qed
qed

lemma plain_message:
  assumes "msg \<noteq> []" "hd msg \<notin> {SQUOTE, DQUOTE}"
  shows "plain_value (xescape msg '' '')" "utf8_is_valid (garbled msg)"
proof -
  obtain c s where msg: "msg = c # s" using assms(1) by (cases msg) auto
  have x: "33 \<le> code d" if "d \<in> set (xescape msg '' '')" for d
  proof -
    have "33 \<le> code y \<or> y = CHR '' ''" if "32 \<le> code y" for y
    proof (cases "code y = 32")
      case True
      then have "code y = code (CHR '' '')" by simp
      then show ?thesis using code_inject by blast
    qed (use that in simp)
    then have "33 \<le> code z" if "z \<in> set (xescape_char '' '' y)" for z y
      using that hexchar_printable(1) [of "drop_bit 4 (int (code y))"] hexchar_printable(1) [of "int (code y)"]
      by (auto simp: xescape_char_def not_less split: if_splits)
    then show ?thesis using that by (auto simp: xescape_def)
  qed
  have "hd (xescape msg '' '') \<in> {c, BACKSLASH}" "xescape msg '' '' \<noteq> []" by (simp_all add: msg xescape_char_def)
  then have "hd (xescape msg '' '') \<notin> set (SQUOTE # DQUOTE # WHITESPACE)"
    using assms(2) msg printable(1) x [OF hd_in_set] by auto
  moreover have "\<forall>d \<in> set (xescape msg '' ''). d \<notin> set NEWLINE" using x printable(2) by blast
  ultimately show "plain_value (xescape msg '' '')"
    using unquoted_xescape(2) \<open>xescape msg '' '' \<noteq> []\<close> by (simp add: plain_value_def)
  show "utf8_is_valid (garbled msg)" using garbled_chars by (intro utf8_is_valid_ascii) fastforce
qed

lemma schedule_entries_plain:
  assumes "schedule_ok x"
  shows "\<forall>kv \<in> set (schedule_entries a x). plain_entry kv"
proof -
  have entry: "plain_entry (k, v)" if "k \<in> set schedule_keys" "plain_value v" "utf8_is_valid (unquoted_value v)" for k v
  proof -
    have "\<forall>k \<in> set schedule_keys. plain_key k \<and> utf8_is_valid k" by code_simp
    with that show ?thesis by (simp add: plain_entry_def)
  qed
  have simple: "plain_entry (k, v)" if "k \<in> set schedule_keys" "simple_value v" for k v
    using entry that simple_value_read [OF that(2)] by simp
  have one: "simple_value (one_zero b)" for b by (simp add: one_zero_def simple_value_def)
  have tty: "plain_entry (''TTY'', t)" if "sch_tty x = Some t" for t
    using assms that by (intro simple) (auto simp: schedule_ok_def schedule_keys_def)
  have msg: "plain_entry (''WALL_MESSAGE'', xescape w '' '')" if "sch_wall_message x = Some w" "w \<noteq> []" for w
  proof -
    have "hd w \<notin> {SQUOTE, DQUOTE}" using assms that unfolding schedule_ok_def by blast
    from plain_message [OF that(2) this] show ?thesis
      by (intro entry) (simp_all add: unquoted_xescape(1) schedule_keys_def)
  qed
  show ?thesis
    using tty msg simple [OF _ simple_dec] simple [OF _ one] simple [OF _ simple_action]
    by (auto simp: schedule_entries_def schedule_keys_def split: option.splits)
qed

text \<open>What the daemon finds in the file after a restart.\<close>

definition restored_message :: "schedule \<Rightarrow> schedule \<Rightarrow> string option" where
  "restored_message x y =
     (case sch_wall_message x of None \<Rightarrow> sch_wall_message y
      | Some msg \<Rightarrow> if msg = [] then sch_wall_message y else Some (garbled msg))"

lemma schedule_read_back:
  assumes "schedule_ok x" "schedule_contents a x = Inr text"
  obtains vars where "parse_env_file schedule_keys text (\<lambda>_. None) = Inr vars"
    "handle_action_from_string (vars ''MODE'') = Some a" "vars ''USEC'' = Some (dec (sch_timeout x))"
    "\<And>y. schedule_read a (sch_timeout x) vars y =
       y\<lparr>sch_timeout := sch_timeout x, sch_action := Some a, sch_enable_wall_messages := sch_enable_wall_messages x,
         sch_wall_message := restored_message x y, sch_uid := sch_uid x, sch_tty := sch_tty x\<rparr>"
proof -
  let ?vars = "read_back schedule_keys (schedule_entries a x) (\<lambda>_. None)"
  have parse: "parse_env_file schedule_keys text (\<lambda>_. None) = Inr ?vars"
    unfolding schedule_contents_entries [OF assms] by (rule parse_env_file_lines) (rule schedule_entries_plain [OF assms(1)])
  have dec: "unquoted_value (dec n) = dec n" for n by (rule simple_value_read(1)) (rule simple_dec)
  have act: "unquoted_value (handle_action_to_string a) = handle_action_to_string a"
    by (rule simple_value_read(1)) (rule simple_action)
  have one: "unquoted_value (one_zero b) = one_zero b" for b
    by (rule simple_value_read(1)) (simp add: one_zero_def simple_value_def)
  have tty: "unquoted_value t = t" if "sch_tty x = Some t" for t
    using assms(1) that by (intro simple_value_read(1)) (simp add: schedule_ok_def)
  have vars: "?vars ''USEC'' = Some (dec (sch_timeout x))" "?vars ''MODE'' = Some (handle_action_to_string a)"
    "?vars ''WARN_WALL'' = Some (one_zero (sch_enable_wall_messages x))" "?vars ''UID'' = Some (dec (sch_uid x))"
    "?vars ''TTY'' = sch_tty x"
    "?vars ''WALL_MESSAGE'' = (case sch_wall_message x of None \<Rightarrow> None | Some w \<Rightarrow> if w = [] then None else Some (garbled w))"
    using tty by (auto simp: read_back_lookup schedule_keys_def schedule_entries_def dec act one unquoted_xescape(1)
        split: option.split)
  have uid: "parse_uid (dec (sch_uid x)) = Inr (sch_uid x)"
    using assms(1) by (intro parse_uid_dec) (simp_all add: schedule_ok_def)
  have msg: "cunescape (garbled w) = Some (garbled w)" for w
    using garbled_chars [of BACKSLASH w] by (intro cunescape_plain) blast
  have bool: "parse_boolean (Some (one_zero b)) = (if b then 1 else 0)" for b
    by (cases b) (simp_all add: parse_boolean_def one_zero_def ascii_tolower_def)
  have read: "schedule_read a (sch_timeout x) ?vars y =
       y\<lparr>sch_timeout := sch_timeout x, sch_action := Some a, sch_enable_wall_messages := sch_enable_wall_messages x,
         sch_wall_message := restored_message x y, sch_uid := sch_uid x, sch_tty := sch_tty x\<rparr>" for y
    unfolding schedule_read_def vars option.case bool uid sum.case Let_def restored_message_def
    by (cases "sch_wall_message x") (simp_all add: msg)
  show ?thesis
    by (rule that [OF parse]) (simp_all add: vars read handle_action_from_to_string)
qed

lemma schedule_frames:
  "m_schedule (upd_sch f m) = f (m_schedule m)" "m_schedule (snd (sys e m)) = m_schedule m"
  "m_schedule (emit e m) = m_schedule m" "m_schedule (assert_that b m) = m_schedule m"
  "m_schedule (snd (warn_wall n m)) = m_schedule m" "m_schedule (snd (update_schedule_file m)) = m_schedule m"
  "m_schedule (manager_send_changed ps m) = m_schedule m"
proof -
  show s: "m_schedule (upd_sch f m) = f (m_schedule m)" "m_schedule (snd (sys e m)) = m_schedule m" for e m
    by (simp_all add: upd_sch_def sys_def)
  show e: "m_schedule (emit e m) = m_schedule m" "m_schedule (assert_that b m) = m_schedule m" for e b m
    by (simp_all add: emit_def assert_that_def)
  show "m_schedule (snd (warn_wall n m)) = m_schedule m" by (simp add: warn_wall_def e split: option.split)
  show "m_schedule (snd (update_schedule_file m)) = m_schedule m"
    by (simp add: update_schedule_file_def s e case_prod_beta split: option.split sum.split)
  show "m_schedule (manager_send_changed ps m) = m_schedule m" by (simp add: manager_send_changed_def e)
qed

lemma schedule_reset:
  "m_schedule (reset_scheduled_shutdown m) = (m_schedule m)\<lparr>sch_timeout_source := False, sch_wall_source := False,
     sch_nologin_source := False, sch_action := None, sch_timeout := USEC_INFINITY, sch_uid := UID_INVALID, sch_tty := None,
     sch_dry_run := False, sch_unlink_nologin := False\<rparr>"
  by (simp add: reset_scheduled_shutdown_def Let_def schedule_frames)

lemma schedule_wall_timer:
  "(m_schedule (snd (manager_setup_wall_message_timer m)))\<lparr>sch_wall_source := b\<rparr> = (m_schedule m)\<lparr>sch_wall_source := b\<rparr>"
  by (simp add: manager_setup_wall_message_timer_def Let_def case_prod_beta event_reset_time_def schedule_frames)

text \<open>A system in which every call succeeds.\<close>

definition obliging :: "manager \<Rightarrow> bool" where
  "obliging m \<longleftrightarrow> (\<forall>tr e. 0 \<le> m_env m tr e)"

lemma obliging_reset_time:
  assumes "obliging m"
  shows "fst (event_reset_time n u f m) = 0" "m_schedule (snd (event_reset_time n u f m)) = f (\<lambda>_. True) (m_schedule m)"
    "obliging (snd (event_reset_time n u f m))"
proof -
  have "\<not> fst (sys e m) < 0" "obliging (snd (sys e m))" for e
    using assms by (simp_all add: obliging_def sys_def not_less)
  moreover have "obliging (upd_sch g m') = obliging m'" for g m' by (simp add: obliging_def upd_sch_def)
  ultimately show "fst (event_reset_time n u f m) = 0" "m_schedule (snd (event_reset_time n u f m)) = f (\<lambda>_. True) (m_schedule m)"
    "obliging (snd (event_reset_time n u f m))"
    by (simp_all add: event_reset_time_def case_prod_beta schedule_frames)
qed

lemma obliging_reset: "obliging m \<Longrightarrow> obliging (upd_sch f (reset_scheduled_shutdown m))"
  by (simp add: obliging_def reset_scheduled_shutdown_def Let_def upd_sch_def emit_def manager_send_changed_def)

lemma schedule_restored:
  assumes "schedule_ok x" "schedule_contents a x = Inr text" "m_files m SHUTDOWN_SCHEDULE_FILE = Inr text"
    "obliging m"
  defines "y \<equiv> m_schedule (manager_load_scheduled_shutdown m)"
  shows "sch_action y = Some a" "sch_timeout y = sch_timeout x" "sch_uid y = sch_uid x" "sch_tty y = sch_tty x"
    "sch_enable_wall_messages y = sch_enable_wall_messages x" "sch_timeout_source y" "sch_nologin_source y"
    "sch_wall_message y = restored_message x (m_schedule m)"
proof -
  obtain vars where v: "parse_env_file schedule_keys text (\<lambda>_. None) = Inr vars"
    "handle_action_from_string (vars ''MODE'') = Some a" "vars ''USEC'' = Some (dec (sch_timeout x))"
    and read: "\<And>y. schedule_read a (sch_timeout x) vars y =
       y\<lparr>sch_timeout := sch_timeout x, sch_action := Some a, sch_enable_wall_messages := sch_enable_wall_messages x,
         sch_wall_message := restored_message x y, sch_uid := sch_uid x, sch_tty := sch_tty x\<rparr>"
    using schedule_read_back [OF assms(1,2)] by blast
  have usec: "safe_atou64 (dec (sch_timeout x)) = Inr (sch_timeout x)"
    using assms(1) by (intro safe_atou64_dec) (simp add: schedule_ok_def USEC_INFINITY_def)
  define m1 where "m1 = upd_sch (schedule_read a (sch_timeout x) vars) (reset_scheduled_shutdown m)"
  have m1: "obliging m1" unfolding m1_def by (rule obliging_reset) (rule assms(4))
  note timer = obliging_reset_time [OF m1] obliging_reset_time [OF obliging_reset_time(3) [OF m1]]
  have timers: "fst (manager_setup_shutdown_timers m1) = 0"
    "m_schedule (snd (manager_setup_shutdown_timers m1)) =
       (m_schedule m1)\<lparr>sch_timeout_source := True, sch_nologin_source := True\<rparr>"
    unfolding manager_setup_shutdown_timers_def Let_def case_prod_beta timer(1) by (simp_all add: timer)
  define b where "b = sch_wall_source (m_schedule (snd (manager_setup_wall_message_timer (snd (manager_setup_shutdown_timers m1)))))"
  have b: "m_schedule (snd (manager_setup_wall_message_timer (snd (manager_setup_shutdown_timers m1)))) =
      (m_schedule (snd (manager_setup_shutdown_timers m1)))\<lparr>sch_wall_source := b\<rparr>"
    by (rule trans [OF _ schedule_wall_timer]) (simp add: b_def)
  have y: "y = (m_schedule m1)\<lparr>sch_timeout_source := True, sch_nologin_source := True, sch_wall_source := b\<rparr>"
    unfolding y_def manager_load_scheduled_shutdown_def Let_def assms(3) sum.case v(1) success.simps option.case v(2,3) usec
      m1_def [symmetric] case_prod_beta timers(1)
    by (simp add: schedule_frames b timers(2))
  have msg: "restored_message x (m_schedule (reset_scheduled_shutdown m)) = restored_message x (m_schedule m)"
    by (simp add: restored_message_def schedule_reset split: option.split)
  show "sch_action y = Some a" "sch_timeout y = sch_timeout x" "sch_uid y = sch_uid x" "sch_tty y = sch_tty x"
    "sch_enable_wall_messages y = sch_enable_wall_messages x" "sch_timeout_source y" "sch_nologin_source y"
    "sch_wall_message y = restored_message x (m_schedule m)"
    by (simp_all add: y m1_def schedule_frames read msg)
qed

end
