(* ===== verification/Brightness.thy ===== *)
theory Brightness
  imports Schedule_Inv
begin

text \<open>
  Writing the brightness of a device (\<^verbatim>\<open>logind-brightness.c\<close>). A child process writes, for the kernel may take its
  time. At most one runs for a device: requests that come in meanwhile are collected, the newest value is
  written when the child has ended, and the clients are answered when a write that covers their request is done.
\<close>

subsection \<open>Writers\<close>

abbreviation EPROTO :: int where "EPROTO \<equiv> 71"

definition get_bw :: "string \<Rightarrow> manager \<Rightarrow> brightness_writer option" where
  "get_bw p m = map_of (m_brightness_writers m) p"

definition upd_bw :: "string \<Rightarrow> (brightness_writer \<Rightarrow> brightness_writer) \<Rightarrow> manager \<Rightarrow> manager" where
  "upd_bw p f m = m\<lparr>m_brightness_writers := map (\<lambda>(q, w). (q, if q = p then f w else w)) (m_brightness_writers m)\<rparr>"

definition brightness_writer_free :: "string \<Rightarrow> manager \<Rightarrow> manager" where
  "brightness_writer_free p m = m\<lparr>m_brightness_writers := filter (\<lambda>(q, w). q \<noteq> p) (m_brightness_writers m)\<rparr>"

definition brightness_writer_reply :: "string \<Rightarrow> int \<Rightarrow> manager \<Rightarrow> manager" where
  "brightness_writer_reply p err m =
     (case get_bw p m of
        None \<Rightarrow> m
      | Some w \<Rightarrow> upd_bw p (bw_current_messages_update (\<lambda>_. []))
                    (fold (\<lambda>msg. emit (Sys_reply msg err)) (bw_current_messages w) m))"

text \<open>In the parent: the child's PID is kept even when it cannot be watched.\<close>

definition brightness_writer_fork :: "string \<Rightarrow> manager \<Rightarrow> int \<times> manager" where
  "brightness_writer_fork p m =
     (case get_bw p m of
        None \<Rightarrow> (0, assert_that False m)
      | Some w \<Rightarrow>
          let m = assert_that (bw_child w = 0 \<and> \<not> bw_child_event_source w) m
          in case sys (Sys_fork_brightness p (bw_brightness w)) m of (r, m) \<Rightarrow>
             if r < 0 then (r, m)
             else
             case sys (Sys_event_source ''brightness-child'') (upd_bw p (bw_child_update (\<lambda>_. nat r)) m) of (k, m) \<Rightarrow>
             if k < 0 then (k, m) else (0, upd_bw p (bw_child_event_source_update (\<lambda>_. True)) m))"

text \<open>The child of the writer has ended; \<open>exited\<close> says whether it exited with success.\<close>

definition on_brightness_writer_exit :: "string \<Rightarrow> bool \<Rightarrow> manager \<Rightarrow> manager" where
  "on_brightness_writer_exit p exited m =
     (let m = upd_bw p (\<lambda>w. w\<lparr>bw_child := 0, bw_child_event_source := False\<rparr>) m;
          m = brightness_writer_reply p (if exited then 0 else - EPROTO) m
      in if (case get_bw p m of None \<Rightarrow> False | Some w \<Rightarrow> bw_again w) then
           let m = upd_bw p (\<lambda>w. w\<lparr>bw_again := False, bw_current_messages := bw_pending_messages w,
                     bw_pending_messages := []\<rparr>) m
           in case brightness_writer_fork p m of (r, m) \<Rightarrow>
              if r \<ge> 0 then m else brightness_writer_free p (brightness_writer_reply p r m)
         else brightness_writer_free p m)"

text \<open>A message, if there is one, that expects a reply joins the set.\<close>

definition set_add_message :: "(nat \<times> bool) option \<Rightarrow> nat list \<Rightarrow> nat list" where
  "set_add_message message l =
     (case message of None \<Rightarrow> l
      | Some (msg, expect_reply) \<Rightarrow> if expect_reply then List.insert msg l else l)"

definition new_brightness_writer :: "nat \<Rightarrow> (nat \<times> bool) option \<Rightarrow> brightness_writer" where
  "new_brightness_writer brightness message = \<lparr>bw_child = 0, bw_brightness = brightness, bw_again = False,
     bw_current_messages = set_add_message message [], bw_pending_messages = [], bw_child_event_source = False\<rparr>"

definition manager_write_brightness :: "udev \<Rightarrow> nat \<Rightarrow> (nat \<times> bool) option \<Rightarrow> manager \<Rightarrow> int \<times> manager" where
  "manager_write_brightness d brightness message m =
     (case ud_syspath d of
        None \<Rightarrow> (- ENOENT, m)
      | Some p \<Rightarrow>
          (case get_bw p m of
             Some w \<Rightarrow>
               (0, upd_bw p (\<lambda>w. w\<lparr>bw_pending_messages := set_add_message message (bw_pending_messages w),
                     bw_brightness := brightness, bw_again := True\<rparr>) m)
           | None \<Rightarrow>
               case brightness_writer_fork p
                      (m\<lparr>m_brightness_writers := (p, new_brightness_writer brightness message) # m_brightness_writers m\<rparr>) of
                 (r, m) \<Rightarrow> if r < 0 then (r, brightness_writer_free p m) else (0, m)))"

subsection \<open>Frames\<close>

lemma bw_sys [simp]:
  "m_brightness_writers (snd (sys e m)) = m_brightness_writers m" "m_brightness_writers (emit e m) = m_brightness_writers m"
  "m_brightness_writers (assert_that b m) = m_brightness_writers m"
  by (simp_all add: sys_def emit_def assert_that_def)

lemma get_bw_upd [simp]:
  "get_bw q (upd_bw p f m) = (if q = p then map_option f (get_bw q m) else get_bw q m)"
  "get_bw q (brightness_writer_free p m) = (if q = p then None else get_bw q m)"
  "get_bw q (snd (sys e m)) = get_bw q m" "get_bw q (emit e m) = get_bw q m" "get_bw q (assert_that b m) = get_bw q m"
proof -
  have "map_of (map (\<lambda>(q, w). (q, if q = p then f w else w)) l) q = (if q = p then map_option f (map_of l q) else map_of l q)" for l
    by (induction l) auto
  then show "get_bw q (upd_bw p f m) = (if q = p then map_option f (get_bw q m) else get_bw q m)"
    by (simp add: get_bw_def upd_bw_def)
  have "map_of (filter (\<lambda>(q, w). q \<noteq> p) l) q = (if q = p then None else map_of l q)" for l :: "(string \<times> brightness_writer) list"
    by (induction l) auto
  then show "get_bw q (brightness_writer_free p m) = (if q = p then None else get_bw q m)"
    by (simp add: get_bw_def brightness_writer_free_def)
qed (simp_all add: get_bw_def)

lemma get_bw_fold [simp]: "get_bw q (fold (\<lambda>msg. emit (Sys_reply msg e)) l m) = get_bw q m"
  by (induction l arbitrary: m) simp_all

lemma get_bw_reply [simp]:
  "get_bw q (brightness_writer_reply p e m) =
     (if q = p then map_option (bw_current_messages_update (\<lambda>_. [])) (get_bw q m) else get_bw q m)"
  by (auto simp: brightness_writer_reply_def split: option.split)

lemma trace_upd_bw [simp]: "m_trace (upd_bw p f m) = m_trace m" "m_trace (brightness_writer_free p m) = m_trace m"
  "m_trace (assert_that b m) = m_trace m" "m_trace (emit e m) = e # m_trace m" "m_trace (snd (sys e m)) = e # m_trace m"
  by (simp_all add: upd_bw_def brightness_writer_free_def assert_that_def emit_def sys_def)

lemma trace_fold: "m_trace (fold (\<lambda>msg. emit (Sys_reply msg e)) l m) = rev (map (\<lambda>msg. Sys_reply msg e) l) @ m_trace m"
  by (induction l arbitrary: m) simp_all

lemma sg_upd_bw: "same_graph m m' \<Longrightarrow> same_graph m (upd_bw p f m')" "same_graph m m' \<Longrightarrow> same_graph m (brightness_writer_free p m')"
  by (simp_all add: upd_bw_def brightness_writer_free_def sg_upd)

lemma sg_brightness_reply: "same_graph m m' \<Longrightarrow> same_graph m (brightness_writer_reply p e m')"
proof -
  assume "same_graph m m'"
  then have "same_graph m (fold (\<lambda>msg. emit (Sys_reply msg e)) l m')" for l
    by (induction l arbitrary: m') (simp_all add: sg_basic)
  then show ?thesis using \<open>same_graph m m'\<close> by (simp add: brightness_writer_reply_def sg_upd_bw split: option.split)
qed

lemma sg_brightness_fork: "same_graph m m' \<Longrightarrow> same_graph m (snd (brightness_writer_fork p m'))"
  by (simp add: brightness_writer_fork_def Let_def case_prod_beta sg_sch sg_upd_bw split: option.split)

lemma sg_brightness:
  "same_graph m m' \<Longrightarrow> same_graph m (on_brightness_writer_exit p b m')"
  "same_graph m m' \<Longrightarrow> same_graph m (snd (manager_write_brightness d v msg m'))"
  by (auto simp: on_brightness_writer_exit_def manager_write_brightness_def Let_def case_prod_beta sg_upd_bw
      sg_brightness_reply sg_brightness_fork sg_upd split: option.split)

subsection \<open>Nothing is lost\<close>

text \<open>The last value that a child was started with for a device; who waits; who has been answered.\<close>

fun last_written :: "string \<Rightarrow> syscall list \<Rightarrow> nat option" where
  "last_written p [] = None"
| "last_written p (Sys_fork_brightness q v # tr) = (if q = p then Some v else last_written p tr)"
| "last_written p (e # tr) = last_written p tr"

definition waiting :: "manager \<Rightarrow> nat set" where
  "waiting m = {msg. \<exists>p w. get_bw p m = Some w \<and> msg \<in> set (bw_current_messages w) \<union> set (bw_pending_messages w)}"

definition answered :: "manager \<Rightarrow> nat set" where
  "answered m = {msg. \<exists>e. Sys_reply msg e \<in> set (m_trace m)}"

text \<open>Every writer has a child that is watched; messages wait for a later child only when one is asked for; and
  otherwise the child writes the newest value.\<close>

definition bw_ok :: "manager \<Rightarrow> bool" where
  "bw_ok m \<longleftrightarrow> (\<forall>p w. get_bw p m = Some w \<longrightarrow> bw_child_event_source w \<and>
     (bw_pending_messages w \<noteq> [] \<longrightarrow> bw_again w) \<and> (\<not> bw_again w \<longrightarrow> last_written p (m_trace m) = Some (bw_brightness w)))"

lemma last_written_replies:
  "last_written p (rev (map (\<lambda>msg. Sys_reply msg e) l) @ tr) = last_written p tr"
proof -
  have "last_written p (map (\<lambda>msg. Sys_reply msg e) l @ tr) = last_written p tr" for l
    by (induction l) simp_all
  then show ?thesis unfolding rev_map by simp
qed

lemma answered_upd [simp]: "answered (upd_bw p f m) = answered m" "answered (brightness_writer_free p m) = answered m"
  by (simp_all add: answered_def)

lemma trace_reply:
  "last_written q (m_trace (brightness_writer_reply p e m)) = last_written q (m_trace m)"
  "answered (brightness_writer_reply p e m) =
     answered m \<union> (case get_bw p m of None \<Rightarrow> {} | Some w \<Rightarrow> set (bw_current_messages w))"
  by (auto simp: brightness_writer_reply_def answered_def trace_fold last_written_replies split: option.split)

lemma fork_result:
  assumes "get_bw p m = Some w"
  shows "q \<noteq> p \<Longrightarrow> get_bw q (snd (brightness_writer_fork p m)) = get_bw q m"
    "\<exists>w'. get_bw p (snd (brightness_writer_fork p m)) = Some w' \<and> bw_current_messages w' = bw_current_messages w \<and>
       bw_pending_messages w' = bw_pending_messages w \<and> bw_again w' = bw_again w \<and> bw_brightness w' = bw_brightness w \<and>
       (0 \<le> fst (brightness_writer_fork p m) \<longrightarrow> bw_child_event_source w')"
    "answered (snd (brightness_writer_fork p m)) = answered m"
    "last_written q (m_trace (snd (brightness_writer_fork p m))) =
       (if q = p then Some (bw_brightness w) else last_written q (m_trace m))"
  using assms by (auto simp: brightness_writer_fork_def answered_def case_prod_beta Let_def)

lemma waiting_split:
  assumes "\<And>q. q \<noteq> p \<Longrightarrow> get_bw q m' = get_bw q m"
  shows "waiting m' = {msg. \<exists>q w. q \<noteq> p \<and> get_bw q m = Some w \<and> msg \<in> set (bw_current_messages w) \<union> set (bw_pending_messages w)} \<union>
    (case get_bw p m' of None \<Rightarrow> {} | Some w \<Rightarrow> set (bw_current_messages w) \<union> set (bw_pending_messages w))"
proof (intro set_eqI iffI)
  fix msg
  assume "msg \<in> waiting m'"
  then obtain q w where "get_bw q m' = Some w" "msg \<in> set (bw_current_messages w) \<union> set (bw_pending_messages w)"
    by (auto simp: waiting_def)
  then show "msg \<in> {msg. \<exists>q w. q \<noteq> p \<and> get_bw q m = Some w \<and> msg \<in> set (bw_current_messages w) \<union> set (bw_pending_messages w)} \<union>
    (case get_bw p m' of None \<Rightarrow> {} | Some w \<Rightarrow> set (bw_current_messages w) \<union> set (bw_pending_messages w))"
    using assms by (cases "q = p") auto
next
  fix msg
  assume "msg \<in> {msg. \<exists>q w. q \<noteq> p \<and> get_bw q m = Some w \<and> msg \<in> set (bw_current_messages w) \<union> set (bw_pending_messages w)} \<union>
    (case get_bw p m' of None \<Rightarrow> {} | Some w \<Rightarrow> set (bw_current_messages w) \<union> set (bw_pending_messages w))"
  then consider q w where "q \<noteq> p" "get_bw q m = Some w" "msg \<in> set (bw_current_messages w) \<union> set (bw_pending_messages w)"
    | w where "get_bw p m' = Some w" "msg \<in> set (bw_current_messages w) \<union> set (bw_pending_messages w)"
    by (auto split: option.splits)
  then show "msg \<in> waiting m'"
  proof cases
    case (1 q w)
    with assms [of q] have "get_bw q m' = Some w" by simp
    with 1(3) show ?thesis unfolding waiting_def by blast
  next
    case (2 w)
    then show ?thesis unfolding waiting_def by blast
  qed
qed

text \<open>Where only the writer of one device changes, it is enough to look at that one.\<close>

lemma bw_okI:
  assumes "bw_ok m" "\<And>q. q \<noteq> p \<Longrightarrow> get_bw q m' = get_bw q m \<and> last_written q (m_trace m') = last_written q (m_trace m)"
    "\<And>w. get_bw p m' = Some w \<Longrightarrow> bw_child_event_source w \<and> (bw_pending_messages w \<noteq> [] \<longrightarrow> bw_again w) \<and>
       (\<not> bw_again w \<longrightarrow> last_written p (m_trace m') = Some (bw_brightness w))"
  shows "bw_ok m'"
  unfolding bw_ok_def
proof (intro allI impI)
  fix q w
  assume "get_bw q m' = Some w"
  then show "bw_child_event_source w \<and> (bw_pending_messages w \<noteq> [] \<longrightarrow> bw_again w) \<and>
    (\<not> bw_again w \<longrightarrow> last_written q (m_trace m') = Some (bw_brightness w))"
    using assms by (cases "q = p") (auto simp: bw_ok_def)
qed

lemma set_add_message_set: "set (set_add_message message l) = set l \<union> set (set_add_message message [])"
  by (auto simp: set_add_message_def split: option.split)

text \<open>A request: it waits when it has been taken, and nothing changes for the others.\<close>

lemma write_brightness_queue:
  fixes message :: "(nat \<times> bool) option" and v :: nat
  assumes "bw_ok m" "get_bw p m = Some w"
  defines "m' \<equiv> upd_bw p (\<lambda>w. w\<lparr>bw_pending_messages := set_add_message message (bw_pending_messages w), bw_brightness := v,
    bw_again := True\<rparr>) m"
  shows "bw_ok m' \<and> answered m' = answered m \<and> waiting m' = waiting m \<union> set (set_add_message message [])"
proof (intro conjI)
  show "bw_ok m'" using assms(1,2) by (auto intro: bw_okI [of m p] simp: m'_def bw_ok_def)
  show "answered m' = answered m" by (simp add: m'_def answered_def)
  show "waiting m' = waiting m \<union> set (set_add_message message [])"
    using waiting_split [of p m' m] waiting_split [of p m m] assms(2) set_add_message_set [of message "bw_pending_messages w"]
    unfolding m'_def by auto
qed

lemma write_brightness_new:
  fixes message :: "(nat \<times> bool) option" and v :: nat
  assumes "bw_ok m" "get_bw p m = None"
  defines "f \<equiv> brightness_writer_fork p
    (m\<lparr>m_brightness_writers := (p, new_brightness_writer v message) # m_brightness_writers m\<rparr>)"
  defines "m' \<equiv> if fst f < 0 then brightness_writer_free p (snd f) else snd f"
  shows "bw_ok m' \<and> answered m' = answered m \<and>
    waiting m' = waiting m \<union> (if fst f < 0 then {} else set (set_add_message message []))"
proof -
  define m1 where "m1 = m\<lparr>m_brightness_writers := (p, new_brightness_writer v message) # m_brightness_writers m\<rparr>"
  let ?w = "new_brightness_writer v message"
  have m1: "get_bw p m1 = Some ?w" "\<And>q. q \<noteq> p \<Longrightarrow> get_bw q m1 = get_bw q m" "m_trace m1 = m_trace m"
    by (simp_all add: m1_def get_bw_def)
  have f: "f = brightness_writer_fork p m1" by (simp add: f_def m1_def)
  note fork = fork_result [OF m1(1), folded f]
  obtain w' where w': "get_bw p (snd f) = Some w'" "bw_current_messages w' = bw_current_messages ?w"
    "bw_pending_messages w' = bw_pending_messages ?w" "bw_again w' = bw_again ?w" "bw_brightness w' = bw_brightness ?w"
    "0 \<le> fst f \<longrightarrow> bw_child_event_source w'"
    using fork(2) by blast
  have other: "get_bw q m' = get_bw q m \<and> last_written q (m_trace m') = last_written q (m_trace m)" if "q \<noteq> p" for q
    using that fork(1,4) m1(2,3) by (simp add: m'_def)
  have own: "get_bw p m' = (if fst f < 0 then None else Some w')" using w'(1) by (simp add: m'_def)
  have "bw_ok m'"
    using w' own fork(4) [of p] by (intro bw_okI [OF assms(1) other]) (auto simp: m'_def new_brightness_writer_def split: if_splits)
  moreover have "answered m' = answered m" using fork(3) m1(3) by (simp add: m'_def answered_def)
  moreover have "waiting m' = waiting m \<union> (if fst f < 0 then {} else set (set_add_message message []))"
    using waiting_split [of p m' m] waiting_split [of p m m] other assms(2) w' own
    by (auto simp: new_brightness_writer_def)
  ultimately show ?thesis by blast
qed

lemma write_brightness:
  assumes "bw_ok m" "manager_write_brightness d v message m = (r, m')"
  shows "bw_ok m'" "answered m' = answered m"
    "waiting m' = waiting m \<union> (if r < 0 then {} else set (set_add_message message []))"
proof -
  have "bw_ok m' \<and> answered m' = answered m \<and> waiting m' = waiting m \<union> (if r < 0 then {} else set (set_add_message message []))"
  proof (cases "ud_syspath d")
    case None
    then show ?thesis using assms by (auto simp: manager_write_brightness_def)
  next
    case (Some p)
    show ?thesis
      using assms write_brightness_queue [OF assms(1), where p = p and message = message and v = v]
        write_brightness_new [OF assms(1), where p = p and message = message and v = v]
      by (cases "get_bw p m") (auto simp: manager_write_brightness_def Some case_prod_beta split: if_splits)
  qed
  then show "bw_ok m'" "answered m' = answered m"
    "waiting m' = waiting m \<union> (if r < 0 then {} else set (set_add_message message []))" by simp_all
qed

text \<open>The end of a child: all it covers are answered; who waits for the next one waits on, or is answered when the next
  one cannot be started.\<close>

definition exit_result :: "string \<Rightarrow> brightness_writer \<Rightarrow> manager \<Rightarrow> manager \<Rightarrow> bool" where
  "exit_result p w m m' \<longleftrightarrow> bw_ok m' \<and> waiting m' \<union> answered m' = waiting m \<union> answered m \<and>
     set (bw_current_messages w) \<subseteq> answered m' \<and> (get_bw p m' = None \<longrightarrow> set (bw_pending_messages w) \<subseteq> answered m') \<and>
     (\<forall>w'. get_bw p m' = Some w' \<longrightarrow> last_written p (m_trace m') = Some (bw_brightness w) \<and> \<not> bw_again w')"

text \<open>The state after the current messages have been answered.\<close>

definition exit_mid :: "string \<Rightarrow> brightness_writer \<Rightarrow> manager \<Rightarrow> manager \<Rightarrow> bool" where
  "exit_mid p w m m1 \<longleftrightarrow>
     get_bw p m1 = Some (w\<lparr>bw_child := 0, bw_child_event_source := False, bw_current_messages := []\<rparr>) \<and>
     (\<forall>q. q \<noteq> p \<longrightarrow> get_bw q m1 = get_bw q m) \<and> (\<forall>q. last_written q (m_trace m1) = last_written q (m_trace m)) \<and>
     answered m1 = answered m \<union> set (bw_current_messages w)"

lemma exit_done:
  assumes "bw_ok m" "get_bw p m = Some w" "\<not> bw_again w" "exit_mid p w m m1"
  shows "exit_result p w m (brightness_writer_free p m1)"
proof -
  have pend: "bw_pending_messages w = []" using assms(1-3) by (auto simp: bw_ok_def)
  let ?m = "brightness_writer_free p m1"
  have other: "get_bw q ?m = get_bw q m \<and> last_written q (m_trace ?m) = last_written q (m_trace m)" if "q \<noteq> p" for q
    using assms(4) that by (simp add: exit_mid_def)
  have ans: "answered ?m = answered m \<union> set (bw_current_messages w)" using assms(4) by (simp add: exit_mid_def)
  have "get_bw p ?m = None" by simp
  then have "bw_ok ?m" using other by (intro bw_okI [OF assms(1), of p]) simp_all
  moreover have "waiting ?m \<union> answered ?m = waiting m \<union> answered m"
    using waiting_split [of p ?m m] waiting_split [of p m m] other assms(2) pend ans by auto
  ultimately show ?thesis using ans pend by (simp add: exit_result_def)
qed

lemma exit_again:
  assumes "bw_ok m" "get_bw p m = Some w" "exit_mid p w m m1"
  defines "f \<equiv> brightness_writer_fork p (upd_bw p (\<lambda>w. w\<lparr>bw_again := False,
    bw_current_messages := bw_pending_messages w, bw_pending_messages := []\<rparr>) m1)"
  defines "m' \<equiv> if 0 \<le> fst f then snd f else brightness_writer_free p (brightness_writer_reply p (fst f) (snd f))"
  shows "exit_result p w m m'"
proof -
  define m2 where "m2 = upd_bw p (\<lambda>w. w\<lparr>bw_again := False,
    bw_current_messages := bw_pending_messages w, bw_pending_messages := []\<rparr>) m1"
  let ?w = "w\<lparr>bw_child := 0, bw_child_event_source := False, bw_again := False, bw_current_messages := bw_pending_messages w,
    bw_pending_messages := []\<rparr>"
  have m2: "get_bw p m2 = Some ?w" "\<And>q. q \<noteq> p \<Longrightarrow> get_bw q m2 = get_bw q m"
    "\<And>q. last_written q (m_trace m2) = last_written q (m_trace m)" "answered m2 = answered m \<union> set (bw_current_messages w)"
    using assms(3) by (simp_all add: m2_def exit_mid_def)
  note fork = fork_result [OF m2(1), folded f_def [folded m2_def]]
  obtain w' where w': "get_bw p (snd f) = Some w'" "bw_current_messages w' = bw_pending_messages w"
    "bw_pending_messages w' = []" "\<not> bw_again w'" "bw_brightness w' = bw_brightness w" "0 \<le> fst f \<longrightarrow> bw_child_event_source w'"
    using fork(2) by auto
  have other: "get_bw q m' = get_bw q m \<and> last_written q (m_trace m') = last_written q (m_trace m)" if "q \<noteq> p" for q
    using that fork(1,4) m2(2,3) by (simp add: m'_def trace_reply)
  have own: "get_bw p m' = (if 0 \<le> fst f then Some w' else None)" using w'(1) by (simp add: m'_def)
  have ans: "answered m' = answered m \<union> set (bw_current_messages w) \<union> (if 0 \<le> fst f then {} else set (bw_pending_messages w))"
    using fork(3) m2(4) w'(1,2) trace_reply(2) [of p "fst f" "snd f"]
    by (auto simp: m'_def)
  have last: "last_written p (m_trace m') = Some (bw_brightness w)" using fork(4) [of p] by (simp add: m'_def trace_reply)
  have "bw_ok m'" using w' own last by (intro bw_okI [OF assms(1) other]) (auto split: if_splits)
  moreover have "waiting m' \<union> answered m' = waiting m \<union> answered m"
    using waiting_split [of p m' m] waiting_split [of p m m] other assms(2) own ans w'(2,3) by auto
  ultimately show ?thesis using ans own w'(4) last by (auto simp: exit_result_def split: if_splits)
qed

lemma writer_exit:
  assumes "bw_ok m" "get_bw p m = Some w"
  shows "exit_result p w m (on_brightness_writer_exit p exited m)"
proof -
  define m1 where "m1 = brightness_writer_reply p (if exited then 0 else - EPROTO)
    (upd_bw p (\<lambda>w. w\<lparr>bw_child := 0, bw_child_event_source := False\<rparr>) m)"
  have m1: "exit_mid p w m m1" using assms(2) by (simp add: exit_mid_def m1_def trace_reply)
  then have "get_bw p m1 = Some (w\<lparr>bw_child := 0, bw_child_event_source := False, bw_current_messages := []\<rparr>)"
    by (simp add: exit_mid_def)
  then show ?thesis
    using exit_done [OF assms _ m1] exit_again [OF assms m1]
    unfolding on_brightness_writer_exit_def Let_def m1_def [symmetric] by (simp add: case_prod_beta)
qed

end
