(* ===== verification/Daemon.thy ===== *)
theory Daemon
  imports Manager_Inv Brightness
begin

text \<open>
  The daemon as a whole (\<^verbatim>\<open>logind.c\<close>, with the parts of \<^verbatim>\<open>elogind.c\<close> and \<^verbatim>\<open>logind-core.c\<close> it
  calls): the new manager and its configuration, the enumeration of what earlier runs have left,
  the handlers of udev and the console, start, one turn of the main loop, and the end. Reading the
  configuration file is not modelled.
\<close>

subsection \<open>The configuration\<close>

text \<open>\<open>kill_user_processes\<close> is fixed when the program is built; a tenth of the memory is asked for. What
  the code leaves out with \<^verbatim>\<open>#if 0\<close> is left out.\<close>

definition manager_reset_config :: "bool \<Rightarrow> manager \<Rightarrow> manager" where
  "manager_reset_config kill_user_processes m =
     (let size = nat (ask Ask_physical_memory m)
      in m\<lparr>m_remove_ipc := False, m_inhibit_delay_max := 5 * USEC_PER_SEC, m_user_stop_delay := 0,
           m_handle_power_key := HANDLE_POWEROFF, m_handle_power_key_long_press := HANDLE_IGNORE,
           m_handle_reboot_key := HANDLE_REBOOT, m_handle_reboot_key_long_press := HANDLE_POWEROFF,
           m_handle_suspend_key := HANDLE_SUSPEND, m_handle_suspend_key_long_press := HANDLE_HIBERNATE,
           m_handle_hibernate_key := HANDLE_HIBERNATE, m_handle_hibernate_key_long_press := HANDLE_IGNORE,
           m_handle_secure_attention_key := HANDLE_SECURE_ATTENTION_KEY, m_handle_lid_switch := HANDLE_SUSPEND,
           m_handle_lid_switch_ep := None, m_handle_lid_switch_docked := HANDLE_IGNORE,
           m_power_key_ignore_inhibited := False, m_suspend_key_ignore_inhibited := False,
           m_hibernate_key_ignore_inhibited := False, m_lid_switch_ignore_inhibited := True,
           m_reboot_key_ignore_inhibited := False, m_holdoff_timeout_usec := 30 * USEC_PER_SEC,
           m_idle_action_usec := 30 * 60 * USEC_PER_SEC, m_idle_action := HANDLE_IGNORE,
           m_runtime_dir_size := size, m_runtime_dir_inodes := (size + 4095) div 4096,
           m_sessions_max := 8192, m_inhibitors_max := 8192, m_kill_user_processes := kill_user_processes,
           m_delegate_session_cgroups := False, m_kill_only_users := [], m_kill_exclude_users := [],
           m_stop_idle_session_usec := USEC_INFINITY,
           m_schedule := (m_schedule m)\<lparr>sch_maintenance_time := None\<rparr>\<rparr>)"

text \<open>Calls made one after the other until one fails.\<close>

fun run_calls :: "syscall list \<Rightarrow> manager \<Rightarrow> int \<times> manager" where
  "run_calls [] m = (0, m)"
| "run_calls (c # cs) m = (case sys c m of (r, m) \<Rightarrow> if r < 0 then (r, m) else run_calls cs m)"

text \<open>\<^verbatim>\<open>manager_setup_cgroup\<close>: with the unified hierarchy the manager gets an inotify descriptor.\<close>

definition manager_setup_cgroup :: "manager \<Rightarrow> int \<times> manager" where
  "manager_setup_cgroup m =
     (case find (\<lambda>r. r < 0) [ask (Ask_cg_path ''1'') m, ask (Ask_cg_path ''mount'') m, ask Ask_cg_all_unified m] of
        Some r \<Rightarrow> (r, m)
      | None \<Rightarrow>
          let u = ask Ask_cg_unified_controller m
          in if ask Ask_cg_all_unified m = 0 \<and> u < 0 then (u, m)
             else
             case (if u > 0 then
                     (case sys (Sys_inotify_add_watch ''init'') (safe_close (m_cgroup_inotify_fd m) m) of (fd, m) \<Rightarrow>
                        let m = m\<lparr>m_cgroup_inotify_fd := fd\<rparr>
                        in if fd < 0 then (fd, m)
                           else run_calls [Sys_add_io ''cgroup-inotify'', Sys_event_source ''cgroup-inotify''] m)
                   else (0, m)) of (r, m) \<Rightarrow>
             if r < 0 then (r, m)
             else run_calls [Sys_cg_attach ''/elogind'' 0, Sys_open_read ''cgroup'', Sys_cg_enable ''supported'' ''/''] m)"

text \<open>The source that trims memory: that it cannot be had or limited is ignored, that it cannot be let go of is not.\<close>

definition manager_add_memory_pressure :: "manager \<Rightarrow> int \<times> manager" where
  "manager_add_memory_pressure m =
     (case sys (Sys_event_source ''memory-pressure'') m of (r, m) \<Rightarrow>
        if r < 0 then (0, m)
        else sys (Sys_event_source ''memory-pressure floating'') (emit (Sys_event_source ''memory-pressure ratelimit'') m))"

text \<open>The argument is the memory before and the system around the daemon.\<close>

definition manager_new :: "bool \<Rightarrow> manager \<Rightarrow> int \<times> manager" where
  "manager_new kill_user_processes m =
     (let m = m\<lparr>m_devices := [], m_seats := [], m_sessions := [], m_sessions_by_leader := [], m_users := [],
           m_inhibitors := [], m_buttons := [], m_seat_gc_queue := [], m_session_gc_queue := [],
           m_user_gc_queue := [], m_console_active_fd := - EBADF, m_do_interrupt := False, m_seat0 := None,
           m_session_counter := 0, m_inhibit_counter := 0, m_delayed_action := None, m_action_job := None,
           m_inhibit_timeout_source := False, m_idle_action_not_before_usec := now_monotonic m,
           m_was_idle := False, m_handle_action_sleep_mask := 0, m_lid_switch_ignore_event_source := False,
           m_power_key_long_press_event_source := False, m_reboot_key_long_press_event_source := False,
           m_suspend_key_long_press_event_source := False, m_hibernate_key_long_press_event_source := False,
           m_eviocrevoke_warned := False, m_hidiocrevoke_warned := False, m_cgroup_inotify_fd := 0,
           m_cgroup_control_inotify_wd_session := [], m_sleep_fork_action := None, m_sleep_fork_pid := 0,
           m_tool_fork_pid := 0, m_idle_action_event_source := False, m_brightness_writers := [], m_schedule := new_schedule, m_polkit_registry := [],
           m_utmp_event_source := False, m_abort := False\<rparr>
      in case run_calls [Sys_event_source ''default'', Sys_event_source ''SIGRTMIN+18''] m of (r, m) \<Rightarrow>
         if r < 0 then (r, m)
         else
         case manager_add_memory_pressure m of (r, m) \<Rightarrow>
         if r < 0 then (r, m)
         else
         case manager_setup_cgroup (m\<lparr>m_cgroup_inotify_fd := - EBADF\<rparr>) of (r, m) \<Rightarrow>
         if r < 0 then (r, m) else (0, manager_reset_config kill_user_processes m))"

text \<open>What the daemon has of control groups is let go of, unless the daemon is to be replaced by another one.\<close>

definition manager_shutdown_cgroup :: "manager \<Rightarrow> manager" where
  "manager_shutdown_cgroup m =
     (let m = emit (Sys_cg_trim ''self'') m;
          m = m\<lparr>m_cgroup_control_inotify_wd_session := []\<rparr>;
          m = safe_close (m_cgroup_inotify_fd m) m
      in m\<lparr>m_cgroup_inotify_fd := - EBADF\<rparr>)"

definition elogind_manager_free :: "manager \<Rightarrow> manager" where
  "elogind_manager_free m = (if \<not> m_do_interrupt m then manager_shutdown_cgroup m else m)"

text \<open>The hash tables are freed with their entries, devices first.\<close>

definition manager_free :: "manager \<Rightarrow> manager" where
  "manager_free m =
     (let m = fold device_free (m_devices m) m;
          m = fold seat_free (m_seats m) m;
          m = fold session_free (m_sessions m) m;
          m = assert_that (m_sessions_by_leader m = []) m;
          m = fold user_free (m_users m) m;
          m = fold inhibitor_free (m_inhibitors m) m;
          m = fold button_free (m_buttons m) m;
          m = fold brightness_writer_free (map fst (m_brightness_writers m)) m;
          m = (if m_console_active_fd m \<ge> 0 then safe_close (m_console_active_fd m) m else m);
          m = (if sch_unlink_nologin (m_schedule m) then emit (Sys_unlink ''/run/nologin'') m else m)
      in elogind_manager_free (m\<lparr>m_polkit_registry := []\<rparr>))"

subsection \<open>What earlier runs have left\<close>

text \<open>The files of a directory, with \<open>f\<close> for each; a directory that does not exist is empty.\<close>

definition enumerate_dir :: "string \<Rightarrow> int \<Rightarrow> (string \<Rightarrow> manager \<Rightarrow> int \<times> manager) \<Rightarrow> manager \<Rightarrow> int \<times> manager" where
  "enumerate_dir path r f m =
     (case w_dirs (m_world m) path of
        Inl e \<Rightarrow> (if e = - ENOENT then 0 else e, m)
      | Inr names \<Rightarrow> gather ret_gather f names (r, m))"

definition enumerate_udev :: "string \<Rightarrow> (udev \<Rightarrow> manager \<Rightarrow> int \<times> manager) \<Rightarrow> manager \<Rightarrow> int \<times> manager" where
  "enumerate_udev tag f m =
     (case w_udev_by_tag (m_world m) tag of
        Inl e \<Rightarrow> (e, m)
      | Inr ds \<Rightarrow> gather ret_gather f (filter ud_processed ds) (0, m))"

definition manager_enumerate_devices :: "manager \<Rightarrow> int \<times> manager" where
  "manager_enumerate_devices m = enumerate_udev ''master-of-seat'' manager_process_seat_device m"

definition manager_enumerate_buttons :: "manager \<Rightarrow> int \<times> manager" where
  "manager_enumerate_buttons m =
     (if manager_all_buttons_ignored m then (0, m)
      else enumerate_udev ''power-switch'' manager_process_button_device m)"

definition seat_load :: "string \<Rightarrow> manager \<Rightarrow> int \<times> manager" where
  "seat_load st m = (0, m)"

definition enumerate_seat :: "string \<Rightarrow> manager \<Rightarrow> int \<times> manager" where
  "enumerate_seat name m =
     (if name \<in> set (m_seats m) then seat_load name m
      else (0, snd (sys (Sys_unlink (''/run/systemd/seats/'' @ name)) m)))"

definition manager_enumerate_seats :: "manager \<Rightarrow> int \<times> manager" where
  "manager_enumerate_seats m = enumerate_dir ''/run/systemd/seats'' 0 enumerate_seat m"

definition enumerate_linger_user :: "string \<Rightarrow> manager \<Rightarrow> int \<times> manager" where
  "enumerate_linger_user name m =
     (case cunescape name of
        None \<Rightarrow> (- EINVAL, m)
      | Some n \<Rightarrow> manager_add_user_by_name n m)"

definition manager_enumerate_linger_users :: "manager \<Rightarrow> int \<times> manager" where
  "manager_enumerate_linger_users m = enumerate_dir ''/var/lib/elogind/linger'' 0 enumerate_linger_user m"

definition enumerate_user :: "string \<Rightarrow> manager \<Rightarrow> int \<times> manager" where
  "enumerate_user name m =
     (case parse_uid name of
        Inl k \<Rightarrow> (k, m)
      | Inr uid \<Rightarrow>
          (case manager_add_user_by_uid uid m of (x, m) \<Rightarrow>
             (case x of
                Inl k \<Rightarrow> (k, m)
              | Inr u \<Rightarrow> user_load u (user_add_to_gc_queue u m))))"

definition manager_enumerate_users :: "manager \<Rightarrow> int \<times> manager" where
  "manager_enumerate_users m =
     (case manager_enumerate_linger_users m of (r, m) \<Rightarrow> enumerate_dir ''/run/systemd/users'' r enumerate_user m)"

text \<open>The name of a stored file descriptor. \<open>None\<close> is a name with too few parts, for which the code
  reads past the end of the array.\<close>

definition parse_fdname :: "string \<Rightarrow> (int + string \<times> devt) option" where
  "parse_fdname fdname =
     (case strv_split_full fdname (Some ''-'') {EXTRACT_RETAIN_ESCAPE} of
        Inl _ \<Rightarrow> Some (Inl (- ENOMEM))
      | Inr parts \<Rightarrow>
          if parts = [] then None
          else if parts ! 0 \<noteq> ''session'' then Some (Inl (- EINVAL))
          else if length parts < 3 then None
          else if parts ! 2 = ''leader'' then Some (Inr (parts ! 1, (0, 0)))
          else if parts ! 2 \<noteq> ''device'' then Some (Inl (- EINVAL))
          else if length parts < 4 then None
          else case safe_atou (parts ! 3) of
                 Inl r \<Rightarrow> Some (Inl r)
               | Inr major \<Rightarrow>
                   if length parts < 5 then None
                   else case safe_atou (parts ! 4) of
                          Inl r \<Rightarrow> Some (Inl r)
                        | Inr minor \<Rightarrow> Some (Inr (parts ! 1, (major, minor))))"

definition close_and_notify_warn :: "int \<Rightarrow> string \<Rightarrow> manager \<Rightarrow> manager" where
  "close_and_notify_warn fd name m = safe_close fd (emit (Sys_remove_fd name) m)"

text \<open>\<open>Ask_fd_is_device\<close> answers with an error, 0, or a positive number for the character device.\<close>

definition deliver_session_device_fd :: "string \<Rightarrow> int \<Rightarrow> devt \<Rightarrow> manager \<Rightarrow> int \<times> manager" where
  "deliver_session_device_fd s fd devno m =
     (let k = ask (Ask_fd_is_device fd devno) m
      in if k < 0 then (k, m)
         else if k = 0 then (- ENODEV, m)
         else if devno \<notin> set (s_devices (ses m s)) then (- ENODEV, m)
         else (0, session_device_attach_fd (s, devno) fd (s_was_active (ses m s)) m))"

abbreviation (input) EOWNERDEAD :: int where "EOWNERDEAD \<equiv> 130"

text \<open>\<open>Ask_pidfd_pid\<close> answers with the number in the descriptor's \<^verbatim>\<open>Pid:\<close> line or with an error. It is 0 for a
  process of another namespace.\<close>

definition pidfd_get_pid :: "int \<Rightarrow> manager \<Rightarrow> int" where
  "pidfd_get_pid fd m = (let p = ask (Ask_pidfd_pid fd) m in if p = 0 then - EREMOTE else p)"

definition deliver_session_leader_fd_consume :: "string \<Rightarrow> string \<Rightarrow> int \<Rightarrow> manager \<Rightarrow> int \<times> manager" where
  "deliver_session_leader_fd_consume s fdname fd m =
     (if s_deserialized_pid (ses m s) = 0 then (- EOWNERDEAD, close_and_notify_warn fd fdname m)
      else
      let m = (if s_leader_fd_saved (ses m s) then assert_that (\<not> pidref_is_set (s_leader (ses m s))) m else m);
          p = pidfd_get_pid fd m
      in if p < 0 then (p, close_and_notify_warn fd fdname m)
         else
         let i = ask (Ask_pidfd_id fd) m;
             (r, m) = session_set_leader_consume s
                        \<lparr>pid_pid = nat p, pid_fd = fd, pid_fd_id = (if i < 0 then None else Some (nat i))\<rparr> m
         in (if r < 0 then r else 0, m))"

definition manager_attach_session_fd_one_consume :: "string \<Rightarrow> int \<Rightarrow> manager \<Rightarrow> int \<times> manager" where
  "manager_attach_session_fd_one_consume fdname fd m =
     (case parse_fdname fdname of
        None \<Rightarrow> (0, assert_that False m)
      | Some (Inl r) \<Rightarrow> (r, close_and_notify_warn fd fdname m)
      | Some (Inr (s, devno)) \<Rightarrow>
          if s \<notin> set (m_sessions m) then (- ENXIO, close_and_notify_warn fd fdname m)
          else if devno \<noteq> (0, 0) then
            (case deliver_session_device_fd s fd devno m of (r, m) \<Rightarrow>
               if r < 0 then (r, close_and_notify_warn fd fdname m) else (0, m))
          else deliver_session_leader_fd_consume s fdname fd m)"

definition enumerate_session :: "string \<Rightarrow> manager \<Rightarrow> int \<times> manager" where
  "enumerate_session name m =
     (case manager_add_session name m of (k, m) \<Rightarrow>
        if k < 0 then (k, m) else session_load name (session_add_to_gc_queue name m))"

definition attach_session_fds :: "int \<Rightarrow> manager \<Rightarrow> int \<times> manager" where
  "attach_session_fds r m =
     (case w_fd_names (m_world m) of
        Inl n \<Rightarrow> (n, m)
      | Inr names \<Rightarrow>
          gather ret_gather (\<lambda>(name, fd). manager_attach_session_fd_one_consume name fd)
            (zip names (map (\<lambda>i. 3 + int i) [0..<length names])) (r, m))"

definition manager_enumerate_sessions :: "manager \<Rightarrow> int \<times> manager" where
  "manager_enumerate_sessions m =
     (case w_dirs (m_world m) ''/run/systemd/sessions'' of
        Inl e \<Rightarrow> (if e = - ENOENT then 0 else e, m)
      | Inr names \<Rightarrow> (case gather ret_gather enumerate_session names (0, m) of (r, m) \<Rightarrow> attach_session_fds r m))"

definition enumerate_inhibitor :: "string \<Rightarrow> manager \<Rightarrow> int \<times> manager" where
  "enumerate_inhibitor name m =
     (case manager_add_inhibitor name m of (k, m) \<Rightarrow> if k < 0 then (k, m) else inhibitor_load name m)"

definition manager_enumerate_inhibitors :: "manager \<Rightarrow> int \<times> manager" where
  "manager_enumerate_inhibitors m = enumerate_dir ''/run/systemd/inhibit'' 0 enumerate_inhibitor m"

subsection \<open>Handlers\<close>

definition manager_dispatch_seat_udev :: "udev \<Rightarrow> manager \<Rightarrow> manager" where
  "manager_dispatch_seat_udev d m = snd (manager_process_seat_device d m)"

definition manager_dispatch_device_udev :: "udev \<Rightarrow> manager \<Rightarrow> manager" where
  "manager_dispatch_device_udev d m = snd (manager_process_seat_device d m)"

definition manager_dispatch_button_udev :: "udev \<Rightarrow> manager \<Rightarrow> manager" where
  "manager_dispatch_button_udev d m = snd (manager_process_button_device d m)"

definition manager_dispatch_console :: "manager \<Rightarrow> manager" where
  "manager_dispatch_console m =
     (case m_seat0 m of None \<Rightarrow> assert_that False m | Some st \<Rightarrow> snd (seat_read_active_vt st m))"

text \<open>A virtual terminal is to be given up: the active session's, or another one's on the same terminal.\<close>

definition vt_session :: "string \<Rightarrow> manager \<Rightarrow> string option" where
  "vt_session st m =
     (case st_active (sts m st) of
        None \<Rightarrow> None
      | Some a \<Rightarrow>
          if s_vtnr (ses m a) < 1 then None
          else if s_vtfd (ses m a) \<ge> 0 then Some a
          else find (\<lambda>i. s_vtnr (ses m i) = s_vtnr (ses m a) \<and> s_vtfd (ses m i) \<ge> 0) (st_sessions (sts m st)))"

definition manager_vt_switch :: "manager \<Rightarrow> manager" where
  "manager_vt_switch m =
     (case m_seat0 m of
        None \<Rightarrow> assert_that False m
      | Some st \<Rightarrow>
          let m = snd (seat_read_active_vt st m)
          in if (case st_active (sts m st) of None \<Rightarrow> True | Some a \<Rightarrow> s_vtnr (ses m a) < 1) then
               (case sys (Sys_open_terminal ''/dev/tty0'') m of (fd, m) \<Rightarrow>
                  if fd < 0 then m else safe_close fd (snd (sys (Sys_vt_release fd) m)))
             else case vt_session st m of None \<Rightarrow> m | Some s \<Rightarrow> session_leave_vt s m)"

definition manager_dispatch_reload_signal :: "bool \<Rightarrow> (manager \<Rightarrow> manager) \<Rightarrow> manager \<Rightarrow> manager" where
  "manager_dispatch_reload_signal kill_user_processes parse_config m =
     parse_config (manager_reset_config kill_user_processes m)"

definition elogind_signal_handler :: "bool \<Rightarrow> manager \<Rightarrow> manager" where
  "elogind_signal_handler is_sigint m =
     (if ask Ask_event_finished m > 0 then m
      else emit (Sys_event_source ''exit'') (if is_sigint then m\<lparr>m_do_interrupt := True\<rparr> else m))"

subsection \<open>Start\<close>

definition manager_connect_console :: "manager \<Rightarrow> int \<times> manager" where
  "manager_connect_console m =
     (let m = assert_that (m_console_active_fd m < 0) m
      in if ask (Ask_access ''/dev/tty0'') m < 0 then (0, m)
         else case sys (Sys_open_read ''/sys/class/tty/tty0/active'') m of (fd, m) \<Rightarrow>
           let m = m\<lparr>m_console_active_fd := fd\<rparr>
           in if fd < 0 then (if fd = - ENOENT then 0 else fd, m)
              else run_calls [Sys_add_io ''console'', Sys_event_source ''SIGRTMIN'', Sys_event_source ''SIGRTMIN+0''] m)"

definition manager_connect_udev :: "manager \<Rightarrow> int \<times> manager" where
  "manager_connect_udev m =
     (let monitor = (\<lambda>name calls. map (\<lambda>c. Sys_event_source (name @ c)) calls)
      in run_calls
           (monitor ''seat '' [''new'', ''match'', ''attach'', ''start''] @
            monitor ''device '' [''new'', ''match input'', ''match graphics'', ''match drm'', ''attach'', ''start''] @
            (if manager_all_buttons_ignored m then []
             else monitor ''button '' [''new'', ''match tag'', ''match input'', ''attach'', ''start''])) m)"

definition manager_connect_bus :: "manager \<Rightarrow> int \<times> manager" where
  "manager_connect_bus m =
     run_calls (map Sys_event_source [''bus'', ''bus objects'', ''log control'', ''exit on disconnect'',
       ''bus name'', ''bus attach'', ''cgroups agent'']) m"

text \<open>All four handlers are tried; the first error is returned.\<close>

definition elogind_manager_startup :: "manager \<Rightarrow> int \<times> manager" where
  "elogind_manager_startup m =
     gather (\<lambda>e r. if r < 0 \<and> e = 0 then r else e) sys
       (map Sys_event_source [''SIGINT'', ''SIGQUIT'', ''SIGTERM'', ''SIGCHLD'']) (0, m)"

definition startup_inhibitor :: "string \<Rightarrow> manager \<Rightarrow> manager" where
  "startup_inhibitor i m =
     (let m = inhibitor_start i m
      in if inhibitor_is_orphan i m then inhibitor_free i (inhibitor_stop i m) else m)"

definition startup_connect :: "manager \<Rightarrow> int \<times> manager" where
  "startup_connect m =
     (case sys (Sys_event_source ''SIGHUP'') m of (r, m) \<Rightarrow> if r < 0 then (r, m) else
      case elogind_manager_startup m of (r, m) \<Rightarrow> if r < 0 then (r, m) else
      case manager_connect_console (manager_connect_utmp m) of (r, m) \<Rightarrow> if r < 0 then (r, m) else
      case manager_connect_udev m of (r, m) \<Rightarrow> if r < 0 then (r, m) else
      manager_connect_bus m)"

definition startup_enumerate :: "manager \<Rightarrow> manager" where
  "startup_enumerate m =
     (let m = snd (manager_set_lid_switch_ignore (m_holdoff_timeout_usec m) m);
          m = snd (manager_enumerate_devices m);
          m = snd (manager_enumerate_seats m);
          m = snd (manager_enumerate_users m);
          m = snd (manager_enumerate_sessions m);
          m = snd (manager_enumerate_inhibitors m);
          m = snd (manager_enumerate_buttons m)
      in manager_load_scheduled_shutdown m)"

definition startup_start :: "manager \<Rightarrow> manager" where
  "startup_start m =
     (let m = snd (manager_read_utmp m);
          m = fold (\<lambda>st m. snd (seat_start st m)) (m_seats m) m;
          m = fold (\<lambda>u m. snd (user_start u m)) (m_users m) m;
          m = fold (\<lambda>s m. snd (session_start s m)) (m_sessions m) m;
          m = fold startup_inhibitor (m_inhibitors m) m;
          m = fold (\<lambda>b m. snd (button_check_switches b m)) (m_buttons m) m
      in snd (manager_dispatch_idle_action m))"

text \<open>\<open>None\<close> would be a garbage collection that does not end.\<close>

definition manager_startup :: "manager \<Rightarrow> (int \<times> manager) option" where
  "manager_startup m =
     (case startup_connect m of (r, m) \<Rightarrow>
        if r < 0 then Some (r, m)
        else case manager_add_seat ''seat0'' m of (r, m) \<Rightarrow>
          if r < 0 then Some (r, m)
          else Option.bind (manager_gc False (startup_enumerate (m\<lparr>m_seat0 := Some ''seat0''\<rparr>)))
                 (\<lambda>m. Some (0, startup_start m)))"

subsection \<open>The main loop\<close>

text \<open>One turn up to the wait for an event. The result says whether the loop goes on at once, waits, or
  ends with a return value.\<close>

datatype turn = Turn_again | Turn_wait | Turn_end int

definition manager_run_turn :: "manager \<Rightarrow> (turn \<times> manager) option" where
  "manager_run_turn m =
     (let r = ask Ask_event_finished m
      in if r < 0 then Some (Turn_end r, m)
         else if r > 0 then Some (Turn_end 0, m)
         else Option.bind (manager_gc True m)
                (\<lambda>m. case manager_dispatch_delayed False m of (r, m) \<Rightarrow>
                   Some (if r < 0 then Turn_end r else if r > 0 then Turn_again else Turn_wait, m)))"

end
