(* ===== verification/Polkit.thy ===== *)
theory Polkit
  imports Inhibit "HOL-Library.AList"
begin

text \<open>
  Authorisation of bus calls (\<^verbatim>\<open>shared/bus-polkit.c\<close>, built with polkit). A method that needs an
  authorisation asks polkit and is interrupted; when the answer comes the message is dispatched again from
  its start, and the answers for this message are found in the registry of the manager. What the bus knows
  about the sender of a message belongs to the message. Allocations succeed.
\<close>

subsection \<open>Messages and errors\<close>

datatype cred = CREDS_EUID | CREDS_UID | CREDS_PID | CREDS_PIDFD | CREDS_SESSION | CREDS_OWNER_UID | CREDS_TTY | CREDS_AUGMENT

text \<open>An answer of polkit: an error by its name, a message that cannot be read, or whether the sender is
  authorised and whether it could become so.\<close>

datatype polkit_reply = Polkit_error string | Polkit_unreadable int | Polkit_result bool bool

record bus_message =
  msg_id :: nat
  msg_sender :: "string option"
  msg_expect_reply :: bool
  msg_query_creds :: "cred list \<Rightarrow> int"
  msg_euid :: "int + uid"
  msg_euid_augmented :: bool
  msg_uid :: "int + uid"
  msg_owner_uid :: "int + uid"
  msg_session :: "int + string"
  msg_tty :: "int + string"
  msg_pidref :: "int + pidref"
  msg_privilege :: int
  msg_interactive :: int
  msg_polkit :: "string \<Rightarrow> polkit_reply"

text \<open>An error is a negative number or the name of a bus error.\<close>

datatype bus_error = Errno int | Bus_error string

datatype PolkitFlag = POLKIT_ALLOW_INTERACTIVE | POLKIT_ALWAYS_QUERY | POLKIT_DEFAULT_ALLOW

type_synonym action_details = "string \<times> string list"

definition polkit_mask_public :: "PolkitFlag set \<Rightarrow> nat" where
  "polkit_mask_public flags =
     (if POLKIT_ALLOW_INTERACTIVE \<in> flags then 1 else 0) + (if POLKIT_ALWAYS_QUERY \<in> flags then 2 else 0)"

definition EACCES :: int where "EACCES = 13"
definition EBADMSG :: int where "EBADMSG = 74"

definition bus_error_is_unknown_service :: "string \<Rightarrow> bool" where
  "bus_error_is_unknown_service n \<longleftrightarrow>
     n \<in> {''org.freedesktop.DBus.Error.ServiceUnknown'', ''org.freedesktop.DBus.Error.NameHasNoOwner'',
           ''org.freedesktop.systemd1.NoSuchUnit''}"

text \<open>The effective user of the sender, for decisions: an error, or the user.\<close>

definition sender_euid :: "bus_message \<Rightarrow> int + uid" where
  "sender_euid msg = (if msg_query_creds msg [CREDS_EUID] < 0 then Inl (msg_query_creds msg [CREDS_EUID]) else msg_euid msg)"

definition bus_message_check_good_user :: "bus_message \<Rightarrow> uid \<Rightarrow> int" where
  "bus_message_check_good_user msg good_user =
     (if good_user = UID_INVALID then 0
      else if msg_query_creds msg [CREDS_EUID] < 0 then msg_query_creds msg [CREDS_EUID]
      else if msg_euid_augmented msg then - EPERM
      else case msg_euid msg of Inl r \<Rightarrow> r | Inr u \<Rightarrow> if u = good_user then 1 else 0)"

subsection \<open>Questions\<close>

definition new_query :: polkit_query where
  "new_query = \<lparr>q_n_ref = 1, q_action = None, q_slot = False, q_in_registry = False, q_defer_event_source = False,
     q_authorized_actions = [], q_denied_action = None, q_absent_action = None, q_error_action = None, q_error = None\<rparr>"

definition get_query :: "nat \<Rightarrow> manager \<Rightarrow> polkit_query option" where
  "get_query i m = map_of (m_polkit_registry m) i"

text \<open>Storing a query keeps the place of one that is there.\<close>

definition put_query :: "nat \<Rightarrow> polkit_query \<Rightarrow> manager \<Rightarrow> manager" where
  "put_query i q m = m\<lparr>m_polkit_registry := AList.update i q (m_polkit_registry m)\<rparr>"

definition drop_query :: "nat \<Rightarrow> manager \<Rightarrow> manager" where
  "drop_query i m = m\<lparr>m_polkit_registry := AList.delete i (m_polkit_registry m)\<rparr>"

text \<open>The last reference frees the query and takes it out of the registry.\<close>

definition async_polkit_query_unref :: "nat \<Rightarrow> manager \<Rightarrow> manager" where
  "async_polkit_query_unref i m =
     (case get_query i m of
        None \<Rightarrow> assert_that False m
      | Some q \<Rightarrow> if q_n_ref q \<le> 1 then drop_query i m else put_query i (q\<lparr>q_n_ref := q_n_ref q - 1\<rparr>) m)"

definition async_polkit_query_have_action :: "polkit_query \<Rightarrow> action_details \<Rightarrow> bool" where
  "async_polkit_query_have_action q a \<longleftrightarrow> a \<in> set (q_authorized_actions q)"

text \<open>A verdict: an error, no answer yet, or allowed. Details do not matter for a refusal.\<close>

datatype verdict = Refused bus_error | Pending | Allowed

definition is_action :: "action_details option \<Rightarrow> action_details \<Rightarrow> bool" where
  "is_action x a \<longleftrightarrow> (case x of None \<Rightarrow> False | Some b \<Rightarrow> fst b = fst a)"

definition async_polkit_query_check_action :: "polkit_query \<Rightarrow> action_details \<Rightarrow> PolkitFlag set \<Rightarrow> verdict" where
  "async_polkit_query_check_action q a flags =
     (if async_polkit_query_have_action q a then Allowed
      else if is_action (q_error_action q) a then (case q_error q of None \<Rightarrow> Pending | Some n \<Rightarrow> Refused (Bus_error n))
      else if is_action (q_denied_action q) a then Refused (Errno (- EACCES))
      else if q_absent_action q \<noteq> None then
        (if POLKIT_DEFAULT_ALLOW \<in> flags then Allowed else Refused (Errno (- EACCES)))
      else Pending)"

text \<open>The result of the reply, the query after it and whether the assertions held.\<close>

definition async_polkit_read_reply :: "polkit_reply \<Rightarrow> polkit_query \<Rightarrow> int \<times> polkit_query \<times> bool" where
  "async_polkit_read_reply reply q =
     (let ok = (q_denied_action q = None \<and> q_absent_action q = None \<and> q_error_action q = None \<and> q_error q = None \<and>
                q_action q \<noteq> None);
          a = q_action q;
          q = q\<lparr>q_action := None\<rparr>
      in case reply of
           Polkit_error n \<Rightarrow>
             (0, if bus_error_is_unknown_service n then q\<lparr>q_absent_action := a\<rparr>
                 else if n \<in> {''org.freedesktop.PolicyKit1.Error.Failed'', ''org.freedesktop.PolicyKit1.Error.Cancelled'',
                               ''org.freedesktop.PolicyKit1.Error.NotAuthorized''}
                 then q\<lparr>q_denied_action := a\<rparr>
                 else q\<lparr>q_error_action := a, q_error := Some n\<rparr>, ok)
         | Polkit_unreadable r \<Rightarrow> (r, q, ok)
         | Polkit_result authorized challenge \<Rightarrow>
             (0, if authorized then q\<lparr>q_authorized_actions := (case a of None \<Rightarrow> [] | Some a \<Rightarrow> [a]) @ q_authorized_actions q\<rparr>
                 else if challenge
                 then q\<lparr>q_error_action := a, q_error := Some ''org.freedesktop.DBus.Error.InteractiveAuthorizationRequired''\<rparr>
                 else q\<lparr>q_denied_action := a\<rparr>, ok))"

text \<open>The message is put back in front of the daemon, and the query is released when all is done.\<close>

definition async_polkit_process_reply :: "nat \<Rightarrow> polkit_reply \<Rightarrow> manager \<Rightarrow> int \<times> manager" where
  "async_polkit_process_reply i reply m =
     (case get_query i m of
        None \<Rightarrow> (0, assert_that False m)
      | Some q \<Rightarrow>
          case async_polkit_read_reply reply (q\<lparr>q_slot := False\<rparr>) of (r, q', ok) \<Rightarrow>
          let m = put_query i q' (assert_that (q_slot q \<and> ok) m)
          in if r < 0 then (r, m) else
          let (r, m) = (if q_defer_event_source q' then (0, m)
               else case sys (Sys_polkit ''add-defer'' i) m of (r, m) \<Rightarrow> if r < 0 then (r, m)
                 else sys (Sys_polkit ''set-priority'' i) (put_query i (q'\<lparr>q_defer_event_source := True\<rparr>) m))
          in if r < 0 then (r, m) else
          case sys (Sys_polkit ''enable-defer'' i) m of (r, m) \<Rightarrow> if r < 0 then (r, m) else
          case sys (Sys_polkit ''rewind'' i) m of (r, m) \<Rightarrow> if r < 0 then (r, m) else
          case sys (Sys_polkit ''enqueue'' i) m of (r, m) \<Rightarrow> if r < 0 then (r, m) else (1, m))"

definition async_polkit_callback :: "nat \<Rightarrow> polkit_reply \<Rightarrow> manager \<Rightarrow> int \<times> manager" where
  "async_polkit_callback i reply m =
     (case async_polkit_process_reply i reply m of (r, m) \<Rightarrow>
        (r, if r < 0 then async_polkit_query_unref i (emit (Sys_reply i r) m) else m))"

definition async_polkit_defer :: "nat \<Rightarrow> manager \<Rightarrow> manager" where
  "async_polkit_defer i m = async_polkit_query_unref i m"

subsection \<open>Asking\<close>

text \<open>The question is sent: a new query enters the registry, and leaves it again when the call fails; one
  that is there keeps the action.\<close>

definition polkit_ask :: "nat \<Rightarrow> action_details \<Rightarrow> PolkitFlag set \<Rightarrow> manager \<Rightarrow> verdict \<times> manager" where
  "polkit_ask i a flags m =
     (let q = (case get_query i m of None \<Rightarrow> new_query | Some q \<Rightarrow> q\<lparr>q_n_ref := q_n_ref q + 1\<rparr>);
          m = assert_that (q_action q = None) m;
          q = q\<lparr>q_action := Some a, q_in_registry := True\<rparr>;
          m = put_query i q m
      in case sys (Sys_check_authorization i (fst a) (snd a) (polkit_mask_public flags)) m of (r, m) \<Rightarrow>
           if r < 0 then (Refused (Errno r), async_polkit_query_unref i m)
           else (Pending, put_query i (q\<lparr>q_slot := True\<rparr>) m))"

definition bus_verify_polkit_async_full ::
  "bus_message \<Rightarrow> action_details \<Rightarrow> uid \<Rightarrow> PolkitFlag set \<Rightarrow> manager \<Rightarrow> verdict \<times> manager" where
  "bus_verify_polkit_async_full msg a good_user flags m =
     (let r = bus_message_check_good_user msg good_user
      in if r < 0 then (Refused (Errno r), m)
         else if r > 0 then (Allowed, m)
         else
         let known = (case get_query (msg_id msg) m of None \<Rightarrow> Pending | Some q \<Rightarrow> async_polkit_query_check_action q a flags)
         in if known \<noteq> Pending then (known, m)
            else if POLKIT_ALWAYS_QUERY \<notin> flags \<and> msg_privilege msg < 0 then (Refused (Errno (msg_privilege msg)), m)
            else if POLKIT_ALWAYS_QUERY \<notin> flags \<and> msg_privilege msg > 0 then (Allowed, m)
            else if msg_interactive msg < 0 then (Refused (Errno (msg_interactive msg)), m)
            else if msg_sender msg = None then (Refused (Errno (- EBADMSG)), m)
            else polkit_ask (msg_id msg) a
                   (if msg_interactive msg > 0 then insert POLKIT_ALLOW_INTERACTIVE flags else flags) m)"

definition bus_verify_polkit_async :: "bus_message \<Rightarrow> string \<Rightarrow> manager \<Rightarrow> verdict \<times> manager" where
  "bus_verify_polkit_async msg action m = bus_verify_polkit_async_full msg (action, []) UID_INVALID {} m"

definition check_polkit_chvt :: "bus_message \<Rightarrow> manager \<Rightarrow> verdict \<times> manager" where
  "check_polkit_chvt msg m = bus_verify_polkit_async msg ''org.freedesktop.login1.chvt'' m"

text \<open>Asking without waiting: an error, or whether the sender is authorised and whether it could become so.\<close>

definition bus_test_polkit :: "bus_message \<Rightarrow> string \<Rightarrow> uid \<Rightarrow> bus_error + bool \<times> bool" where
  "bus_test_polkit msg action good_user =
     (let r = bus_message_check_good_user msg good_user
      in if r < 0 then Inl (Errno r)
         else if r > 0 then Inr (True, False)
         else if msg_privilege msg < 0 then Inl (Errno (msg_privilege msg))
         else if msg_privilege msg > 0 then Inr (True, False)
         else if msg_sender msg = None then Inl (Errno (- EBADMSG))
         else case msg_polkit msg action of
                Polkit_error n \<Rightarrow> Inl (if bus_error_is_unknown_service n then Errno (- EACCES) else Bus_error n)
              | Polkit_unreadable r \<Rightarrow> Inl (Errno r)
              | Polkit_result authorized challenge \<Rightarrow> Inr (authorized, challenge))"

end
