(* ===== verification/Path_Check.thy ===== *)
theory Path_Check
  imports Parse_Util "HOL-Library.Sublist"
begin

text \<open>
  The checks on names that come over the bus: file names and paths (\<^verbatim>\<open>src/basic/path-util.c\<close>), strings without
  quotes and control characters (\<^verbatim>\<open>string-util.c\<close>), and names of terminals (\<^verbatim>\<open>terminal-util.c\<close>).
\<close>

definition filename_part_is_valid :: "string \<Rightarrow> bool" where
  "filename_part_is_valid p \<longleftrightarrow> SLASH \<notin> set p \<and> length p \<le> NAME_MAX"

definition filename_is_valid :: "string \<Rightarrow> bool" where
  "filename_is_valid p \<longleftrightarrow> p \<noteq> [] \<and> p \<noteq> ''.'' \<and> p \<noteq> ''..'' \<and> filename_part_is_valid p"

definition PATH_MAX :: nat where
  "PATH_MAX = 4096"

lemma path_find_first_component_end: "path_find_first_component p a = (0, ret, p') \<Longrightarrow> p' = []"
proof -
  assume res: "path_find_first_component p a = (0, ret, p')"
  have "takeWhile (\<lambda>c. c \<noteq> SLASH) (skip_slash_or_dot p) \<noteq> []" if "skip_slash_or_dot p \<noteq> []"
    using skip_slash_or_dot_hd [of p] that by (cases "skip_slash_or_dot p") auto
  then show ?thesis
    using res by (auto simp: path_find_first_component_def Let_def split: if_splits)
qed

lemma path_step_less:
  assumes "(r, ret, p') = path_find_first_component p a" "\<not> r < 0" "p' \<noteq> []"
  shows "length p' < length p"
proof -
  have "r \<noteq> 0" using assms path_find_first_component_end [of p a ret p'] by auto
  then show ?thesis using assms path_find_first_component_less [OF assms(1)] by simp
qed

text \<open>The loop of \<^verbatim>\<open>path_is_valid_full\<close> with the length of the whole path.\<close>

function path_is_valid_loop :: "nat \<Rightarrow> bool \<Rightarrow> string \<Rightarrow> bool" where
  "path_is_valid_loop len accept_dot_dot e =
     (case path_find_first_component e accept_dot_dot of (r, _, e') \<Rightarrow>
        if r < 0 then False
        else if len - length e' \<ge> PATH_MAX then False
        else if e' = [] then True
        else path_is_valid_loop len accept_dot_dot e')"
  by pat_completeness auto
termination
  by (relation "measure (\<lambda>(_, _, e). length e)") (auto intro: path_step_less)

declare path_is_valid_loop.simps [simp del]

definition path_is_valid_full :: "string \<Rightarrow> bool \<Rightarrow> bool" where
  "path_is_valid_full p accept_dot_dot \<longleftrightarrow> p \<noteq> [] \<and> path_is_valid_loop (length p) accept_dot_dot p"

definition path_is_safe :: "string \<Rightarrow> bool" where
  "path_is_safe p \<longleftrightarrow> path_is_valid_full p False"

definition path_is_normalized :: "string \<Rightarrow> bool" where
  "path_is_normalized p \<longleftrightarrow> path_is_safe p \<and>
     \<not> (p = ''.'' \<or> prefix ''./'' p \<or> suffix ''/.'' p \<or> sublist ''/./'' p) \<and> \<not> sublist ''//'' p"

definition string_is_safe :: "string \<Rightarrow> bool" where
  "string_is_safe p \<longleftrightarrow>
     (\<forall>c \<in> set p. \<not> (0 < code c \<and> code c < 32) \<and> c \<noteq> DQUOTE \<and> c \<noteq> SQUOTE \<and> c \<noteq> BACKSLASH \<and> code c \<noteq> 127)"

definition tty_is_vc :: "string \<Rightarrow> bool" where
  "tty_is_vc tty \<longleftrightarrow> success (vtnr_from_tty tty) \<noteq> None"

definition tty_is_console :: "string \<Rightarrow> bool" where
  "tty_is_console tty \<longleftrightarrow> skip_dev_prefix tty = ''console''"

end
