(* ===== verification/Bus.thy ===== *)
theory Bus
  imports Daemon Polkit Path_Check
begin

text \<open>
  The methods of sessions, seats and users on the bus (\<^verbatim>\<open>logind-session-dbus.c\<close>, \<^verbatim>\<open>logind-seat-dbus.c\<close>,
  \<^verbatim>\<open>logind-user-dbus.c\<close>), and how the objects are found for the sender (\<^verbatim>\<open>logind-dbus.c\<close>). The arguments of a
  method are what \<^verbatim>\<open>sd_bus_message_read\<close> makes of the message, whose signature the bus has checked before.
\<close>

subsection \<open>Results of methods\<close>

text \<open>A method fails, is interrupted until polkit has answered, has replied, or leaves the reply for later.\<close>

datatype 'a reply = Fail bus_error | Wait | Reply 'a | Later

definition reply_return :: "bus_message \<Rightarrow> 'a \<Rightarrow> manager \<Rightarrow> 'a reply \<times> manager" where
  "reply_return msg v m =
     (case sys (Sys_reply (msg_id msg) 0) m of (r, m) \<Rightarrow> (if r < 0 then Fail (Errno r) else Reply v, m))"

definition authorised :: "verdict \<times> manager \<Rightarrow> (manager \<Rightarrow> 'a reply \<times> manager) \<Rightarrow> 'a reply \<times> manager" where
  "authorised v k =
     (case v of (Refused e, m) \<Rightarrow> (Fail e, m) | (Pending, m) \<Rightarrow> (Wait, m) | (Allowed, m) \<Rightarrow> k m)"

text \<open>The usual end: an error of the operation is returned, success is replied.\<close>

definition finish :: "bus_message \<Rightarrow> int \<times> manager \<Rightarrow> unit reply \<times> manager" where
  "finish msg rm = (case rm of (r, m) \<Rightarrow> if r < 0 then (Fail (Errno r), m) else reply_return msg () m)"

definition found :: "bus_error + 'b \<Rightarrow> manager \<Rightarrow> ('b \<Rightarrow> 'a reply \<times> manager) \<Rightarrow> 'a reply \<times> manager" where
  "found x m k = (case x of Inl e \<Rightarrow> (Fail e, m) | Inr y \<Rightarrow> k y)"

lemma authorised_cong [fundef_cong, cong]:
  "v = v' \<Longrightarrow> (\<And>m. v' = (Allowed, m) \<Longrightarrow> k m = k' m) \<Longrightarrow> authorised v k = authorised v' k'"
  by (auto simp: authorised_def split: prod.split verdict.split)

abbreviation SD_BUS_ERROR_INVALID_ARGS :: bus_error where
  "SD_BUS_ERROR_INVALID_ARGS \<equiv> Bus_error ''org.freedesktop.DBus.Error.InvalidArgs''"
abbreviation SD_BUS_ERROR_ACCESS_DENIED :: bus_error where
  "SD_BUS_ERROR_ACCESS_DENIED \<equiv> Bus_error ''org.freedesktop.DBus.Error.AccessDenied''"
abbreviation SD_BUS_ERROR_NOT_SUPPORTED :: bus_error where
  "SD_BUS_ERROR_NOT_SUPPORTED \<equiv> Bus_error ''org.freedesktop.DBus.Error.NotSupported''"
abbreviation SD_BUS_ERROR_LIMITS_EXCEEDED :: bus_error where
  "SD_BUS_ERROR_LIMITS_EXCEEDED \<equiv> Bus_error ''org.freedesktop.DBus.Error.LimitsExceeded''"
abbreviation SD_BUS_ERROR_AUTH_FAILED :: bus_error where
  "SD_BUS_ERROR_AUTH_FAILED \<equiv> Bus_error ''org.freedesktop.DBus.Error.AuthFailed''"
abbreviation BUS_ERROR_NO_SUCH_SESSION :: bus_error where
  "BUS_ERROR_NO_SUCH_SESSION \<equiv> Bus_error ''org.freedesktop.login1.NoSuchSession''"
abbreviation BUS_ERROR_NO_SESSION_FOR_PID :: bus_error where
  "BUS_ERROR_NO_SESSION_FOR_PID \<equiv> Bus_error ''org.freedesktop.login1.NoSessionForPID''"
abbreviation BUS_ERROR_NO_SUCH_USER :: bus_error where
  "BUS_ERROR_NO_SUCH_USER \<equiv> Bus_error ''org.freedesktop.login1.NoSuchUser''"
abbreviation BUS_ERROR_NO_USER_FOR_PID :: bus_error where
  "BUS_ERROR_NO_USER_FOR_PID \<equiv> Bus_error ''org.freedesktop.login1.NoUserForPID''"
abbreviation BUS_ERROR_NO_SUCH_SEAT :: bus_error where
  "BUS_ERROR_NO_SUCH_SEAT \<equiv> Bus_error ''org.freedesktop.login1.NoSuchSeat''"
abbreviation BUS_ERROR_SESSION_NOT_ON_SEAT :: bus_error where
  "BUS_ERROR_SESSION_NOT_ON_SEAT \<equiv> Bus_error ''org.freedesktop.login1.SessionNotOnSeat''"
abbreviation BUS_ERROR_NOT_IN_CONTROL :: bus_error where
  "BUS_ERROR_NOT_IN_CONTROL \<equiv> Bus_error ''org.freedesktop.login1.NotInControl''"
abbreviation BUS_ERROR_DEVICE_IS_TAKEN :: bus_error where
  "BUS_ERROR_DEVICE_IS_TAKEN \<equiv> Bus_error ''org.freedesktop.login1.DeviceIsTaken''"
abbreviation BUS_ERROR_DEVICE_NOT_TAKEN :: bus_error where
  "BUS_ERROR_DEVICE_NOT_TAKEN \<equiv> Bus_error ''org.freedesktop.login1.DeviceNotTaken''"
abbreviation BUS_ERROR_OPERATION_IN_PROGRESS :: bus_error where
  "BUS_ERROR_OPERATION_IN_PROGRESS \<equiv> Bus_error ''org.freedesktop.login1.OperationInProgress''"
abbreviation BUS_ERROR_SLEEP_VERB_NOT_SUPPORTED :: bus_error where
  "BUS_ERROR_SLEEP_VERB_NOT_SUPPORTED \<equiv> Bus_error ''org.freedesktop.login1.SleepVerbNotSupported''"
abbreviation BUS_ERROR_SESSION_BUSY :: bus_error where
  "BUS_ERROR_SESSION_BUSY \<equiv> Bus_error ''org.freedesktop.login1.SessionBusy''"
abbreviation BUS_ERROR_NOT_YOUR_DEVICE :: bus_error where
  "BUS_ERROR_NOT_YOUR_DEVICE \<equiv> Bus_error ''org.freedesktop.login1.NotYourDevice''"
abbreviation BUS_ERROR_DESIGNATED_MAINTENANCE_TIME_NOT_SCHEDULED :: bus_error where
  "BUS_ERROR_DESIGNATED_MAINTENANCE_TIME_NOT_SCHEDULED \<equiv>
     Bus_error ''org.freedesktop.login1.DesignatedMaintenanceTimeNotScheduled''"

subsection \<open>Finding the object\<close>

definition SESSION_IS_SELF :: "string \<Rightarrow> bool" where
  "SESSION_IS_SELF name \<longleftrightarrow> name = [] \<or> name = ''self''"

definition SESSION_IS_AUTO :: "string \<Rightarrow> bool" where
  "SESSION_IS_AUTO name \<longleftrightarrow> name = ''auto''"

definition get_sender_session :: "manager \<Rightarrow> bus_message \<Rightarrow> bool \<Rightarrow> bus_error + string" where
  "get_sender_session m msg consult_display =
     (let r = msg_query_creds msg ([CREDS_SESSION, CREDS_AUGMENT] @ (if consult_display then [CREDS_OWNER_UID] else []))
      in if r < 0 then Inl (Errno r)
         else case msg_session msg of
                Inr name \<Rightarrow> if name \<in> set (m_sessions m) then Inr name else Inl BUS_ERROR_NO_SESSION_FOR_PID
              | Inl r \<Rightarrow>
                  if r \<noteq> - ENXIO then Inl (Errno r)
                  else if \<not> consult_display then Inl BUS_ERROR_NO_SESSION_FOR_PID
                  else case msg_owner_uid msg of
                         Inl r \<Rightarrow> Inl (if r \<noteq> - ENXIO then Errno r else BUS_ERROR_NO_SESSION_FOR_PID)
                       | Inr u \<Rightarrow> (case (if u \<in> set (m_users m) then u_display (usr m u) else None) of
                                    None \<Rightarrow> Inl BUS_ERROR_NO_SESSION_FOR_PID | Some s \<Rightarrow> Inr s))"

definition manager_get_session_from_creds :: "manager \<Rightarrow> bus_message \<Rightarrow> string \<Rightarrow> bus_error + string" where
  "manager_get_session_from_creds m msg name =
     (if SESSION_IS_SELF name then get_sender_session m msg False
      else if SESSION_IS_AUTO name then get_sender_session m msg True
      else if name \<in> set (m_sessions m) then Inr name
      else Inl BUS_ERROR_NO_SUCH_SESSION)"

definition get_sender_user :: "manager \<Rightarrow> bus_message \<Rightarrow> bus_error + uid" where
  "get_sender_user m msg =
     (let r = msg_query_creds msg [CREDS_OWNER_UID, CREDS_AUGMENT]
      in if r < 0 then Inl (Errno r)
         else case msg_owner_uid msg of
                Inl r \<Rightarrow> Inl (if r \<noteq> - ENXIO then Errno r else BUS_ERROR_NO_USER_FOR_PID)
              | Inr u \<Rightarrow> if u \<in> set (m_users m) then Inr u else Inl BUS_ERROR_NO_USER_FOR_PID)"

definition manager_get_user_from_creds :: "manager \<Rightarrow> bus_message \<Rightarrow> uid \<Rightarrow> bus_error + uid" where
  "manager_get_user_from_creds m msg u =
     (if \<not> uid_is_valid u then get_sender_user m msg
      else if u \<in> set (m_users m) then Inr u
      else Inl BUS_ERROR_NO_SUCH_USER)"

text \<open>The special names of seats are those of sessions.\<close>

definition manager_get_seat_from_creds :: "manager \<Rightarrow> bus_message \<Rightarrow> string \<Rightarrow> bus_error + string" where
  "manager_get_seat_from_creds m msg name =
     (if SESSION_IS_SELF name \<or> SESSION_IS_AUTO name then
        (case manager_get_session_from_creds m msg name of
           Inl e \<Rightarrow> Inl e
         | Inr s \<Rightarrow> (case s_seat (ses m s) of None \<Rightarrow> Inl BUS_ERROR_NO_SUCH_SEAT | Some st \<Rightarrow> Inr st))
      else if name \<in> set (m_seats m) then Inr name
      else Inl BUS_ERROR_NO_SUCH_SEAT)"

subsection \<open>Methods of sessions\<close>

text \<open>The owner of a session is read through its user.\<close>

definition session_owner_verify :: "bus_message \<Rightarrow> string \<Rightarrow> string \<Rightarrow> manager \<Rightarrow> verdict \<times> manager" where
  "session_owner_verify msg action s m =
     bus_verify_polkit_async_full msg (action, []) (session_uid s m) {} (assert_that (has_user s m) m)"

definition bus_session_method_terminate :: "bus_message \<Rightarrow> string \<Rightarrow> manager \<Rightarrow> unit reply \<times> manager" where
  "bus_session_method_terminate msg s m =
     authorised (session_owner_verify msg ''org.freedesktop.login1.manage'' s m)
       (\<lambda>m. finish msg (session_stop s True m))"

definition bus_session_method_activate :: "bus_message \<Rightarrow> string \<Rightarrow> manager \<Rightarrow> unit reply \<times> manager" where
  "bus_session_method_activate msg s m =
     authorised (check_polkit_chvt msg m) (\<lambda>m. finish msg (session_activate s m))"

text \<open>The name of the member says which way: \<open>lock\<close> is whether it contains \<^verbatim>\<open>Lock\<close>.\<close>

definition bus_session_method_lock :: "bus_message \<Rightarrow> string \<Rightarrow> bool \<Rightarrow> manager \<Rightarrow> unit reply \<times> manager" where
  "bus_session_method_lock msg s lock m =
     authorised (session_owner_verify msg ''org.freedesktop.login1.lock-sessions'' s m)
       (\<lambda>m. case session_send_lock s lock m of (r, m) \<Rightarrow>
          if r = - ENOTTY then (Fail SD_BUS_ERROR_NOT_SUPPORTED, m) else finish msg (r, m))"

text \<open>The effective user of the sender has to be root or the owner.\<close>

definition only_owner :: "bus_message \<Rightarrow> string \<Rightarrow> manager \<Rightarrow> (manager \<Rightarrow> 'a reply \<times> manager) \<Rightarrow> 'a reply \<times> manager" where
  "only_owner msg s m k =
     (case sender_euid msg of
        Inl r \<Rightarrow> (Fail (Errno r), m)
      | Inr u \<Rightarrow>
          if u = 0 then k m
          else let m = assert_that (has_user s m) m
               in if u \<noteq> session_uid s m then (Fail SD_BUS_ERROR_ACCESS_DENIED, m) else k m)"

definition method_set_idle_hint :: "bus_message \<Rightarrow> string \<Rightarrow> bool \<Rightarrow> manager \<Rightarrow> unit reply \<times> manager" where
  "method_set_idle_hint msg s b m =
     only_owner msg s m (\<lambda>m.
       case session_set_idle_hint s b m of (r, m) \<Rightarrow>
       if r = - ENOTTY then (Fail SD_BUS_ERROR_NOT_SUPPORTED, m) else finish msg (r, m))"

definition method_set_locked_hint :: "bus_message \<Rightarrow> string \<Rightarrow> bool \<Rightarrow> manager \<Rightarrow> unit reply \<times> manager" where
  "method_set_locked_hint msg s b m =
     only_owner msg s m (\<lambda>m.
       case session_set_locked_hint s b m of (r, m) \<Rightarrow>
       if r = - ENOTTY then (Fail SD_BUS_ERROR_NOT_SUPPORTED, m) else finish msg (r, m))"

definition SIGNAL_VALID :: "int \<Rightarrow> bool" where
  "SIGNAL_VALID signo \<longleftrightarrow> signo > 0 \<and> signo < 65"

definition kill_whom_from_string :: "string \<Rightarrow> KillWhom option" where
  "kill_whom_from_string s = string_table_lookup kill_whom_table (Some s)"

definition bus_session_method_kill :: "bus_message \<Rightarrow> string \<Rightarrow> string \<Rightarrow> int \<Rightarrow> manager \<Rightarrow> unit reply \<times> manager" where
  "bus_session_method_kill msg s swhom signo m =
     (case (if swhom = [] then Some KILL_ALL else kill_whom_from_string swhom) of
        None \<Rightarrow> (Fail SD_BUS_ERROR_INVALID_ARGS, m)
      | Some whom \<Rightarrow>
          if \<not> SIGNAL_VALID signo then (Fail SD_BUS_ERROR_INVALID_ARGS, m)
          else authorised (session_owner_verify msg ''org.freedesktop.login1.manage'' s m)
                 (\<lambda>m. finish msg (session_kill s whom signo m)))"

definition method_take_control :: "bus_message \<Rightarrow> string \<Rightarrow> bool \<Rightarrow> manager \<Rightarrow> unit reply \<times> manager" where
  "method_take_control msg s force m =
     (case sender_euid msg of
        Inl r \<Rightarrow> (Fail (Errno r), m)
      | Inr u \<Rightarrow>
          let m = (if u \<noteq> 0 \<and> \<not> force then assert_that (has_user s m) m else m)
          in if u \<noteq> 0 \<and> (force \<or> u \<noteq> session_uid s m) then (Fail SD_BUS_ERROR_ACCESS_DENIED, m)
             else case msg_sender msg of
                    None \<Rightarrow> (Fail (Errno (- EINVAL)), assert_that False m)
                  | Some sender \<Rightarrow> finish msg (session_set_controller s sender force True m))"

text \<open>A sender without a name is the controller of a session without one, as \<^verbatim>\<open>streq_ptr\<close> compares them.\<close>

definition in_control :: "bus_message \<Rightarrow> string \<Rightarrow> manager \<Rightarrow> bool" where
  "in_control msg s m \<longleftrightarrow> s_controller (ses m s) = msg_sender msg"

definition method_release_control :: "bus_message \<Rightarrow> string \<Rightarrow> manager \<Rightarrow> unit reply \<times> manager" where
  "method_release_control msg s m =
     (if \<not> in_control msg s m then (Fail BUS_ERROR_NOT_IN_CONTROL, m)
      else reply_return msg () (session_drop_controller s m))"

definition method_set_type :: "bus_message \<Rightarrow> string \<Rightarrow> string \<Rightarrow> manager \<Rightarrow> unit reply \<times> manager" where
  "method_set_type msg s t m =
     (case session_type_from_string (Some t) of
        None \<Rightarrow> (Fail SD_BUS_ERROR_INVALID_ARGS, m)
      | Some type \<Rightarrow>
          if \<not> SESSION_CLASS_CAN_CHANGE_TYPE (s_class (ses m s)) then (Fail SD_BUS_ERROR_NOT_SUPPORTED, m)
          else if \<not> in_control msg s m then (Fail BUS_ERROR_NOT_IN_CONTROL, m)
          else reply_return msg () (session_set_type s type m))"

text \<open>The reply is sent at once, and not by way of a job.\<close>

definition session_send_upgrade_reply :: "nat \<Rightarrow> string \<Rightarrow> manager \<Rightarrow> int \<times> manager" where
  "session_send_upgrade_reply msg s m =
     (if \<not> s_upgrade_message (ses m s) then (0, m)
      else sys (Sys_reply msg 0) (snd (session_save s (upd_ses s (s_upgrade_message_update (\<lambda>_. False)) m))))"

definition method_set_class :: "bus_message \<Rightarrow> string \<Rightarrow> string \<Rightarrow> manager \<Rightarrow> unit reply \<times> manager" where
  "method_set_class msg s c m =
     (if session_class_from_string (Some c) \<noteq> Some SESSION_USER then (Fail SD_BUS_ERROR_INVALID_ARGS, m)
      else if s_class (ses m s) = SESSION_USER then reply_return msg () m
      else if s_class (ses m s) \<noteq> SESSION_USER_INCOMPLETE then (Fail SD_BUS_ERROR_INVALID_ARGS, m)
      else if s_upgrade_message (ses m s) then (Fail SD_BUS_ERROR_INVALID_ARGS, m)
      else only_owner msg s m (\<lambda>m.
        let m = session_set_class s SESSION_USER m;
            m = upd_ses s (s_upgrade_message_update (\<lambda>_. True)) m
        in case session_send_upgrade_reply (msg_id msg) s m of (r, m) \<Rightarrow> (if r < 0 then Fail (Errno r) else Reply (), m)))"

definition method_set_display :: "bus_message \<Rightarrow> string \<Rightarrow> string \<Rightarrow> manager \<Rightarrow> unit reply \<times> manager" where
  "method_set_display msg s display m =
     (if \<not> in_control msg s m then (Fail BUS_ERROR_NOT_IN_CONTROL, m)
      else if \<not> SESSION_TYPE_IS_GRAPHICAL (s_type (ses m s)) then (Fail SD_BUS_ERROR_NOT_SUPPORTED, m)
      else finish msg (session_set_display s display m))"

text \<open>\<open>Ask_open_flags\<close> answers with the flags of an open file, of which the access mode is the last two bits and
  \<^verbatim>\<open>O_PATH\<close> is bit 21.\<close>

definition method_set_tty :: "bus_message \<Rightarrow> string \<Rightarrow> int \<Rightarrow> manager \<Rightarrow> unit reply \<times> manager" where
  "method_set_tty msg s fd m =
     (if \<not> in_control msg s m then (Fail BUS_ERROR_NOT_IN_CONTROL, m)
      else
      let m = assert_that (fd \<ge> 0) m;
          flags = ask (Ask_open_flags fd) m
      in if flags < 0 then (Fail (Errno flags), m)
         else if flags mod 4 \<noteq> 2 then (Fail (Errno (- EACCES)), m)
         else if odd (flags div 2 ^ 21) then (Fail (Errno (- ENOTTY)), m)
         else case w_ttyname (m_world m) fd of
                Inl r \<Rightarrow> (Fail (Errno r), m)
              | Inr q \<Rightarrow> finish msg (session_set_tty s q m))"

definition devnum_valid :: "devt \<Rightarrow> bool" where
  "devnum_valid n \<longleftrightarrow> fst n < 2 ^ 12 \<and> snd n < 2 ^ 20"

text \<open>The variable that holds the device frees it on every return before the last: also the one that a second
  call for the same device finds.\<close>

definition method_take_device :: "bus_message \<Rightarrow> string \<Rightarrow> devt \<Rightarrow> manager \<Rightarrow> (int \<times> bool) reply \<times> manager" where
  "method_take_device msg s n m =
     (if \<not> devnum_valid n then (Fail SD_BUS_ERROR_INVALID_ARGS, m)
      else if \<not> SESSION_CLASS_CAN_TAKE_DEVICE (s_class (ses m s)) then (Fail SD_BUS_ERROR_NOT_SUPPORTED, m)
      else if \<not> in_control msg s m then (Fail BUS_ERROR_NOT_IN_CONTROL, m)
      else if n \<in> set (s_devices (ses m s)) then (Fail BUS_ERROR_DEVICE_IS_TAKEN, session_device_free (s, n) m)
      else case session_device_new s n True m of (r, m) \<Rightarrow> if r < 0 then (Fail (Errno r), m) else
           case session_device_save (s, n) m of (r, m) \<Rightarrow> if r < 0 then (Fail (Errno r), session_device_free (s, n) m) else
           case sys (Sys_reply (msg_id msg) 0) m of (r, m) \<Rightarrow>
           if r < 0 then (Fail (Errno r), session_device_free (s, n) m)
           else (Reply (sd_fd (sdv m (s, n)), \<not> sd_active (sdv m (s, n))), snd (session_save s m)))"

definition method_release_device :: "bus_message \<Rightarrow> string \<Rightarrow> devt \<Rightarrow> manager \<Rightarrow> unit reply \<times> manager" where
  "method_release_device msg s n m =
     (if \<not> devnum_valid n then (Fail SD_BUS_ERROR_INVALID_ARGS, m)
      else if \<not> in_control msg s m then (Fail BUS_ERROR_NOT_IN_CONTROL, m)
      else if n \<notin> set (s_devices (ses m s)) then (Fail BUS_ERROR_DEVICE_NOT_TAKEN, m)
      else reply_return msg () (snd (session_save s (session_device_free (s, n) m))))"

definition method_pause_device_complete :: "bus_message \<Rightarrow> string \<Rightarrow> devt \<Rightarrow> manager \<Rightarrow> unit reply \<times> manager" where
  "method_pause_device_complete msg s n m =
     (if \<not> devnum_valid n then (Fail SD_BUS_ERROR_INVALID_ARGS, m)
      else if \<not> in_control msg s m then (Fail BUS_ERROR_NOT_IN_CONTROL, m)
      else if n \<notin> set (s_devices (ses m s)) then (Fail BUS_ERROR_DEVICE_NOT_TAKEN, m)
      else reply_return msg () (session_device_complete_pause (s, n) m))"

text \<open>The reply comes when the brightness has been written.\<close>

definition method_set_brightness :: "bus_message \<Rightarrow> string \<Rightarrow> string \<Rightarrow> string \<Rightarrow> nat \<Rightarrow> manager \<Rightarrow> unit reply \<times> manager" where
  "method_set_brightness msg s subsystem name brightness m =
     (if subsystem \<notin> {''backlight'', ''leds''} then (Fail SD_BUS_ERROR_NOT_SUPPORTED, m)
      else if \<not> filename_is_valid name then (Fail SD_BUS_ERROR_INVALID_ARGS, m)
      else case s_seat (ses m s) of
             None \<Rightarrow> (Fail BUS_ERROR_NOT_YOUR_DEVICE, m)
           | Some st \<Rightarrow>
               if st_active (sts m st) \<noteq> Some s then (Fail BUS_ERROR_NOT_YOUR_DEVICE, m)
               else only_owner msg s m (\<lambda>m.
                 case w_udev_by_sysname (m_world m) subsystem name of
                   Inl r \<Rightarrow> (Fail (Errno r), m)
                 | Inr d \<Rightarrow>
                     if ud_id_seat d \<noteq> None \<and> ud_id_seat d \<noteq> Some st then (Fail BUS_ERROR_NOT_YOUR_DEVICE, m)
                     else case manager_write_brightness d brightness (Some (msg_id msg, msg_expect_reply msg)) m of (r, m) \<Rightarrow>
                       if r < 0 then (Fail (Errno r), m) else (Later, m)))"

subsection \<open>Methods of seats\<close>

definition bus_seat_method_terminate :: "bus_message \<Rightarrow> string \<Rightarrow> manager \<Rightarrow> unit reply \<times> manager" where
  "bus_seat_method_terminate msg st m =
     authorised (bus_verify_polkit_async msg ''org.freedesktop.login1.manage'' m)
       (\<lambda>m. finish msg (seat_stop_sessions st True m))"

definition seat_method_activate_session :: "bus_message \<Rightarrow> string \<Rightarrow> string \<Rightarrow> manager \<Rightarrow> unit reply \<times> manager" where
  "seat_method_activate_session msg st name m =
     (if name \<notin> set (m_sessions m) then (Fail BUS_ERROR_NO_SUCH_SESSION, m)
      else if s_seat (ses m name) \<noteq> Some st then (Fail BUS_ERROR_SESSION_NOT_ON_SEAT, m)
      else authorised (check_polkit_chvt msg m) (\<lambda>m. finish msg (session_activate name m)))"

definition method_switch_to :: "bus_message \<Rightarrow> string \<Rightarrow> nat \<Rightarrow> manager \<Rightarrow> unit reply \<times> manager" where
  "method_switch_to msg st num m =
     (if num = 0 then (Fail SD_BUS_ERROR_INVALID_ARGS, m)
      else authorised (check_polkit_chvt msg m) (\<lambda>m. finish msg (seat_switch_to st num m)))"

definition method_switch_to_next :: "bus_message \<Rightarrow> string \<Rightarrow> manager \<Rightarrow> unit reply \<times> manager" where
  "method_switch_to_next msg st m =
     authorised (check_polkit_chvt msg m) (\<lambda>m. finish msg (seat_switch_to_next st m))"

definition method_switch_to_previous :: "bus_message \<Rightarrow> string \<Rightarrow> manager \<Rightarrow> unit reply \<times> manager" where
  "method_switch_to_previous msg st m =
     authorised (check_polkit_chvt msg m) (\<lambda>m. finish msg (seat_switch_to_previous st m))"

subsection \<open>Methods of users\<close>

definition bus_user_method_terminate :: "bus_message \<Rightarrow> uid \<Rightarrow> manager \<Rightarrow> unit reply \<times> manager" where
  "bus_user_method_terminate msg u m =
     authorised (bus_verify_polkit_async_full msg (''org.freedesktop.login1.manage'', []) u {} m)
       (\<lambda>m. finish msg (user_stop u True m))"

definition bus_user_method_kill :: "bus_message \<Rightarrow> uid \<Rightarrow> int \<Rightarrow> manager \<Rightarrow> unit reply \<times> manager" where
  "bus_user_method_kill msg u signo m =
     authorised (bus_verify_polkit_async_full msg (''org.freedesktop.login1.manage'', []) u {} m)
       (\<lambda>m. if \<not> SIGNAL_VALID signo then (Fail SD_BUS_ERROR_INVALID_ARGS, m)
            else finish msg (user_kill u signo m))"

end
