(* ===== verification/Bus_Manager.thy ===== *)
theory Bus_Manager
  imports Bus
begin

text \<open>
  The methods of the manager on the bus that change something (\<^verbatim>\<open>logind-dbus.c\<close>): creating and releasing
  sessions, lingering, devices of seats, power operations and their schedule, wall messages, and inhibitors.
\<close>

subsection \<open>Counters that name things\<close>

text \<open>The loop that counts up to a name that is not taken. The counter has 64 bits; the table has one entry less
  than the fuel, so that a free name is found (\<open>next_counter_free\<close> below).\<close>

fun next_counter :: "(nat \<Rightarrow> string) \<Rightarrow> string list \<Rightarrow> nat \<Rightarrow> nat \<Rightarrow> nat" where
  "next_counter name l 0 n = n"
| "next_counter name l (Suc fuel) n =
     (let n = (n + 1) mod 2 ^ 64 in if name n \<in> set l then next_counter name l fuel n else n)"

definition session_counter_name :: "nat \<Rightarrow> string" where
  "session_counter_name n = ''c'' @ dec n"

subsection \<open>Creating a session\<close>

record create_args =
  ca_uid :: uid
  ca_leader_pid :: int
  ca_leader_pidfd :: int
  ca_service :: string
  ca_type :: string
  ca_class :: string
  ca_desktop :: string
  ca_seat :: string
  ca_vtnr :: nat
  ca_tty :: string
  ca_display :: string
  ca_remote :: bool
  ca_remote_user :: string
  ca_remote_host :: string
  ca_flags :: nat

definition bus_query_sender_pidref :: "bus_message \<Rightarrow> int + pidref" where
  "bus_query_sender_pidref msg =
     (if msg_query_creds msg [CREDS_PID, CREDS_PIDFD] < 0 then Inl (msg_query_creds msg [CREDS_PID, CREDS_PIDFD])
      else msg_pidref msg)"

definition pidref_set_pidfd :: "int \<Rightarrow> manager \<Rightarrow> (int + pidref) \<times> manager" where
  "pidref_set_pidfd fd m =
     (if fd < 0 then (Inl (- EBADF), m)
      else case sys (Sys_ioctl fd ''F_DUPFD_CLOEXEC'') m of (copy, m) \<Rightarrow>
        if copy < 0 then
          (if \<not> ERRNO_IS_NEG_RESOURCE copy then (Inl copy, m)
           else let p = pidfd_get_pid fd m
                in (if p < 0 then Inl p else Inr \<lparr>pid_pid = nat p, pid_fd = - EBADF, pid_fd_id = None\<rparr>, m))
        else
        let p = pidfd_get_pid copy m;
            i = ask (Ask_pidfd_id copy) m
        in if p < 0 then (Inl p, safe_close copy m)
           else (Inr \<lparr>pid_pid = nat p, pid_fd = copy, pid_fd_id = (if i < 0 then None else Some (nat i))\<rparr>, m))"

text \<open>The leader: by its file descriptor, the sender, or its number.\<close>

definition create_session_leader :: "bus_message \<Rightarrow> create_args \<Rightarrow> manager \<Rightarrow> (bus_error + pidref) \<times> manager" where
  "create_session_leader msg a m =
     (let res = (\<lambda>x. case x of Inl r \<Rightarrow> Inl (Errno r) | Inr p \<Rightarrow> Inr p)
      in if ca_leader_pidfd a \<ge> 0 then (case pidref_set_pidfd (ca_leader_pidfd a) m of (x, m) \<Rightarrow> (res x, m))
         else if ca_leader_pid a = 0 then (res (bus_query_sender_pidref msg), m)
         else if ca_leader_pid a < 0 then (Inl SD_BUS_ERROR_INVALID_ARGS, m)
         else case pidref_set_pid PIDREF_NULL (nat (ca_leader_pid a)) m of (r, p, m) \<Rightarrow>
           (if r < 0 then Inl (Errno r) else Inr p, m))"

text \<open>An argument that may be empty: the empty string is the default.\<close>

definition parse_or :: "(string option \<Rightarrow> 'e option) \<Rightarrow> string \<Rightarrow> bus_error + 'e option" where
  "parse_or from_string s =
     (if s = [] then Inr None
      else case from_string (Some s) of None \<Rightarrow> Inl SD_BUS_ERROR_INVALID_ARGS | Some e \<Rightarrow> Inr (Some e))"

text \<open>The seat and the number of the virtual terminal.\<close>

definition create_session_vt :: "create_args \<Rightarrow> string option \<Rightarrow> manager \<Rightarrow> bus_error + string option \<times> nat" where
  "create_session_vt a seat m =
     (let on_seat0 = (seat = None \<or> seat = m_seat0 m)
      in case vtnr_from_tty (ca_tty a) of
           Inr v \<Rightarrow>
             if \<not> on_seat0 then Inl SD_BUS_ERROR_INVALID_ARGS
             else if v = 0 then Inl SD_BUS_ERROR_INVALID_ARGS
             else if ca_vtnr a = 0 then Inr (m_seat0 m, v)
             else if ca_vtnr a \<noteq> v then Inl SD_BUS_ERROR_INVALID_ARGS
             else Inr (m_seat0 m, ca_vtnr a)
         | Inl _ \<Rightarrow>
             if tty_is_console (ca_tty a) then
               (if \<not> on_seat0 then Inl SD_BUS_ERROR_INVALID_ARGS
                else if ca_vtnr a \<noteq> 0 then Inl SD_BUS_ERROR_INVALID_ARGS
                else Inr (m_seat0 m, 0))
             else Inr (seat, ca_vtnr a))"

definition create_session_place :: "create_args \<Rightarrow> manager \<Rightarrow> bus_error + string option \<times> nat" where
  "create_session_place a m =
     (if ca_seat a \<noteq> [] \<and> ca_seat a \<notin> set (m_seats m) then Inl BUS_ERROR_NO_SUCH_SEAT
      else case create_session_vt a (if ca_seat a = [] then None else Some (ca_seat a)) m of
             Inl e \<Rightarrow> Inl e
           | Inr (None, vtnr) \<Rightarrow> Inr (None, vtnr)
           | Inr (Some st, vtnr) \<Rightarrow>
               if seat_has_vts st m then
                 (if vtnr = 0 \<or> vtnr > 63 then Inl SD_BUS_ERROR_INVALID_ARGS else Inr (Some st, vtnr))
               else if vtnr \<noteq> 0 then Inl SD_BUS_ERROR_INVALID_ARGS
               else Inr (Some st, vtnr))"

definition create_session_type :: "create_args \<Rightarrow> SessionType option \<Rightarrow> SessionType" where
  "create_session_type a t =
     (case t of Some t \<Rightarrow> t
      | None \<Rightarrow> if ca_display a \<noteq> [] then SESSION_X11 else if ca_tty a \<noteq> [] then SESSION_TTY else SESSION_UNSPECIFIED)"

definition create_session_class :: "SessionType \<Rightarrow> SessionClass option \<Rightarrow> SessionClass" where
  "create_session_class t c =
     (case c of Some c \<Rightarrow> c | None \<Rightarrow> if t = SESSION_UNSPECIFIED then SESSION_BACKGROUND else SESSION_USER)"

text \<open>The checks of the arguments, after that of the leader: type, class, seat and virtual terminal.\<close>

definition create_session_check ::
  "create_args \<Rightarrow> manager \<Rightarrow> bus_error + SessionType \<times> SessionClass \<times> string option \<times> nat" where
  "create_session_check a m =
     (case parse_or session_type_from_string (ca_type a) of Inl e \<Rightarrow> Inl e | Inr t \<Rightarrow>
      case parse_or session_class_from_string (ca_class a) of Inl e \<Rightarrow> Inl e | Inr c \<Rightarrow>
      if ca_desktop a \<noteq> [] \<and> \<not> string_is_safe (ca_desktop a) then Inl SD_BUS_ERROR_INVALID_ARGS else
      case create_session_place a m of Inl e \<Rightarrow> Inl e | Inr (seat, vtnr) \<Rightarrow>
      let t = create_session_type a t
      in Inr (t, create_session_class t c, seat, vtnr))"

text \<open>Whether the terminal is taken by a session that is no greeter; the manager looks at \<^verbatim>\<open>seat0\<close> without asking
  whether there is one.\<close>

definition vt_occupied :: "SessionClass \<Rightarrow> nat \<Rightarrow> manager \<Rightarrow> bool" where
  "vt_occupied c vtnr m \<longleftrightarrow>
     c \<noteq> SESSION_GREETER \<and> vtnr > 0 \<and>
     (case m_seat0 m of None \<Rightarrow> False
      | Some st \<Rightarrow> vtnr < length (st_positions (sts m st)) \<and>
          (case st_positions (sts m st) ! vtnr of None \<Rightarrow> False | Some x \<Rightarrow> s_class (ses m x) \<noteq> SESSION_GREETER))"

definition vt_seat0_known :: "SessionClass \<Rightarrow> nat \<Rightarrow> manager \<Rightarrow> bool" where
  "vt_seat0_known c vtnr m \<longleftrightarrow> c = SESSION_GREETER \<or> vtnr = 0 \<or> m_seat0 m \<noteq> None"

abbreviation ENODATA :: int where "ENODATA \<equiv> 61"

definition audit_session_from_pid :: "pidref \<Rightarrow> manager \<Rightarrow> int + nat" where
  "audit_session_from_pid p m =
     (let u = ask (Ask_audit (pid_pid p)) m
      in if u < 0 then Inl u else if \<not> audit_session_is_valid (nat u) then Inl (- ENODATA) else Inr (nat u))"

definition audit_session_id_is_inherited_from_parent :: "pidref \<Rightarrow> nat \<Rightarrow> manager \<Rightarrow> int \<times> manager" where
  "audit_session_id_is_inherited_from_parent leader audit_id m =
     (let ppid = ask (Ask_ppid (pid_pid leader)) m
      in if ppid < 0 then (ppid, m)
         else if ppid \<le> 1 \<or> ppid = ask Ask_getpid m then (0, m)
         else case pidref_set_pid PIDREF_NULL (nat ppid) m of (r, parent, m) \<Rightarrow>
           if r < 0 then (r, m)
           else
           let done = safe_close (pid_fd parent) m
           in case audit_session_from_pid parent m of
                Inl r \<Rightarrow> (r, done)
              | Inr parent_audit_id \<Rightarrow>
                  let r = pidref_verify leader m
                  in if r < 0 then (r, done) else (if parent_audit_id = audit_id then 1 else 0, done))"

text \<open>The name: the number of the audit session when it can be trusted and is free, else the counter.\<close>

definition create_session_audit :: "pidref \<Rightarrow> manager \<Rightarrow> nat \<times> manager" where
  "create_session_audit leader m =
     (case audit_session_from_pid leader m of
        Inl _ \<Rightarrow> (0, m)
      | Inr audit_id \<Rightarrow>
          case audit_session_id_is_inherited_from_parent leader audit_id m of (r, m) \<Rightarrow>
          (if r > 0 then AUDIT_SESSION_INVALID else audit_id, m))"

definition create_session_id :: "pidref \<Rightarrow> manager \<Rightarrow> string \<times> manager" where
  "create_session_id leader m =
     (case create_session_audit leader m of (audit_id, m) \<Rightarrow>
        if audit_session_is_valid audit_id \<and> dec audit_id \<notin> set (m_sessions m) then (dec audit_id, m)
        else
        let n = next_counter session_counter_name (m_sessions m) (Suc (length (m_sessions m))) (m_session_counter m)
        in (session_counter_name n, m\<lparr>m_session_counter := n\<rparr>))"

text \<open>The end of a failed attempt.\<close>

definition create_session_fail :: "string option \<Rightarrow> uid option \<Rightarrow> manager \<Rightarrow> manager" where
  "create_session_fail s u m =
     (let m = (case s of None \<Rightarrow> m | Some s \<Rightarrow> session_add_to_gc_queue s m)
      in case u of None \<Rightarrow> m | Some u \<Rightarrow> user_add_to_gc_queue u m)"

definition nonempty :: "string \<Rightarrow> string option \<Rightarrow> string option" where
  "nonempty s old = (if s = [] then old else Some s)"

definition create_session_fields ::
  "create_args \<Rightarrow> SessionType \<Rightarrow> SessionClass \<Rightarrow> nat \<Rightarrow> session \<Rightarrow> session" where
  "create_session_fields a t c vtnr x =
     x\<lparr>s_original_type := t, s_type := t, s_remote := ca_remote a, s_vtnr := vtnr, s_class := c,
       s_tty := nonempty (ca_tty a) (s_tty x),
       s_tty_validity := (if ca_tty a = [] then s_tty_validity x else Some TTY_FROM_PAM),
       s_display := nonempty (ca_display a) (s_display x), s_remote_user := nonempty (ca_remote_user a) (s_remote_user x),
       s_remote_host := nonempty (ca_remote_host a) (s_remote_host x), s_service := nonempty (ca_service a) (s_service x),
       s_desktop := nonempty (ca_desktop a) (s_desktop x)\<rparr>"

text \<open>The reply to the creator: name, user, FIFO, seat and terminal of the session.\<close>

definition session_send_create_reply ::
  "nat \<Rightarrow> string \<Rightarrow> manager \<Rightarrow> (int + string \<times> uid \<times> int \<times> string \<times> nat) \<times> manager" where
  "session_send_create_reply msg s m =
     (let m = upd_ses s (s_create_message_update (\<lambda>_. False)) m
      in case session_create_fifo s m of (fifo, m) \<Rightarrow> if fifo < 0 then (Inl fifo, m) else
         let m = assert_that (has_user s m) (snd (session_save s m));
             m = snd (user_save (session_uid s m) m)
         in case sys (Sys_reply msg 0) m of (r, m) \<Rightarrow>
              (if r < 0 then Inl r
               else Inr (s, session_uid s m, fifo, case s_seat (ses m s) of None \<Rightarrow> [] | Some st \<Rightarrow> st, s_vtnr (ses m s)),
               safe_close fifo m))"

text \<open>From the new session on.\<close>

definition create_session_start ::
  "bus_message \<Rightarrow> create_args \<Rightarrow> pidref \<Rightarrow> SessionType \<Rightarrow> SessionClass \<Rightarrow> string option \<Rightarrow> nat \<Rightarrow> string \<Rightarrow> uid \<Rightarrow> manager \<Rightarrow>
   (string \<times> uid \<times> int \<times> string \<times> nat) reply \<times> manager" where
  "create_session_start msg a leader t c seat vtnr s u m =
     (let fail = create_session_fail (Some s) (Some u);
          m = session_set_user s u m
      in case session_set_leader_consume s leader m of (r, m) \<Rightarrow> if r < 0 then (Fail (Errno r), fail m) else
         let m = upd_ses s (create_session_fields a t c vtnr) m;
             m = (if SESSION_CLASS_PIN_USER c then upd_user u (u_gc_mode_update (\<lambda>_. USER_GC_BY_PIN)) m else m)
         in case (case seat of None \<Rightarrow> (0, m) | Some st \<Rightarrow> seat_attach_session st s m) of (r, m) \<Rightarrow>
            if r < 0 then (Fail (Errno r), fail m) else
            case session_start s m of (r, m) \<Rightarrow> if r < 0 then (Fail (Errno r), fail m) else
            case session_send_create_reply (msg_id msg) s (upd_ses s (s_create_message_update (\<lambda>_. True)) m) of
              (Inl r, m) \<Rightarrow> (Fail (Errno r), m)
            | (Inr x, m) \<Rightarrow> (Reply x, m))"

text \<open>From the name on. A new session has no user; one that had would be left alone.\<close>

definition create_session_add ::
  "bus_message \<Rightarrow> create_args \<Rightarrow> pidref \<Rightarrow> SessionType \<Rightarrow> SessionClass \<Rightarrow> string option \<Rightarrow> nat \<Rightarrow> manager \<Rightarrow>
   (string \<times> uid \<times> int \<times> string \<times> nat) reply \<times> manager" where
  "create_session_add msg a leader t c seat vtnr m =
     (case create_session_id leader m of (s, m) \<Rightarrow>
      let m = manager_reconnect_utmp (assert_that (\<not> SESSION_IS_SELF s \<and> \<not> SESSION_IS_AUTO s) m)
      in case manager_add_user_by_uid (ca_uid a) m of
           (Inl r, m) \<Rightarrow> (Fail (Errno r), create_session_fail None None (safe_close (pid_fd leader) m))
         | (Inr u, m) \<Rightarrow>
             case manager_add_session s m of (r, m) \<Rightarrow>
             if r < 0 then (Fail (Errno r), create_session_fail None (Some u) (safe_close (pid_fd leader) m))
             else if s_user (ses m s) \<noteq> None then (Fail BUS_ERROR_SESSION_BUSY, safe_close (pid_fd leader) m)
             else create_session_start msg a leader t c seat vtnr s u m)"

definition create_session ::
  "bus_message \<Rightarrow> create_args \<Rightarrow> manager \<Rightarrow> (string \<times> uid \<times> int \<times> string \<times> nat) reply \<times> manager" where
  "create_session msg a m =
     (if \<not> uid_is_valid (ca_uid a) then (Fail SD_BUS_ERROR_INVALID_ARGS, m)
      else if ca_flags a \<noteq> 0 then (Fail SD_BUS_ERROR_INVALID_ARGS, m)
      else case create_session_leader msg a m of
             (Inl e, m) \<Rightarrow> (Fail e, m)
           | (Inr leader, m) \<Rightarrow>
               let done = safe_close (pid_fd leader)
               in if pid_pid leader = 1 \<or> int (pid_pid leader) = ask Ask_getpid m
                    then (Fail SD_BUS_ERROR_INVALID_ARGS, done m)
                  else case create_session_check a m of
                    Inl e \<Rightarrow> (Fail e, done m)
                  | Inr (t, c, seat, vtnr) \<Rightarrow>
                      let r = fst (manager_get_session_by_pidref m leader)
                      in if r < 0 then (Fail (Errno r), done m)
                         else if r > 0 then (Fail BUS_ERROR_SESSION_BUSY, done m)
                         else
                         let m = assert_that (vt_seat0_known c vtnr m) m
                         in if vt_occupied c vtnr m then (Fail BUS_ERROR_SESSION_BUSY, done m)
                            else if length (m_sessions m) \<ge> m_sessions_max m then (Fail SD_BUS_ERROR_LIMITS_EXCEEDED, done m)
                            else create_session_add msg a leader t c seat vtnr m)"

subsection \<open>Sessions, users and seats by name\<close>

definition method_release_session :: "bus_message \<Rightarrow> string \<Rightarrow> manager \<Rightarrow> unit reply \<times> manager" where
  "method_release_session msg name m =
     found (manager_get_session_from_creds m msg name) m (\<lambda>s.
     found (get_sender_session m msg False) m (\<lambda>sender.
       if s \<noteq> sender then (Fail SD_BUS_ERROR_ACCESS_DENIED, m) else finish msg (session_release s m)))"

definition method_activate_session :: "bus_message \<Rightarrow> string \<Rightarrow> manager \<Rightarrow> unit reply \<times> manager" where
  "method_activate_session msg name m =
     found (manager_get_session_from_creds m msg name) m (\<lambda>s. bus_session_method_activate msg s m)"

definition method_activate_session_on_seat :: "bus_message \<Rightarrow> string \<Rightarrow> string \<Rightarrow> manager \<Rightarrow> unit reply \<times> manager" where
  "method_activate_session_on_seat msg session_name seat_name m =
     found (manager_get_session_from_creds m msg session_name) m (\<lambda>s.
     found (manager_get_seat_from_creds m msg seat_name) m (\<lambda>st.
       if s_seat (ses m s) \<noteq> Some st then (Fail BUS_ERROR_SESSION_NOT_ON_SEAT, m)
       else authorised (check_polkit_chvt msg m) (\<lambda>m. finish msg (session_activate s m))))"

definition method_lock_session :: "bus_message \<Rightarrow> string \<Rightarrow> bool \<Rightarrow> manager \<Rightarrow> unit reply \<times> manager" where
  "method_lock_session msg name lock m =
     found (manager_get_session_from_creds m msg name) m (\<lambda>s. bus_session_method_lock msg s lock m)"

definition method_lock_sessions :: "bus_message \<Rightarrow> bool \<Rightarrow> manager \<Rightarrow> unit reply \<times> manager" where
  "method_lock_sessions msg lock m =
     authorised (bus_verify_polkit_async msg ''org.freedesktop.login1.lock-sessions'' m)
       (\<lambda>m. finish msg (session_send_lock_all lock m))"

definition method_kill_session :: "bus_message \<Rightarrow> string \<Rightarrow> string \<Rightarrow> int \<Rightarrow> manager \<Rightarrow> unit reply \<times> manager" where
  "method_kill_session msg name swhom signo m =
     found (manager_get_session_from_creds m msg name) m (\<lambda>s. bus_session_method_kill msg s swhom signo m)"

definition method_kill_user :: "bus_message \<Rightarrow> uid \<Rightarrow> int \<Rightarrow> manager \<Rightarrow> unit reply \<times> manager" where
  "method_kill_user msg u signo m =
     found (manager_get_user_from_creds m msg u) m (\<lambda>u. bus_user_method_kill msg u signo m)"

definition method_terminate_session :: "bus_message \<Rightarrow> string \<Rightarrow> manager \<Rightarrow> unit reply \<times> manager" where
  "method_terminate_session msg name m =
     found (manager_get_session_from_creds m msg name) m (\<lambda>s. bus_session_method_terminate msg s m)"

definition method_terminate_user :: "bus_message \<Rightarrow> uid \<Rightarrow> manager \<Rightarrow> unit reply \<times> manager" where
  "method_terminate_user msg u m =
     found (manager_get_user_from_creds m msg u) m (\<lambda>u. bus_user_method_terminate msg u m)"

definition method_terminate_seat :: "bus_message \<Rightarrow> string \<Rightarrow> manager \<Rightarrow> unit reply \<times> manager" where
  "method_terminate_seat msg name m =
     found (manager_get_seat_from_creds m msg name) m (\<lambda>st. bus_seat_method_terminate msg st m)"

text \<open>Lingering: the file is made or removed, and the user started or left to the garbage collector.\<close>

definition set_linger_file :: "string \<Rightarrow> uid \<Rightarrow> bool \<Rightarrow> manager \<Rightarrow> int \<times> manager" where
  "set_linger_file path u enable m =
     (if enable then
        case sys (Sys_write_file path []) m of (r, m) \<Rightarrow> if r < 0 then (r, m) else
        case manager_add_user_by_uid u m of
          (Inl _, m) \<Rightarrow> (0, m)
        | (Inr u, m) \<Rightarrow> (case user_start u m of (r, m) \<Rightarrow> if r < 0 then (r, user_add_to_gc_queue u m) else (0, m))
      else
        case sys (Sys_unlink path) m of (r, m) \<Rightarrow> if r < 0 \<and> r \<noteq> - ENOENT then (r, m) else
        (0, if u \<in> set (m_users m)
            then user_add_to_gc_queue u (upd_user u (u_gc_mode_update (\<lambda>_. USER_GC_BY_PIN)) m) else m))"

definition method_set_user_linger :: "bus_message \<Rightarrow> uid \<Rightarrow> bool \<Rightarrow> bool \<Rightarrow> manager \<Rightarrow> unit reply \<times> manager" where
  "method_set_user_linger msg u enable interactive m =
     (let r = msg_query_creds msg [CREDS_EUID, CREDS_OWNER_UID, CREDS_AUGMENT]
      in if r < 0 then (Fail (Errno r), m)
         else case (if uid_is_valid u then Inr u else msg_owner_uid msg) of
                Inl r \<Rightarrow> (Fail (Errno r), m)
              | Inr u \<Rightarrow>
                  (case msg_euid msg of
                     Inl r \<Rightarrow> (Fail (Errno r), m)
                   | Inr auth_uid \<Rightarrow>
                       (case w_getpwuid (m_world m) u of
                          Inl r \<Rightarrow> (Fail (Errno r), m)
                        | Inr name \<Rightarrow>
                            authorised (bus_verify_polkit_async_full msg
                                (if u = auth_uid then ''org.freedesktop.login1.set-self-linger''
                                 else ''org.freedesktop.login1.set-user-linger'', [])
                                UID_INVALID (if interactive then {POLKIT_ALLOW_INTERACTIVE} else {}) m)
                              (\<lambda>m.
                                let m = emit (Sys_mkdir ''/var/lib/elogind'') m
                                in case sys (Sys_mkdir ''/var/lib/elogind/linger'') m of (r, m) \<Rightarrow>
                                   if r < 0 then (Fail (Errno r), m)
                                   else finish msg (set_linger_file (''/var/lib/elogind/linger/'' @ cescape name) u enable m)))))"

subsection \<open>Devices of seats\<close>

text \<open>\<open>Ask_access\<close> says whether the device is there.\<close>

definition attach_device :: "string \<Rightarrow> string \<Rightarrow> manager \<Rightarrow> int \<times> manager" where
  "attach_device seat sysfs m =
     (let r = ask (Ask_access sysfs) m;
          d = w_udev_by_syspath (m_world m) sysfs
      in if r < 0 then (r, m)
         else if ''seat'' \<notin> set (ud_tags d) then (- ENODEV, m)
         else case ud_id_for_seat d of
                None \<Rightarrow> (- ENODEV, m)
              | Some ident \<Rightarrow>
                  case sys (Sys_write_file (''/etc/udev/rules.d/72-seat-'' @ ident @ ''.rules'')
                         (''TAG=='' @ [DQUOTE] @ ''seat'' @ [DQUOTE] @ '', ENV{ID_FOR_SEAT}=='' @ [DQUOTE] @ ident @ [DQUOTE] @
                          '', ENV{ID_SEAT}='' @ [DQUOTE] @ seat @ [DQUOTE])) m of (r, m) \<Rightarrow>
                  if r < 0 then (r, m) else sys (Sys_trigger_devices (Some sysfs)) m)"

definition flush_devices :: "manager \<Rightarrow> int \<times> manager" where
  "flush_devices m =
     (let m = (case w_dirs (m_world m) ''/etc/udev/rules.d'' of
                 Inl _ \<Rightarrow> m
               | Inr names \<Rightarrow> fold (\<lambda>n. emit (Sys_unlink (''/etc/udev/rules.d/'' @ n)))
                   (filter (\<lambda>n. prefix ''72-seat-'' n \<and> suffix ''.rules'' n) names) m)
      in sys (Sys_trigger_devices None) m)"

definition method_attach_device :: "bus_message \<Rightarrow> string \<Rightarrow> string \<Rightarrow> bool \<Rightarrow> manager \<Rightarrow> unit reply \<times> manager" where
  "method_attach_device msg seat sysfs interactive m =
     (if \<not> path_is_normalized sysfs then (Fail SD_BUS_ERROR_INVALID_ARGS, m)
      else if path_startswith sysfs ''/sys'' = None then (Fail SD_BUS_ERROR_INVALID_ARGS, m)
      else found (if SESSION_IS_SELF seat \<or> SESSION_IS_AUTO seat then manager_get_seat_from_creds m msg seat
                  else if \<not> seat_name_is_valid seat then Inl SD_BUS_ERROR_INVALID_ARGS
                  else Inr seat) m (\<lambda>st.
        authorised (bus_verify_polkit_async_full msg (''org.freedesktop.login1.attach-device'', []) UID_INVALID
            (if interactive then {POLKIT_ALLOW_INTERACTIVE} else {}) m)
          (\<lambda>m. finish msg (attach_device st sysfs m))))"

definition method_flush_devices :: "bus_message \<Rightarrow> bool \<Rightarrow> manager \<Rightarrow> unit reply \<times> manager" where
  "method_flush_devices msg interactive m =
     authorised (bus_verify_polkit_async_full msg (''org.freedesktop.login1.flush-devices'', []) UID_INVALID
         (if interactive then {POLKIT_ALLOW_INTERACTIVE} else {}) m)
       (\<lambda>m. finish msg (flush_devices m))"

text \<open>The parser of the configuration file is a parameter.\<close>

definition method_reload :: "bool \<Rightarrow> (manager \<Rightarrow> int \<times> manager) \<Rightarrow> bus_message \<Rightarrow> manager \<Rightarrow> unit reply \<times> manager" where
  "method_reload kill_user_processes parse_config msg m =
     authorised (bus_verify_polkit_async_full msg (''org.freedesktop.login1.reload'', []) UID_INVALID {} m)
       (\<lambda>m. finish msg (parse_config (manager_reset_config kill_user_processes m)))"

definition method_send_prepare_for_sleep :: "bus_message \<Rightarrow> bool \<Rightarrow> manager \<Rightarrow> unit reply \<times> manager" where
  "method_send_prepare_for_sleep msg active m = finish msg (send_prepare_for HANDLE_SUSPEND active m)"

end
