(* ===== verification/Bus_Power.thy ===== *)
theory Bus_Power
  imports Bus_Manager
begin

text \<open>
  Power operations, their schedule, wall messages and inhibitors as methods of the manager on the bus
  (\<^verbatim>\<open>logind-dbus.c\<close>).
\<close>

subsection \<open>Who may shut down\<close>

text \<open>The names of the actions polkit is asked about: in general, with the sessions of others, and past an
  inhibitor. Actions without names are not for the bus.\<close>

definition handle_action_polkit :: "HandleAction \<Rightarrow> (string \<times> string \<times> string) option" where
  "handle_action_polkit a =
     (let n = (\<lambda>v. Some (''org.freedesktop.login1.'' @ v, ''org.freedesktop.login1.'' @ v @ ''-multiple-sessions'',
                         ''org.freedesktop.login1.'' @ v @ ''-ignore-inhibit''))
      in case a of
           HANDLE_POWEROFF \<Rightarrow> n ''power-off'' | HANDLE_REBOOT \<Rightarrow> n ''reboot'' | HANDLE_HALT \<Rightarrow> n ''halt''
         | HANDLE_KEXEC \<Rightarrow> n ''reboot'' | HANDLE_SUSPEND \<Rightarrow> n ''suspend'' | HANDLE_HIBERNATE \<Rightarrow> n ''hibernate''
         | HANDLE_HYBRID_SLEEP \<Rightarrow> n ''hibernate'' | HANDLE_SUSPEND_THEN_HIBERNATE \<Rightarrow> n ''hibernate''
         | _ \<Rightarrow> None)"

definition polkit_action :: "HandleAction \<Rightarrow> string" where
  "polkit_action a = fst (the (handle_action_polkit a))"

definition polkit_action_multiple_sessions :: "HandleAction \<Rightarrow> string" where
  "polkit_action_multiple_sessions a = fst (snd (the (handle_action_polkit a)))"

definition polkit_action_ignore_inhibit :: "HandleAction \<Rightarrow> string" where
  "polkit_action_ignore_inhibit a = snd (snd (the (handle_action_polkit a)))"

text \<open>Sessions of the classes that count, of other users.\<close>

definition have_multiple_sessions :: "uid \<Rightarrow> manager \<Rightarrow> bool" where
  "have_multiple_sessions u m =
     list_ex (\<lambda>s. s_class (ses m s) \<in> {SESSION_USER, SESSION_USER_EARLY} \<and> session_uid s m \<noteq> u) (m_sessions m)"

text \<open>The flags of the bus interface.\<close>

datatype logind_flag = SD_LOGIND_ROOT_CHECK_INHIBITORS | SD_LOGIND_REBOOT_VIA_KEXEC | SD_LOGIND_SOFT_REBOOT
  | SD_LOGIND_SOFT_REBOOT_IF_NEXTROOT_SET_UP | SD_LOGIND_SKIP_INHIBITORS | SD_LOGIND_INTERACTIVE

definition logind_flag_bit :: "logind_flag \<Rightarrow> nat" where
  "logind_flag_bit f = (case f of SD_LOGIND_ROOT_CHECK_INHIBITORS \<Rightarrow> 0 | SD_LOGIND_REBOOT_VIA_KEXEC \<Rightarrow> 1
     | SD_LOGIND_SOFT_REBOOT \<Rightarrow> 2 | SD_LOGIND_SOFT_REBOOT_IF_NEXTROOT_SET_UP \<Rightarrow> 3
     | SD_LOGIND_SKIP_INHIBITORS \<Rightarrow> 4 | SD_LOGIND_INTERACTIVE \<Rightarrow> 63)"

definition FLAGS_SET :: "u64 \<Rightarrow> logind_flag \<Rightarrow> bool" where
  "FLAGS_SET flags f \<longleftrightarrow> bit flags (logind_flag_bit f)"

definition SD_LOGIND_SHUTDOWN_AND_SLEEP_FLAGS_PUBLIC :: u64 where
  "SD_LOGIND_SHUTDOWN_AND_SLEEP_FLAGS_PUBLIC = 31"

definition interactive_flag :: "u64 \<Rightarrow> PolkitFlag set" where
  "interactive_flag flags = (if FLAGS_SET flags SD_LOGIND_INTERACTIVE then {POLKIT_ALLOW_INTERACTIVE} else {})"

text \<open>One question after the other, until one is not answered with yes.\<close>

definition verify_next :: "verdict \<times> manager \<Rightarrow> (manager \<Rightarrow> verdict \<times> manager) \<Rightarrow> verdict \<times> manager" where
  "verify_next v k = (case v of (Allowed, m) \<Rightarrow> k m | _ \<Rightarrow> v)"

text \<open>Whether an active lock stands in the way, and whose it is: \<^verbatim>\<open>offending\<close> is a strongest one.\<close>

definition offending :: "HandleAction \<Rightarrow> uid \<Rightarrow> manager \<Rightarrow> string option" where
  "offending a u m =
     (case manager_is_inhibited (inhibit_what_of a) True False True u m of (blocked, _, i) \<Rightarrow> if blocked then i else None)"

definition verify_inhibited :: "bus_message \<Rightarrow> HandleAction \<Rightarrow> u64 \<Rightarrow> uid \<Rightarrow> string \<Rightarrow> manager \<Rightarrow> verdict \<times> manager" where
  "verify_inhibited msg a flags u i m =
     (let weak = (i_mode (inh m i) = Some INHIBIT_BLOCK_WEAK)
      in if \<not> FLAGS_SET flags SD_LOGIND_SKIP_INHIBITORS \<and>
            (\<not> weak \<or> (u = 0 \<and> FLAGS_SET flags SD_LOGIND_ROOT_CHECK_INHIBITORS))
         then (Refused SD_BUS_ERROR_ACCESS_DENIED, m)
         else bus_verify_polkit_async_full msg (polkit_action_ignore_inhibit a, []) UID_INVALID
                ((if weak then {} else {POLKIT_ALWAYS_QUERY}) \<union> interactive_flag flags) m)"

definition verify_shutdown_creds :: "bus_message \<Rightarrow> HandleAction \<Rightarrow> u64 \<Rightarrow> manager \<Rightarrow> verdict \<times> manager" where
  "verify_shutdown_creds msg a flags m =
     (case sender_euid msg of
        Inl r \<Rightarrow> (Refused (Errno r), m)
      | Inr u \<Rightarrow>
          let m = assert_that (\<forall>s \<in> set (m_sessions m). s_class (ses m s) \<in> {SESSION_USER, SESSION_USER_EARLY} \<longrightarrow> has_user s m) m;
              m = assert_that (inhibit_what_is_valid (inhibit_what_of a)) m;
              multiple_sessions = have_multiple_sessions u m;
              blocker = offending a u m
          in verify_next (if multiple_sessions then
                 bus_verify_polkit_async_full msg (polkit_action_multiple_sessions a, []) UID_INVALID (interactive_flag flags) m
               else (Allowed, m)) (\<lambda>m.
             verify_next (case blocker of None \<Rightarrow> (Allowed, m) | Some i \<Rightarrow> verify_inhibited msg a flags u i m) (\<lambda>m.
             if \<not> multiple_sessions \<and> blocker = None
             then bus_verify_polkit_async_full msg (polkit_action a, []) UID_INVALID (interactive_flag flags) m
             else (Allowed, m))))"

subsection \<open>Operations\<close>

definition creds_uid_tty :: "bus_message \<Rightarrow> schedule \<Rightarrow> schedule" where
  "creds_uid_tty msg x =
     (if msg_query_creds msg [CREDS_AUGMENT, CREDS_TTY, CREDS_UID] < 0 then x
      else x\<lparr>sch_uid := (case msg_uid msg of Inl _ \<Rightarrow> sch_uid x | Inr u \<Rightarrow> u), sch_tty := success (msg_tty msg)\<rparr>)"

definition setup_wall_message_timer :: "bus_message \<Rightarrow> manager \<Rightarrow> int \<times> manager" where
  "setup_wall_message_timer msg m = manager_setup_wall_message_timer (upd_sch (creds_uid_tty msg) m)"

text \<open>The user whose session is prepared for sleep: the sender, or for root without a session the first user
  with an active one.\<close>

definition scheduled_sleep_uid :: "bus_message \<Rightarrow> manager \<Rightarrow> uid" where
  "scheduled_sleep_uid msg m =
     (let old = sch_sleep_uid (m_schedule m);
          u = (if msg_query_creds msg [CREDS_AUGMENT, CREDS_UID] < 0 then old
               else case msg_uid msg of Inl _ \<Rightarrow> old | Inr u \<Rightarrow> u)
      in if u = 0 \<and> w_uid_get_sessions (m_world m) 0 \<le> 0
         then (case find (\<lambda>v. w_uid_get_sessions (m_world m) v > 0) (w_get_uids (m_world m)) of None \<Rightarrow> 0 | Some v \<Rightarrow> v)
         else u)"

text \<open>The operation that is meant: an error, or the action to carry out. \<open>Ask_access\<close> says whether a kernel is
  loaded for \<^verbatim>\<open>kexec\<close>.\<close>

definition select_action :: "HandleAction \<Rightarrow> u64 \<Rightarrow> manager \<Rightarrow> bus_error + HandleAction" where
  "select_action action flags m =
     (if action = HANDLE_SLEEP then
        (case handle_action_sleep_select m of
           None \<Rightarrow> Inl BUS_ERROR_SLEEP_VERB_NOT_SUPPORTED | Some a \<Rightarrow> Inr a)
      else if HANDLE_ACTION_IS_SLEEP action then
        (let r = sleep_supported (the (had_sleep_operation (handle_action_lookup action))) m
         in if r < 0 then Inl (Errno r)
            else if r = 0 then Inl BUS_ERROR_SLEEP_VERB_NOT_SUPPORTED
            else Inr action)
      else if FLAGS_SET flags SD_LOGIND_REBOOT_VIA_KEXEC \<and> ask (Ask_access ''kexec'') m \<ge> 0 then Inr HANDLE_KEXEC
      else Inr action)"

text \<open>The flags: those given, or for the older methods only whether to ask the user.\<close>

definition request_flags :: "HandleAction \<Rightarrow> u64 + bool \<Rightarrow> bus_error + u64" where
  "request_flags action arg =
     (case arg of
        Inr interactive \<Rightarrow> Inr (if interactive then 2 ^ 63 else 0)
      | Inl flags \<Rightarrow>
          if flags AND NOT SD_LOGIND_SHUTDOWN_AND_SLEEP_FLAGS_PUBLIC \<noteq> 0 then Inl SD_BUS_ERROR_INVALID_ARGS
          else if action \<noteq> HANDLE_REBOOT \<and> FLAGS_SET flags SD_LOGIND_REBOOT_VIA_KEXEC then Inl SD_BUS_ERROR_INVALID_ARGS
          else Inr flags)"

text \<open>What happens when nothing stands in the way.\<close>

definition shutdown_or_sleep_now :: "bus_message \<Rightarrow> HandleAction \<Rightarrow> HandleAction \<Rightarrow> manager \<Rightarrow> unit reply \<times> manager" where
  "shutdown_or_sleep_now msg action a m =
     (let m = upd_sch (sch_sleep_uid_update (\<lambda>_. scheduled_sleep_uid msg m)) m
      in if m_delayed_action m \<noteq> None then (Fail BUS_ERROR_OPERATION_IN_PROGRESS, m)
         else
         let m = upd_sch (sch_unlink_nologin_update (\<lambda>_. False)) m;
             m = reset_scheduled_shutdown m;
             m = upd_sch (\<lambda>x. x\<lparr>sch_timeout := 0, sch_action := Some action\<rparr>) m;
             m = snd (setup_wall_message_timer msg m)
         in finish msg (bus_manager_shutdown_or_sleep_now_or_later a m))"

definition method_do_shutdown_or_sleep :: "bus_message \<Rightarrow> HandleAction \<Rightarrow> u64 + bool \<Rightarrow> manager \<Rightarrow> unit reply \<times> manager" where
  "method_do_shutdown_or_sleep msg action arg m =
     (let m = assert_that (HANDLE_ACTION_IS_SHUTDOWN action \<or> HANDLE_ACTION_IS_SLEEP action) m
      in found (request_flags action arg) m (\<lambda>flags.
         found (select_action action flags m) m (\<lambda>a.
         authorised (verify_shutdown_creds msg a flags m) (shutdown_or_sleep_now msg action a))))"

subsection \<open>Schedule\<close>

text \<open>When: the time given, the next maintenance window, or in a minute.\<close>

definition schedule_time :: "nat \<Rightarrow> manager \<Rightarrow> bus_error + nat" where
  "schedule_time elapse m =
     (if elapse \<noteq> USEC_INFINITY then Inr elapse
      else case sch_maintenance_time (m_schedule m) of
             None \<Rightarrow> Inr (usec_add (now_realtime m) USEC_PER_MINUTE)
           | Some window \<Rightarrow>
               (case window (now_realtime m) of
                  Inl r \<Rightarrow> Inl (if r = - ENOENT then BUS_ERROR_DESIGNATED_MAINTENANCE_TIME_NOT_SCHEDULED else Errno r)
                | Inr t \<Rightarrow> Inr t))"

definition schedule_now :: "bus_message \<Rightarrow> HandleAction \<Rightarrow> bool \<Rightarrow> nat \<Rightarrow> manager \<Rightarrow> unit reply \<times> manager" where
  "schedule_now msg a dry_run elapse m =
     (let m = upd_sch (\<lambda>x. x\<lparr>sch_action := Some a, sch_dry_run := dry_run, sch_timeout := elapse\<rparr>) m
      in case manager_setup_shutdown_timers m of (r, m) \<Rightarrow> if r < 0 then (Fail (Errno r), m) else
         case setup_wall_message_timer msg m of (r, m) \<Rightarrow>
         case (if r < 0 then (r, m) else update_schedule_file m) of (r, m) \<Rightarrow>
         if r < 0 then (Fail (Errno r), reset_scheduled_shutdown m)
         else reply_return msg () (manager_send_changed [''ScheduledShutdown''] m))"

definition method_schedule_shutdown :: "bus_message \<Rightarrow> string \<Rightarrow> nat \<Rightarrow> manager \<Rightarrow> unit reply \<times> manager" where
  "method_schedule_shutdown msg type elapse m =
     (let dry_run = prefix ''dry-'' type;
          type = (if dry_run then drop 4 type else type)
      in case handle_action_from_string (Some type) of
           None \<Rightarrow> (Fail SD_BUS_ERROR_INVALID_ARGS, m)
         | Some a \<Rightarrow>
             if \<not> HANDLE_ACTION_IS_SHUTDOWN a then (Fail SD_BUS_ERROR_INVALID_ARGS, m)
             else authorised (verify_shutdown_creds msg a 0 m) (\<lambda>m.
               found (schedule_time elapse m) m (\<lambda>elapse. schedule_now msg a dry_run elapse m)))"

definition cancel_message :: "bus_message \<Rightarrow> manager \<Rightarrow> manager" where
  "cancel_message msg m =
     (let known = msg_query_creds msg [CREDS_AUGMENT, CREDS_TTY, CREDS_UID] \<ge> 0;
          u = (case msg_uid msg of Inl _ \<Rightarrow> 0 | Inr u \<Rightarrow> if known then u else 0);
          tty = (if known then success (msg_tty msg) else None);
          w = (case sch_wall_message (m_schedule m) of None \<Rightarrow> [] | Some s \<Rightarrow> s)
      in emit (Sys_wall (w @ (if w = [] then [] else [NL]) @ ''System shutdown has been cancelled'') u tty) m)"

definition method_cancel_scheduled_shutdown :: "bus_message \<Rightarrow> manager \<Rightarrow> bool reply \<times> manager" where
  "method_cancel_scheduled_shutdown msg m =
     (case sch_action (m_schedule m) of
        None \<Rightarrow> reply_return msg False m
      | Some a \<Rightarrow>
          if a = HANDLE_IGNORE then reply_return msg False m
          else if handle_action_polkit a = None then (Fail SD_BUS_ERROR_AUTH_FAILED, m)
          else authorised (bus_verify_polkit_async msg (polkit_action a) m) (\<lambda>m.
            let m = (if sch_enable_wall_messages (m_schedule m) then cancel_message msg m else m)
            in reply_return msg True (reset_scheduled_shutdown (cancel_delayed_action m))))"

definition WALL_MESSAGE_MAX :: nat where
  "WALL_MESSAGE_MAX = 4096"

definition method_set_wall_message :: "bus_message \<Rightarrow> string \<Rightarrow> bool \<Rightarrow> manager \<Rightarrow> unit reply \<times> manager" where
  "method_set_wall_message msg wall_message enable m =
     (let w = nonempty wall_message None
      in if length wall_message > WALL_MESSAGE_MAX then (Fail SD_BUS_ERROR_INVALID_ARGS, m)
         else if sch_wall_message (m_schedule m) = w \<and> sch_enable_wall_messages (m_schedule m) = enable
           then reply_return msg () m
         else authorised (bus_verify_polkit_async msg ''org.freedesktop.login1.set-wall-message'' m)
           (\<lambda>m. reply_return msg () (upd_sch (\<lambda>x. x\<lparr>sch_wall_message := w, sch_enable_wall_messages := enable\<rparr>) m)))"

subsection \<open>What could be done\<close>

definition test_result :: "bool \<times> bool \<Rightarrow> string" where
  "test_result x = (if fst x then ''yes'' else if snd x then ''challenge'' else ''no'')"

text \<open>The stricter of two answers, as the code combines them.\<close>

definition combine_result :: "string option \<Rightarrow> bool \<times> bool \<Rightarrow> string option" where
  "combine_result result x =
     (if fst x then (if result = None then Some ''yes'' else result)
      else if snd x then (if result = None \<or> result = Some ''yes'' then Some ''challenge'' else result)
      else Some ''no'')"

definition can_do :: "bus_message \<Rightarrow> HandleAction \<Rightarrow> uid \<Rightarrow> manager \<Rightarrow> bus_error + string" where
  "can_do msg a u m =
     (let multiple_sessions = have_multiple_sessions u m;
          blocked = fst (manager_is_inhibited (inhibit_what_of a) True False True u m)
      in case (if multiple_sessions then
                 (case bus_test_polkit msg (polkit_action_multiple_sessions a) UID_INVALID of
                    Inl e \<Rightarrow> Inl e | Inr x \<Rightarrow> Inr (Some (test_result x)))
               else Inr None) of Inl e \<Rightarrow> Inl e | Inr result \<Rightarrow>
         case (if blocked then
                 (case bus_test_polkit msg (polkit_action_ignore_inhibit a) UID_INVALID of
                    Inl e \<Rightarrow> Inl e | Inr x \<Rightarrow> Inr (combine_result result x))
               else Inr result) of Inl e \<Rightarrow> Inl e | Inr result \<Rightarrow>
         case (if \<not> multiple_sessions \<and> \<not> blocked then
                 (case bus_test_polkit msg (polkit_action a) UID_INVALID of
                    Inl e \<Rightarrow> Inl e | Inr x \<Rightarrow> Inr (Some (test_result x)))
               else Inr result) of Inl e \<Rightarrow> Inl e | Inr result \<Rightarrow> Inr (the result))"

text \<open>\<open>Ask_sleep_config\<close> tells an operation that the configuration disables from one that the machine cannot do.\<close>

definition method_can_shutdown_or_sleep :: "bus_message \<Rightarrow> HandleAction \<Rightarrow> manager \<Rightarrow> string reply \<times> manager" where
  "method_can_shutdown_or_sleep msg action m =
     (let m = assert_that (HANDLE_ACTION_IS_SHUTDOWN action \<or> HANDLE_ACTION_IS_SLEEP action) m;
          with = (\<lambda>a. found (case sender_euid msg of Inl r \<Rightarrow> Inl (Errno r) | Inr u \<Rightarrow> can_do msg a u m) m
                        (\<lambda>result. reply_return msg result m))
      in if action = HANDLE_SLEEP then
           (case handle_action_sleep_select m of None \<Rightarrow> reply_return msg ''na'' m | Some a \<Rightarrow> with a)
         else if HANDLE_ACTION_IS_SLEEP action then
           (let op = the (had_sleep_operation (handle_action_lookup action));
                r = sleep_supported op m
            in if r < 0 then (Fail (Errno r), m)
               else if r = 0 then
                 reply_return msg (if ask (Ask_sleep_config (''disabled '' @ sleep_operation_to_string op)) m > 0
                                   then ''no'' else ''na'') m
               else with action)
         else with action)"

subsection \<open>Inhibitors\<close>

definition inhibit_polkit_action :: "InhibitMode \<Rightarrow> int \<Rightarrow> string" where
  "inhibit_polkit_action mode v =
     (let block = (mode \<in> {INHIBIT_BLOCK, INHIBIT_BLOCK_WEAK})
      in ''org.freedesktop.login1.inhibit-'' @
         (if v = INHIBIT_SHUTDOWN then (if block then ''block-shutdown'' else ''delay-shutdown'')
          else if v = INHIBIT_SLEEP then (if block then ''block-sleep'' else ''delay-sleep'')
          else if v = INHIBIT_IDLE then ''block-idle''
          else if v = INHIBIT_HANDLE_POWER_KEY then ''handle-power-key''
          else if v = INHIBIT_HANDLE_SUSPEND_KEY then ''handle-suspend-key''
          else if v = INHIBIT_HANDLE_REBOOT_KEY then ''handle-reboot-key''
          else if v = INHIBIT_HANDLE_HIBERNATE_KEY then ''handle-hibernate-key''
          else ''handle-lid-switch''))"

text \<open>The bits of a mask of 32 bits, lowest first.\<close>

definition mask_bits :: "int \<Rightarrow> int list" where
  "mask_bits w = map (\<lambda>i. 2 ^ i) (filter (bit w) [0..<32])"

fun verify_each :: "bus_message \<Rightarrow> string list \<Rightarrow> manager \<Rightarrow> verdict \<times> manager" where
  "verify_each msg [] m = (Allowed, m)"
| "verify_each msg (a # as) m = verify_next (bus_verify_polkit_async msg a m) (verify_each msg as)"

text \<open>The lock is kept only when all has gone well; the variable that holds it frees it otherwise.\<close>

definition inhibit_now ::
  "bus_message \<Rightarrow> int \<Rightarrow> InhibitMode \<Rightarrow> string \<Rightarrow> string \<Rightarrow> uid \<Rightarrow> pidref \<Rightarrow> manager \<Rightarrow> int reply \<times> manager" where
  "inhibit_now msg w mode who why u pidref m =
     (if length (m_inhibitors m) \<ge> m_inhibitors_max m
        then (Fail SD_BUS_ERROR_LIMITS_EXCEEDED, safe_close (pid_fd pidref) m)
      else
      let n = next_counter dec (m_inhibitors m) (Suc (length (m_inhibitors m))) (m_inhibit_counter m);
          i = dec n;
          m = m\<lparr>m_inhibit_counter := n\<rparr>
      in case manager_add_inhibitor i m of (r, m) \<Rightarrow> if r < 0 then (Fail (Errno r), safe_close (pid_fd pidref) m) else
         let m = upd_inh i (\<lambda>x. x\<lparr>i_what := w, i_mode := Some mode, i_pid := pidref, i_uid := u, i_why := Some why,
                     i_who := Some who\<rparr>) m
         in case inhibitor_create_fifo i m of (fifo, m) \<Rightarrow> if fifo < 0 then (Fail (Errno fifo), inhibitor_free i m) else
            (case reply_return msg fifo (inhibitor_start i m) of (res, m) \<Rightarrow> (res, safe_close fifo m)))"

definition method_inhibit ::
  "bus_message \<Rightarrow> string \<Rightarrow> string \<Rightarrow> string \<Rightarrow> string \<Rightarrow> manager \<Rightarrow> int reply \<times> manager" where
  "method_inhibit msg what who why mode m =
     (let w = inhibit_what_from_string what
      in if w \<le> 0 then (Fail SD_BUS_ERROR_INVALID_ARGS, m)
         else case inhibit_mode_from_string (Some mode) of
                None \<Rightarrow> (Fail SD_BUS_ERROR_INVALID_ARGS, m)
              | Some mm \<Rightarrow>
                  if mm = INHIBIT_DELAY \<and> w AND NOT (INHIBIT_SHUTDOWN OR INHIBIT_SLEEP) \<noteq> 0
                    then (Fail SD_BUS_ERROR_INVALID_ARGS, m)
                  else if (case m_delayed_action m of None \<Rightarrow> False | Some a \<Rightarrow> inhibit_what_of a AND w \<noteq> 0)
                    then (Fail BUS_ERROR_OPERATION_IN_PROGRESS, m)
                  else authorised (verify_each msg (map (inhibit_polkit_action mm) (mask_bits w)) m) (\<lambda>m.
                    let r = msg_query_creds msg [CREDS_EUID, CREDS_PID, CREDS_PIDFD]
                    in if r < 0 then (Fail (Errno r), m)
                       else case msg_euid msg of
                              Inl r \<Rightarrow> (Fail (Errno r), m)
                            | Inr u \<Rightarrow>
                                (case msg_pidref msg of
                                   Inl r \<Rightarrow> (Fail (Errno r), m)
                                 | Inr pidref \<Rightarrow> inhibit_now msg w mm who why u pidref m)))"

end
