(* ===== verification/Bus_Dispatch.thy ===== *)
theory Bus_Dispatch
  imports Bus_Power
begin

text \<open>
  A call on the bus as a whole: the access check of \<^verbatim>\<open>sd-bus\<close>, the search for the object, and the method. A message
  that polkit has been asked about is dispatched again from the start.
\<close>

subsection \<open>Requests\<close>

datatype session_method =
    Terminate | Activate | Lock bool | Set_idle_hint bool | Set_locked_hint bool | Kill string int
  | Take_control bool | Release_control | Set_type string | Set_class string | Set_display string | Set_tty int
  | Take_device devt | Release_device devt | Pause_device_complete devt | Set_brightness string string nat

datatype seat_method = Seat_terminate | Activate_session string | Switch_to nat | Switch_to_next | Switch_to_previous

datatype user_method = User_terminate | User_kill int

datatype (plugins only: size code) request =
    On_session string session_method
  | On_seat string seat_method
  | On_user "uid option" user_method
  | Create_session create_args
  | Release_session string
  | Manager_activate_session string
  | Activate_session_on_seat string string
  | Lock_session string bool
  | Lock_sessions bool
  | Kill_session string string int
  | Kill_user uid int
  | Terminate_session string
  | Terminate_user uid
  | Terminate_seat string
  | Set_user_linger uid bool bool
  | Attach_device string string bool
  | Flush_devices bool
  | Send_prepare_for_sleep bool
  | Do_shutdown_or_sleep HandleAction "u64 + bool"
  | Schedule_shutdown string nat
  | Cancel_scheduled_shutdown
  | Set_wall_message string bool
  | Can_shutdown_or_sleep HandleAction
  | Inhibit string string string string

text \<open>Of the result only its kind is kept.\<close>

definition kind :: "'a reply \<times> manager \<Rightarrow> unit reply \<times> manager" where
  "kind x = (map_reply (\<lambda>_. ()) (fst x), snd x)"

fun session_dispatch :: "bus_message \<Rightarrow> string \<Rightarrow> session_method \<Rightarrow> manager \<Rightarrow> unit reply \<times> manager" where
  "session_dispatch msg s Terminate m = bus_session_method_terminate msg s m"
| "session_dispatch msg s Activate m = bus_session_method_activate msg s m"
| "session_dispatch msg s (Lock b) m = bus_session_method_lock msg s b m"
| "session_dispatch msg s (Set_idle_hint b) m = method_set_idle_hint msg s b m"
| "session_dispatch msg s (Set_locked_hint b) m = method_set_locked_hint msg s b m"
| "session_dispatch msg s (Kill whom signo) m = bus_session_method_kill msg s whom signo m"
| "session_dispatch msg s (Take_control force) m = method_take_control msg s force m"
| "session_dispatch msg s Release_control m = method_release_control msg s m"
| "session_dispatch msg s (Set_type t) m = method_set_type msg s t m"
| "session_dispatch msg s (Set_class c) m = method_set_class msg s c m"
| "session_dispatch msg s (Set_display d) m = method_set_display msg s d m"
| "session_dispatch msg s (Set_tty fd) m = method_set_tty msg s fd m"
| "session_dispatch msg s (Take_device n) m = kind (method_take_device msg s n m)"
| "session_dispatch msg s (Release_device n) m = method_release_device msg s n m"
| "session_dispatch msg s (Pause_device_complete n) m = method_pause_device_complete msg s n m"
| "session_dispatch msg s (Set_brightness sub name b) m = method_set_brightness msg s sub name b m"

fun seat_dispatch :: "bus_message \<Rightarrow> string \<Rightarrow> seat_method \<Rightarrow> manager \<Rightarrow> unit reply \<times> manager" where
  "seat_dispatch msg st Seat_terminate m = bus_seat_method_terminate msg st m"
| "seat_dispatch msg st (Activate_session name) m = seat_method_activate_session msg st name m"
| "seat_dispatch msg st (Switch_to num) m = method_switch_to msg st num m"
| "seat_dispatch msg st Switch_to_next m = method_switch_to_next msg st m"
| "seat_dispatch msg st Switch_to_previous m = method_switch_to_previous msg st m"

fun user_dispatch :: "bus_message \<Rightarrow> uid \<Rightarrow> user_method \<Rightarrow> manager \<Rightarrow> unit reply \<times> manager" where
  "user_dispatch msg u User_terminate m = bus_user_method_terminate msg u m"
| "user_dispatch msg u (User_kill signo) m = bus_user_method_kill msg u signo m"

text \<open>The access check of \<^verbatim>\<open>bus-objects.c\<close>: a method without the flag for unprivileged senders is for the
  privileged only.\<close>

fun vtable_unprivileged :: "request \<Rightarrow> bool" where
  "vtable_unprivileged (Create_session _) = False"
| "vtable_unprivileged (Send_prepare_for_sleep _) = False"
| "vtable_unprivileged _ = True"

definition check_access :: "bus_message \<Rightarrow> request \<Rightarrow> bus_error option" where
  "check_access msg req =
     (if vtable_unprivileged req then None
      else if msg_privilege msg < 0 then Some (Errno (msg_privilege msg))
      else if msg_privilege msg > 0 then None
      else Some SD_BUS_ERROR_ACCESS_DENIED)"

definition user_of_path :: "manager \<Rightarrow> bus_message \<Rightarrow> uid option \<Rightarrow> bus_error + uid" where
  "user_of_path m msg u =
     (case u of
        None \<Rightarrow> manager_get_user_from_creds m msg UID_INVALID
      | Some u \<Rightarrow> if u \<in> set (m_users m) then Inr u else Inl BUS_ERROR_NO_SUCH_USER)"

fun manager_dispatch :: "bus_message \<Rightarrow> request \<Rightarrow> manager \<Rightarrow> unit reply \<times> manager" where
  "manager_dispatch msg (On_session name meth) m =
     found (manager_get_session_from_creds m msg name) m (\<lambda>s. session_dispatch msg s meth m)"
| "manager_dispatch msg (On_seat name meth) m =
     found (manager_get_seat_from_creds m msg name) m (\<lambda>st. seat_dispatch msg st meth m)"
| "manager_dispatch msg (On_user u meth) m = found (user_of_path m msg u) m (\<lambda>u. user_dispatch msg u meth m)"
| "manager_dispatch msg (Create_session a) m = kind (create_session msg a m)"
| "manager_dispatch msg (Release_session name) m = method_release_session msg name m"
| "manager_dispatch msg (Manager_activate_session name) m = method_activate_session msg name m"
| "manager_dispatch msg (Activate_session_on_seat s st) m = method_activate_session_on_seat msg s st m"
| "manager_dispatch msg (Lock_session name b) m = method_lock_session msg name b m"
| "manager_dispatch msg (Lock_sessions b) m = method_lock_sessions msg b m"
| "manager_dispatch msg (Kill_session name whom signo) m = method_kill_session msg name whom signo m"
| "manager_dispatch msg (Kill_user u signo) m = method_kill_user msg u signo m"
| "manager_dispatch msg (Terminate_session name) m = method_terminate_session msg name m"
| "manager_dispatch msg (Terminate_user u) m = method_terminate_user msg u m"
| "manager_dispatch msg (Terminate_seat name) m = method_terminate_seat msg name m"
| "manager_dispatch msg (Set_user_linger u enable interactive) m = method_set_user_linger msg u enable interactive m"
| "manager_dispatch msg (Attach_device st sysfs interactive) m = method_attach_device msg st sysfs interactive m"
| "manager_dispatch msg (Flush_devices interactive) m = method_flush_devices msg interactive m"
| "manager_dispatch msg (Send_prepare_for_sleep active) m = method_send_prepare_for_sleep msg active m"
| "manager_dispatch msg (Do_shutdown_or_sleep a arg) m = method_do_shutdown_or_sleep msg a arg m"
| "manager_dispatch msg (Schedule_shutdown type elapse) m = method_schedule_shutdown msg type elapse m"
| "manager_dispatch msg Cancel_scheduled_shutdown m = kind (method_cancel_scheduled_shutdown msg m)"
| "manager_dispatch msg (Set_wall_message text enable) m = method_set_wall_message msg text enable m"
| "manager_dispatch msg (Can_shutdown_or_sleep a) m = kind (method_can_shutdown_or_sleep msg a m)"
| "manager_dispatch msg (Inhibit what who why mode) m = kind (method_inhibit msg what who why mode m)"

definition dispatch :: "bus_message \<Rightarrow> request \<Rightarrow> manager \<Rightarrow> unit reply \<times> manager" where
  "dispatch msg req m = (case check_access msg req of Some e \<Rightarrow> (Fail e, m) | None \<Rightarrow> manager_dispatch msg req m)"

end
