(* ===== verification/Bus_Auth.thy ===== *)
theory Bus_Auth
  imports Bus_Dispatch
begin

text \<open>
  Who can do what over the bus: a method that waits for polkit has sent one question and done nothing else, and a
  sender with no rights gets at most one question or one reply out of the daemon.
\<close>

subsection \<open>Asking keeps the objects\<close>

text \<open>Two states with the same objects: they differ only in the questions to polkit, in what the daemon has called and
  in whether an assertion has failed. This frame is for the invariant of the objects, which looks at none of these;
  what a request may do outside is said by \<open>waits\<close> and \<open>only_asked\<close> below.\<close>

definition same_but_asked :: "manager \<Rightarrow> manager \<Rightarrow> bool" where
  "same_but_asked m m' \<longleftrightarrow> m'\<lparr>m_polkit_registry := [], m_trace := [], m_abort := False\<rparr> =
     m\<lparr>m_polkit_registry := [], m_trace := [], m_abort := False\<rparr>"

lemma same_but_asked_refl [simp, intro]: "same_but_asked m m"
  by (simp add: same_but_asked_def)

lemma same_but_asked_trans [trans]: "same_but_asked m m' \<Longrightarrow> same_but_asked m' m'' \<Longrightarrow> same_but_asked m m''"
  by (simp add: same_but_asked_def)

lemma same_but_asked_field:
  assumes "same_but_asked m m'" "\<And>x. f (x\<lparr>m_polkit_registry := [], m_trace := [], m_abort := False\<rparr>) = f x"
  shows "f m' = f m"
  using assms unfolding same_but_asked_def by metis

interpretation asked: step_frame same_but_asked
  by unfold_locales (auto intro: same_but_asked_trans)

lemma oa_basic:
  "same_but_asked m m' \<Longrightarrow> same_but_asked m (snd (sys e m'))" "same_but_asked m m' \<Longrightarrow> same_but_asked m (emit e m')"
  "same_but_asked m m' \<Longrightarrow> same_but_asked m (assert_that b m')" "same_but_asked m m' \<Longrightarrow> same_but_asked m (put_query i q m')"
  "same_but_asked m m' \<Longrightarrow> same_but_asked m (drop_query i m')"
  by (cases m; cases m'; simp add: same_but_asked_def sys_def emit_def assert_that_def put_query_def drop_query_def)+

lemma oa_unref: "same_but_asked m m' \<Longrightarrow> same_but_asked m (async_polkit_query_unref i m')"
  by (simp add: async_polkit_query_unref_def oa_basic split: option.split)

lemma oa_ask: "same_but_asked m m' \<Longrightarrow> same_but_asked m (snd (polkit_ask i a flags m'))"
  by (simp add: polkit_ask_def Let_def case_prod_beta oa_basic oa_unref)

lemma oa_verify: "same_but_asked m m' \<Longrightarrow> same_but_asked m (snd (bus_verify_polkit_async_full msg a u flags m'))"
  by (simp add: bus_verify_polkit_async_full_def Let_def oa_ask)

lemma oa_verify_async:
  "same_but_asked m m' \<Longrightarrow> same_but_asked m (snd (bus_verify_polkit_async msg a m'))"
  "same_but_asked m m' \<Longrightarrow> same_but_asked m (snd (check_polkit_chvt msg m'))"
  "same_but_asked m m' \<Longrightarrow> same_but_asked m (snd (session_owner_verify msg action s m'))"
  by (simp_all add: bus_verify_polkit_async_def check_polkit_chvt_def session_owner_verify_def oa_verify oa_basic)

lemma oa_next:
  assumes "same_but_asked m (snd v)" "\<And>m'. same_but_asked m m' \<Longrightarrow> same_but_asked m (snd (k m'))"
  shows "same_but_asked m (snd (verify_next v k))"
  using assms by (auto simp: verify_next_def split: prod.split verdict.split)

lemma oa_each: "same_but_asked m m' \<Longrightarrow> same_but_asked m (snd (verify_each msg as m'))"
  by (induction as arbitrary: m') (simp_all add: oa_next oa_verify_async)

lemma oa_inhibited: "same_but_asked m m' \<Longrightarrow> same_but_asked m (snd (verify_inhibited msg a flags u i m'))"
  by (simp add: verify_inhibited_def Let_def oa_verify)

lemma oa_shutdown: "same_but_asked m m' \<Longrightarrow> same_but_asked m (snd (verify_shutdown_creds msg a flags m'))"
  unfolding verify_shutdown_creds_def Let_def
  by (auto simp: oa_verify oa_inhibited oa_basic intro!: oa_next split: sum.split option.split)

lemma oa_reply: "same_but_asked m m' \<Longrightarrow> same_but_asked m (snd (reply_return msg v m'))"
  by (simp add: reply_return_def case_prod_beta oa_basic)

lemmas oa = oa_basic oa_verify oa_verify_async oa_each oa_shutdown oa_reply

subsection \<open>Asking does nothing else\<close>

text \<open>\<open>checked P m n\<close>: assertions have been passed on the way from \<open>m\<close> to \<open>n\<close>, and nothing has happened; where
  \<open>P\<close> holds none of them has failed.\<close>

definition checked :: "bool \<Rightarrow> manager \<Rightarrow> manager \<Rightarrow> bool" where
  "checked P m n \<longleftrightarrow> n = m \<or> (\<not> P \<and> n = m\<lparr>m_abort := True\<rparr>)"

lemma checked_refl [simp, intro]: "checked P m m"
  by (simp add: checked_def)

lemma checked_assert:
  assumes "checked P m n" "P \<Longrightarrow> b"
  shows "checked P m (assert_that b n)"
proof (cases b)
  case False
  then have "\<not> P" using assms(2) by blast
  moreover have "assert_that b n = m\<lparr>m_abort := True\<rparr>"
    using assms(1) False by (elim checked_def [THEN iffD1, elim_format] disjE) (simp_all add: assert_that_def)
  ultimately show ?thesis by (simp add: checked_def)
qed (simp add: assms(1) assert_that_def)

text \<open>\<open>asks P i m v\<close>: the verdict was known, and nothing has happened, or it is that of one question about message
  \<open>i\<close>, and nothing else has happened.\<close>

definition asks :: "bool \<Rightarrow> nat \<Rightarrow> manager \<Rightarrow> verdict \<times> manager \<Rightarrow> bool" where
  "asks P i m v \<longleftrightarrow> (\<exists>n. checked P m n \<and> (snd v = n \<and> fst v \<noteq> Pending \<or> (\<exists>a flags. v = polkit_ask i a flags n)))"

lemma ask_not_allowed: "fst (polkit_ask i a flags m) \<noteq> Allowed"
  by (simp add: polkit_ask_def Let_def case_prod_beta)

lemma asks_known: "checked P m n \<Longrightarrow> v \<noteq> Pending \<Longrightarrow> asks P i m (v, n)"
  by (auto simp: asks_def)

lemma asks_allowed: "asks P i m v \<Longrightarrow> fst v = Allowed \<Longrightarrow> checked P m (snd v)"
  using ask_not_allowed by (auto simp: asks_def)

lemma asks_ask: "checked P m n \<Longrightarrow> asks P i m (polkit_ask i a flags n)"
  unfolding asks_def by blast

lemma asks_verify: "checked P m n \<Longrightarrow> asks P (msg_id msg) m (bus_verify_polkit_async_full msg a u flags n)"
  by (simp add: bus_verify_polkit_async_full_def Let_def asks_known asks_ask)

lemma asks_verify_async:
  "checked P m n \<Longrightarrow> asks P (msg_id msg) m (bus_verify_polkit_async msg action n)"
  "checked P m n \<Longrightarrow> asks P (msg_id msg) m (check_polkit_chvt msg n)"
  "(P \<Longrightarrow> has_user s m) \<Longrightarrow> asks P (msg_id msg) m (session_owner_verify msg action s m)"
  by (simp_all add: bus_verify_polkit_async_def check_polkit_chvt_def session_owner_verify_def asks_verify checked_assert)

lemma asks_next:
  assumes "asks P i m v" "\<And>n. checked P m n \<Longrightarrow> asks P i m (k n)"
  shows "asks P i m (verify_next v k)"
  using assms asks_allowed [OF assms(1)] by (cases v; cases "fst v") (simp_all add: verify_next_def)

lemma asks_each: "checked P m n \<Longrightarrow> asks P (msg_id msg) m (verify_each msg as n)"
  by (induction as arbitrary: n) (simp_all add: asks_known asks_next asks_verify_async)

lemma asks_inhibited: "checked P m n \<Longrightarrow> asks P (msg_id msg) m (verify_inhibited msg a flags u i n)"
  by (simp add: verify_inhibited_def Let_def asks_verify asks_known)

text \<open>What the assertions of the methods up to the question rest on: the sessions have users, and the action and the
  file descriptor are such as the vtable and the signature of the method give.\<close>

definition calm :: "request \<Rightarrow> manager \<Rightarrow> bool" where
  "calm req m \<longleftrightarrow> (\<forall>s \<in> set (m_sessions m). has_user s m) \<and>
     (case req of
        Do_shutdown_or_sleep a _ \<Rightarrow> HANDLE_ACTION_IS_SHUTDOWN a \<or> HANDLE_ACTION_IS_SLEEP a
      | Can_shutdown_or_sleep a \<Rightarrow> HANDLE_ACTION_IS_SHUTDOWN a \<or> HANDLE_ACTION_IS_SLEEP a
      | On_session _ (Set_tty fd) \<Rightarrow> fd \<ge> 0
      | _ \<Rightarrow> True)"

lemma asks_shutdown:
  assumes "checked P m n" "P \<Longrightarrow> (\<forall>s \<in> set (m_sessions m). has_user s m) \<and> inhibit_what_is_valid (inhibit_what_of a)"
  shows "asks P (msg_id msg) m (verify_shutdown_creds msg a flags n)"
proof (cases "sender_euid msg")
  case (Inr u)
  define n' where "n' = assert_that (inhibit_what_is_valid (inhibit_what_of a))
    (assert_that (\<forall>s\<in>set (m_sessions n). s_class (ses n s) \<in> {SESSION_USER, SESSION_USER_EARLY} \<longrightarrow> has_user s n) n)"
  have "checked P m n'"
    using assms unfolding n'_def by (intro checked_assert) (auto simp: checked_def)
  then show ?thesis
    unfolding verify_shutdown_creds_def Inr sum.case Let_def n'_def [symmetric]
    by (intro asks_next) (auto simp: asks_verify asks_known asks_inhibited split: option.split)
qed (simp add: verify_shutdown_creds_def assms(1) asks_known)

lemmas asks = asks_verify asks_verify_async asks_each

subsection \<open>A method that waits\<close>

lemma reply_not_wait [simp]: "fst (reply_return msg v m) \<noteq> Wait"
  by (simp add: reply_return_def case_prod_beta)

lemma finish_not_wait [simp]: "fst (finish msg x) \<noteq> Wait"
  by (simp add: finish_def case_prod_beta)

text \<open>\<open>waits P i m r\<close>: if the method waits, then one question about message \<open>i\<close> is under way, and nothing else has
  happened.\<close>

definition waits :: "bool \<Rightarrow> nat \<Rightarrow> manager \<Rightarrow> 'a reply \<times> manager \<Rightarrow> bool" where
  "waits P i m r \<longleftrightarrow> (fst r = Wait \<longrightarrow> (\<exists>n a flags. checked P m n \<and> polkit_ask i a flags n = (Pending, snd r)))"

lemma waits_simps [simp]:
  "waits P i m (finish msg x)" "waits P i m (reply_return msg v m')" "waits P i m (Fail e, m')"
  "waits P i m (Reply v', m')" "waits P i m (Later, m')"
  by (simp_all add: waits_def)

lemma waits_kind [simp]: "waits P i m (kind x) = waits P i m x"
  by (cases "fst x") (simp_all add: waits_def kind_def)

lemma waits_authorised:
  assumes "asks P i m v" "\<And>n. checked P m n \<Longrightarrow> waits P i m (k n)"
  shows "waits P i m (authorised v k)"
proof (cases "fst v")
  case Pending
  then show ?thesis
    using assms(1) by (cases v) (fastforce simp: asks_def waits_def authorised_def)
next
  case Allowed
  then show ?thesis
    using assms asks_allowed [OF assms(1)] by (cases v) (simp add: authorised_def)
qed (cases v; simp add: authorised_def)

lemma waits_found: "(\<And>y. x = Inr y \<Longrightarrow> waits P i m (k y)) \<Longrightarrow> waits P i m (found x m' k)"
  by (simp add: found_def split: sum.split)

lemma waits_owner: "(\<And>m'. waits P i m (k m')) \<Longrightarrow> waits P i m (only_owner msg s m' k)"
  by (simp add: only_owner_def Let_def split: sum.split)

lemmas waits_intros = waits_authorised waits_found waits_owner

lemmas session_method_defs =
  bus_session_method_terminate_def bus_session_method_activate_def bus_session_method_lock_def method_set_idle_hint_def
  method_set_locked_hint_def bus_session_method_kill_def method_take_control_def method_release_control_def
  method_set_type_def method_set_class_def method_set_display_def method_set_tty_def method_take_device_def
  method_release_device_def method_pause_device_complete_def method_set_brightness_def

lemmas seat_method_defs = bus_seat_method_terminate_def seat_method_activate_session_def method_switch_to_def
  method_switch_to_next_def method_switch_to_previous_def

lemmas manager_method_defs =
  method_release_session_def method_activate_session_def method_activate_session_on_seat_def method_lock_session_def
  method_lock_sessions_def method_kill_session_def method_kill_user_def method_terminate_session_def
  method_terminate_user_def method_terminate_seat_def method_set_user_linger_def method_attach_device_def
  method_flush_devices_def method_send_prepare_for_sleep_def

lemmas power_method_defs =
  method_do_shutdown_or_sleep_def method_schedule_shutdown_def method_cancel_scheduled_shutdown_def
  method_set_wall_message_def method_can_shutdown_or_sleep_def method_inhibit_def

lemma session_waits:
  assumes "P \<Longrightarrow> has_user s m"
  shows "waits P (msg_id msg) m (session_dispatch msg s meth m)"
  using assms by (cases meth)
    (auto simp: session_method_defs Let_def case_prod_beta asks intro!: waits_intros split: option.split sum.split)

lemma seat_waits: "waits P (msg_id msg) m (seat_dispatch msg st meth m)"
  by (cases meth) (auto simp: seat_method_defs asks intro!: waits_intros)

lemma user_waits: "waits P (msg_id msg) m (user_dispatch msg u meth m)"
  by (cases meth) (auto simp: bus_user_method_terminate_def bus_user_method_kill_def asks intro!: waits_intros)

lemma create_start_waits: "waits P i m' (create_session_start msg a leader t c seat vtnr s u m)"
  by (simp add: create_session_start_def Let_def case_prod_beta split: sum.split)

lemma create_waits: "waits P i m' (create_session msg a m)"
  by (simp add: create_session_def create_session_add_def Let_def case_prod_beta create_start_waits split: sum.split)

lemma shutdown_now_waits: "waits P i m' (shutdown_or_sleep_now msg action a m)"
  by (simp add: shutdown_or_sleep_now_def Let_def)

lemma schedule_now_waits: "waits P i m' (schedule_now msg a dry_run elapse m)"
  by (simp add: schedule_now_def Let_def case_prod_beta)

lemma inhibit_now_waits: "waits P i m' (inhibit_now msg w mode who why u pidref m)"
  by (simp add: inhibit_now_def Let_def case_prod_beta waits_def)

lemma object_waits:
  "(P \<Longrightarrow> has_user s m) \<Longrightarrow> waits P (msg_id msg) m (bus_session_method_activate msg s m)"
  "(P \<Longrightarrow> has_user s m) \<Longrightarrow> waits P (msg_id msg) m (bus_session_method_lock msg s b m)"
  "(P \<Longrightarrow> has_user s m) \<Longrightarrow> waits P (msg_id msg) m (bus_session_method_kill msg s whom signo m)"
  "(P \<Longrightarrow> has_user s m) \<Longrightarrow> waits P (msg_id msg) m (bus_session_method_terminate msg s m)"
  "waits P (msg_id msg) m (bus_user_method_kill msg u signo m)" "waits P (msg_id msg) m (bus_user_method_terminate msg u m)"
  "waits P (msg_id msg) m (bus_seat_method_terminate msg st m)"
  using session_waits [of P s m msg Activate] session_waits [of P s m msg "Lock b"]
    session_waits [of P s m msg "Kill whom signo"] session_waits [of P s m msg Terminate]
    user_waits [of P msg m u "User_kill signo"] user_waits [of P msg m u User_terminate]
    seat_waits [of P msg m st Seat_terminate]
  by simp_all

text \<open>The objects that are found are known.\<close>

lemma display_known:
  "wf m \<Longrightarrow> u \<in> set (m_users m) \<Longrightarrow> u_display (usr m u) = Some s \<Longrightarrow> s \<in> set (m_sessions m)"
  using wfD(4) by (fastforce simp: inv_users_def)

lemma sender_session_known:
  assumes "wf m" "get_sender_session m msg consult = Inr s"
  shows "s \<in> set (m_sessions m)"
  using assms display_known [of m]
  by (auto simp: get_sender_session_def Let_def split: if_splits sum.splits option.splits)

lemma session_from_creds_known:
  assumes "wf m" "manager_get_session_from_creds m msg name = Inr s"
  shows "s \<in> set (m_sessions m)"
  using assms sender_session_known by (auto simp: manager_get_session_from_creds_def split: if_splits)

lemma seat_from_creds_known:
  assumes "wf m" "manager_get_seat_from_creds m msg name = Inr st"
  shows "st \<in> set (m_seats m)"
  using assms session_from_creds_known wf_session_seat(1)
  by (fastforce simp: manager_get_seat_from_creds_def split: if_splits sum.splits option.splits)

lemma user_from_creds_known:
  "manager_get_user_from_creds m msg u = Inr v \<Longrightarrow> v \<in> set (m_users m)"
  "user_of_path m msg w = Inr v \<Longrightarrow> v \<in> set (m_users m)"
  by (auto simp: manager_get_user_from_creds_def get_sender_user_def user_of_path_def Let_def
      split: if_splits sum.splits option.splits)

text \<open>The action that is carried out has a valid set of locks.\<close>

lemma power_action_of:
  "HANDLE_ACTION_IS_SHUTDOWN a \<Longrightarrow> power_action a" "HANDLE_ACTION_IS_SLEEP a \<Longrightarrow> a \<noteq> HANDLE_SLEEP \<Longrightarrow> power_action a"
  by (cases a; simp add: HANDLE_ACTION_IS_SHUTDOWN_def HANDLE_ACTION_IS_SLEEP_def handle_action_number_def power_action_cases)+

lemma select_power_action:
  assumes "select_action action flags m = Inr a" "HANDLE_ACTION_IS_SHUTDOWN action \<or> HANDLE_ACTION_IS_SLEEP action"
  shows "power_action a"
proof -
  have "power_action b" if "handle_action_sleep_select m = Some b" for b
    using sleep_select_power [OF that] by blast
  moreover have "power_action HANDLE_KEXEC" by (simp add: power_action_cases)
  ultimately show ?thesis
    using assms power_action_of [of action] by (auto simp: select_action_def Let_def split: if_splits option.splits)
qed

lemma manager_waits:
  assumes "wf m"
  shows "waits (calm req m) (msg_id msg) m (manager_dispatch msg req m)"
proof -
  have user: "has_user s m" if "manager_get_session_from_creds m msg name = Inr s" "calm req m" for s name
    using that session_from_creds_known [OF assms] by (auto simp: calm_def)
  show ?thesis
  proof (cases req)
    case (Do_shutdown_or_sleep a arg)
    let ?n = "assert_that (HANDLE_ACTION_IS_SHUTDOWN a \<or> HANDLE_ACTION_IS_SLEEP a) m"
    have n: "checked (calm req m) m ?n"
      by (intro checked_assert) (auto simp: calm_def Do_shutdown_or_sleep)
    have "asks (calm req m) (msg_id msg) m (verify_shutdown_creds msg x flags ?n)" if "select_action a flags ?n = Inr x" for x flags
      using that by (intro asks_shutdown n) (auto simp: calm_def Do_shutdown_or_sleep power_action_what(1) select_power_action)
    then show ?thesis
      by (auto simp: Do_shutdown_or_sleep method_do_shutdown_or_sleep_def Let_def shutdown_now_waits intro!: waits_intros)
  next
    case (Schedule_shutdown type elapse)
    have "asks (calm req m) (msg_id msg) m (verify_shutdown_creds msg x flags m)" if "HANDLE_ACTION_IS_SHUTDOWN x" for x flags
      using that by (intro asks_shutdown) (auto simp: calm_def power_action_what(1) power_action_of)
    then show ?thesis
      by (auto simp: Schedule_shutdown method_schedule_shutdown_def Let_def schedule_now_waits intro!: waits_intros split: option.split)
  next
    case (Inhibit what who why mode)
    then show ?thesis
      by (auto simp: method_inhibit_def Let_def asks inhibit_now_waits intro!: waits_intros split: option.split sum.split)
  qed (auto simp: manager_method_defs power_method_defs session_waits seat_waits user_waits create_waits object_waits asks user
      Let_def case_prod_beta intro!: waits_intros split: option.split sum.split)
qed

lemma dispatch_waits: "wf m \<Longrightarrow> waits (calm req m) (msg_id msg) m (dispatch msg req m)"
  by (simp add: dispatch_def manager_waits split: option.split)

subsection \<open>A sender without rights\<close>

text \<open>Not privileged, nothing granted by polkit for this message, not root, not a user of the daemon or the owner
  of a session, not the controller of a session, and not a process of a session.\<close>

definition stranger :: "bus_message \<Rightarrow> manager \<Rightarrow> bool" where
  "stranger msg m \<longleftrightarrow>
     msg_privilege msg \<le> 0 \<and>
     (\<forall>q. get_query (msg_id msg) m = Some q \<longrightarrow> q_authorized_actions q = []) \<and>
     (\<forall>u. msg_euid msg = Inr u \<longrightarrow> u \<noteq> 0 \<and> u \<notin> set (m_users m) \<and> (\<forall>s \<in> set (m_sessions m). session_uid s m \<noteq> u)) \<and>
     (\<forall>s \<in> set (m_sessions m). s_controller (ses m s) \<noteq> msg_sender msg) \<and>
     (\<forall>s. msg_session msg = Inr s \<longrightarrow> s \<notin> set (m_sessions m))"

text \<open>Polkit is never taken to allow what it has not been asked about.\<close>

lemma check_action_nothing:
  assumes "q_authorized_actions q = []" "POLKIT_DEFAULT_ALLOW \<notin> flags"
  shows "async_polkit_query_check_action q a flags \<noteq> Allowed"
  using assms by (simp add: async_polkit_query_check_action_def async_polkit_query_have_action_def split: option.split)

lemma good_user_no:
  assumes "\<And>u. msg_euid msg = Inr u \<Longrightarrow> u \<noteq> good" "\<And>r. msg_euid msg = Inl r \<Longrightarrow> r \<le> 0"
  shows "bus_message_check_good_user msg good \<le> 0"
  using assms by (auto simp: bus_message_check_good_user_def split: sum.split)

text \<open>An error is negative.\<close>

definition errors_negative :: "bus_message \<Rightarrow> bool" where
  "errors_negative msg \<longleftrightarrow> (\<forall>r. msg_euid msg = Inl r \<longrightarrow> r < 0)"

lemma verify_refused:
  assumes "msg_privilege msg \<le> 0" "\<And>q. get_query (msg_id msg) m = Some q \<Longrightarrow> q_authorized_actions q = []"
    "errors_negative msg" "good = UID_INVALID \<or> (\<forall>u. msg_euid msg = Inr u \<longrightarrow> u \<noteq> good)" "POLKIT_DEFAULT_ALLOW \<notin> flags"
  shows "fst (bus_verify_polkit_async_full msg a good flags m) \<noteq> Allowed"
proof -
  have good: "\<not> bus_message_check_good_user msg good > 0"
  proof (cases "good = UID_INVALID")
    case False
    then show ?thesis using assms(3,4) good_user_no [of msg good] by (fastforce simp: errors_negative_def)
  qed (simp add: bus_message_check_good_user_def)
  have "async_polkit_query_check_action q a flags \<noteq> Allowed" if "get_query (msg_id msg) m = Some q" for q
    using that assms(2,5) check_action_nothing by blast
  then show ?thesis
    using good assms(1) ask_not_allowed
    by (auto simp: bus_verify_polkit_async_full_def Let_def split: option.split)
qed

text \<open>\<open>only_asked P i m m'\<close>: the message has got nothing, a reply, or one question to polkit out of the daemon, and
  nothing else has happened; where \<open>P\<close> holds no assertion on the way to that has failed.\<close>

definition only_asked :: "bool \<Rightarrow> nat \<Rightarrow> manager \<Rightarrow> manager \<Rightarrow> bool" where
  "only_asked P i m m' \<longleftrightarrow> (\<exists>n. checked P m n \<and>
     (m' = n \<or> m' = snd (sys (Sys_reply i 0) n) \<or> (\<exists>a flags. m' = snd (polkit_ask i a flags n))))"

lemma only_asked_checked: "checked P m n \<Longrightarrow> only_asked P i m n"
  by (auto simp: only_asked_def)

lemma only_asked_refl [simp, intro]: "only_asked P i m m"
  by (simp add: only_asked_checked)

lemma only_asked_reply: "checked P m n \<Longrightarrow> only_asked P (msg_id msg) m (snd (reply_return msg v n))"
  by (auto simp: only_asked_def reply_return_def case_prod_beta)

lemma authorised_refused:
  assumes "asks P i m v" "fst v \<noteq> Allowed"
  shows "only_asked P i m (snd (authorised v k))"
proof -
  have "snd (authorised v k) = snd v" using assms(2) by (cases v; cases "fst v") (simp_all add: authorised_def)
  moreover have "only_asked P i m (snd v)" using assms(1) unfolding asks_def only_asked_def by blast
  ultimately show ?thesis by simp
qed

lemma query_assert [simp]: "get_query i (assert_that b m) = get_query i m"
  by (simp add: get_query_def assert_that_def)

lemma uid_assert [simp]: "session_uid s (assert_that b m) = session_uid s m"
  by (simp add: session_uid_def assert_that_def)

lemma stranger_verify:
  assumes "stranger msg m" "errors_negative msg" "POLKIT_DEFAULT_ALLOW \<notin> flags"
    "good = UID_INVALID \<or> good \<in> set (m_users m) \<or> (\<exists>s \<in> set (m_sessions m). good = session_uid s m)"
  shows "fst (bus_verify_polkit_async_full msg a good flags (assert_that b m)) \<noteq> Allowed"
  using assms by (intro verify_refused) (auto simp: stranger_def)

lemma assert_true: "assert_that True m = m"
  by (simp add: assert_that_def)

lemma stranger_verify':
  assumes "stranger msg m" "errors_negative msg"
  shows "fst (bus_verify_polkit_async msg action m) \<noteq> Allowed" "fst (check_polkit_chvt msg m) \<noteq> Allowed"
    "s \<in> set (m_sessions m) \<Longrightarrow> fst (session_owner_verify msg action s m) \<noteq> Allowed"
    "u \<in> set (m_users m) \<Longrightarrow> fst (bus_verify_polkit_async_full msg a u {} m) \<noteq> Allowed"
    "POLKIT_DEFAULT_ALLOW \<notin> flags \<Longrightarrow> fst (bus_verify_polkit_async_full msg a UID_INVALID flags m) \<noteq> Allowed"
proof -
  note v = stranger_verify [OF assms, where b = True, unfolded assert_true]
  show "fst (bus_verify_polkit_async msg action m) \<noteq> Allowed" for action
    unfolding bus_verify_polkit_async_def by (rule v) simp_all
  then show "fst (check_polkit_chvt msg m) \<noteq> Allowed"
    unfolding check_polkit_chvt_def .
  show "s \<in> set (m_sessions m) \<Longrightarrow> fst (session_owner_verify msg action s m) \<noteq> Allowed"
    unfolding session_owner_verify_def by (rule stranger_verify [OF assms]) auto
  show "u \<in> set (m_users m) \<Longrightarrow> fst (bus_verify_polkit_async_full msg a u {} m) \<noteq> Allowed"
    by (rule v) simp_all
  show "POLKIT_DEFAULT_ALLOW \<notin> flags \<Longrightarrow> fst (bus_verify_polkit_async_full msg a UID_INVALID flags m) \<noteq> Allowed"
    by (rule v) simp_all
qed

lemma next_refused: "fst v \<noteq> Allowed \<Longrightarrow> fst (verify_next v k) \<noteq> Allowed"
  by (cases v; cases "fst v") (simp_all add: verify_next_def)

lemma stranger_next:
  assumes "stranger msg m" "errors_negative msg"
  shows "fst (verify_each msg (a # as) m) \<noteq> Allowed"
    "fst (verify_inhibited msg x flags u i m) \<noteq> Allowed"
    "fst (verify_shutdown_creds msg x flags m) \<noteq> Allowed"
proof -
  have ask: "fst (bus_verify_polkit_async_full msg b UID_INVALID f (assert_that c (assert_that d m))) \<noteq> Allowed"
    if "POLKIT_DEFAULT_ALLOW \<notin> f" for b f c d
    using assms that by (intro verify_refused) (auto simp: stranger_def)
  have flags: "POLKIT_DEFAULT_ALLOW \<notin> interactive_flag flags" "POLKIT_DEFAULT_ALLOW \<notin> (if w then {} else {POLKIT_ALWAYS_QUERY})"
    for w by (simp_all add: interactive_flag_def)
  show "fst (verify_each msg (a # as) m) \<noteq> Allowed"
    using stranger_verify'(1) [OF assms] by (simp add: next_refused)
  have inh: "fst (verify_inhibited msg x flags u i (assert_that c (assert_that d m))) \<noteq> Allowed" for u i c d
    using ask flags by (simp add: verify_inhibited_def Let_def)
  then show "fst (verify_inhibited msg x flags u i m) \<noteq> Allowed"
    using inh [of u i True True] by (simp add: assert_true)
  show "fst (verify_shutdown_creds msg x flags m) \<noteq> Allowed"
  proof (cases "sender_euid msg")
    case (Inr u)
    define m' where "m' = assert_that (inhibit_what_is_valid (inhibit_what_of x))
      (assert_that (\<forall>s\<in>set (m_sessions m). s_class (ses m s) \<in> {SESSION_USER, SESSION_USER_EARLY} \<longrightarrow> has_user s m) m)"
    note def = verify_shutdown_creds_def [of msg x flags m, unfolded Inr sum.case Let_def m'_def [symmetric]]
    have ask': "fst (bus_verify_polkit_async_full msg (b, []) UID_INVALID (interactive_flag flags) m') \<noteq> Allowed" for b
      unfolding m'_def by (rule ask) (rule flags)
    have inh': "fst (verify_inhibited msg x flags u i m') \<noteq> Allowed" for i
      unfolding m'_def by (rule inh)
    show ?thesis
      unfolding def using ask' inh'
      by (cases "have_multiple_sessions u m'"; cases "offending x u m'") (simp_all add: next_refused verify_next_def [of "(Allowed, _)"])
  qed (simp add: verify_shutdown_creds_def)
qed

lemma only_asked_found:
  "checked P m n \<Longrightarrow> (\<And>y. x = Inr y \<Longrightarrow> only_asked P i m (snd (k y))) \<Longrightarrow> only_asked P i m (snd (found x n k))"
  by (simp add: found_def only_asked_checked split: sum.split)

lemma stranger_owner:
  assumes "stranger msg m" "s \<in> set (m_sessions m)" "P \<Longrightarrow> has_user s m"
  shows "only_asked P i m (snd (only_owner msg s m k))"
  using assms by (auto simp: only_owner_def sender_euid_def stranger_def Let_def
      intro!: only_asked_checked checked_assert split: sum.split)

lemma stranger_control: "stranger msg m \<Longrightarrow> s \<in> set (m_sessions m) \<Longrightarrow> \<not> in_control msg s m"
  by (simp add: stranger_def in_control_def)

lemma stranger_session:
  assumes "stranger msg m" "errors_negative msg" "s \<in> set (m_sessions m)" "P \<Longrightarrow> has_user s m"
  shows "only_asked P (msg_id msg) m (snd (session_dispatch msg s meth m))"
proof (cases meth)
  case (Take_control force)
  then show ?thesis
    using assms(1,3,4) by (auto simp: method_take_control_def sender_euid_def stranger_def Let_def
        intro!: only_asked_checked checked_assert split: sum.split)
qed (use assms stranger_control in \<open>auto simp: session_method_defs stranger_owner stranger_verify' asks only_asked_reply kind_def
    intro!: authorised_refused split: option.split\<close>)

lemma stranger_seat:
  assumes "stranger msg m" "errors_negative msg"
  shows "only_asked P (msg_id msg) m (snd (seat_dispatch msg st meth m))"
  by (cases meth) (auto simp: seat_method_defs stranger_verify' [OF assms] asks only_asked_reply intro!: authorised_refused)

lemma stranger_user:
  assumes "stranger msg m" "errors_negative msg" "u \<in> set (m_users m)"
  shows "only_asked P (msg_id msg) m (snd (user_dispatch msg u meth m))"
  using assms by (cases meth)
    (auto simp: bus_user_method_terminate_def bus_user_method_kill_def stranger_verify' asks only_asked_reply intro!: authorised_refused)

lemma stranger_no_session:
  assumes "stranger msg m"
  shows "\<exists>e. get_sender_session m msg False = Inl e"
  using assms by (auto simp: get_sender_session_def Let_def stranger_def split: sum.split)

lemma mask_bits_nonempty: "0 < w \<Longrightarrow> w < 2 ^ 32 \<Longrightarrow> mask_bits w \<noteq> []"
proof -
  assume w: "0 < w" "w < 2 ^ 32"
  then have "take_bit 32 w = w" by (simp add: take_bit_int_eq_self)
  then obtain i where "bit w i" "i < 32"
    using w(1) bit_eq_iff [of w 0] by (metis bit_0_eq bit_take_bit_iff bot_apply bot_bool_def less_irrefl)
  then show "mask_bits w \<noteq> []" by (auto simp: mask_bits_def filter_empty_conv)
qed

text \<open>A set of locks that is read has only the eight bits.\<close>

lemma or_below:
  assumes "0 \<le> x" "x < 256" "0 \<le> y" "y < 256"
  shows "0 \<le> x OR y" "x OR y < (256 :: int)"
  using OR_upper [of x 8 y] assms by simp_all

lemma names_range: "find P inhibit_what_names = Some (b, n) \<Longrightarrow> 0 \<le> b \<and> b < 256"
  by (auto simp: find_Some_iff inhibit_what_names_def nth_Cons' split: if_splits)

lemma what_loop_range: "0 \<le> w \<Longrightarrow> w < 256 \<Longrightarrow> inhibit_what_loop p w < 256"
proof (induction p w rule: inhibit_what_loop.induct)
  case (1 p w)
  obtain r word p' where e: "extract_first_word p (Some '':'') {EXTRACT_DONT_COALESCE_SEPARATORS} = (r, word, p')"
    by (cases "extract_first_word p (Some '':'') {EXTRACT_DONT_COALESCE_SEPARATORS}") auto
  have "inhibit_what_loop p' (w OR b) < 256"
    if "\<not> r < 0" "r \<noteq> 0" "find (\<lambda>x. snd x = the word) inhibit_what_names = Some (b, n)" for b n
    using 1(1) [OF e [symmetric] refl that refl] or_below [OF 1(2,3)] names_range [OF that(3)] by blast
  then show ?case
    unfolding inhibit_what_loop.simps [of p w] e using 1(3) by (auto split: option.split)
qed

lemma what_from_string_bits: "0 < inhibit_what_from_string what \<Longrightarrow> mask_bits (inhibit_what_from_string what) \<noteq> []"
  using what_loop_range [of 0 "Some what"] by (intro mask_bits_nonempty) (simp_all add: inhibit_what_from_string_def)

subsection \<open>Strangers\<close>

lemma stranger_by_name:
  assumes "stranger msg m" "errors_negative msg" "s \<in> set (m_sessions m)" "P \<Longrightarrow> has_user s m"
  shows "only_asked P (msg_id msg) m (snd (bus_session_method_activate msg s m))" "only_asked P (msg_id msg) m (snd (bus_session_method_lock msg s b m))"
    "only_asked P (msg_id msg) m (snd (bus_session_method_kill msg s whom signo m))" "only_asked P (msg_id msg) m (snd (bus_session_method_terminate msg s m))"
  using stranger_session [OF assms, where meth = Activate] stranger_session [OF assms, where meth = "Lock b"]
    stranger_session [OF assms, where meth = "Kill whom signo"] stranger_session [OF assms, where meth = Terminate]
  by simp_all

lemma stranger_user_by_name:
  assumes "stranger msg m" "errors_negative msg" "u \<in> set (m_users m)"
  shows "only_asked P (msg_id msg) m (snd (bus_user_method_kill msg u signo m))" "only_asked P (msg_id msg) m (snd (bus_user_method_terminate msg u m))"
  using stranger_user [OF assms, where meth = "User_kill signo"] stranger_user [OF assms, where meth = User_terminate] by simp_all

lemma stranger_seat_by_name:
  assumes "stranger msg m" "errors_negative msg"
  shows "only_asked P (msg_id msg) m (snd (bus_seat_method_terminate msg st m))"
  using stranger_seat [OF assms, where meth = Seat_terminate] by simp

lemma stranger_assert: "stranger msg (assert_that b m) = stranger msg m"
  by (simp add: stranger_def)

lemma stranger_shutdown:
  assumes "stranger msg m" "errors_negative msg" "P \<Longrightarrow> calm (Do_shutdown_or_sleep a arg) m"
  shows "only_asked P (msg_id msg) m (snd (method_do_shutdown_or_sleep msg a arg m))"
proof -
  let ?n = "assert_that (HANDLE_ACTION_IS_SHUTDOWN a \<or> HANDLE_ACTION_IS_SLEEP a) m"
  have n: "checked P m ?n"
    using assms(3) by (intro checked_assert) (auto simp: calm_def)
  have "asks P (msg_id msg) m (verify_shutdown_creds msg x flags ?n)" if "select_action a flags ?n = Inr x" for x flags
    using that assms(3) by (intro asks_shutdown n) (auto simp: calm_def power_action_what(1) select_power_action)
  then show ?thesis
    using n stranger_next(3) [of msg ?n] assms(1,2)
    by (auto simp: method_do_shutdown_or_sleep_def Let_def stranger_assert intro!: only_asked_found authorised_refused)
qed

lemma stranger_inhibit:
  assumes "stranger msg m" "errors_negative msg"
  shows "only_asked P (msg_id msg) m (snd (method_inhibit msg what who why mode m))"
proof -
  have "fst (verify_each msg (map f (mask_bits (inhibit_what_from_string what))) m) \<noteq> Allowed"
    if "0 < inhibit_what_from_string what" for f
    using stranger_next(1) [OF assms] what_from_string_bits [OF that]
    by (cases "mask_bits (inhibit_what_from_string what)") simp_all
  then show ?thesis
    by (auto simp: method_inhibit_def Let_def asks only_asked_reply intro!: authorised_refused split: option.split)
qed

lemma stranger_schedule:
  assumes "stranger msg m" "errors_negative msg" "P \<Longrightarrow> \<forall>s \<in> set (m_sessions m). has_user s m"
  shows "only_asked P (msg_id msg) m (snd (method_schedule_shutdown msg type elapse m))"
proof -
  have "asks P (msg_id msg) m (verify_shutdown_creds msg x flags m)" if "HANDLE_ACTION_IS_SHUTDOWN x" for x flags
    using that assms(3) by (intro asks_shutdown) (auto simp: power_action_what(1) power_action_of)
  then show ?thesis
    using stranger_next(3) [OF assms(1,2)]
    by (auto simp: method_schedule_shutdown_def Let_def intro!: authorised_refused split: option.split)
qed

lemma only_asked_can:
  assumes "P \<Longrightarrow> HANDLE_ACTION_IS_SHUTDOWN a \<or> HANDLE_ACTION_IS_SLEEP a"
  shows "only_asked P (msg_id msg) m (snd (method_can_shutdown_or_sleep msg a m))"
proof -
  have "checked P m (assert_that (HANDLE_ACTION_IS_SHUTDOWN a \<or> HANDLE_ACTION_IS_SLEEP a) m)"
    using assms by (intro checked_assert) auto
  then show ?thesis
    by (auto simp: method_can_shutdown_or_sleep_def Let_def only_asked_reply only_asked_checked
        intro!: only_asked_found split: option.split)
qed

lemma stranger_manager:
  assumes "wf m" "stranger msg m" "errors_negative msg" "vtable_unprivileged req"
  shows "only_asked (calm req m) (msg_id msg) m (snd (manager_dispatch msg req m))"
proof -
  note known = session_from_creds_known [OF assms(1)] seat_from_creds_known [OF assms(1)] user_from_creds_known
  note st = stranger_verify' [OF assms(2,3)] stranger_next [OF assms(2,3)] stranger_by_name [OF assms(2,3)]
    stranger_user_by_name [OF assms(2,3)] stranger_seat_by_name [OF assms(2,3)]
  have user: "has_user s m" if "manager_get_session_from_creds m msg name = Inr s" "calm req m" for s name
    using that session_from_creds_known [OF assms(1)] by (auto simp: calm_def)
  show ?thesis
  proof (cases req)
    case (Release_session name)
    then show ?thesis
      using stranger_no_session [OF assms(2)] by (auto simp: method_release_session_def found_def split: sum.split)
  next
    case (Do_shutdown_or_sleep a arg)
    then show ?thesis using stranger_shutdown [OF assms(2,3)] by simp
  next
    case (Schedule_shutdown type elapse)
    then show ?thesis using stranger_schedule [OF assms(2,3)] by (simp add: calm_def)
  next
    case (Inhibit what who why mode)
    then show ?thesis using stranger_inhibit [OF assms(2,3)] by (simp add: kind_def)
  next
    case (Can_shutdown_or_sleep a)
    then show ?thesis using only_asked_can by (simp add: kind_def calm_def)
  qed (use assms(4) in \<open>auto simp: manager_method_defs power_method_defs Let_def kind_def asks only_asked_reply st known user
      stranger_session [OF assms(2,3)] stranger_seat [OF assms(2,3)] stranger_user [OF assms(2,3)]
      intro!: only_asked_found authorised_refused split: option.split sum.split\<close>)
qed

lemma stranger_dispatch:
  assumes "wf m" "stranger msg m" "errors_negative msg"
  shows "only_asked (calm req m) (msg_id msg) m (snd (dispatch msg req m))"
proof (cases "vtable_unprivileged req")
  case True
  then show ?thesis using stranger_manager [OF assms True] by (simp add: dispatch_def check_access_def)
next
  case False
  then show ?thesis using assms(2) by (simp add: dispatch_def check_access_def stranger_def)
qed

end
