(* ===== verification/Daemon_Inv.thy ===== *)
theory Daemon_Inv
  imports Daemon
begin

text \<open>
  The daemon as a whole keeps the invariant of the object graph: a new manager has it, the start of
  the daemon establishes it from any directories and files that earlier runs have left, provided that no
  state file of a session names a device twice, and every operation of the running daemon keeps it.
\<close>

subsection \<open>Loops over names\<close>

lemma gather_inv:
  assumes "\<And>x m. x \<in> set l \<Longrightarrow> P m \<Longrightarrow> P (snd (f x m))" "P (snd acc)"
  shows "P (snd (gather g f l acc))"
proof -
  have "P (fold (\<lambda>x m. snd (f x m)) l m)" if "P m" for m
    using that assms(1) by (induction l arbitrary: m) auto
  then show ?thesis using assms(2) by (simp add: snd_gather)
qed

lemma fold_inv:
  assumes "\<And>x m. x \<in> set l \<Longrightarrow> P m \<Longrightarrow> P (f x m)" "P m"
  shows "P (fold f l m)"
  using assms by (induction l arbitrary: m) auto

lemma enumerate_dir_inv:
  assumes "\<And>x m. P m \<Longrightarrow> P (snd (f x m))" "P m"
  shows "P (snd (enumerate_dir path r f m))"
  using assms gather_inv [where P = P and f = f] by (auto simp: enumerate_dir_def split: sum.split)

lemma enumerate_udev_inv:
  assumes "\<And>x m. P m \<Longrightarrow> P (snd (f x m))" "P m"
  shows "P (snd (enumerate_udev tag f m))"
  using assms gather_inv [where P = P and f = f] by (auto simp: enumerate_udev_def split: sum.split)

subsection \<open>What loading leaves alone\<close>

text \<open>The system around the daemon and its table of sessions.\<close>

definition surroundings :: "manager \<Rightarrow> world \<times> (string \<Rightarrow> int + string) \<times> string list" where
  "surroundings m = (m_world m, m_files m, m_sessions m)"

lemma sur_tables: "same_tables m m' \<Longrightarrow> surroundings m' = surroundings m"
  by (simp add: surroundings_def same_tables_simps)

lemma sur_links: "same_links m m' \<Longrightarrow> surroundings m' = surroundings m"
  by (simp add: surroundings_def same_links_simps)

lemma sur_core: "same_core m m' \<Longrightarrow> surroundings m' = surroundings m"
  by (simp add: surroundings_def same_core_simps)

lemma sur_graph: "keeps_graph m m' \<Longrightarrow> surroundings m' = surroundings m"
  by (simp add: surroundings_def keeps_graphD)

lemma sur_upd [simp]:
  "surroundings (upd_ses s f1 m) = surroundings m" "surroundings (upd_seat st f2 m) = surroundings m"
  "surroundings (upd_user u f3 m) = surroundings m" "surroundings (upd_dev d f4 m) = surroundings m"
  "surroundings (upd_sd sd f5 m) = surroundings m" "surroundings (assert_that b m) = surroundings m"
  "surroundings (snd (sys e m)) = surroundings m" "surroundings (emit e m) = surroundings m"
  by (simp_all add: surroundings_def upd_defs assert_that_def sys_def emit_def)

lemma sur_process: "surroundings (snd (manager_process_seat_device d m)) = surroundings m"
proof -
  have free: "surroundings (device_free d' m') = surroundings m'" for d' m'
    using device_detach_tables [of m' d'] by (simp add: device_free_def Let_def surroundings_def same_tables_simps)
  have start: "surroundings (snd (seat_start st m')) = surroundings m'" for st m'
    using ses_active_vt(2) [of m' st]
    by (simp add: seat_start_def Let_def seat_send_signal_def surroundings_def upd_seat_def same_tables_simps)
  have attach: "surroundings (device_attach d' st m') = surroundings m'" for d' st m'
    by (rule sur_tables) (rule device_attach_tables)
  have queue: "surroundings (seat_add_to_gc_queue st m') = surroundings m'" for st m'
    by (rule sur_tables) (rule gc_queue_tables)
  have new: "surroundings (snd (seat_new st m')) = surroundings m'" for st m'
    by (simp add: seat_new_def Let_def surroundings_def upd_defs)
  show ?thesis
    by (auto simp: manager_process_seat_device_def manager_forget_device_def manager_add_device_def manager_add_seat_def
        device_new_def Let_def case_prod_beta free start attach queue new split: option.split)
      (simp_all add: surroundings_def upd_defs)
qed

lemma sur_device_new: "surroundings (snd (session_device_new s n b m)) = surroundings m"
proof -
  have verify: "surroundings (snd (session_device_verify s n m)) = surroundings m"
    by (auto simp: session_device_verify_def sur_process case_prod_beta split: option.split sum.split)
  have "surroundings (snd (session_device_first_open (s, n) y)) = surroundings y" for y
    using sur_tables [OF same_but_devices_tables [OF first_open_sbd(1)]] .
  then show ?thesis
    using verify by (auto simp: session_device_new_def Let_def case_prod_beta split: sum.split)
qed

lemma sur_load_devices: "surroundings (snd (session_load_devices_loop s p (r, m))) = surroundings m"
proof (induction "rest_len p" arbitrary: p r m rule: less_induct)
  case less
  obtain k word p' where w: "extract_first_word p None {} = (k, word, p')" by (metis prod_cases3)
  have "0 < k \<Longrightarrow> rest_len p' < rest_len p"
    using extract_first_word_progress [OF w] by simp
  then show ?case
    using less sur_device_new
    by (subst session_load_devices_loop.simps) (auto simp: w case_prod_beta split: sum.split)
qed

lemma sur_load_leader: "surroundings (snd (session_load_leader s vars r m)) = surroundings m"
proof -
  have "surroundings (snd (snd (pidref_set_pid old p m'))) = surroundings m'" for old p m'
    by (simp add: pidref_set_pid_def case_prod_beta Let_def)
  moreover have "surroundings (snd (session_set_leader_consume s p m')) = surroundings m'" for p m'
    by (rule sur_core) (rule core_set_leader)
  ultimately show ?thesis
    by (auto simp: session_load_leader_def Let_def case_prod_beta split: option.split sum.split)
qed

lemma sur_set_user: "surroundings (session_set_user s u m) = surroundings m"
  by (simp add: session_set_user_def user_update_last_session_timer_def Let_def surroundings_def upd_defs sys_def
      emit_def assert_that_def case_prod_beta split: option.split)

lemma sur_attach:
  assumes "s_seat (ses m s) = None"
  shows "surroundings (snd (seat_attach_session st s m)) = surroundings m"
proof -
  have "surroundings (seat_assign_position st s (link_seat st s m)) = surroundings m"
    using sur_tables [OF same_but_positions_tables [OF assign_sbp]] sur_tables [OF link_seat_tables] by metis
  then show ?thesis
    using sur_tables [OF seat_set_active_tables] by (simp add: attach_unfold [OF assms] Let_def)
qed

lemma sur_claim: "surroundings (seat_claim_position st s p m) = surroundings m"
  by (rule sur_tables) (rule same_but_positions_tables [OF claim_sbp])

lemma sur_load_seat: "surroundings (snd (session_load_seat s vars m)) = surroundings m"
  by (rule load_seat_keeps [where P = "\<lambda>m'. surroundings m' = surroundings m"])
    (simp_all add: sur_attach sur_claim)

lemma sur_load_controller:
  assumes "s \<in> set (m_sessions m)"
  shows "surroundings (session_load_controller s vars m) = surroundings m"
proof -
  have "surroundings (snd (session_set_controller s c False False m)) = surroundings m" for c
    by (rule sur_graph) (rule graph_set_controller [OF keeps_graph_refl assms])
  moreover have "surroundings (session_restore_vt s m) = surroundings m"
    by (rule sur_links) (rule links_restore_vt [OF same_links_refl])
  ultimately show ?thesis
    by (simp add: session_load_controller_def session_load_devices_def sur_load_devices split: option.split)
qed

lemma sur_session_load:
  assumes "s \<in> set (m_sessions m)"
  shows "surroundings (snd (session_load s m)) = surroundings m"
proof -
  have rest: "surroundings (snd (session_load_rest s vars m')) = surroundings m"
    if same: "surroundings m' = surroundings m" for vars m'
  proof -
    define m1 where "m1 = snd (session_load_seat s vars m')"
    define m2 where "m2 = session_load_display s (vars ''IS_DISPLAY'') (upd_ses s (session_load_times vars)
      (session_load_fifo s (upd_ses s (session_load_types vars) m1)))"
    have "surroundings (session_load_fifo s m'') = surroundings m''" for m''
      by (rule sur_links) (auto simp: session_load_fifo_def Let_def case_prod_beta split: option.split
          intro!: links_basic links_create_fifo same_links_refl)
    then have "surroundings m2 = surroundings m"
      using same by (simp add: m2_def m1_def session_load_display_def sur_load_seat split: option.split)
    moreover from this have "s \<in> set (m_sessions m2)" using assms by (simp add: surroundings_def)
    ultimately show ?thesis
      unfolding session_load_rest_def case_prod_beta Let_def m1_def [symmetric] m2_def [symmetric]
      by (simp add: sur_load_leader sur_load_controller)
  qed
  have "surroundings (snd (session_load_user s vars m')) = surroundings m'" for vars m'
    by (auto simp: session_load_user_def sur_set_user split: option.split sum.split)
  then show ?thesis
    using rest by (auto simp: session_load_def case_prod_beta split: sum.split)
qed

subsection \<open>A new manager\<close>

definition no_entries :: "manager \<Rightarrow> bool" where
  "no_entries m \<longleftrightarrow> m_devices m = [] \<and> m_seats m = [] \<and> m_sessions m = [] \<and> m_sessions_by_leader m = [] \<and>
     m_users m = [] \<and> m_seat_gc_queue m = [] \<and> m_session_gc_queue m = [] \<and> m_user_gc_queue m = [] \<and>
     m_cgroup_control_inotify_wd_session m = []"

lemma wf_no_entries: "no_entries m \<Longrightarrow> wf m"
  by (simp add: wf_def inv_defs no_entries_def)

lemma no_entries_objects: "no_entries m \<Longrightarrow> same_objects m m' \<Longrightarrow> no_entries m'"
  by (simp add: no_entries_def same_objects_fields)

lemma run_calls_same: "same_objects m (snd (run_calls cs m))"
  by (induction cs arbitrary: m) (auto simp: case_prod_beta sys_same intro: same_objects_trans [OF sys_same])

lemma close_same: "same_objects m (safe_close fd m)"
  by (simp add: safe_close_def emit_same)

text \<open>What a new manager has: whatever holds of the cleared structure and is kept by calls to the system, by
  the inotify descriptor and by the configuration.\<close>

lemma manager_new_keeps:
  assumes objects: "\<And>m m'. P m \<Longrightarrow> same_objects m m' \<Longrightarrow> P m'" and fd: "\<And>m x. P m \<Longrightarrow> P (m\<lparr>m_cgroup_inotify_fd := x\<rparr>)"
    and config: "\<And>m. P m \<Longrightarrow> P (manager_reset_config k m)"
    and cleared: "\<And>m'. no_entries m' \<Longrightarrow> m_world m' = m_world m \<Longrightarrow> m_files m' = m_files m \<Longrightarrow> P m'"
  shows "P (snd (manager_new k m))"
proof -
  have calls: "P m1 \<Longrightarrow> P (snd (run_calls cs m1))" for m1 cs
    by (rule objects [OF _ run_calls_same])
  have sys: "P m1 \<Longrightarrow> P (snd (sys e m1))" for m1 e
    by (rule objects [OF _ sys_same])
  have close: "P m1 \<Longrightarrow> P (safe_close fd m1)" for m1 fd
    by (rule objects [OF _ close_same])
  have cgroup: "P m1 \<Longrightarrow> P (snd (manager_setup_cgroup m1))" for m1
    unfolding manager_setup_cgroup_def Let_def case_prod_beta
    by (auto split: option.split simp del: run_calls.simps intro!: calls sys close fd)
  have pressure: "P m1 \<Longrightarrow> P (snd (manager_add_memory_pressure m1))" for m1
    by (simp add: manager_add_memory_pressure_def case_prod_beta sys objects [OF _ emit_same])
  show ?thesis
    unfolding manager_new_def Let_def case_prod_beta
    by (auto simp del: run_calls.simps intro!: calls pressure cgroup fd config) (rule cleared; simp add: no_entries_def)+
qed

lemma no_entries_new: "no_entries (snd (manager_new k m))"
  by (rule manager_new_keeps)
    (simp_all add: no_entries_def same_objects_fields manager_reset_config_def Let_def)

lemma system_new: "m_world (snd (manager_new k m)) = m_world m \<and> m_files (snd (manager_new k m)) = m_files m"
  by (rule manager_new_keeps [where P = "\<lambda>m'. m_world m' = m_world m \<and> m_files m' = m_files m"])
    (auto simp: same_objects_fields manager_reset_config_def Let_def)

lemma wf_manager_new: "wf (snd (manager_new k m))"
  by (rule wf_no_entries) (rule no_entries_new)

subsection \<open>The start\<close>

text \<open>\<open>settled m m'\<close>: the invariant holds and the surroundings are those of \<open>m\<close>.\<close>

definition settled :: "manager \<Rightarrow> manager \<Rightarrow> bool" where
  "settled m m' \<longleftrightarrow> wf m' \<and> surroundings m' = surroundings m"

lemma settled_graph: "settled m m' \<Longrightarrow> keeps_graph m' m'' \<Longrightarrow> settled m m''"
  by (simp add: settled_def sur_graph keeps_graphD)

lemma settled_same: "settled m m' \<Longrightarrow> same_graph m' m'' \<Longrightarrow> settled m m''"
  by (rule settled_graph [OF _ keeps_graph_same [OF keeps_graph_refl]])

lemma settled_objects: "settled m m' \<Longrightarrow> same_objects m' m'' \<Longrightarrow> settled m m''"
  by (rule settled_same [OF _ sg_objects [OF same_graph_refl]])

lemma settled_upd:
  "settled m m' \<Longrightarrow> settled m (m'\<lparr>m_console_active_fd := x\<rparr>)" "settled m m' \<Longrightarrow> settled m (m'\<lparr>m_seat0 := y\<rparr>)"
  using inv_congs [of "m'\<lparr>m_console_active_fd := x\<rparr>" m'] inv_congs [of "m'\<lparr>m_seat0 := y\<rparr>" m']
  by (simp_all add: settled_def surroundings_def wf_def)

lemma sg_utmp:
  "same_graph m m' \<Longrightarrow> same_graph m (manager_connect_utmp m')" "same_graph m m' \<Longrightarrow> same_graph m (manager_reconnect_utmp m')"
  by (simp_all add: manager_reconnect_utmp_def manager_connect_utmp_def case_prod_beta sg_upd sg_basic)

lemma settled_connect:
  assumes "settled m m'"
  shows "settled m (snd (startup_connect m'))"
proof -
  have calls: "settled m m1 \<Longrightarrow> settled m (snd (run_calls cs m1))" for m1 cs
    by (erule settled_objects) (rule run_calls_same)
  have sys: "settled m m1 \<Longrightarrow> settled m (snd (sys e m1))" for m1 e
    by (erule settled_objects) (rule sys_same)
  have elogind: "settled m m1 \<Longrightarrow> settled m (snd (elogind_manager_startup m1))" for m1
    unfolding elogind_manager_startup_def by (rule gather_inv) (simp_all add: sys)
  have assertion: "settled m m1 \<Longrightarrow> settled m (assert_that b m1)" for m1 b
    by (erule settled_objects) (rule assert_that_same [OF same_objects_refl])
  have console: "settled m m1 \<Longrightarrow> settled m (snd (manager_connect_console m1))" for m1
    unfolding manager_connect_console_def Let_def case_prod_beta
    by (auto simp del: run_calls.simps intro!: calls settled_upd sys assertion)
  have udev: "settled m m1 \<Longrightarrow> settled m (snd (manager_connect_udev m1))" for m1
    unfolding manager_connect_udev_def Let_def by (rule calls)
  have utmp: "settled m m1 \<Longrightarrow> settled m (manager_connect_utmp m1)" for m1
    by (erule settled_same) (rule sg_utmp(1) [OF same_graph_refl])
  have bus: "settled m m1 \<Longrightarrow> settled m (snd (manager_connect_bus m1))" for m1
    unfolding manager_connect_bus_def by (rule calls)
  show ?thesis
    unfolding startup_connect_def case_prod_beta by (auto intro!: sys elogind utmp console udev bus assms)
qed

lemma settled_add_seat:
  assumes "settled m m'"
  shows "settled m (snd (manager_add_seat st m'))"
proof -
  have "surroundings (snd (manager_add_seat st m')) = surroundings m'"
    by (simp add: manager_add_seat_def case_prod_beta seat_new_def Let_def surroundings_def upd_defs)
  then show ?thesis using assms wf_add_seat(1) by (simp add: settled_def)
qed

lemma settled_devices: "settled m m' \<Longrightarrow> settled m (snd (manager_enumerate_devices m'))"
  unfolding manager_enumerate_devices_def
  by (rule enumerate_udev_inv) (simp_all add: settled_def sur_process wf_process_seat_device)

lemma settled_seats: "settled m m' \<Longrightarrow> settled m (snd (manager_enumerate_seats m'))"
  unfolding manager_enumerate_seats_def
  by (rule enumerate_dir_inv)
    (auto simp: enumerate_seat_def seat_load_def intro: settled_objects [OF _ sys_same])

lemma settled_add_user:
  assumes "settled m m'"
  shows "settled m (snd (manager_add_user_by_name n m'))" "settled m (snd (manager_add_user_by_uid u m'))"
proof -
  have "surroundings (snd (user_new ur m')) = surroundings m'" for ur
    by (simp add: user_new_def surroundings_def upd_defs emit_def)
  then show "settled m (snd (manager_add_user_by_name n m'))" "settled m (snd (manager_add_user_by_uid u m'))"
    using assms wf_add_user(2,3) [of m']
    by (auto simp: settled_def manager_add_user_by_name_def manager_add_user_by_uid_def manager_add_user_def
        case_prod_beta split: sum.split)
qed

lemma settled_users:
  assumes "settled m m'"
  shows "settled m (snd (manager_enumerate_users m'))"
proof -
  have linger: "settled m (snd (enumerate_linger_user n m1))" if "settled m m1" for n m1
    using settled_add_user(1) [OF that] that by (auto simp: enumerate_linger_user_def split: option.split)
  have load: "settled m (snd (user_load u (user_add_to_gc_queue u m1)))" if "settled m m1" "u \<in> set (m_users m1)" for u m1
  proof -
    have "keeps_graph m1 (user_add_to_gc_queue u m1)"
      using graph_user_gc [OF keeps_graph_refl that(2)] .
    moreover have "user_keeps (user_load_vars vars)" for vars
      by (simp add: user_keeps_def user_load_vars_def Let_def)
    ultimately have "keeps_graph m1 (snd (user_load u (user_add_to_gc_queue u m1)))"
      by (auto simp: user_load_def graph_upd_user split: sum.split)
    with that(1) show ?thesis by (rule settled_graph)
  qed
  have user: "settled m (snd (enumerate_user n m1))" if "settled m m1" for n m1
    using settled_add_user(2) [OF that] load add_user_known that
    by (auto simp: enumerate_user_def case_prod_beta split: sum.split)
  have "settled m (snd (manager_enumerate_linger_users m'))"
    unfolding manager_enumerate_linger_users_def using linger assms by (rule enumerate_dir_inv)
  with user have "settled m (snd (enumerate_dir ''/run/systemd/users'' r enumerate_user
      (snd (manager_enumerate_linger_users m'))))" for r
    by (rule enumerate_dir_inv)
  then show ?thesis by (simp add: manager_enumerate_users_def case_prod_beta)
qed

text \<open>No state file of a session names a device twice.\<close>

definition session_files_ok :: "manager \<Rightarrow> bool" where
  "session_files_ok m \<longleftrightarrow>
     (\<forall>s contents x vars. m_files m (session_state_file s) = Inr contents \<longrightarrow>
        parse_env_file session_load_keys contents (session_load_init x) = Inr vars \<longrightarrow>
        distinct (load_devnums (vars ''DEVICES'')))"

lemma session_files_okD: "session_files_ok m \<Longrightarrow> m_files m' = m_files m \<Longrightarrow> session_file_ok s m'"
  unfolding session_files_ok_def session_file_ok_def by (auto split: sum.split)

lemma enumerate_session:
  assumes "wf m" "udev_ok m" "session_files_ok m" "name \<notin> set (m_sessions m)"
  defines "m' \<equiv> snd (enumerate_session name m)"
  shows "wf m'" "m_world m' = m_world m" "m_files m' = m_files m" "set (m_sessions m') \<subseteq> insert name (set (m_sessions m))"
proof -
  define m1 where "m1 = (upd_ses name (\<lambda>_. new_session) m)\<lparr>m_sessions := name # m_sessions m\<rparr>"
  define m2 where "m2 = session_add_to_gc_queue name m1"
  have new: "m' = (if session_id_valid name then snd (session_load name m2) else m)"
    using assms(4) by (simp add: m'_def enumerate_session_def manager_add_session_def session_new_def m1_def m2_def)
  have "wf m1" if "session_id_valid name"
    using wf_session_new [OF assms(1,4)] assms(4) that by (simp add: session_new_def m1_def)
  then have graph: "wf m2 \<and> surroundings m2 = surroundings m1" if "session_id_valid name"
    using that graph_gc_queue [of m1 m1 name] by (simp add: m1_def m2_def keeps_graphD(1) sur_graph)
  have m1: "m_world m1 = m_world m" "m_files m1 = m_files m" "m_sessions m1 = name # m_sessions m" "s_devices (ses m1 name) = []"
    by (simp_all add: m1_def upd_ses_def new_session_def)
  have devices: "s_devices (ses m2 name) = []"
    using m1(4) by (simp add: m2_def session_add_to_gc_queue_def upd_ses_def)
  have "wf m' \<and> surroundings m' = (if session_id_valid name then surroundings m1 else surroundings m)"
  proof (cases "session_id_valid name")
    case True
    have m2: "m_world m2 = m_world m" "m_files m2 = m_files m" "name \<in> set (m_sessions m2)"
      using graph [OF True] m1 by (simp_all add: surroundings_def)
    have "wf (snd (session_load name m2))"
      using graph [OF True] udev_ok_world [OF m2(1)] assms(2) m2 devices session_files_okD [OF assms(3)]
      by (intro wf_session_load) simp_all
    then show ?thesis using graph [OF True] True sur_session_load [OF m2(3)] by (simp add: new)
  qed (simp add: new assms(1))
  then show "wf m'" "m_world m' = m_world m" "m_files m' = m_files m" "set (m_sessions m') \<subseteq> insert name (set (m_sessions m))"
    using m1 by (auto simp: surroundings_def split: if_splits)
qed

lemma enumerate_sessions:
  assumes "wf m" "udev_ok m" "session_files_ok m" "distinct names" "set names \<inter> set (m_sessions m) = {}"
  shows "wf (snd (gather ret_gather enumerate_session names (r, m)))"
  using assms unfolding snd_gather snd_conv
proof (induction names arbitrary: m)
  case (Cons n names)
  let ?m = "snd (enumerate_session n m)"
  have n: "n \<notin> set (m_sessions m)" using Cons.prems(5) by simp
  note e = enumerate_session [OF Cons.prems(1-3) n]
  have "udev_ok ?m" "session_files_ok ?m"
    using Cons.prems(2,3) e(2,3) by (simp_all add: udev_ok_def session_files_ok_def)
  moreover have "set names \<inter> set (m_sessions ?m) = {}" using Cons.prems(4,5) e(4) by auto
  ultimately show ?case using Cons.IH [of ?m] Cons.prems(4) e by simp
qed simp

lemma wf_attach_fd:
  assumes "wf m"
  shows "wf (snd (manager_attach_session_fd_one_consume name fd m))"
proof -
  have warn: "wf (close_and_notify_warn fd name m') = wf m'" for m'
    using wf_same_objects [OF same_objects_trans [OF emit_same close_same]] by (simp add: close_and_notify_warn_def)
  have device: "wf (snd (deliver_session_device_fd s fd n m')) = wf m'" for s n m'
  proof -
    let ?m = "session_device_attach_fd (s, n) fd (s_was_active (ses m' s)) m'"
    have "same_but_devices m' ?m" "sd_keeps m' ?m"
      unfolding session_device_attach_fd_def
      by (intro sbd_upd_sd sbd_assert same_but_devices_refl) (simp add: sd_keeps_def upd_sd_def assert_that_def)
    then have "wf ?m = wf m'" by (rule wf_same_but_devices)
    then show ?thesis by (simp add: deliver_session_device_fd_def Let_def)
  qed
  have leader: "wf (snd (deliver_session_leader_fd_consume s name fd m))" if "s \<in> set (m_sessions m)" for s
    using assms that wf_set_leader
    by (auto simp: deliver_session_leader_fd_consume_def Let_def case_prod_beta warn pidref_is_set_def pidfd_get_pid_def)
  show ?thesis
    using assms leader
    by (auto simp: manager_attach_session_fd_one_consume_def case_prod_beta warn device split: option.split sum.split)
qed

lemma sg_process_button: "same_graph m m' \<Longrightarrow> same_graph m (snd (manager_process_button_device d m'))"
  unfolding manager_process_button_device_def manager_add_button_def case_prod_beta
  by (auto split: option.split intro!: sg_open sg_buttons)

lemma sg_enumerate_inhibitor: "same_graph m m' \<Longrightarrow> same_graph m (snd (enumerate_inhibitor i m'))"
  unfolding enumerate_inhibitor_def manager_add_inhibitor_def case_prod_beta
  by (auto intro!: sg_inhibitors sg_inhibitor_load)

lemma wf_startup_enumerate:
  assumes "settled m0 m" "udev_ok m0" "session_files_ok m0" "m_sessions m0 = []"
    "\<And>names. w_dirs (m_world m0) ''/run/systemd/sessions'' = Inr names \<Longrightarrow> distinct names"
  shows "wf (startup_enumerate m)"
proof -
  define m1 where "m1 = snd (manager_set_lid_switch_ignore (m_holdoff_timeout_usec m) m)"
  define m2 where "m2 = snd (manager_enumerate_users (snd (manager_enumerate_seats (snd (manager_enumerate_devices m1)))))"
  define m3 where "m3 = snd (manager_enumerate_sessions m2)"
  define m4 where "m4 = snd (manager_enumerate_inhibitors m3)"
  have "settled m0 m1"
    using settled_same [OF assms(1) power_only_graph [OF po_lid_ignore [OF power_only_refl]]] by (simp add: m1_def)
  then have m2: "settled m0 m2" by (simp add: m2_def settled_users settled_seats settled_devices)
  then have sur: "m_world m2 = m_world m0" "m_files m2 = m_files m0" "m_sessions m2 = []"
    using assms(4) by (simp_all add: settled_def surroundings_def)
  have ok: "wf m2" "udev_ok m2" "session_files_ok m2"
    using m2 assms(2,3) sur by (simp_all add: settled_def udev_ok_def session_files_ok_def)
  have fds: "wf (snd (attach_session_fds r m'))" if "wf m'" for r m'
    unfolding attach_session_fds_def
    by (auto split: sum.split simp: that intro!: gather_inv [where P = wf] wf_attach_fd)
  have "wf (snd (gather ret_gather enumerate_session names (r, m2)))"
    if "w_dirs (m_world m2) ''/run/systemd/sessions'' = Inr names" for names r
    using enumerate_sessions [OF ok] that assms(5) sur(1,3) by simp
  then have "wf m3"
    using ok fds by (auto simp: m3_def manager_enumerate_sessions_def case_prod_beta split: sum.split)
  moreover have "same_graph m3 m4"
    unfolding m4_def manager_enumerate_inhibitors_def
    by (rule enumerate_dir_inv) (simp_all add: sg_enumerate_inhibitor)
  moreover have "same_graph m4 (snd (manager_enumerate_buttons m4))"
    unfolding manager_enumerate_buttons_def
    by (simp add: enumerate_udev_inv [where P = "same_graph m4"] sg_process_button)
  ultimately show ?thesis
    unfolding startup_enumerate_def Let_def m1_def [symmetric] m2_def [symmetric] m3_def [symmetric] m4_def [symmetric]
    using wf_same_graph sg_load_schedule by blast
qed

lemma wf_read_utmp:
  assumes "wf m"
  shows "wf (snd (manager_read_utmp m))"
proof -
  have keeps: "ses_keeps (\<lambda>x. x\<lparr>s_tty := a, s_tty_validity := b\<rparr>)" for a b
    by (simp add: ses_keeps_def)
  have entry: "wf (manager_read_utmp_entry u m')" if "wf m'" for u m'
    using that unfolding manager_read_utmp_entry_def by (simp add: wf_upd_ses [OF keeps] split: prod.split option.split)
  have "wf (snd (sys e m))" for e using assms wf_same_objects [OF sys_same] by simp
  then have "wf (fold manager_read_utmp_entry us (snd (sys e m)))" for us e
    using entry by (intro fold_inv [where P = wf]) simp_all
  then show ?thesis
    using \<open>\<And>e. wf (snd (sys e m))\<close> by (simp add: manager_read_utmp_def case_prod_beta)
qed

lemma wf_startup_start:
  assumes "wf m"
  shows "wf (startup_start m)"
proof -
  define m1 where "m1 = snd (manager_read_utmp m)"
  define m2 where "m2 = fold (\<lambda>st m. snd (seat_start st m)) (m_seats m1) m1"
  define m3 where "m3 = fold (\<lambda>u m. snd (user_start u m)) (m_users m2) m2"
  define m4 where "m4 = fold (\<lambda>s m. snd (session_start s m)) (m_sessions m3) m3"
  define m5 where "m5 = fold startup_inhibitor (m_inhibitors m4) m4"
  define m6 where "m6 = fold (\<lambda>b m. snd (button_check_switches b m)) (m_buttons m5) m5"
  have "wf m1" using assms wf_read_utmp by (simp add: m1_def)
  have "keeps_graph m1 m2"
    unfolding m2_def by (rule graph.fold_rel) (simp add: graph_seat_start keeps_graphD)
  moreover have "keeps_graph m2 m3"
    unfolding m3_def by (rule graph.fold_rel) (simp add: graph_user_start)
  ultimately have "wf m3" using \<open>wf m1\<close> keeps_graphD(1) by blast
  have "keeps_graph m3 m4"
    unfolding m4_def by (rule graph.fold_rel) (simp add: graph_session_start keeps_graphD \<open>wf m3\<close>)
  moreover have "same_graph m4 m5"
    unfolding m5_def startup_inhibitor_def Let_def
    by (rule same_graph.fold_rel) (auto intro!: sg_inhibitors)
  moreover have "same_graph m5 m6"
    unfolding m6_def by (rule same_graph.fold_rel) (auto intro!: sg_buttons)
  moreover have "same_graph m6 (snd (manager_dispatch_idle_action m6))"
    using power_only_graph [OF po_idle [OF power_only_refl]] .
  ultimately have "wf (snd (manager_dispatch_idle_action m6))"
    using \<open>wf m3\<close> keeps_graphD(1) wf_same_graph by blast
  then show ?thesis
    unfolding startup_start_def Let_def m1_def [symmetric] m2_def [symmetric] m3_def [symmetric] m4_def [symmetric]
      m5_def [symmetric] m6_def [symmetric] .
qed

theorem manager_startup_ends:
  assumes "wf m" "m_sessions m = []" "udev_ok m" "session_files_ok m"
    "\<And>names. w_dirs (m_world m) ''/run/systemd/sessions'' = Inr names \<Longrightarrow> distinct names"
  shows "\<exists>r m'. manager_startup m = Some (r, m') \<and> wf m'"
proof -
  define c where "c = startup_connect m"
  define a where "a = manager_add_seat ''seat0'' (snd c)"
  have "settled m m" using assms(1) by (simp add: settled_def)
  then have c: "settled m (snd c)" by (simp add: c_def settled_connect)
  then have a: "settled m (snd a)" by (simp add: a_def settled_add_seat)
  then have "wf (startup_enumerate ((snd a)\<lparr>m_seat0 := Some ''seat0''\<rparr>))"
    using assms by (intro wf_startup_enumerate [of m] settled_upd) simp_all
  then obtain m' where m': "manager_gc False (startup_enumerate ((snd a)\<lparr>m_seat0 := Some ''seat0''\<rparr>)) = Some m'" "wf m'"
    using manager_gc_ends by blast
  have eq: "manager_startup m = (if fst c < 0 then Some c else if fst a < 0 then Some a else Some (0, startup_start m'))"
    unfolding manager_startup_def c_def [symmetric] case_prod_beta a_def [symmetric] m'(1) by simp
  then show ?thesis
    using c a wf_startup_start [OF m'(2)] by (cases c; cases a) (auto simp: settled_def)
qed

subsection \<open>Names of stored descriptors\<close>

fun join_dash :: "string list \<Rightarrow> string" where
  "join_dash [] = []"
| "join_dash [w] = w"
| "join_dash (w # ws) = w @ ''-'' @ join_dash ws"

lemma split_dash:
  "ws \<noteq> [] \<Longrightarrow> \<forall>w \<in> set ws. plain_word ''-'' w \<Longrightarrow>
   strv_split_loop (Some ''-'') (Some (join_dash ws)) {EXTRACT_RETAIN_ESCAPE} = Inr ws"
proof (induction ws rule: join_dash.induct)
  case (2 w)
  have "strv_split_loop (Some ''-'') None {EXTRACT_RETAIN_ESCAPE} = Inr []"
    by (subst strv_split_loop.simps) (simp add: extract_first_word_def)
  then show ?case using 2 by (subst strv_split_loop.simps) (simp add: extract_first_word_plain_last)
next
  case (3 w w' ws)
  have w: "plain_word ''-'' w" "plain_word ''-'' w'" using 3 by simp_all
  then obtain c cs where "join_dash (w' # ws) = c # cs" "c \<noteq> CHR ''-''"
    by (cases w'; cases ws) (auto simp: plain_word_def)
  then have "dropWhile (\<lambda>c. c \<in> set ''-'') (''-'' @ join_dash (w' # ws)) = join_dash (w' # ws)"
    "join_dash (w' # ws) = c # cs" by simp_all
  then have "extract_first_word (Some (join_dash (w # w' # ws))) (Some ''-'') {EXTRACT_RETAIN_ESCAPE} =
      (1, Some w, Some (join_dash (w' # ws)))"
    using extract_first_word_plain [OF w(1), of "CHR ''-''" "join_dash (w' # ws)"]
    by (simp add: extract_at_separator_def)
  then show ?case using 3 by (subst strv_split_loop.simps) simp
qed simp

lemma plain_alnum:
  assumes "s \<noteq> []" "\<And>c. c \<in> set s \<Longrightarrow> ascii_isalpha c \<or> ascii_isdigit c"
  shows "plain_word ''-'' s"
proof -
  have "CHR ''-'' \<notin> set s" "SQUOTE \<notin> set s" "DQUOTE \<notin> set s" "BACKSLASH \<notin> set s"
    using assms(2) by (fastforce simp: ascii_isalpha_def ascii_isdigit_def)+
  then show ?thesis using assms(1) by (auto simp: plain_word_def)
qed

lemma plain_words:
  "session_id_valid s \<Longrightarrow> plain_word ''-'' s" "plain_word ''-'' (dec n)"
  using dec_char(6) dec_hd [of n] by (auto simp: session_id_valid_def intro!: plain_alnum)

lemma parse_fdname_device:
  assumes "session_id_valid s" "x < 2 ^ 32" "y < 2 ^ 32"
  shows "parse_fdname (session_device_fd_name (s, (x, y))) = Some (Inr (s, (x, y)))"
proof -
  have "session_device_fd_name (s, (x, y)) = join_dash [''session'', s, ''device'', dec x, dec y]"
    by (simp add: session_device_fd_name_def)
  moreover have "\<forall>w \<in> set [''session'', s, ''device'', dec x, dec y]. plain_word ''-'' w"
    using assms plain_words by (simp add: plain_word_def)
  ultimately have "strv_split_full (session_device_fd_name (s, (x, y))) (Some ''-'') {EXTRACT_RETAIN_ESCAPE} =
      Inr [''session'', s, ''device'', dec x, dec y]"
    using split_dash [of "[''session'', s, ''device'', dec x, dec y]"] unfolding strv_split_full_def by simp
  then show ?thesis using assms by (simp add: parse_fdname_def safe_atou_dec)
qed

lemma parse_fdname_leader:
  assumes "session_id_valid s"
  shows "parse_fdname (leader_fd_name s) = Some (Inr (s, (0, 0)))"
proof -
  have "leader_fd_name s = join_dash [''session'', s, ''leader'', ''fd'']"
    by (simp add: leader_fd_name_def)
  moreover have "\<forall>w \<in> set [''session'', s, ''leader'', ''fd'']. plain_word ''-'' w"
    using assms plain_words by (simp add: plain_word_def)
  ultimately have "strv_split_full (leader_fd_name s) (Some ''-'') {EXTRACT_RETAIN_ESCAPE} =
      Inr [''session'', s, ''leader'', ''fd'']"
    using split_dash [of "[''session'', s, ''leader'', ''fd'']"] unfolding strv_split_full_def by simp
  then show ?thesis by (simp add: parse_fdname_def)
qed

interpretation fd_name: codec session_device_fd_name
  "\<lambda>name. Option.bind (parse_fdname name) success" "\<lambda>(s, x, y). session_id_valid s \<and> x < 2 ^ 32 \<and> y < 2 ^ 32"
  by unfold_locales (auto simp: parse_fdname_device)

subsection \<open>The end\<close>

lemma wf_free_bare_seat:
  assumes "wf m" "st \<in> set (m_seats m)" "m_devices m = []"
  shows "wf (seat_free st m)" "m_seats (seat_free st m) = remove1 st (m_seats m)" "m_devices (seat_free st m) = []"
    "m_users (seat_free st m) = m_users m"
proof -
  define m1 where "m1 = (if st_in_gc_queue (sts m st) then m\<lparr>m_seat_gc_queue := remove1 st (m_seat_gc_queue m)\<rparr> else m)"
  define m2 where "m2 = fold session_free (st_sessions (sts m1 st)) m1"
  define m3 where "m3 = assert_that (st_active (sts m2 st) = None) m2"
  have wf1: "wf m1" using wf_unqueue(1) [OF assms(1)] assms(1) by (simp add: m1_def)
  have m1: "st \<in> set (m_seats m1)" "m_devices m1 = []" "st \<notin> set (m_seat_gc_queue m1)"
    using assms(2,3) wfD(7) [OF assms(1)] by (auto simp: m1_def inv_queues_def set_remove1_distinct)
  note ss = seats_sessions [OF wf1 m1(1)]
  have l: "distinct (st_sessions (sts m1 st))" "set (st_sessions (sts m1 st)) \<subseteq> set (m_sessions m1)"
    using wf_distinct(8) [OF wf1 m1(1)] ss by auto
  note f = fold_session_free [OF wf1 l, folded m2_def]
  have wf3: "wf m3" and m3: "st \<in> set (m_seats m3)" "m_devices m3 = []" "st \<notin> set (m_seat_gc_queue m3)"
    using f(1,3,5) m1 gc_withinD(1) [OF f(9)] by (simp_all add: m3_def)
  have "set (st_sessions (sts m3 st)) = {}"
    using seats_sessions [OF wf3 m3(1)] f(2,8) ss by (auto simp: m3_def)
  moreover have devices: "set (st_devices (sts m3 st)) = {}"
    using wf_seat_device(1) [OF wf3 m3(1)] m3(2) by fastforce
  ultimately have "wf (m3\<lparr>m_seats := remove1 st (m_seats m3)\<rparr>)"
    using wf3 m3(3) by (intro wf_remove_seat) simp_all
  moreover have "seat_free st m = m3\<lparr>m_seats := remove1 st (m_seats m3)\<rparr>"
    using devices unfolding seat_free_def Let_def m1_def [symmetric] m2_def [symmetric] m3_def [symmetric] by simp
  ultimately show "wf (seat_free st m)" "m_seats (seat_free st m) = remove1 st (m_seats m)"
    "m_devices (seat_free st m) = []" "m_users (seat_free st m) = m_users m"
    using m3(2) f(3,4) by (simp_all add: m3_def m1_def)
qed

text \<open>A loop that frees every entry of a table empties it.\<close>

lemma fold_free_all:
  assumes "\<And>x m. P m \<Longrightarrow> x \<in> set (table m) \<Longrightarrow> P (free x m) \<and> table (free x m) = remove1 x (table m)" "P m"
  shows "P (fold free (table m) m) \<and> table (fold free (table m) m) = []"
proof -
  have "P (fold free l m) \<and> table (fold free l m) = []" if "P m" "table m = l" for l m
    using that by (induction l arbitrary: m) (use assms(1) in auto)
  then show ?thesis using assms(2) by blast
qed

lemma elogind_free_keeps:
  "wf m \<Longrightarrow> wf (elogind_manager_free m)" "m_devices (elogind_manager_free m) = m_devices m"
  "m_seats (elogind_manager_free m) = m_seats m" "m_sessions (elogind_manager_free m) = m_sessions m"
  "m_sessions_by_leader (elogind_manager_free m) = m_sessions_by_leader m" "m_users (elogind_manager_free m) = m_users m"
proof -
  have f: "m_devices (manager_shutdown_cgroup m) = m_devices m" "m_seats (manager_shutdown_cgroup m) = m_seats m"
    "m_sessions (manager_shutdown_cgroup m) = m_sessions m" "m_users (manager_shutdown_cgroup m) = m_users m"
    "m_sessions_by_leader (manager_shutdown_cgroup m) = m_sessions_by_leader m"
    "sts (manager_shutdown_cgroup m) = sts m" "ses (manager_shutdown_cgroup m) = ses m" "usr (manager_shutdown_cgroup m) = usr m"
    "dev (manager_shutdown_cgroup m) = dev m" "sdv (manager_shutdown_cgroup m) = sdv m"
    "m_seat_gc_queue (manager_shutdown_cgroup m) = m_seat_gc_queue m" "m_user_gc_queue (manager_shutdown_cgroup m) = m_user_gc_queue m"
    "m_session_gc_queue (manager_shutdown_cgroup m) = m_session_gc_queue m"
    by (simp_all add: manager_shutdown_cgroup_def Let_def safe_close_def emit_def)
  have fd: "m_cgroup_inotify_fd (manager_shutdown_cgroup m) = - EBADF"
    by (simp add: manager_shutdown_cgroup_def Let_def)
  show "wf (elogind_manager_free m)" if "wf m"
  proof -
    have "wf (manager_shutdown_cgroup m)"
    proof (rule wfI)
      show "inv_leaders (manager_shutdown_cgroup m)" using wfD(8) [OF that] by (simp add: inv_leaders_def f fd)
    qed (use wfD [OF that] inv_congs(1-7) [of "manager_shutdown_cgroup m" m] f in simp_all)
    then show ?thesis using that by (simp add: elogind_manager_free_def)
  qed
qed (simp_all add: elogind_manager_free_def manager_shutdown_cgroup_def Let_def safe_close_def emit_def)

lemma manager_free_all:
  assumes "wf m"
  defines "m' \<equiv> manager_free m"
  shows "wf m'" "m_devices m' = []" "m_seats m' = []" "m_sessions m' = []" "m_sessions_by_leader m' = []" "m_users m' = []"
proof -
  define m1 where "m1 = fold device_free (m_devices m) m"
  define m2 where "m2 = fold seat_free (m_seats m1) m1"
  define m3 where "m3 = fold session_free (m_sessions m2) m2"
  define m4 where "m4 = fold user_free (m_users m3) m3"
  define m5 where "m5 = fold inhibitor_free (m_inhibitors m4) m4"
  define m6 where "m6 = fold button_free (m_buttons m5) m5"
  define m7 where "m7 = fold brightness_writer_free (map fst (m_brightness_writers m6)) m6"
  have m1: "wf m1 \<and> m_devices m1 = []"
    unfolding m1_def by (rule fold_free_all [where P = wf]) (simp_all add: wf_device_free assms(1))
  have m2: "(wf m2 \<and> m_devices m2 = []) \<and> m_seats m2 = []"
    unfolding m2_def
    by (rule fold_free_all [where P = "\<lambda>m. wf m \<and> m_devices m = []"]) (simp_all add: wf_free_bare_seat m1)
  have l: "distinct (m_sessions m2)" using m2 wf_distinct(1) by blast
  note f = fold_session_free [OF _ l subset_refl, folded m3_def]
  have m3: "wf m3" "m_devices m3 = []" "m_seats m3 = []" "m_sessions m3 = []"
    using f m2 by simp_all
  have leaders: "m_sessions_by_leader m3 = []"
    using leaderD(1) [OF wfD(8) [OF m3(1)]] m3(4) by (cases "m_sessions_by_leader m3") fastforce+
  have none: "m_sessions (user_free u m) = []" if "wf m" "u \<in> set (m_users m)" "m_sessions m = []" for u m
    using wf_user_free(3) [OF that(1,2)] that(3) by simp
  have "(wf m4 \<and> m_devices m4 = [] \<and> m_seats m4 = [] \<and> m_sessions m4 = []) \<and> m_users m4 = []"
    unfolding m4_def
    by (rule fold_free_all [where P = "\<lambda>m. wf m \<and> m_devices m = [] \<and> m_seats m = [] \<and> m_sessions m = []"])
      (use wf_user_free none m3 in auto)
  moreover from this have "m_sessions_by_leader m4 = []"
    using leaderD(1) [OF wfD(8), of m4] by (cases "m_sessions_by_leader m4") fastforce+
  moreover define m8 where "m8 = (let m = (if m_console_active_fd m7 \<ge> 0 then safe_close (m_console_active_fd m7) m7 else m7);
      m = (if sch_unlink_nologin (m_schedule m) then emit (Sys_unlink ''/run/nologin'') m else m) in m\<lparr>m_polkit_registry := []\<rparr>)"
  moreover have "same_graph m4 m8"
  proof -
    have "same_graph m4 m5"
      unfolding m5_def by (rule same_graph.fold_rel) (simp add: sg_inhibitors)
    also have "same_graph m5 m6"
      unfolding m6_def by (rule same_graph.fold_rel) (simp add: sg_buttons)
    also have "same_graph m6 m7"
      unfolding m7_def by (rule same_graph.fold_rel) (simp add: brightness_writer_free_def sg_upd)
    also have "same_graph m7 m8"
      unfolding m8_def Let_def by (rule sg_upd) (simp add: sg_basic sg_objects [OF same_graph_refl close_same])
    finally show ?thesis .
  qed
  moreover have "m' = elogind_manager_free m8"
  proof -
    have "assert_that (m_sessions_by_leader m3 = []) m3 = m3" using leaders by (simp add: assert_that_def)
    then show ?thesis
      unfolding m'_def manager_free_def Let_def m1_def [symmetric] m2_def [symmetric] m3_def [symmetric]
      by (simp add: m4_def m5_def m6_def m7_def m8_def)
  qed
  ultimately show "wf m'" "m_devices m' = []" "m_seats m' = []" "m_sessions m' = []" "m_sessions_by_leader m' = []" "m_users m' = []"
    using wf_same_graph [of m4 m8] by (simp_all add: same_graph_def elogind_free_keeps)
qed

end
