(* ===== verification/Bus_Inv.thy ===== *)
theory Bus_Inv
  imports Bus_Auth Daemon_Inv Schedule_Inv
begin

text \<open>
  Every method on the bus, from the access check to the reply, keeps the object graph consistent: whatever is asked, by
  whomever, with whatever arguments, and whatever fails on the way.
\<close>

subsection \<open>The parts of a method\<close>

text \<open>Asking polkit leaves all objects as they are.\<close>

lemma same_but_asked_graph: "same_but_asked m m' \<Longrightarrow> same_graph m m'"
  unfolding same_graph_def by (intro conjI; erule same_but_asked_field; simp)

lemma same_but_asked_fields:
  assumes "same_but_asked m m'"
  shows "m_sessions m' = m_sessions m" "m_seats m' = m_seats m" "m_users m' = m_users m" "ses m' = ses m"
    "sts m' = sts m" "usr m' = usr m" "m_world m' = m_world m" "m_schedule m' = m_schedule m"
  by (rule same_but_asked_field [OF assms]; simp)+

lemma wf_same_but_asked: "same_but_asked m m' \<Longrightarrow> wf m' = wf m"
  by (simp add: wf_same_graph same_but_asked_graph)

lemma wf_sys [simp]: "wf (snd (sys e m)) = wf m" "wf (emit e m) = wf m" "wf (safe_close fd m) = wf m"
  using wf_same_objects [OF sys_same] wf_same_objects [OF emit_same] wf_same_objects [OF close_same] by blast+

lemma wf_reply [simp]: "wf (snd (reply_return msg v m)) = wf m"
  by (simp add: reply_return_def case_prod_beta)

lemma wf_finish [simp]: "wf (snd (finish msg x)) = wf (snd x)"
  by (simp add: finish_def case_prod_beta)

lemma snd_kind [simp]: "snd (kind x) = snd x"
  by (simp add: kind_def)

lemma wf_authorised:
  assumes "wf m" "same_but_asked m (snd v)" "\<And>m'. same_but_asked m m' \<Longrightarrow> wf m' \<Longrightarrow> wf (snd (k m'))"
  shows "wf (snd (authorised v k))"
  using assms wf_same_but_asked by (auto simp: authorised_def split: prod.split verdict.split)

lemma wf_found: "wf m \<Longrightarrow> (\<And>y. x = Inr y \<Longrightarrow> wf (snd (k y))) \<Longrightarrow> wf (snd (found x m k))"
  by (simp add: found_def split: sum.split)

lemma wf_only_owner:
  assumes "wf m" "\<And>m'. same_but_asked m m' \<Longrightarrow> wf m' \<Longrightarrow> wf (snd (k m'))"
  shows "wf (snd (only_owner msg s m k))"
  using assms by (auto simp: only_owner_def Let_def oa_basic split: sum.split)

text \<open>What polkit answers is only noted.\<close>

lemma oa_polkit:
  "same_but_asked m m' \<Longrightarrow> same_but_asked m (snd (async_polkit_callback i reply m'))"
  "same_but_asked m m' \<Longrightarrow> same_but_asked m (async_polkit_defer i m')"
  by (simp_all add: async_polkit_callback_def async_polkit_process_reply_def async_polkit_defer_def Let_def case_prod_beta
      oa_basic oa_unref split: option.split)

subsection \<open>Sessions\<close>

lemma graph_kill: "keeps_graph m m' \<Longrightarrow> keeps_graph m (snd (session_kill s whom signo m'))"
  by (rule graph_resources)

lemma graph_user_kill: "keeps_graph m (snd (user_kill u signo m))"
  unfolding user_kill_def by (rule gather_graph) (simp_all add: graph_kill)

lemma wf_session_save [simp]: "wf (snd (session_save s m)) = wf m" "wf (snd (user_save u m)) = wf m"
  using wf_same_objects session_save_same user_save_same by blast+

lemma wf_lock [simp]: "wf (snd (session_send_lock s b m)) = wf m"
  by (simp add: session_send_lock_def)

lemma wf_lock_all: "wf m \<Longrightarrow> wf (snd (session_send_lock_all b m))"
  using wf_same_graph [OF power_only_graph [OF po_lock_all [OF power_only_refl]]] by blast

lemma wf_keeps: "keeps_graph m m' \<Longrightarrow> wf m \<Longrightarrow> wf m'"
  by (rule keeps_graphD(1))

lemma graph_wf: "same_graph m m' \<Longrightarrow> wf m \<Longrightarrow> wf m'"
  by (simp add: wf_same_graph)

lemmas wf_session_ops =
  wf_keeps [OF graph_session_stop [OF keeps_graph_refl]] wf_activate wf_keeps [OF graph_kill [OF keeps_graph_refl]]
  wf_keeps [OF graph_properties(1)] wf_keeps [OF graph_properties(2)] wf_keeps [OF graph_properties(3)]
  wf_keeps [OF graph_properties(4)] wf_keeps [OF graph_properties(5)] wf_keeps [OF graph_set_type [OF keeps_graph_refl]]
  wf_keeps [OF graph_set_controller [OF keeps_graph_refl]] wf_keeps [OF graph_drop_controller [OF keeps_graph_refl]]
  wf_complete_pause wf_keeps [OF graph_session_release [OF keeps_graph_refl]]

lemma wf_upgrade_reply: "wf m \<Longrightarrow> wf (snd (session_send_upgrade_reply i s m))"
  using wf_upd_ses [of "s_upgrade_message_update (\<lambda>_. False)" s m]
  by (simp add: session_send_upgrade_reply_def ses_keeps_def)

lemma device_new_taken:
  assumes "wf m" "udev_ok m" "n \<notin> set (s_devices (ses m s))"
  shows "s_devices (ses (snd (session_device_new s n b m)) s) =
    (if fst (session_device_new s n b m) = 0 then n # s_devices (ses m s) else s_devices (ses m s))"
    "fst (session_device_new s n b m) \<le> 0"
proof -
  obtain x m1 where v: "session_device_verify s n m = (x, m1)" by fastforce
  note g = session_device_verify_graph [OF assms(1,2) v]
  have o: "ses (snd (session_device_first_open (s, n) y)) = ses y" for y
    using first_open_sbd(1) [of y "(s, n)"] by (simp add: same_but_devices_fields)
  have neg: "r < 0" if "x = Inl r" for r
    using that v by (auto simp: session_device_verify_def seat_device_of_def case_prod_beta
        split: option.splits sum.splits if_splits DeviceType.splits)
  show "s_devices (ses (snd (session_device_new s n b m)) s) =
    (if fst (session_device_new s n b m) = 0 then n # s_devices (ses m s) else s_devices (ses m s))"
    "fst (session_device_new s n b m) \<le> 0"
    using g(2) o assms(3) neg
    by (auto simp: session_device_new_def Let_def v case_prod_beta upd_defs remove1_idem split: sum.split)
qed

lemma device_save_keeps:
  shows "wf (snd (session_device_save sd m)) = wf m" "ses (snd (session_device_save sd m)) = ses m"
    "m_sessions (snd (session_device_save sd m)) = m_sessions m"
proof -
  have sbd: "same_but_devices m (snd (session_device_save sd m))" by (intro sbd_save same_but_devices_refl)
  moreover have "sd_keeps m (snd (session_device_save sd m))"
    by (simp add: sd_keeps_def session_device_save_def case_prod_beta)
  ultimately show "wf (snd (session_device_save sd m)) = wf m" by (rule wf_same_but_devices)
  show "ses (snd (session_device_save sd m)) = ses m" "m_sessions (snd (session_device_save sd m)) = m_sessions m"
    using sbd by (simp_all add: same_but_devices_fields)
qed

lemma wf_take_device:
  assumes "wf m" "udev_ok m" "s \<in> set (m_sessions m)"
  shows "wf (snd (method_take_device msg s n m))"
proof (cases "n \<in> set (s_devices (ses m s))")
  case True
  then show ?thesis
    using assms wf_session_device_free [of m "(s, n)"] by (simp add: method_take_device_def)
next
  case False
  obtain r m1 where new: "session_device_new s n True m = (r, m1)" by fastforce
  have m1: "wf m1" "s \<in> set (m_sessions m1)"
    using wf_session_device_new [OF assms False, of True] device_new_frame(1) [OF assms(1,2), of s n True] assms(3)
    by (simp_all add: new)
  obtain r2 m2 where save: "session_device_save (s, n) m1 = (r2, m2)" by fastforce
  have m2: "wf m2" "s \<in> set (m_sessions m2)" "ses m2 = ses m1"
    using device_save_keeps [of "(s, n)" m1] m1 by (simp_all add: save)
  have "n \<in> set (s_devices (ses m1 s))" if "\<not> r < 0"
    using device_new_taken [OF assms(1,2) False, of True] that by (simp add: new split: if_splits)
  then have free: "wf (session_device_free (s, n) m2)" "wf (session_device_free (s, n) (snd (sys e m2)))" if "\<not> r < 0" for e
    using that m2 wf_session_device_free [of m2 "(s, n)"] wf_session_device_free [of "snd (sys e m2)" "(s, n)"]
    by simp_all
  show ?thesis
    using False assms(1) m1 m2 free by (simp add: method_take_device_def new save case_prod_beta)
qed

text \<open>Taking a device that the session holds is refused, and takes the device away.\<close>

lemma take_device_twice:
  assumes "wf m" "s \<in> set (m_sessions m)" "n \<in> set (s_devices (ses m s))" "devnum_valid n"
    "SESSION_CLASS_CAN_TAKE_DEVICE (s_class (ses m s))" "in_control msg s m"
  shows "fst (method_take_device msg s n m) = Fail BUS_ERROR_DEVICE_IS_TAKEN"
    "n \<notin> set (s_devices (ses (snd (method_take_device msg s n m)) s))"
proof -
  have "n \<notin> set (s_devices (ses (session_device_free (s, n) m) s))"
    using fold_session_device_free [OF assms(1), of "[(s, n)]"] assms(2,3) by simp
  moreover have "method_take_device msg s n m = (Fail BUS_ERROR_DEVICE_IS_TAKEN, session_device_free (s, n) m)"
    using assms by (simp add: method_take_device_def)
  ultimately show "fst (method_take_device msg s n m) = Fail BUS_ERROR_DEVICE_IS_TAKEN"
    "n \<notin> set (s_devices (ses (snd (method_take_device msg s n m)) s))"
    by simp_all
qed

lemma wf_set_brightness:
  assumes "wf m" "s \<in> set (m_sessions m)"
  shows "wf (snd (method_set_brightness msg s sub name b m))"
proof -
  have "wf (snd (manager_write_brightness d b p m'))" if "wf m'" for d p m'
    by (rule graph_wf [OF sg_brightness(2) [OF same_graph_refl] that])
  then show ?thesis
    using assms by (auto simp: method_set_brightness_def case_prod_beta intro!: wf_only_owner split: option.split sum.split)
qed

lemma wf_set_class:
  assumes "wf m" "s \<in> set (m_sessions m)"
  shows "wf (snd (method_set_class msg s c m))"
proof -
  have "wf (snd (session_send_upgrade_reply i s (upd_ses s (s_upgrade_message_update (\<lambda>_. True)) (session_set_class s SESSION_USER m'))))"
    if "wf m'" for i m'
    using wf_upd_ses [of "s_upgrade_message_update (\<lambda>_. True)"] wf_keeps [OF graph_properties(3) that]
    by (intro wf_upgrade_reply) (simp add: ses_keeps_def)
  then show ?thesis
    using assms(1) by (auto simp: method_set_class_def Let_def case_prod_beta intro!: wf_only_owner)
qed

lemma wf_session_dispatch:
  assumes "wf m" "udev_ok m" "s \<in> set (m_sessions m)"
  shows "wf (snd (session_dispatch msg s meth m))"
proof (cases meth)
  case (Take_device n)
  then show ?thesis using wf_take_device [OF assms] by simp
next
  case (Set_brightness sub name b)
  then show ?thesis using wf_set_brightness [OF assms(1,3)] by simp
next
  case (Set_class c)
  then show ?thesis using wf_set_class [OF assms(1,3)] by simp
next
  case (Release_device n)
  then show ?thesis
    using assms wf_session_device_free [of m "(s, n)"] by (simp add: method_release_device_def)
next
  case (Take_control force)
  then show ?thesis
    using assms by (auto simp: method_take_control_def Let_def wf_session_ops split: sum.split option.split)
qed (use assms in \<open>auto simp: session_method_defs Let_def case_prod_beta oa wf_session_ops same_but_asked_fields
      intro!: wf_authorised wf_only_owner split: option.split sum.split\<close>)

subsection \<open>Seats and users\<close>

lemma graph_stop_sessions:
  assumes "wf m" "st \<in> set (m_seats m)"
  shows "keeps_graph m (snd (seat_stop_sessions st f m))"
proof -
  have "s \<in> set (m_sessions m)" if "s \<in> set (st_sessions (sts m st))" for s
    using wf_seat_session(1) [OF assms that] .
  then show ?thesis
    unfolding seat_stop_sessions_def using assms(1) by (intro gather_graph graph_session_stop) simp_all
qed

lemma wf_seat_dispatch:
  assumes "wf m" "st \<in> set (m_seats m)"
  shows "wf (snd (seat_dispatch msg st meth m))"
  using assms wf_keeps [OF graph_stop_sessions]
  by (cases meth) (auto simp: seat_method_defs oa same_but_asked_fields wf_switch wf_session_ops intro!: wf_authorised)

lemma wf_user_dispatch:
  assumes "wf m" "u \<in> set (m_users m)"
  shows "wf (snd (user_dispatch msg u meth m))"
  using assms wf_keeps [OF graph_user_stop] wf_keeps [OF graph_user_kill]
  by (cases meth) (auto simp: bus_user_method_terminate_def bus_user_method_kill_def oa same_but_asked_fields intro!: wf_authorised)

subsection \<open>Names that count\<close>

lemma next_counter_taken:
  assumes "name (next_counter name l fuel n) \<in> set l" "i \<in> {1..fuel}"
  shows "name ((n + i) mod 2 ^ 64) \<in> set l"
  using assms
proof (induction fuel arbitrary: n i)
  case (Suc fuel)
  define n' :: nat where "n' = (n + 1) mod 2 ^ 64"
  have n': "name n' \<in> set l" and rest: "name (next_counter name l fuel n') \<in> set l"
    using Suc.prems(1) unfolding next_counter.simps Let_def n'_def by (auto split: if_splits)
  show ?case
  proof (cases "i = 1")
    case False
    then have "i - 1 \<in> {1..fuel}" using Suc.prems(2) by auto
    then have "name ((n' + (i - 1)) mod 2 ^ 64) \<in> set l" by (rule Suc.IH [OF rest])
    moreover have "(n' + (i - 1)) mod 2 ^ 64 = (n + 1 + (i - 1)) mod 2 ^ 64" unfolding n'_def by (rule mod_add_left_eq)
    moreover have "n + 1 + (i - 1) = n + i" using False Suc.prems(2) by auto
    ultimately show ?thesis by simp
  qed (use n' in \<open>simp add: n'_def\<close>)
qed simp

text \<open>With as many attempts as there are names and one more, a name that is free is found.\<close>

lemma next_counter_free:
  assumes "inj name" "length l < fuel" "fuel \<le> 2 ^ 64"
  shows "name (next_counter name l fuel n) \<notin> set l"
proof
  assume "name (next_counter name l fuel n) \<in> set l"
  then have "(\<lambda>i. name ((n + i) mod 2 ^ 64)) ` {1..fuel} \<subseteq> set l" (is "?f ` _ \<subseteq> _")
    using next_counter_taken [of name l fuel n] by blast
  moreover have "inj_on ?f {1..fuel}"
  proof (rule linorder_inj_onI)
    fix i j assume ij: "i < j" "i \<in> {1..fuel}" "j \<in> {1..fuel}"
    show "?f i \<noteq> ?f j"
    proof
      assume "?f i = ?f j"
      then have "(n + j) mod 2 ^ 64 = (n + i) mod 2 ^ 64" using injD [OF assms(1)] by metis
      then have "2 ^ 64 dvd (n + j) - (n + i)" using ij(1) by (subst (asm) mod_eq_dvd_iff_nat) simp_all
      then show False using ij assms(3) by (auto dest!: dvd_imp_le)
    qed
  qed auto
  ultimately have "fuel \<le> card (set l)"
    using card_mono [of "set l" "?f ` {1..fuel}"] by (simp add: card_image)
  then show False using assms(2) card_length [of l] by simp
qed

subsection \<open>Creating a session\<close>

text \<open>The session is among the given ones, which are all there are, and belongs to the user.\<close>

definition belongs :: "string \<Rightarrow> uid \<Rightarrow> string list \<Rightarrow> manager \<Rightarrow> bool" where
  "belongs s u l m \<longleftrightarrow> wf m \<and> m_sessions m = l \<and> s \<in> set l \<and> s_user (ses m s) = Some u"

lemma belongs_keeps: "keeps_graph m m' \<Longrightarrow> belongs s u l m \<Longrightarrow> belongs s u l m'"
  by (simp add: belongs_def keeps_graphD)

lemma belongs_fail:
  assumes "belongs s u l m"
  shows "wf (create_session_fail (Some s) (Some u) m)"
proof -
  have u: "u \<in> set (m_users m)" using assms wf_session_user(1) by (auto simp: belongs_def)
  have "keeps_graph m (session_add_to_gc_queue s m)"
    using assms by (intro graph_gc_queue) (simp_all add: belongs_def)
  then have "keeps_graph m (user_add_to_gc_queue u (session_add_to_gc_queue s m))" using u by (rule graph_user_gc)
  then show ?thesis using assms by (simp add: create_session_fail_def belongs_def keeps_graphD)
qed

lemma belongs_attach:
  assumes "belongs s u l m" "s_seat (ses m s) = None" "st \<in> set (m_seats m)"
  shows "belongs s u l (snd (seat_attach_session st s m))"
  using assms wf_attach [of m st s]
  by (simp add: belongs_def attach_unfold [OF assms(2)] Let_def same_tables_simps [OF link_seat_tables])

lemma no_user_no_seat: "wf m \<Longrightarrow> s \<in> set (m_sessions m) \<Longrightarrow> s_user (ses m s) = None \<Longrightarrow> s_seat (ses m s) = None"
  using wf_session_seat wf_seat_session(3) by (metis not_None_eq)

lemma belongs_set_user:
  assumes "wf m" "s \<in> set (m_sessions m)" "s_user (ses m s) = None" "u \<in> set (m_users m)"
  shows "belongs s u (m_sessions m) (session_set_user s u m)" "s_seat (ses (session_set_user s u m) s) = None"
    "m_seats (session_set_user s u m) = m_seats m"
  using graph_set_user [OF assms] no_user_no_seat [OF assms(1-3)] assms(2)
  by (simp_all add: belongs_def session_set_user_def Let_def upd_defs)

lemma belongs_set_leader:
  assumes "belongs s u l m" "pidref_is_set p"
  shows "belongs s u l (snd (session_set_leader_consume s p m))"
    "s_seat (ses (snd (session_set_leader_consume s p m)) s) = s_seat (ses m s)"
    "m_seats (snd (session_set_leader_consume s p m)) = m_seats m"
  using assms wf_set_leader [of m s p] by (simp_all add: belongs_def same_core_simps [OF core_set_leader])

lemma graph_upd_ses: "keeps_graph m m' \<Longrightarrow> ses_keeps f \<Longrightarrow> keeps_graph m (upd_ses s f m')"
  by (simp add: keeps_graph_def wf_upd_ses ses_keepsD)

lemmas graph_saves = graph_objects [OF _ session_save_same] graph_objects [OF _ user_save_same] graph_objects [OF _ close_same]

lemma graph_create_reply: "keeps_graph m m' \<Longrightarrow> keeps_graph m (snd (session_send_create_reply i s m'))"
  by (simp add: session_send_create_reply_def Let_def case_prod_beta graph_basic graph_resources graph_saves
      graph_upd_ses ses_keeps_def)

lemma belongs_create_reply: "belongs s u l m \<Longrightarrow> belongs s u l (snd (session_send_create_reply i s m))"
  by (rule belongs_keeps [OF graph_create_reply [OF keeps_graph_refl]])

lemma create_reply_names:
  assumes "belongs s u l m" "fst (session_send_create_reply i s m) = Inr y"
  shows "fst y = s \<and> fst (snd y) = u"
proof -
  have user: "s_user (ses m' s) = Some u" if "keeps_graph m m'" for m' using belongs_keeps [OF that assms(1)] by (simp add: belongs_def)
  have "session_uid s m' = u" if "keeps_graph m m'" for m' using user [OF that] by (simp add: session_uid_def)
  then show ?thesis
    using assms(2) by (auto simp: session_send_create_reply_def Let_def case_prod_beta graph_basic graph_resources graph_saves
      graph_upd_ses ses_keeps_def split: if_splits)
qed

text \<open>The outcome of an attempt: when it replies, the session is there and the reply names it and its user.\<close>

definition created :: "string \<Rightarrow> uid \<Rightarrow> string list \<Rightarrow> (string \<times> uid \<times> int \<times> string \<times> nat) reply \<times> manager \<Rightarrow> bool" where
  "created s u l x \<longleftrightarrow> wf (snd x) \<and> (\<forall>y. fst x = Reply y \<longrightarrow> fst y = s \<and> fst (snd y) = u \<and> belongs s u l (snd x))"

lemma wf_create_start:
  assumes "wf m" "s \<in> set (m_sessions m)" "s_user (ses m s) = None" "u \<in> set (m_users m)" "pidref_is_set leader"
    "\<And>st. seat = Some st \<Longrightarrow> st \<in> set (m_seats m)"
  shows "created s u (m_sessions m) (create_session_start msg a leader t c seat vtnr s u m)"
proof -
  define m1 where "m1 = session_set_user s u m"
  obtain r2 m2 where m2: "session_set_leader_consume s leader m1 = (r2, m2)" by fastforce
  define m3 where "m3 = upd_ses s (create_session_fields a t c vtnr) m2"
  define m4 where "m4 = (if SESSION_CLASS_PIN_USER c then upd_user u (u_gc_mode_update (\<lambda>_. USER_GC_BY_PIN)) m3 else m3)"
  obtain r5 m5 where m5: "(case seat of None \<Rightarrow> (0, m4) | Some st \<Rightarrow> seat_attach_session st s m4) = (r5, m5)" by fastforce
  obtain r6 m6 where m6: "session_start s m5 = (r6, m6)" by fastforce
  define m7 where "m7 = upd_ses s (s_create_message_update (\<lambda>_. True)) m6"
  obtain r8 m8 where m8: "session_send_create_reply (msg_id msg) s m7 = (r8, m8)" by fastforce
  have 1: "belongs s u (m_sessions m) m1" "s_seat (ses m1 s) = None" "m_seats m1 = m_seats m"
    unfolding m1_def by (rule belongs_set_user [OF assms(1-4)])+
  have 2: "belongs s u (m_sessions m) m2" "s_seat (ses m2 s) = None" "m_seats m2 = m_seats m"
    using belongs_set_leader [OF 1(1) assms(5)] 1 by (simp_all add: m2)
  have "ses_keeps (create_session_fields a t c vtnr)" by (simp add: ses_keeps_def create_session_fields_def)
  then have "keeps_graph m2 m3" by (simp add: m3_def graph_upd_ses)
  then have k4: "keeps_graph m2 m4" by (simp add: m4_def graph_upd_user user_keeps_def)
  then have 4: "belongs s u (m_sessions m) m4" "s_seat (ses m4 s) = None" "m_seats m4 = m_seats m"
    using 2 belongs_keeps by (simp_all add: keeps_graphD)
  have 5: "belongs s u (m_sessions m) m5"
    using m5 4 assms(6) belongs_attach [OF 4(1,2)] by (cases seat) (simp, metis snd_conv option.simps(5))
  have 6: "belongs s u (m_sessions m) m6"
  proof -
    have "keeps_graph m5 m6" using 5 graph_session_start [of m5 s] by (simp add: belongs_def m6)
    then show ?thesis using 5 by (rule belongs_keeps)
  qed
  have "keeps_graph m6 m7"
    unfolding m7_def by (simp add: graph_upd_ses ses_keeps_def)
  then have 7: "belongs s u (m_sessions m) m7" using 6 by (rule belongs_keeps)
  then have 8: "belongs s u (m_sessions m) m8" using belongs_create_reply [OF 7, of "msg_id msg"] by (simp add: m8)
  have names: "fst y = s \<and> fst (snd y) = u" if "r8 = Inr y" for y
    using create_reply_names [OF 7, of "msg_id msg" y] that by (simp add: m8)
  show ?thesis
    unfolding create_session_start_def Let_def m1_def [symmetric] m2 prod.case m3_def [symmetric] m4_def [symmetric] m5 m6
      m7_def [symmetric] m8
    using belongs_fail [OF 2(1)] belongs_fail [OF 5] belongs_fail [OF 6] 8 names
    by (auto simp: created_def belongs_def split: sum.split)
qed

text \<open>Nothing before the new session changes an object.\<close>

lemma create_leader_same: "same_objects m (snd (create_session_leader msg a m))"
  by (simp add: create_session_leader_def pidref_set_pidfd_def pidref_set_pid_def Let_def case_prod_beta same_objects_sys
      same_objects_trans [OF _ close_same])

lemma create_leader_set:
  assumes "\<And>p. msg_pidref msg = Inr p \<Longrightarrow> pidref_is_set p" "create_session_leader msg a m = (Inr leader, m')"
  shows "pidref_is_set leader"
  using assms
  by (auto simp: create_session_leader_def pidref_set_pidfd_def pidref_set_pid_def bus_query_sender_pidref_def pidref_is_set_def
      pidfd_get_pid_def Let_def case_prod_beta split: if_splits sum.splits prod.splits)

lemma create_audit_same: "same_objects m (snd (create_session_audit leader m))"
  by (simp add: create_session_audit_def audit_session_id_is_inherited_from_parent_def pidref_set_pid_def Let_def
      case_prod_beta same_objects_sys same_objects_trans [OF _ close_same] split: sum.split)

lemma create_id_graph: "same_graph m (snd (create_session_id leader m))"
proof -
  have "same_graph m (snd (create_session_audit leader m))" by (rule sg_objects [OF same_graph_refl create_audit_same])
  moreover have "same_graph m (m'\<lparr>m_session_counter := n\<rparr>) = same_graph m m'" for m' n by (simp add: same_graph_def)
  ultimately show ?thesis by (simp add: create_session_id_def Let_def case_prod_beta)
qed

lemma create_id_free:
  assumes "length (m_sessions m) < 2 ^ 64"
  shows "fst (create_session_id leader m) \<notin> set (m_sessions m)"
proof -
  have "inj session_counter_name" by (simp add: inj_def session_counter_name_def)
  then have "session_counter_name (next_counter session_counter_name l (Suc (length l)) n) \<notin> set l" if "length l < 2 ^ 64" for l n
    using that by (intro next_counter_free) simp_all
  moreover have "m_sessions (snd (create_session_audit leader m)) = m_sessions m"
    using create_id_graph [of m leader] by (simp add: create_session_id_def Let_def case_prod_beta same_graph_def split: if_splits)
  ultimately show ?thesis
    using assms by (simp add: create_session_id_def Let_def case_prod_beta)
qed

lemma add_user_frame:
  "m_seats (snd (manager_add_user_by_uid u m)) = m_seats m" "m_sessions (snd (manager_add_user_by_uid u m)) = m_sessions m"
  "m_seat0 (snd (manager_add_user_by_uid u m)) = m_seat0 m"
  "fst (manager_add_user_by_uid u m) = Inr v \<Longrightarrow> v \<in> set (m_users (snd (manager_add_user_by_uid u m)))"
  by (auto simp: manager_add_user_by_uid_def manager_add_user_def user_new_def upd_user_def emit_def case_prod_beta
      split: sum.splits if_splits)

lemma add_session_frame:
  "m_seats (snd (manager_add_session s m)) = m_seats m" "m_users (snd (manager_add_session s m)) = m_users m"
  "\<not> fst (manager_add_session s m) < 0 \<Longrightarrow> s \<in> set (m_sessions (snd (manager_add_session s m)))"
  "\<not> fst (manager_add_session s m) < 0 \<Longrightarrow> s \<notin> set (m_sessions m) \<Longrightarrow> m_sessions (snd (manager_add_session s m)) = s # m_sessions m"
  by (auto simp: manager_add_session_def session_new_def upd_ses_def split: if_splits)

text \<open>The outcome as seen from before: a new name in front of the known ones, which were fewer than can be counted.\<close>

definition new_session_made :: "manager \<Rightarrow> (string \<times> uid \<times> int \<times> string \<times> nat) reply \<times> manager \<Rightarrow> bool" where
  "new_session_made m x \<longleftrightarrow> wf (snd x) \<and>
     (\<forall>y. fst x = Reply y \<and> length (m_sessions m) < 2 ^ 64 \<longrightarrow>
        fst y \<notin> set (m_sessions m) \<and> belongs (fst y) (fst (snd y)) (fst y # m_sessions m) (snd x))"

lemma new_session_fail [simp]: "new_session_made m (Fail e, m') = wf m'"
  by (simp add: new_session_made_def)

lemma wf_create_add:
  assumes "wf m" "pidref_is_set leader" "\<And>st. seat = Some st \<Longrightarrow> st \<in> set (m_seats m)"
  shows "new_session_made m (create_session_add msg a leader t c seat vtnr m)"
proof -
  obtain s m1 where m1: "create_session_id leader m = (s, m1)" by fastforce
  define m2 where "m2 = manager_reconnect_utmp (assert_that (\<not> SESSION_IS_SELF s \<and> \<not> SESSION_IS_AUTO s) m1)"
  obtain x m3 where m3: "manager_add_user_by_uid (ca_uid a) m2 = (x, m3)" by fastforce
  obtain r m4 where m4: "manager_add_session s m3 = (r, m4)" by fastforce
  have "same_graph m m1" using create_id_graph [of m leader] by (simp add: m1)
  then have g: "same_graph m m2" by (simp add: m2_def sg_utmp sg_assert)
  then have 2: "wf m2" "m_seats m2 = m_seats m" "m_sessions m2 = m_sessions m"
    using assms(1) wf_same_graph [OF g] by (simp_all add: same_graph_def)
  have 3: "wf m3" "m_seats m3 = m_seats m" "m_sessions m3 = m_sessions m" and u: "\<And>u. x = Inr u \<Longrightarrow> u \<in> set (m_users m3)"
    using wf_add_user(3) [OF 2(1), of "ca_uid a"] add_user_frame [of "ca_uid a" m2] 2 by (simp_all add: m3)
  have 4: "wf m4" "m_seats m4 = m_seats m" "m_users m4 = m_users m3" "\<not> r < 0 \<Longrightarrow> s \<in> set (m_sessions m4)"
    "\<not> r < 0 \<Longrightarrow> s \<notin> set (m_sessions m) \<Longrightarrow> m_sessions m4 = s # m_sessions m"
    using wf_add_session [OF 3(1), of s] add_session_frame [of s m3] 3 by (simp_all add: m4)
  have free: "s \<notin> set (m_sessions m)" if "length (m_sessions m) < 2 ^ 64"
    using create_id_free [OF that, of leader] by (simp add: m1)
  have "new_session_made m (create_session_start msg a leader t c seat vtnr s u m4)"
    if "x = Inr u" "\<not> r < 0" "s_user (ses m4 s) = None" for u
  proof -
    have "created s u (m_sessions m4) (create_session_start msg a leader t c seat vtnr s u m4)"
      using that 4 u assms(2,3) by (intro wf_create_start) simp_all
    then show ?thesis using free 4(5) [OF that(2)] by (auto simp: created_def new_session_made_def)
  qed
  moreover have "wf (create_session_fail None (Some u) (safe_close fd m4))" if "x = Inr u" for u fd
    using that 4 u wf_user_add_to_gc_queue [of "safe_close fd m4" u] by (simp add: create_session_fail_def safe_close_def)
  ultimately show ?thesis
    using 3(1) 4(1) unfolding create_session_add_def Let_def m1 prod.case m2_def [symmetric] m3
    by (simp add: m4 create_session_fail_def split: sum.split)
qed

definition seat0_known :: "manager \<Rightarrow> bool" where
  "seat0_known m \<longleftrightarrow> (\<forall>st. m_seat0 m = Some st \<longrightarrow> st \<in> set (m_seats m))"

lemma create_place_known:
  assumes "create_session_check a m = Inr (t, c, Some st, vtnr)" "seat0_known m"
  shows "st \<in> set (m_seats m)"
  using assms
  by (auto simp: create_session_check_def create_session_place_def create_session_vt_def seat0_known_def Let_def
      split: sum.splits if_splits option.splits prod.splits)

lemma wf_create_session:
  assumes "wf m" "seat0_known m" "\<And>p. msg_pidref msg = Inr p \<Longrightarrow> pidref_is_set p"
  shows "new_session_made m (create_session msg a m)"
proof -
  obtain x m1 where m1: "create_session_leader msg a m = (x, m1)" by fastforce
  have s: "same_objects m m1" using create_leader_same [of m msg a] by (simp add: m1)
  then have 1: "wf m1" "seat0_known m1" and ses: "m_sessions m1 = m_sessions m"
    using assms wf_same_objects [OF s] sg_objects [OF same_graph_refl s] by (simp_all add: seat0_known_def same_graph_def)
  have "new_session_made (assert_that b m1) (create_session_add msg a leader t c seat vtnr (assert_that b m1))"
    if "x = Inr leader" "create_session_check a m1 = Inr (t, c, seat, vtnr)" for leader t c seat vtnr b
  proof (rule wf_create_add)
    show "wf (assert_that b m1)" using 1 by simp
    show "pidref_is_set leader" using create_leader_set [OF assms(3)] m1 that(1) by blast
    show "st \<in> set (m_seats (assert_that b m1))" if "seat = Some st" for st
      using create_place_known [of a m1] 1(2) that \<open>create_session_check a m1 = _\<close> by (simp add: assert_that_def)
  qed
  moreover have "new_session_made (assert_that b m1) y = new_session_made m y" for b y
    using ses by (simp add: new_session_made_def)
  ultimately show ?thesis
    using assms(1) 1(1) unfolding create_session_def m1 by (simp add: Let_def split: sum.split)
qed

subsection \<open>The manager\<close>

lemma wf_set_linger:
  assumes "wf m"
  shows "wf (snd (set_linger_file path u enable m))"
proof (cases enable)
  case True
  obtain r m1 where m1: "sys (Sys_write_file path []) m = (r, m1)" by fastforce
  have 1: "wf m1" using assms wf_sys(1) [of "Sys_write_file path []" m] by (simp add: m1)
  obtain x m2 where m2: "manager_add_user_by_uid u m1 = (x, m2)" by fastforce
  have 2: "wf m2" "\<And>v. x = Inr v \<Longrightarrow> v \<in> set (m_users m2)"
    using wf_add_user(3) [OF 1, of u] add_user_frame(4) [of u m1] by (simp_all add: m2)
  have "keeps_graph m2 (snd (user_start v m2))" for v by (rule graph_user_start [OF keeps_graph_refl])
  then have "wf (user_add_to_gc_queue v (snd (user_start v m2)))" "wf (snd (user_start v m2))" if "x = Inr v" for v
    using that 2 wf_user_add_to_gc_queue [of "snd (user_start v m2)" v] by (simp_all add: keeps_graphD)
  then show ?thesis
    using True 1 2 by (simp add: set_linger_file_def m1 m2 case_prod_beta split: sum.split)
next
  case False
  have "wf (user_add_to_gc_queue u (upd_user u (u_gc_mode_update (\<lambda>_. USER_GC_BY_PIN)) m'))" if "wf m'" "u \<in> set (m_users m')" for m'
  proof (rule wf_user_add_to_gc_queue)
    show "wf (upd_user u (u_gc_mode_update (\<lambda>_. USER_GC_BY_PIN)) m')"
      using that wf_upd_user [of "u_gc_mode_update (\<lambda>_. USER_GC_BY_PIN)" u m'] by (simp add: user_keeps_def)
    show "u \<in> set (m_users (upd_user u (u_gc_mode_update (\<lambda>_. USER_GC_BY_PIN)) m'))" using that by (simp add: upd_user_def)
  qed
  then show ?thesis
    using False assms by (simp add: set_linger_file_def case_prod_beta)
qed

lemma sg_setup_wall: "same_graph m m' \<Longrightarrow> same_graph m (snd (setup_wall_message_timer msg m'))"
  by (simp add: setup_wall_message_timer_def sg_wall_timer sg_upd_sch)

lemma sg_now_or_later: "same_graph m m' \<Longrightarrow> same_graph m (snd (bus_manager_shutdown_or_sleep_now_or_later a m'))"
  by (erule sg_power) (rule po_now_or_later [OF power_only_refl])

lemma sg_cancel: "same_graph m m' \<Longrightarrow> same_graph m (cancel_delayed_action m')"
  by (erule sg_power) (rule po_cancel [OF power_only_refl])

lemma sg_reply: "same_graph m m' \<Longrightarrow> same_graph m (snd (reply_return msg v m'))"
  by (simp add: reply_return_def case_prod_beta sg_basic)

lemma sg_finish: "same_graph m (snd x) \<Longrightarrow> same_graph m (snd (finish msg x))"
  by (simp add: finish_def case_prod_beta sg_reply)

lemmas sg_schedule = sg_upd_sch sg_reset_schedule sg_setup_wall sg_now_or_later sg_cancel sg_shutdown_timers sg_update_file
  sg_send_changed sg_basic sg_reply sg_finish

lemma sg_shutdown_now: "same_graph m (snd (shutdown_or_sleep_now msg action a m))"
  by (simp add: shutdown_or_sleep_now_def Let_def sg_schedule)

lemma sg_schedule_now: "same_graph m (snd (schedule_now msg a dry elapse m))"
  by (simp add: schedule_now_def Let_def case_prod_beta sg_schedule)

lemma sg_add_inhibitor: "same_graph m m' \<Longrightarrow> same_graph m (snd (manager_add_inhibitor i m'))"
  by (simp add: manager_add_inhibitor_def case_prod_beta sg_inhibitors)

lemma sg_inhibit_now: "same_graph m (snd (inhibit_now msg w mode who why u p m))"
  by (simp add: inhibit_now_def Let_def case_prod_beta sg_add_inhibitor sg_inhibitors sg_inhibitor_fifo sg_upd sg_basic sg_reply)

lemma wf_devices:
  assumes "wf m"
  shows "wf (snd (attach_device st sysfs m))" "wf (snd (flush_devices m))" "wf (snd (send_prepare_for a b m))"
proof -
  show "wf (snd (attach_device st sysfs m))"
    using assms by (simp add: attach_device_def Let_def case_prod_beta split: option.split)
  have "wf (fold (\<lambda>n. emit (e n)) l m') = wf m'" for e :: "string \<Rightarrow> syscall" and l m'
    by (induction l arbitrary: m') simp_all
  then show "wf (snd (flush_devices m))" using assms unfolding flush_devices_def Let_def wf_sys by (auto split: sum.split)
  show "wf (snd (send_prepare_for a b m))"
    using assms graph_wf [OF power_only_graph [OF po_prepare [OF power_only_refl]]] by blast
qed

lemma wf_power_dispatch:
  assumes "wf m"
  shows "wf (snd (method_do_shutdown_or_sleep msg a arg m))" "wf (snd (method_schedule_shutdown msg type elapse m))"
    "wf (snd (method_cancel_scheduled_shutdown msg m))" "wf (snd (method_set_wall_message msg text enable m))"
    "wf (snd (method_can_shutdown_or_sleep msg a m))" "wf (snd (method_inhibit msg what who why mode m))"
proof -
  show "wf (snd (method_do_shutdown_or_sleep msg a arg m))"
    unfolding method_do_shutdown_or_sleep_def Let_def
    by (intro wf_found wf_authorised [OF assms]) (simp_all add: assms oa graph_wf [OF sg_shutdown_now])
  show "wf (snd (method_schedule_shutdown msg type elapse m))"
    using assms by (auto simp: method_schedule_shutdown_def Let_def oa graph_wf [OF sg_schedule_now]
        intro!: wf_authorised wf_found split: option.split)
  have "wf (reset_scheduled_shutdown (cancel_delayed_action m'))" if "wf m'" for m'
    using graph_wf [OF sg_reset_schedule [OF sg_cancel [OF same_graph_refl]] that] .
  moreover have "wf (cancel_message msg m')" if "wf m'" for m' using that by (simp add: cancel_message_def Let_def)
  ultimately show "wf (snd (method_cancel_scheduled_shutdown msg m))"
    using assms by (auto simp: method_cancel_scheduled_shutdown_def Let_def oa intro!: wf_authorised split: option.split)
  have "wf (upd_sch f m')" if "wf m'" for f m' using graph_wf [OF sg_upd_sch [OF same_graph_refl] that] .
  then show "wf (snd (method_set_wall_message msg text enable m))"
    using assms by (auto simp: method_set_wall_message_def Let_def oa intro!: wf_authorised)
  show "wf (snd (method_can_shutdown_or_sleep msg a m))"
    using assms by (auto simp: method_can_shutdown_or_sleep_def Let_def intro!: wf_found split: option.split)
  show "wf (snd (method_inhibit msg what who why mode m))"
    using assms by (auto simp: method_inhibit_def Let_def oa graph_wf [OF sg_inhibit_now]
        intro!: wf_authorised split: option.split sum.split)
qed

text \<open>What the bus promises of a message: its process id is one.\<close>

definition sender_known :: "bus_message \<Rightarrow> bool" where
  "sender_known msg \<longleftrightarrow> (case msg_pidref msg of Inl _ \<Rightarrow> True | Inr p \<Rightarrow> pidref_is_set p)"

lemma wf_manager_dispatch:
  assumes "wf m" "udev_ok m" "seat0_known m" "sender_known msg"
  shows "wf (snd (manager_dispatch msg req m))"
proof -
  note found = session_from_creds_known [OF assms(1), of msg] seat_from_creds_known [OF assms(1), of msg]
    user_from_creds_known [of m msg]
  note session = wf_session_dispatch [OF assms(1,2)]
  show ?thesis
  proof (cases req)
    case (Create_session a)
    then show ?thesis using wf_create_session [OF assms(1,3), of msg a] assms(4) by (auto simp: sender_known_def new_session_made_def split: sum.splits)
  next
    case (On_session name meth)
    then show ?thesis using assms(1) session found by (auto intro!: wf_found)
  next
    case (On_seat name meth)
    then show ?thesis using assms(1) wf_seat_dispatch found by (auto intro!: wf_found)
  next
    case (On_user u meth)
    then show ?thesis using assms(1) wf_user_dispatch found by (auto intro!: wf_found)
  next
    case (Manager_activate_session name)
    then show ?thesis using assms(1) session [of _ msg Activate] found by (auto simp: method_activate_session_def intro!: wf_found)
  next
    case (Lock_session name b)
    then show ?thesis using assms(1) session [of _ msg "Lock b"] found by (auto simp: method_lock_session_def intro!: wf_found)
  next
    case (Kill_session name whom signo)
    then show ?thesis
      using assms(1) session [of _ msg "Kill whom signo"] found by (auto simp: method_kill_session_def intro!: wf_found)
  next
    case (Terminate_session name)
    then show ?thesis using assms(1) session [of _ msg Terminate] found by (auto simp: method_terminate_session_def intro!: wf_found)
  next
    case (Kill_user u signo)
    then show ?thesis
      using assms(1) wf_user_dispatch [OF assms(1), of _ msg "User_kill signo"] found
      by (auto simp: method_kill_user_def intro!: wf_found)
  next
    case (Terminate_user u)
    then show ?thesis
      using assms(1) wf_user_dispatch [OF assms(1), of _ msg User_terminate] found
      by (auto simp: method_terminate_user_def intro!: wf_found)
  next
    case (Terminate_seat name)
    then show ?thesis
      using assms(1) wf_seat_dispatch [OF assms(1), of _ msg Seat_terminate] found
      by (auto simp: method_terminate_seat_def intro!: wf_found)
  next
    case (Release_session name)
    then show ?thesis using assms(1) by (auto simp: method_release_session_def wf_session_ops intro!: wf_found)
  next
    case (Activate_session_on_seat s st)
    then show ?thesis
      using assms(1) found
      by (auto simp: method_activate_session_on_seat_def oa wf_session_ops same_but_asked_fields intro!: wf_found wf_authorised)
  next
    case (Set_user_linger u enable interactive)
    then show ?thesis
      using assms(1) by (auto simp: method_set_user_linger_def Let_def case_prod_beta oa wf_set_linger
          intro!: wf_authorised split: sum.split)
  qed (use assms(1) in \<open>auto simp: method_lock_sessions_def method_attach_device_def method_flush_devices_def
      method_send_prepare_for_sleep_def oa wf_lock_all wf_devices wf_power_dispatch intro!: wf_found wf_authorised\<close>)
qed

lemma wf_dispatch:
  assumes "wf m" "udev_ok m" "seat0_known m" "sender_known msg"
  shows "wf (snd (dispatch msg req m))"
  using assms(1) wf_manager_dispatch [OF assms] by (simp add: dispatch_def split: option.split)

end
