(* ===== verification/Daemon_Run.thy ===== *)
theory Daemon_Run
  imports Bus_Inv
begin

text \<open>
  The running daemon as a transition system. A step is one event, one method called on the bus, one operation that
  a method is made of, with what its caller has checked before as the guard, a turn of the main loop, or a change of the
  system around the daemon. The invariant of the object graph holds in every state that is reached from the start.
\<close>

subsection \<open>Steps\<close>

text \<open>What the kernel and udev report, timers and signals.\<close>

inductive event_step :: "manager \<Rightarrow> manager \<Rightarrow> bool" where
  Seat_udev: "event_step m (manager_dispatch_seat_udev d m)"
| Device_udev: "event_step m (manager_dispatch_device_udev d m)"
| Button_udev: "event_step m (manager_dispatch_button_udev d m)"
| Console: "m_seat0 m = Some st \<Longrightarrow> st \<in> set (m_seats m) \<Longrightarrow> event_step m (manager_dispatch_console m)"
| Vt_switch: "m_seat0 m = Some st \<Longrightarrow> st \<in> set (m_seats m) \<Longrightarrow> event_step m (manager_vt_switch m)"
| Button_event: "event_step m (snd (button_dispatch b x m))"
| Button_recheck: "event_step m (button_recheck b m)"
| Long_press: "event_step m (long_press_handler k b m)"
| Leader_pidfd: "s \<in> set (m_sessions m) \<Longrightarrow> event_step m (session_dispatch_leader_pidfd s m)"
| Session_fifo: "s \<in> set (m_sessions m) \<Longrightarrow> event_step m (session_dispatch_fifo s m)"
| Stop_on_idle: "s \<in> set (m_sessions m) \<Longrightarrow> event_step m (snd (session_dispatch_stop_on_idle s m))"
| Release_timeout: "s \<in> set (m_sessions m) \<Longrightarrow> event_step m (release_timeout_callback s m)"
| Bus_track: "s \<in> set (m_sessions m) \<Longrightarrow> event_step m (on_bus_track s m)"
| Cgroup_inotify: "event_step m (on_cgroup_inotify_event wd ignored m)"
| Cgroup_empty: "event_step m (snd (manager_notify_cgroup_empty path m))"
| User_timeout: "u \<in> set (m_users m) \<Longrightarrow> event_step m (user_stop_timeout_callback u m)"
| Inhibitor_fifo: "event_step m (inhibitor_dispatch_fifo i m)"
| Idle_timer: "event_step m (snd (manager_dispatch_idle_action m))"
| Delayed: "event_step m (snd (manager_dispatch_delayed timeout m))"
| Sigchld: "event_step m (elogind_sigchld_handler m)"
| Signal: "event_step m (elogind_signal_handler is_sigint m)"
| Wall_timer: "event_step m (snd (wall_message_timeout_handler m))"
| Nologin_timer: "event_step m (nologin_timeout_handler m)"
| Shutdown_timer: "event_step m (snd (manager_scheduled_shutdown_handler m))"
| Brightness_exit: "event_step m (on_brightness_writer_exit path ok m)"
| Polkit_reply: "event_step m (snd (async_polkit_callback i reply m))"
| Polkit_defer: "event_step m (async_polkit_defer i m)"
| Utmp: "event_step m (manager_dispatch_utmp gone m)"

text \<open>The operations that requests are made of, on objects that have been found.\<close>

inductive request_step :: "manager \<Rightarrow> manager \<Rightarrow> bool" where
  Add_session: "request_step m (snd (manager_add_session name m))"
| Set_user: "s \<in> set (m_sessions m) \<Longrightarrow> s_user (ses m s) = None \<Longrightarrow> u \<in> set (m_users m) \<Longrightarrow>
    request_step m (session_set_user s u m)"
| Set_leader: "s \<in> set (m_sessions m) \<Longrightarrow> pidref_is_set p \<Longrightarrow> request_step m (snd (session_set_leader_consume s p m))"
| Attach: "s \<in> set (m_sessions m) \<Longrightarrow> s_seat (ses m s) = None \<Longrightarrow> s_user (ses m s) \<noteq> None \<Longrightarrow> st \<in> set (m_seats m) \<Longrightarrow>
    request_step m (snd (seat_attach_session st s m))"
| Session_start: "s \<in> set (m_sessions m) \<Longrightarrow> request_step m (snd (session_start s m))"
| Session_stop: "s \<in> set (m_sessions m) \<Longrightarrow> request_step m (snd (session_stop s force m))"
| Session_release: "request_step m (snd (session_release s m))"
| Session_activate: "s \<in> set (m_sessions m) \<Longrightarrow> request_step m (snd (session_activate s m))"
| Set_controller: "s \<in> set (m_sessions m) \<Longrightarrow> request_step m (snd (session_set_controller s sender force prepare m))"
| Drop_controller: "s \<in> set (m_sessions m) \<Longrightarrow> request_step m (session_drop_controller s m)"
| Take_device: "s \<in> set (m_sessions m) \<Longrightarrow> n \<notin> set (s_devices (ses m s)) \<Longrightarrow> udev_ok m \<Longrightarrow>
    request_step m (snd (session_device_new s n True m))"
| Release_device: "s \<in> set (m_sessions m) \<Longrightarrow> n \<in> set (s_devices (ses m s)) \<Longrightarrow> request_step m (session_device_free (s, n) m)"
| Pause_complete: "s \<in> set (m_sessions m) \<Longrightarrow> request_step m (session_device_complete_pause (s, n) m)"
| Idle_hint: "request_step m (snd (session_set_idle_hint s b m))"
| Locked_hint: "request_step m (snd (session_set_locked_hint s b m))"
| Set_type: "request_step m (session_set_type s t m)"
| Set_class: "request_step m (session_set_class s c m)"
| Set_display: "request_step m (snd (session_set_display s d m))"
| Set_tty: "request_step m (snd (session_set_tty s d m))"
| Switch_to: "st \<in> set (m_seats m) \<Longrightarrow> request_step m (snd (seat_switch_to st num m))"
| Switch_to_next: "st \<in> set (m_seats m) \<Longrightarrow> request_step m (snd (seat_switch_to_next st m))"
| Switch_to_previous: "st \<in> set (m_seats m) \<Longrightarrow> request_step m (snd (seat_switch_to_previous st m))"
| Add_user: "request_step m (snd (manager_add_user ur m))"
| User_start: "request_step m (snd (user_start u m))"
| User_stop: "u \<in> set (m_users m) \<Longrightarrow> request_step m (snd (user_stop u force m))"
| Add_inhibitor: "request_step m (snd (manager_add_inhibitor i m))"
| Inhibitor_start: "request_step m (inhibitor_start i m)"
| Inhibitor_create_fifo: "request_step m (snd (inhibitor_create_fifo i m))"
| Handle_action: "request_step m (snd (manager_handle_action key a ignore e st m))"
| Power_now_or_later: "request_step m (snd (bus_manager_shutdown_or_sleep_now_or_later a m))"

text \<open>One step of the daemon or of the system around it.\<close>

inductive daemon_step :: "manager \<Rightarrow> manager \<Rightarrow> bool" where
  Event: "event_step m m' \<Longrightarrow> daemon_step m m'"
| Request: "request_step m m' \<Longrightarrow> daemon_step m m'"
| Method: "udev_ok m \<Longrightarrow> seat0_known m \<Longrightarrow> sender_known msg \<Longrightarrow> daemon_step m (snd (dispatch msg req m))"
| Turn: "manager_run_turn m = Some (t, m') \<Longrightarrow> daemon_step m m'"
| Surroundings: "daemon_step m (m\<lparr>m_world := w, m_env := e, m_files := f, m_console := c, m_ctty := t,
    m_udev := d, m_cgroup_session := g\<rparr>)"

subsection \<open>Every step keeps the invariant\<close>

lemma wf_graph: "keeps_graph m m' \<Longrightarrow> wf m \<Longrightarrow> wf m'"
  by (rule keeps_graphD(1))

lemma wf_sg: "same_graph m m' \<Longrightarrow> wf m \<Longrightarrow> wf m'"
  by (simp add: wf_same_graph)

lemma wf_po: "power_only m m' \<Longrightarrow> wf m \<Longrightarrow> wf m'"
  by (rule wf_sg) (rule power_only_graph)

lemma wf_vt_switch:
  assumes "wf m" "m_seat0 m = Some st" "st \<in> set (m_seats m)"
  shows "wf (manager_vt_switch m)"
proof -
  have m1: "wf (snd (seat_read_active_vt st m))" using assms(1,3) by (rule wf_read_active_vt)
  moreover have "wf (safe_close fd (snd (sys e m')))" if "wf m'" for fd e m'
    using that wf_same_objects [OF same_objects_trans [OF sys_same close_same]] by simp
  moreover have "wf (snd (sys e m'))" if "wf m'" for e m'
    using that wf_same_objects [OF sys_same] by simp
  moreover have "wf (session_leave_vt s m')" if "wf m'" for s m'
    using wf_graph [OF graph_leave_vt that] .
  ultimately show ?thesis
    by (simp add: manager_vt_switch_def assms(2) Let_def case_prod_beta split: option.split)
qed

lemma event_step_wf:
  assumes "event_step m m'" "wf m"
  shows "wf m'"
  using assms
proof (induction rule: event_step.induct)
  case (Seat_udev m d)
  then show ?case by (simp add: manager_dispatch_seat_udev_def wf_process_seat_device)
next
  case (Device_udev m d)
  then show ?case by (simp add: manager_dispatch_device_udev_def wf_process_seat_device)
next
  case (Button_udev m d)
  then show ?case
    unfolding manager_dispatch_button_udev_def by (rule wf_sg [OF sg_process_button [OF same_graph_refl]])
next
  case (Console m st)
  then show ?case by (simp add: manager_dispatch_console_def wf_read_active_vt)
next
  case (Vt_switch m st)
  then show ?case by (simp add: wf_vt_switch)
next
  case (Button_event m b x)
  then show ?case by (rule wf_sg [OF sg_dispatch [OF same_graph_refl]])
next
  case (Button_recheck m b)
  then show ?case by (rule wf_sg [OF sg_buttons(4) [OF same_graph_refl]])
next
  case (Long_press m k b)
  then show ?case by (rule wf_sg [OF sg_keys(4) [OF same_graph_refl]])
next
  case (Leader_pidfd s m)
  then show ?case using wf_graph [OF graph_callbacks(1)] by blast
next
  case (Session_fifo s m)
  then show ?case using wf_graph [OF graph_callbacks(2)] by blast
next
  case (Stop_on_idle s m)
  then show ?case using wf_graph [OF graph_callbacks(3)] by blast
next
  case (Release_timeout s m)
  then show ?case using wf_graph [OF graph_callbacks(4)] by blast
next
  case (Bus_track s m)
  then show ?case using wf_graph [OF graph_callbacks(5)] by blast
next
  case (Cgroup_inotify m wd ignored)
  then show ?case by (rule wf_graph [OF graph_inotify_event [OF keeps_graph_refl]])
next
  case (Cgroup_empty m path)
  then show ?case by (rule wf_graph [OF graph_notify_empty [OF keeps_graph_refl]])
next
  case (User_timeout u m)
  then show ?case by (simp add: user_stop_timeout_callback_def wf_user_add_to_gc_queue)
next
  case (Inhibitor_fifo m i)
  then show ?case by (rule wf_sg [OF sg_inhibitors(5) [OF same_graph_refl]])
next
  case (Idle_timer m)
  then show ?case by (rule wf_po [OF po_idle [OF power_only_refl]])
next
  case (Delayed m timeout)
  then show ?case by (rule wf_po [OF po_dispatch_delayed [OF power_only_refl]])
next
  case (Sigchld m)
  then show ?case by (rule wf_po [OF po_sigchld [OF power_only_refl]])
next
  case (Signal m is_sigint)
  have "wf (emit e (m\<lparr>m_do_interrupt := True\<rparr>)) = wf m" for e
    using wf_same_objects [OF emit_same] inv_congs [of "m\<lparr>m_do_interrupt := True\<rparr>" m] by (simp add: wf_def)
  then show ?case
    using Signal wf_same_objects [OF emit_same] by (simp add: elogind_signal_handler_def)
next
  case (Wall_timer m)
  then show ?case by (rule wf_sg [OF sg_wall_handler [OF same_graph_refl]])
next
  case (Nologin_timer m)
  then show ?case by (rule wf_sg [OF sg_nologin_handler [OF same_graph_refl]])
next
  case (Shutdown_timer m)
  then show ?case by (rule wf_sg [OF sg_shutdown_handler [OF same_graph_refl]])
next
  case (Brightness_exit m path ok)
  then show ?case by (rule wf_sg [OF sg_brightness(1) [OF same_graph_refl]])
next
  case (Polkit_reply m i reply)
  then show ?case by (simp add: wf_same_but_asked [OF oa_polkit(1) [OF same_but_asked_refl]])
next
  case (Polkit_defer m i)
  then show ?case by (simp add: wf_same_but_asked [OF oa_polkit(2) [OF same_but_asked_refl]])
next
  case (Utmp m gone)
  then have "wf (if gone then manager_connect_utmp m else m)" using wf_sg [OF sg_utmp(1) [OF same_graph_refl]] by simp
  then show ?case unfolding manager_dispatch_utmp_def by (rule wf_read_utmp)
qed

lemma request_step_wf:
  assumes "request_step m m'" "wf m"
  shows "wf m'"
  using assms
proof (induction rule: request_step.induct)
  case (Add_session m name)
  then show ?case by (rule wf_add_session)
next
  case (Set_user s m u)
  then show ?case by (simp add: graph_set_user)
next
  case (Set_leader s m p)
  then show ?case by (simp add: wf_set_leader)
next
  case (Attach s m st)
  then show ?case by (simp add: wf_attach)
next
  case (Session_start s m)
  then show ?case using wf_graph [OF graph_session_start] by blast
next
  case (Session_stop s m force)
  then show ?case using wf_graph [OF graph_session_stop [OF keeps_graph_refl]] by blast
next
  case (Session_release m s)
  then show ?case using wf_graph [OF graph_session_release [OF keeps_graph_refl]] by blast
next
  case (Session_activate s m)
  then show ?case by (simp add: wf_activate)
next
  case (Set_controller s m sender force prepare)
  then show ?case using wf_graph [OF graph_set_controller [OF keeps_graph_refl]] by blast
next
  case (Drop_controller s m)
  then show ?case using wf_graph [OF graph_drop_controller [OF keeps_graph_refl]] by blast
next
  case (Take_device s m n)
  then show ?case by (simp add: wf_session_device_new)
next
  case (Release_device s m n)
  then show ?case by (simp add: wf_session_device_free)
next
  case (Pause_complete s m n)
  then show ?case by (simp add: wf_complete_pause)
next
  case (Idle_hint m s b)
  then show ?case by (rule wf_graph [OF graph_properties(1)])
next
  case (Locked_hint m s b)
  then show ?case by (rule wf_graph [OF graph_properties(2)])
next
  case (Set_type m s t)
  then show ?case by (rule wf_graph [OF graph_set_type [OF keeps_graph_refl]])
next
  case (Set_class m s c)
  then show ?case by (rule wf_graph [OF graph_properties(3)])
next
  case (Set_display m s d)
  then show ?case by (rule wf_graph [OF graph_properties(4)])
next
  case (Set_tty m s d)
  then show ?case by (rule wf_graph [OF graph_properties(5)])
next
  case (Switch_to st m num)
  then show ?case by (simp add: wf_switch)
next
  case (Switch_to_next st m)
  then show ?case by (simp add: wf_switch)
next
  case (Switch_to_previous st m)
  then show ?case by (simp add: wf_switch)
next
  case (Add_user m ur)
  then show ?case by (simp add: wf_add_user)
next
  case (User_start m u)
  then show ?case by simp
next
  case (User_stop u m force)
  then show ?case using wf_graph [OF graph_user_stop] by blast
next
  case (Add_inhibitor m i)
  have "same_graph m (snd (manager_add_inhibitor i m))"
    by (simp add: manager_add_inhibitor_def case_prod_beta sg_inhibitors)
  with Add_inhibitor show ?case using wf_sg by blast
next
  case (Inhibitor_start m i)
  then show ?case by (rule wf_sg [OF sg_inhibitors(3) [OF same_graph_refl]])
next
  case (Inhibitor_create_fifo m i)
  then show ?case by (rule wf_sg [OF sg_inhibitor_fifo [OF same_graph_refl]])
next
  case (Handle_action m key a ignore e st)
  then show ?case by (rule wf_po [OF po_handle_action [OF power_only_refl]])
next
  case (Power_now_or_later m a)
  then show ?case by (rule wf_po [OF po_now_or_later [OF power_only_refl]])
qed

lemma run_turn:
  assumes "wf m"
  shows "\<exists>t m'. manager_run_turn m = Some (t, m') \<and> wf m' \<and>
    (t = Turn_again \<or> t = Turn_wait \<longrightarrow> m_seat_gc_queue m' = [] \<and> m_session_gc_queue m' = [] \<and> m_user_gc_queue m' = [])"
proof -
  obtain m1 where m1: "manager_gc True m = Some m1" "wf m1" "m_seat_gc_queue m1 = []" "m_session_gc_queue m1 = []"
    "m_user_gc_queue m1 = []"
    using manager_gc_ends [OF assms] by blast
  obtain r m2 where m2: "manager_dispatch_delayed False m1 = (r, m2)" by fastforce
  have "same_graph m1 m2"
    using power_only_graph [OF po_dispatch_delayed [OF power_only_refl, where t = False and m = m1]] m2 by simp
  then have "wf m2" "m_seat_gc_queue m2 = []" "m_session_gc_queue m2 = []" "m_user_gc_queue m2 = []"
    using m1 wf_same_graph [of m1 m2] by (simp_all add: same_graph_def)
  then show ?thesis
    using m1(1) m2 assms unfolding manager_run_turn_def Let_def by simp
qed

lemma daemon_step_wf:
  assumes "daemon_step m m'" "wf m"
  shows "wf m'"
  using assms
proof (induction rule: daemon_step.induct)
  case (Turn m t m')
  then show ?case using run_turn by fastforce
next
  case (Surroundings m g d t c f e w)
  let ?m = "m\<lparr>m_world := w, m_env := e, m_files := f, m_console := c, m_ctty := t, m_udev := d, m_cgroup_session := g\<rparr>"
  show ?case using inv_congs [of ?m m] Surroundings by (simp add: wf_def)
qed (simp_all add: event_step_wf request_step_wf wf_dispatch)

interpretation daemon: step_invariant daemon_step wf
  by unfold_locales (rule daemon_step_wf)

text \<open>What the daemon relies on when it starts: udev names devices by their own path, no session file names a
  device twice, and a directory lists no name twice.\<close>

definition system_ok :: "manager \<Rightarrow> bool" where
  "system_ok m \<longleftrightarrow> udev_ok m \<and> session_files_ok m \<and>
     (case w_dirs (m_world m) ''/run/systemd/sessions'' of Inl _ \<Rightarrow> True | Inr names \<Rightarrow> distinct names)"

text \<open>A daemon that a new manager has started is in order, and stays so.\<close>

lemma new_manager_starts:
  assumes "system_ok m"
  shows "\<exists>r m'. manager_startup (snd (manager_new k m)) = Some (r, m') \<and> wf m'"
proof -
  have "m_sessions (snd (manager_new k m)) = []"
    using no_entries_new [of k m] by (simp add: no_entries_def)
  moreover have "udev_ok (snd (manager_new k m))" "session_files_ok (snd (manager_new k m))"
    using assms system_new [of k m] by (simp_all add: system_ok_def udev_ok_def session_files_ok_def)
  ultimately show ?thesis
    using assms system_new [of k m] by (intro manager_startup_ends wf_manager_new) (simp_all add: system_ok_def)
qed

end
