(* ===== verification/Polkit_Inv.thy ===== *)
theory Polkit_Inv
  imports Bus_Auth Schedule_Inv
begin

text \<open>
  The conversation with polkit about a message: what is allowed was granted before; and a handler that asks for
  something else after a refusal makes the daemon fail an assertion.
\<close>

subsection \<open>What is allowed was granted\<close>

text \<open>One step with a history of the grants that polkit has given: a handler asks, polkit replies to the question
  under way, or the query is released.\<close>

type_synonym grants = "(nat \<times> action_details) set"

inductive polkit_step :: "manager \<times> grants \<Rightarrow> manager \<times> grants \<Rightarrow> bool" where
  Asks: "polkit_step (m, g) (snd (bus_verify_polkit_async_full msg a good flags m), g)"
| Replies: "get_query i m = Some q \<Longrightarrow> q_action q = Some a \<Longrightarrow>
    polkit_step (m, g) (snd (async_polkit_callback i reply m), case reply of Polkit_result True _ \<Rightarrow> insert (i, a) g | _ \<Rightarrow> g)"
| Releases: "polkit_step (m, g) (async_polkit_defer i m, g)"
| Other: "m_polkit_registry m' = m_polkit_registry m \<Longrightarrow> polkit_step (m, g) (m', g)"

inductive_cases polkit_stepE: "polkit_step s s'"

definition granted_before :: "manager \<times> grants \<Rightarrow> bool" where
  "granted_before s \<longleftrightarrow> (\<forall>i q. get_query i (fst s) = Some q \<longrightarrow> (\<forall>a \<in> set (q_authorized_actions q). (i, a) \<in> snd s))"

lemma get_query_simps [simp]:
  "get_query j (put_query i q m) = (if j = i then Some q else get_query j m)"
  "get_query j (snd (sys e m)) = get_query j m" "get_query j (emit e m) = get_query j m"
  by (simp_all add: get_query_def put_query_def sys_def emit_def update_conv')

lemma get_query_drop: "get_query j (drop_query i m) = (if j = i then None else get_query j m)"
  by (simp add: get_query_def drop_query_def delete_conv')

lemma query_unref:
  "get_query j (async_polkit_query_unref i m) = Some q \<Longrightarrow>
   \<exists>q'. get_query j m = Some q' \<and> q_authorized_actions q' = q_authorized_actions q"
  by (auto simp: async_polkit_query_unref_def get_query_drop split: option.splits if_splits)

lemma granted_unref: "granted_before (m, g) \<Longrightarrow> granted_before (async_polkit_query_unref i m, g)"
  unfolding granted_before_def using query_unref by fastforce

lemma granted_put:
  assumes "granted_before (m, g)" "Pair i ` set (q_authorized_actions q) \<subseteq> g"
  shows "granted_before (put_query i q m, g)"
  using assms by (auto simp: granted_before_def)

lemma granted_sys [simp]:
  "granted_before (snd (sys e m), g) = granted_before (m, g)" "granted_before (emit e m, g) = granted_before (m, g)"
  "granted_before (assert_that b m, g) = granted_before (m, g)"
  by (simp_all add: granted_before_def)

lemma granted_ask:
  assumes "granted_before (m, g)"
  shows "granted_before (snd (polkit_ask i a flags m), g)"
proof -
  define q where "q = (case get_query i m of None \<Rightarrow> new_query | Some q \<Rightarrow> q\<lparr>q_n_ref := q_n_ref q + 1\<rparr>)"
  define m1 where "m1 = put_query i (q\<lparr>q_action := Some a, q_in_registry := True\<rparr>) (assert_that (q_action q = None) m)"
  obtain r m2 where s: "sys (Sys_check_authorization i (fst a) (snd a) (polkit_mask_public flags)) m1 = (r, m2)" by force
  have q: "Pair i ` set (q_authorized_actions q) \<subseteq> g"
    using assms by (auto simp: q_def granted_before_def new_query_def split: option.splits)
  then have "granted_before (m1, g)" using assms by (simp add: m1_def granted_put)
  then have m2: "granted_before (m2, g)"
    using granted_sys(1) [of "Sys_check_authorization i (fst a) (snd a) (polkit_mask_public flags)" m1 g] by (simp add: s)
  show ?thesis
    unfolding polkit_ask_def Let_def q_def [symmetric] m1_def [symmetric] s
    using m2 q by (simp add: granted_unref granted_put)
qed

lemma read_reply_authorized:
  "q_authorized_actions (fst (snd (async_polkit_read_reply reply q))) =
     (case reply of Polkit_result True _ \<Rightarrow> (case q_action q of None \<Rightarrow> [] | Some a \<Rightarrow> [a]) | _ \<Rightarrow> []) @ q_authorized_actions q"
  by (simp add: async_polkit_read_reply_def Let_def split: polkit_reply.split bool.split)

lemma granted_more: "granted_before (m, g) \<Longrightarrow> g \<subseteq> h \<Longrightarrow> granted_before (m, h)"
  by (auto simp: granted_before_def)

lemma granted_reply:
  assumes "granted_before (m, g)" "get_query i m = Some q" "q_action q = Some a"
  shows "granted_before (snd (async_polkit_process_reply i reply m),
    case reply of Polkit_result True _ \<Rightarrow> insert (i, a) g | _ \<Rightarrow> g)" (is "granted_before (_, ?g)")
proof -
  obtain r q' ok where read: "async_polkit_read_reply reply (q\<lparr>q_slot := False\<rparr>) = (r, q', ok)"
    by (cases "async_polkit_read_reply reply (q\<lparr>q_slot := False\<rparr>)") auto
  have "q_authorized_actions q' = (case reply of Polkit_result True _ \<Rightarrow> [a] | _ \<Rightarrow> []) @ q_authorized_actions q"
    using read_reply_authorized [of reply "q\<lparr>q_slot := False\<rparr>"] assms(3) by (simp add: read split: polkit_reply.split bool.split)
  then have q': "Pair i ` set (q_authorized_actions q') \<subseteq> ?g"
    using assms(1,2) by (auto simp: granted_before_def split: polkit_reply.splits bool.splits)
  have "g \<subseteq> ?g" by (auto split: polkit_reply.split bool.split)
  then have "granted_before (m, ?g)" using granted_more [OF assms(1)] by blast
  then show ?thesis
    using q' by (simp add: async_polkit_process_reply_def assms(2) read Let_def case_prod_beta granted_put)
qed

lemma polkit_step_granted: "polkit_step s s' \<Longrightarrow> granted_before s \<Longrightarrow> granted_before s'"
proof (induction rule: polkit_step.induct)
  case (Asks m g msg a good flags)
  then show ?case by (simp add: bus_verify_polkit_async_full_def Let_def granted_ask)
next
  case (Replies i m q a g reply)
  then show ?case using granted_reply by (simp add: async_polkit_callback_def case_prod_beta granted_unref)
next
  case (Releases m g i)
  then show ?case by (simp add: async_polkit_defer_def granted_unref)
next
  case (Other m' m g)
  then show ?case by (simp add: granted_before_def get_query_def)
qed

interpretation polkit: step_invariant polkit_step granted_before
  by unfold_locales (rule polkit_step_granted)

lemma verify_allowed:
  assumes "bus_verify_polkit_async_full msg a good flags m = (Allowed, m')"
  shows "m' = m \<and> (bus_message_check_good_user msg good > 0 \<or>
    (POLKIT_ALWAYS_QUERY \<notin> flags \<and> msg_privilege msg > 0) \<or>
    (\<exists>q. get_query (msg_id msg) m = Some q \<and>
      (a \<in> set (q_authorized_actions q) \<or> (POLKIT_DEFAULT_ALLOW \<in> flags \<and> q_absent_action q \<noteq> None))))"
  using assms ask_not_allowed [of "msg_id msg" a _ m]
  by (auto simp: bus_verify_polkit_async_full_def Let_def async_polkit_query_check_action_def
      async_polkit_query_have_action_def split: if_splits option.splits dest: arg_cong [where f = fst])

subsection \<open>A refusal and another question\<close>

lemma obliging_simps [simp]:
  "obliging (snd (sys e m)) = obliging m" "obliging (emit e m) = obliging m" "obliging (assert_that b m) = obliging m"
  "obliging (put_query i q m) = obliging m" "obliging m \<Longrightarrow> \<not> fst (sys e m) < 0"
  by (simp_all add: obliging_def sys_def emit_def assert_that_def put_query_def not_less)

lemma polkit_abort_simps [simp]:
  "m_abort (snd (sys e m)) = m_abort m" "m_abort (emit e m) = m_abort m" "m_abort (assert_that b m) = (m_abort m \<or> \<not> b)"
  "m_abort (put_query i q m) = m_abort m" "m_abort (drop_query i m) = m_abort m"
  by (simp_all add: sys_def emit_def assert_that_def put_query_def drop_query_def)

lemma ask_pending:
  assumes "obliging m"
  shows "fst (polkit_ask i a flags m) = Pending" "obliging (snd (polkit_ask i a flags m))"
    "get_query i (snd (polkit_ask i a flags m)) =
       Some ((case get_query i m of None \<Rightarrow> new_query | Some q \<Rightarrow> q\<lparr>q_n_ref := q_n_ref q + 1\<rparr>)
         \<lparr>q_action := Some a, q_in_registry := True, q_slot := True\<rparr>)"
  using assms by (simp_all add: polkit_ask_def Let_def case_prod_beta)

text \<open>What a question does outside: one call, and no failed assertion unless another question is under way.\<close>

definition question_under_way :: "nat \<Rightarrow> manager \<Rightarrow> bool" where
  "question_under_way i m \<longleftrightarrow> (case get_query i m of None \<Rightarrow> False | Some q \<Rightarrow> q_action q \<noteq> None)"

lemma unref_known:
  assumes "get_query i m = Some q"
  shows "m_abort (async_polkit_query_unref i m) = m_abort m" "m_trace (async_polkit_query_unref i m) = m_trace m"
  using assms by (simp_all add: async_polkit_query_unref_def put_query_def drop_query_def)

lemma ask_trace:
  "m_trace (snd (polkit_ask i a flags m)) =
     Sys_check_authorization i (fst a) (snd a) (polkit_mask_public flags) # m_trace m"
  by (simp add: polkit_ask_def Let_def case_prod_beta unref_known)
    (simp add: put_query_def sys_def assert_that_def)

lemma ask_abort: "m_abort (snd (polkit_ask i a flags m)) \<longleftrightarrow> m_abort m \<or> question_under_way i m"
  by (simp add: polkit_ask_def Let_def case_prod_beta unref_known question_under_way_def new_query_def split: option.split)

lemma checked_trace: "checked P m n \<Longrightarrow> m_trace n = m_trace m"
  by (elim checked_def [THEN iffD1, elim_format] disjE) simp_all

lemma checked_calm: "checked P m n \<Longrightarrow> P \<Longrightarrow> n = m"
  by (simp add: checked_def)

lemma checked_objects: "checked P m n \<Longrightarrow> same_but_asked m n"
  by (elim checked_def [THEN iffD1, elim_format] disjE) (simp_all add: same_but_asked_def)

text \<open>What a message that has only asked has done outside: at most one call, a reply to it or a question about it.\<close>

lemma only_asked_outside:
  assumes "only_asked P i m m'"
  shows "same_but_asked m m'"
    "\<exists>es. m_trace m' = es @ m_trace m \<and> length es \<le> 1 \<and>
       (\<forall>e \<in> set es. e = Sys_reply i 0 \<or> (\<exists>a details flags. e = Sys_check_authorization i a details flags))"
    "P \<Longrightarrow> \<not> question_under_way i m \<Longrightarrow> m_abort m' = m_abort m"
proof -
  obtain n where n: "checked P m n"
      "m' = n \<or> m' = snd (sys (Sys_reply i 0) n) \<or> (\<exists>a flags. m' = snd (polkit_ask i a flags n))"
    using assms by (auto simp: only_asked_def)
  show "same_but_asked m m'"
    using n(2) oa_basic(1) [OF checked_objects [OF n(1)]] oa_ask [OF checked_objects [OF n(1)]] checked_objects [OF n(1)] by auto
  have reply: "m_trace (snd (sys e n)) = [e] @ m_trace m" for e using checked_trace [OF n(1)] by (simp add: sys_def)
  have ask: "m_trace (snd (polkit_ask i a flags n)) =
      [Sys_check_authorization i (fst a) (snd a) (polkit_mask_public flags)] @ m_trace m" for a flags
    using checked_trace [OF n(1)] by (simp add: ask_trace)
  consider "m_trace m' = [] @ m_trace m" | "m_trace m' = [Sys_reply i 0] @ m_trace m"
    | a flags where "m_trace m' = [Sys_check_authorization i (fst a) (snd a) (polkit_mask_public flags)] @ m_trace m"
    using n(2) reply ask checked_trace [OF n(1)] by fastforce
  then show "\<exists>es. m_trace m' = es @ m_trace m \<and> length es \<le> 1 \<and>
      (\<forall>e \<in> set es. e = Sys_reply i 0 \<or> (\<exists>a details flags. e = Sys_check_authorization i a details flags))"
    by cases force+
  show "m_abort m' = m_abort m" if "P" "\<not> question_under_way i m"
    using n(2) that checked_calm [OF n(1) that(1)] by (auto simp: ask_abort)
qed

lemma abort_unref: "m_abort m \<Longrightarrow> m_abort (async_polkit_query_unref i m)"
  by (simp add: async_polkit_query_unref_def split: option.split)

lemma callback_aborts:
  assumes "get_query i m = Some q" "q_denied_action q \<noteq> None \<or> q_error_action q \<noteq> None"
  shows "m_abort (snd (async_polkit_callback i reply m))"
proof -
  obtain r q' where "async_polkit_read_reply reply (q\<lparr>q_slot := False\<rparr>) = (r, q', False)"
    using assms(2) by (cases reply) (auto simp: async_polkit_read_reply_def Let_def)
  then show ?thesis
    using assms(1) by (simp add: async_polkit_callback_def async_polkit_process_reply_def Let_def case_prod_beta abort_unref)
qed

lemma callback_refused:
  assumes "get_query i m = Some q" "q_slot q" "q_action q = Some a" "obliging m"
  shows "obliging (snd (async_polkit_callback i (Polkit_result False challenge) m))"
    "\<exists>q'. get_query i (snd (async_polkit_callback i (Polkit_result False challenge) m)) = Some q' \<and>
       q_authorized_actions q' = q_authorized_actions q \<and> q_absent_action q' = q_absent_action q \<and>
       (if challenge then q_error_action q' = Some a \<and> q_denied_action q' = q_denied_action q
        else q_denied_action q' = Some a \<and> q_error_action q' = q_error_action q)"
  using assms
  by (simp_all add: async_polkit_callback_def async_polkit_process_reply_def async_polkit_read_reply_def Let_def case_prod_beta)

lemma callback_granted:
  assumes "get_query i m = Some q" "q_slot q" "q_action q = Some a" "obliging m"
  shows "\<exists>q'. get_query i (snd (async_polkit_callback i (Polkit_result True challenge) m)) = Some q' \<and>
    a \<in> set (q_authorized_actions q')"
  using assms
  by (simp add: async_polkit_callback_def async_polkit_process_reply_def async_polkit_read_reply_def Let_def case_prod_beta)

lemma verify_granted:
  assumes "get_query (msg_id msg) m = Some q" "a \<in> set (q_authorized_actions q)"
  shows "bus_verify_polkit_async_full msg a UID_INVALID flags m = (Allowed, m)"
  using assms by (simp add: bus_verify_polkit_async_full_def bus_message_check_good_user_def Let_def
      async_polkit_query_check_action_def async_polkit_query_have_action_def)

lemma verify_unknown:
  assumes "msg_privilege msg = 0" "0 \<le> msg_interactive msg" "msg_sender msg \<noteq> None"
    "\<And>q. get_query (msg_id msg) m = Some q \<Longrightarrow> async_polkit_query_check_action q a flags = Pending"
  shows "\<exists>flags'. bus_verify_polkit_async_full msg a UID_INVALID flags m = polkit_ask (msg_id msg) a flags' m"
  using assms
  by (auto simp: bus_verify_polkit_async_full_def bus_message_check_good_user_def Let_def split: option.split)

text \<open>A handler that goes on with another action, because what it looks at has changed in between, makes the next
  answer fail an assertion.\<close>

lemma other_question_aborts:
  fixes challenge :: bool and reply :: polkit_reply and flags :: "PolkitFlag set"
  assumes "get_query (msg_id msg) m = None" "fst a \<noteq> fst b" "obliging m"
    "msg_privilege msg = 0" "0 \<le> msg_interactive msg" "msg_sender msg \<noteq> None"
  defines "m1 \<equiv> snd (bus_verify_polkit_async_full msg a UID_INVALID flags m)"
  defines "m2 \<equiv> snd (async_polkit_callback (msg_id msg) (Polkit_result False challenge) m1)"
  defines "m3 \<equiv> snd (bus_verify_polkit_async_full msg b UID_INVALID flags m2)"
  shows "fst (bus_verify_polkit_async_full msg a UID_INVALID flags m) = Pending"
    "fst (bus_verify_polkit_async_full msg b UID_INVALID flags m2) = Pending"
    "m_abort (snd (async_polkit_callback (msg_id msg) reply m3))"
proof -
  obtain f1 where v1: "bus_verify_polkit_async_full msg a UID_INVALID flags m = polkit_ask (msg_id msg) a f1 m"
    using verify_unknown [OF assms(4-6), of m a flags] assms(1) by auto
  note ask1 = ask_pending [OF assms(3), of "msg_id msg" a f1, folded v1, folded m1_def]
  then show "fst (bus_verify_polkit_async_full msg a UID_INVALID flags m) = Pending" by simp
  have m2: "obliging m2"
    unfolding m2_def using callback_refused(1) [OF ask1(3) _ _ ask1(2)] assms(1) by simp
  obtain q where q: "get_query (msg_id msg) m2 = Some q" "q_authorized_actions q = []" "q_absent_action q = None"
      "if challenge then q_error_action q = Some a \<and> q_denied_action q = None else q_denied_action q = Some a \<and> q_error_action q = None"
    using callback_refused(2) [OF ask1(3) _ _ ask1(2), of a challenge, folded m2_def] assms(1) by (auto simp: new_query_def)
  have "async_polkit_query_check_action q b flags = Pending"
    using q assms(2) by (auto simp: async_polkit_query_check_action_def async_polkit_query_have_action_def is_action_def split: if_splits)
  then obtain f2 where v2: "bus_verify_polkit_async_full msg b UID_INVALID flags m2 = polkit_ask (msg_id msg) b f2 m2"
    using verify_unknown [OF assms(4-6), of m2 b flags] q(1) by auto
  note ask2 = ask_pending [OF m2, of "msg_id msg" b f2, folded v2, folded m3_def]
  then show "fst (bus_verify_polkit_async_full msg b UID_INVALID flags m2) = Pending" by simp
  show "m_abort (snd (async_polkit_callback (msg_id msg) reply m3))"
    using q by (intro callback_aborts [OF ask2(3)]) (auto split: if_splits)
qed

end
