(* ===== verification/Create_Live.thy ===== *)
theory Create_Live
  imports Bus_Inv Polkit_Inv
begin

text \<open>
  Creating a session succeeds: when the arguments are in order, no limit is reached and no call to the system fails,
  \<^verbatim>\<open>create_session\<close> replies. With what \<^verbatim>\<open>Bus_Inv\<close> shows of a reply, the session is there then.
\<close>

subsection \<open>A system in which nothing fails\<close>

lemma obliging_env: "m_env m' = m_env m \<Longrightarrow> obliging m' = obliging m"
  by (simp add: obliging_def)

lemma obliging_links: "same_links m m' \<Longrightarrow> obliging m' = obliging m"
  by (rule obliging_env) (simp add: same_links_simps)

lemma obliging_tables: "same_tables m m' \<Longrightarrow> obliging m' = obliging m"
  by (rule obliging_env) (simp add: same_tables_simps)

lemma obliging_upd [simp]:
  "obliging (upd_ses s f m) = obliging m" "obliging (upd_user u g m) = obliging m" "obliging (safe_close fd m) = obliging m"
  by (auto intro!: obliging_env simp: upd_ses_def upd_user_def safe_close_def emit_def)

lemma obliging_ask: "obliging m \<Longrightarrow> \<not> ask e m < 0"
  by (simp add: obliging_def ask_def not_less)

lemma user_start_ok: "obliging m \<Longrightarrow> fst (user_start u m) = 0"
  by (simp add: user_start_def Let_def case_prod_beta obliging_tables [OF same_objects_tables [OF user_save_internal_same]])

lemma delegated_ok: "obliging m \<Longrightarrow> \<not> session_use_delegated_cgroup s m < 0"
  by (simp add: session_use_delegated_cgroup_def Let_def obliging_ask)

lemma setup_paths_ok: "obliging m \<Longrightarrow> \<not> fst (session_setup_cgroup_paths s m) < 0"
  by (simp add: session_setup_cgroup_paths_def Let_def delegated_ok)

lemma chown_paths_ok: "obliging m \<Longrightarrow> 0 \<le> fst (session_chown_paths uid gid ps m)"
proof (induction ps arbitrary: m)
  case (Cons p ps)
  then show ?case by (simp add: session_chown_cgroup_path_def case_prod_beta)
qed simp

lemma obliging_resources [simp]:
  "obliging (snd (session_enable_controllers path m)) = obliging m"
  "obliging (snd (session_setup_cgroup_paths s m)) = obliging m"
  "obliging (snd (session_create_delegated_cgroup s m)) = obliging m"
  "obliging (snd (session_create_fifo s m)) = obliging m"
  by (rule obliging_links, rule links_enable links_setup_paths links_create_delegated links_create_fifo, rule same_links_refl)+

lemma create_delegated_ok:
  assumes "obliging m"
  shows "\<not> fst (session_create_delegated_cgroup s m) < 0"
proof (cases "s_cgroup_path (ses m s) \<noteq> None \<and> s_cgroup_leaf_path (ses m s) \<noteq> None")
  case True
  then obtain path leaf where p: "s_cgroup_path (ses m s) = Some path" "s_cgroup_leaf_path (ses m s) = Some leaf" by blast
  have "0 \<le> fst (session_delegate_paths s ps m')" if "obliging m'" for ps m'
    using chown_paths_ok [OF that] by (simp add: session_delegate_paths_def Let_def)
  then have "0 \<le> fst (session_delegate_paths s ps (snd (session_enable_controllers path m')))" if "obliging m'" for ps m'
    using that by simp
  then show ?thesis
    using assms delegated_ok [of "assert_that (has_user s m) m" s]
    by (simp add: session_create_delegated_cgroup_def p Let_def case_prod_beta not_less)
qed (auto simp: session_create_delegated_cgroup_def split: option.split)

lemma start_cgroup_ok:
  assumes "obliging m"
  shows "fst (session_start_cgroup s m) = 0" "obliging (snd (session_start_cgroup s m))"
proof -
  obtain r1 m1 where m1: "session_setup_cgroup_paths s m = (r1, m1)" by fastforce
  obtain r2 m2 where m2: "session_create_delegated_cgroup s m1 = (r2, m2)" by fastforce
  have 1: "\<not> r1 < 0" "obliging m1"
    using setup_paths_ok [OF assms, of s] obliging_resources(2) [of s m] assms by (simp_all add: m1)
  have 2: "\<not> r2 < 0" "obliging m2"
    using create_delegated_ok [OF 1(2), of s] obliging_resources(3) [of s m1] 1(2)
    by (simp_all add: m2)
  have watch: "obliging (snd (session_watch_cgroup s m')) = obliging m'" for m'
    by (rule obliging_env) (simp add: same_core_simps [OF core_watch_cgroup [OF same_core_refl]])
  show "fst (session_start_cgroup s m) = 0" "obliging (snd (session_start_cgroup s m))"
    using 1 2 by (simp_all add: session_start_cgroup_def m1 m2 Let_def case_prod_beta watch)
qed

lemma idle_timer_ok: "obliging m \<Longrightarrow> fst (session_setup_stop_on_idle_timer s m) = 0"
  by (simp add: session_setup_stop_on_idle_timer_def case_prod_beta)

subsection \<open>The steps\<close>

definition ready :: "string \<Rightarrow> uid \<Rightarrow> manager \<Rightarrow> bool" where
  "ready s u m \<longleftrightarrow> obliging m \<and> s_user (ses m s) = Some u \<and> \<not> s_stopping (ses m s)"

lemma start_ok: "ready s u m \<Longrightarrow> fst (session_start s m) = 0"
  by (simp add: session_start_def ready_def Let_def case_prod_beta user_start_ok start_cgroup_ok idle_timer_ok
      obliging_tables [OF user_start_tables])

lemma create_fifo_ok: "obliging m \<Longrightarrow> \<not> fst (session_create_fifo s m) < 0"
  by (simp add: session_create_fifo_def session_fifo_make_def session_fifo_open_def session_fifo_watch_def Let_def case_prod_beta)

lemma obliging_saves [simp]:
  "obliging (snd (session_save s m)) = obliging m" "obliging (snd (user_save u m)) = obliging m"
  using obliging_tables same_objects_tables session_save_same user_save_same by blast+

lemma create_reply_ok: "obliging m \<Longrightarrow> \<exists>y. fst (session_send_create_reply i s m) = Inr y"
  using create_fifo_ok [of "upd_ses s (s_create_message_update (\<lambda>_. False)) m" s]
  by (simp add: session_send_create_reply_def Let_def case_prod_beta)

lemma watch_pidfd_ok:
  "obliging m \<Longrightarrow> fst (session_watch_pidfd s m) = 0" "obliging (snd (session_watch_pidfd s m)) = obliging m"
  "s_stopping (ses (snd (session_watch_pidfd s m)) s) = s_stopping (ses m s)"
  "m_sessions_by_leader (snd (session_watch_pidfd s m)) = m_sessions_by_leader m"
  by (simp_all add: session_watch_pidfd_def Let_def case_prod_beta upd_simps)

lemma read_audit_keeps:
  "obliging (session_read_audit s m) = obliging m" "s_stopping (ses (session_read_audit s m) s) = s_stopping (ses m s)"
  by (simp_all add: session_read_audit_def Let_def upd_simps)

lemma set_leader_ok:
  assumes "obliging m" "map_of (m_sessions_by_leader m) (pid_pid leader) = None" "\<not> pidref_is_set (s_leader (ses m s))"
  shows "\<not> fst (session_set_leader_consume s leader m) < 0" "obliging (snd (session_set_leader_consume s leader m))"
    "s_stopping (ses (snd (session_set_leader_consume s leader m)) s) = s_stopping (ses m s)"
proof -
  define m1 where "m1 = upd_ses s (s_leader_update (\<lambda>_. leader)) (session_reset_leader s False (assert_that (pidref_is_set leader) m))"
  obtain r m2 where m2: "session_watch_pidfd s m1 = (r, m2)" by fastforce
  have 1: "obliging m1" "s_stopping (ses m1 s) = s_stopping (ses m s)" "m_sessions_by_leader m1 = m_sessions_by_leader m"
    using assms(1,3) by (simp_all add: m1_def session_reset_leader_def Let_def upd_simps)
  have 2: "r = 0" "obliging m2" "s_stopping (ses m2 s) = s_stopping (ses m s)"
      "map_of (m_sessions_by_leader m2) (pid_pid leader) = None"
    using watch_pidfd_ok [where m = m1 and s = s] 1 assms(2) by (simp_all add: m2)
  have upd: "obliging (m2\<lparr>m_sessions_by_leader := l\<rparr>)" for l using 2(2) by (simp add: obliging_def)
  show "\<not> fst (session_set_leader_consume s leader m) < 0" "obliging (snd (session_set_leader_consume s leader m))"
    "s_stopping (ses (snd (session_set_leader_consume s leader m)) s) = s_stopping (ses m s)"
    unfolding session_set_leader_consume_def Let_def m1_def [symmetric] m2
    using assms(1) 2 upd by (simp_all add: case_prod_beta read_audit_keeps upd_simps)
qed

lemma ready_attach:
  assumes "ready s u m" "s_seat (ses m s) = None" "seat_has_vts st m \<longleftrightarrow> s_vtnr (ses m s) \<noteq> 0"
  shows "fst (seat_attach_session st s m) = 0" "ready s u (snd (seat_attach_session st s m))"
proof -
  note pos = same_but_positions_simps [OF assign_sbp]
  have env: "obliging (seat_assign_position st s (link_seat st s m))"
    using assms(1) obliging_tables [OF same_tables_trans [OF link_seat_tables same_but_positions_tables [OF assign_sbp]]]
    by (simp add: ready_def)
  moreover have "obliging (seat_set_active st x m') = obliging m'" for x m' by (rule obliging_tables [OF seat_set_active_tables])
  ultimately show "fst (seat_attach_session st s m) = 0" "ready s u (snd (seat_attach_session st s m))"
    using assms by (simp_all add: attach_unfold ready_def Let_def pos link_seat_def upd_simps)
qed

lemma obliging_vt [simp]: "obliging (snd (seat_read_active_vt st m)) = obliging m"
proof -
  have "obliging (snd (seat_active_vt_changed st v m')) = obliging m'" for v m'
    by (simp add: seat_active_vt_changed_def Let_def obliging_tables [OF seat_set_active_tables] split: option.split)
  then show ?thesis by (simp add: seat_read_active_vt_def Let_def case_prod_beta split: option.split sum.split)
qed

lemma obliging_start:
  assumes "obliging m"
  shows "obliging (snd (session_start s m))"
proof -
  have user: "obliging (snd (user_start u m')) = obliging m'" "obliging (user_elect_display u m') = obliging m'" for u m'
    by (rule obliging_tables, simp add: user_start_tables elect_display_tables)+
  have timer: "obliging (snd (session_setup_stop_on_idle_timer s m')) = obliging m'" for m'
    by (simp add: session_setup_stop_on_idle_timer_def case_prod_beta)
  have tty: "obliging (snd (session_chown_tty s m')) = obliging m'" for m'
    by (rule obliging_links [OF links_chown_tty [OF same_links_refl]])
  have seat: "obliging (on_seat f s m')" if "obliging m'" "\<And>st m. obliging m \<Longrightarrow> obliging (f st m)" for f m'
    using that by (simp add: on_seat_def split: option.split)
  have send: "obliging (seat_send_changed st ps m') = obliging m'" "obliging (user_send_changed u ps m') = obliging m'"
    "obliging (session_send_signal s b m') = obliging m'" "obliging (snd (seat_save st m')) = obliging m'" for st ps u b m'
    using obliging_tables [OF same_objects_tables] seat_save_same session_send_signal_same
    by (simp_all add: seat_send_changed_def user_send_changed_def)
  show ?thesis
    using assms start_cgroup_ok by (simp add: session_start_def Let_def case_prod_beta user timer tty seat send split: option.split)
qed

lemma create_start_ok:
  assumes "obliging m" "s_user (ses m s) = None" "s_seat (ses m s) = None" "\<not> s_stopping (ses m s)"
    "\<not> pidref_is_set (s_leader (ses m s))" "map_of (m_sessions_by_leader m) (pid_pid leader) = None"
    "\<And>st. seat = Some st \<Longrightarrow> seat_has_vts st m \<longleftrightarrow> vtnr \<noteq> 0"
  shows "\<exists>y. fst (create_session_start msg a leader t c seat vtnr s u m) = Reply y"
proof -
  define m1 where "m1 = session_set_user s u m"
  obtain r2 m2 where m2: "session_set_leader_consume s leader m1 = (r2, m2)" by fastforce
  define m3 where "m3 = upd_ses s (create_session_fields a t c vtnr) m2"
  define m4 where "m4 = (if SESSION_CLASS_PIN_USER c then upd_user u (u_gc_mode_update (\<lambda>_. USER_GC_BY_PIN)) m3 else m3)"
  obtain r5 m5 where m5: "(case seat of None \<Rightarrow> (0, m4) | Some st \<Rightarrow> seat_attach_session st s m4) = (r5, m5)" by fastforce
  obtain r6 m6 where m6: "session_start s m5 = (r6, m6)" by fastforce
  have 1: "ready s u m1" "s_seat (ses m1 s) = None" "\<not> pidref_is_set (s_leader (ses m1 s))"
      "map_of (m_sessions_by_leader m1) (pid_pid leader) = None" "seat_has_vts st m1 = seat_has_vts st m" for st
    using assms obliging_tables [OF last_session_timer_tables]
    by (simp_all add: m1_def session_set_user_def Let_def upd_simps ready_def seat_has_vts_def assert_that_def)
  note core = same_core_simps [OF core_set_leader [of m1 s leader], unfolded m2 snd_conv]
  have 2: "\<not> r2 < 0" "ready s u m2" "s_seat (ses m2 s) = None" "seat_has_vts st m2 = seat_has_vts st m" for st
    using set_leader_ok [of m1 leader s] 1 by (simp_all add: m2 core ready_def)
  have 4: "ready s u m4" "s_seat (ses m4 s) = None" "seat_has_vts st m4 = seat_has_vts st m" "s_vtnr (ses m4 s) = vtnr" for st
    using 2 by (simp_all add: m4_def m3_def ready_def create_session_fields_def upd_simps seat_has_vts_def)
  have 5: "r5 = 0" "ready s u m5"
    using m5 4 ready_attach [OF 4(1,2)] assms(7) by (cases seat; simp; metis fst_conv snd_conv)+
  have 6: "r6 = 0" "obliging m6"
    using start_ok [OF 5(2)] obliging_start [of m5 s] 5(2) by (simp_all add: m6 ready_def)
  obtain y where "fst (session_send_create_reply (msg_id msg) s (upd_ses s (s_create_message_update (\<lambda>_. True)) m6)) = Inr y"
    using create_reply_ok [of "upd_ses s (s_create_message_update (\<lambda>_. True)) m6" "msg_id msg" s] 6(2)
    unfolding obliging_upd(1) by blast
  then show ?thesis
    unfolding create_session_start_def Let_def m1_def [symmetric] m2 prod.case m3_def [symmetric] m4_def [symmetric] m5 m6
    using 2(1) 5(1) 6(1) by (cases y) (simp add: case_prod_beta)
qed

subsection \<open>The whole call\<close>

lemma create_id_valid: "session_id_valid (fst (create_session_id leader m))"
  using dec_digits by (auto simp: create_session_id_def session_counter_name_def session_id_valid_def Let_def case_prod_beta
      ascii_isalpha_def ascii_isdigit_def)

lemma create_id_env: "m_env (snd (create_session_id leader m)) = m_env m"
  by (simp add: create_session_id_def Let_def case_prod_beta same_objects_fields [OF create_audit_same])

lemma add_user_ok:
  assumes "w_userdb_by_uid (m_world m) u = Inr ur" "ur_user_name ur \<noteq> None" "uid_is_valid (ur_uid ur)"
  shows "fst (manager_add_user_by_uid u m) = Inr (ur_uid ur)"
    "m_env (snd (manager_add_user_by_uid u m)) = m_env m" "ses (snd (manager_add_user_by_uid u m)) = ses m"
    "m_sessions_by_leader (snd (manager_add_user_by_uid u m)) = m_sessions_by_leader m"
    "seat_has_vts st (snd (manager_add_user_by_uid u m)) = seat_has_vts st m"
  using assms by (simp_all add: manager_add_user_by_uid_def manager_add_user_def user_new_def upd_user_def case_prod_beta
      seat_has_vts_def seat_is_seat0_def)

lemma add_session_ok:
  assumes "session_id_valid s" "s \<notin> set (m_sessions m)"
  shows "fst (manager_add_session s m) = 0" "ses (snd (manager_add_session s m)) s = new_session"
    "m_env (snd (manager_add_session s m)) = m_env m"
    "m_sessions_by_leader (snd (manager_add_session s m)) = m_sessions_by_leader m"
    "seat_has_vts st (snd (manager_add_session s m)) = seat_has_vts st m"
  using assms by (simp_all add: manager_add_session_def session_new_def upd_ses_def seat_has_vts_def seat_is_seat0_def)

lemma create_add_ok:
  assumes "obliging m" "length (m_sessions m) < 2 ^ 64" "map_of (m_sessions_by_leader m) (pid_pid leader) = None"
    "\<And>st. seat = Some st \<Longrightarrow> seat_has_vts st m \<longleftrightarrow> vtnr \<noteq> 0"
    "w_userdb_by_uid (m_world m) (ca_uid a) = Inr ur" "ur_user_name ur \<noteq> None" "uid_is_valid (ur_uid ur)"
  shows "\<exists>y. fst (create_session_add msg a leader t c seat vtnr m) = Reply y"
proof -
  obtain s m1 where m1: "create_session_id leader m = (s, m1)" by fastforce
  define m2 where "m2 = manager_reconnect_utmp (assert_that (\<not> SESSION_IS_SELF s \<and> \<not> SESSION_IS_AUTO s) m1)"
  obtain x m3 where m3: "manager_add_user_by_uid (ca_uid a) m2 = (x, m3)" by fastforce
  obtain r m4 where m4: "manager_add_session s m3 = (r, m4)" by fastforce
  have s: "session_id_valid s" "s \<notin> set (m_sessions m)"
    using create_id_valid [of leader m] create_id_free [OF assms(2), of leader] by (simp_all add: m1)
  have "same_graph m m1" using create_id_graph [of m leader] by (simp add: m1)
  then have g: "same_graph m m2" by (simp add: m2_def sg_utmp sg_assert)
  have "m_env m1 = m_env m" using create_id_env [of leader m] by (simp add: m1)
  then have "m_env m2 = m_env m"
    by (simp add: m2_def manager_reconnect_utmp_def manager_connect_utmp_def case_prod_beta assert_that_def emit_def)
  then have 2: "m_env m2 = m_env m" "m_world m2 = m_world m" "m_sessions m2 = m_sessions m"
    "m_sessions_by_leader m2 = m_sessions_by_leader m" "seat_has_vts st m2 = seat_has_vts st m" for st
    using g by (simp_all add: same_graph_def seat_has_vts_def seat_is_seat0_def)
  have "w_userdb_by_uid (m_world m2) (ca_uid a) = Inr ur" using assms(5) 2(2) by simp
  note user = add_user_ok [OF this assms(6,7), unfolded m3 fst_conv snd_conv]
  have "m_sessions m3 = m_sessions m" using add_user_frame(2) [of "ca_uid a" m2] 2(3) by (simp add: m3)
  with s(2) have "s \<notin> set (m_sessions m3)" by simp
  note session = add_session_ok [OF s(1) this, unfolded m4 fst_conv snd_conv]
  have "\<exists>y. fst (create_session_start msg a leader t c seat vtnr s (ur_uid ur) m4) = Reply y"
    using assms(1,3,4) 2 user session
    by (intro create_start_ok) (simp_all add: obliging_def new_session_def pidref_is_set_def PIDREF_NULL_def)
  then show ?thesis
    unfolding create_session_add_def Let_def m1 prod.case m2_def [symmetric] m3 user(1)
    using session(1,2) by (simp add: m4 new_session_def)
qed

theorem create_session_ok:
  assumes "obliging m" "length (m_sessions m) < m_sessions_max m" "m_sessions_max m \<le> 2 ^ 64"
    "uid_is_valid (ca_uid a)" "ca_flags a = 0"
    "w_userdb_by_uid (m_world m) (ca_uid a) = Inr ur" "ur_user_name ur \<noteq> None" "uid_is_valid (ur_uid ur)"
    "create_session_leader msg a m = (Inr leader, m1)" "pid_pid leader \<noteq> 1" "int (pid_pid leader) \<noteq> ask Ask_getpid m1"
    "manager_get_session_by_pidref m1 leader = (0, None)"
    "create_session_check a m1 = Inr (t, c, seat, vtnr)" "\<not> vt_occupied c vtnr m1"
  shows "\<exists>y. fst (create_session msg a m) = Reply y"
proof -
  define m2 where "m2 = assert_that (vt_seat0_known c vtnr m1) m1"
  have same: "same_objects m m1" using create_leader_same [of m msg a] by (simp add: assms(9))
  note eq = same_objects_fields [OF same]
  have "map_of (m_sessions_by_leader m1) (pid_pid leader) = None"
    using assms(12) by (auto simp: manager_get_session_by_pidref_def Let_def split: if_splits option.splits)
  moreover have "seat_has_vts st m1 \<longleftrightarrow> vtnr \<noteq> 0" if "seat = Some st" for st
    using assms(13) that by (auto simp: create_session_check_def create_session_place_def Let_def
        split: sum.splits if_splits option.splits prod.splits)
  ultimately have "\<exists>y. fst (create_session_add msg a leader t c seat vtnr m2) = Reply y"
    using assms(1-3,6-8) eq
    by (intro create_add_ok) (simp_all add: m2_def assert_that_def obliging_def seat_has_vts_def seat_is_seat0_def)
  moreover have "vt_occupied c vtnr (m1\<lparr>m_abort := b\<rparr>) = vt_occupied c vtnr m1" for b
    by (simp add: vt_occupied_def cong: option.case_cong)
  then have "vt_occupied c vtnr m2 = vt_occupied c vtnr m1" by (simp add: m2_def assert_that_def)
  moreover have "m_sessions m2 = m_sessions m" "m_sessions_max m2 = m_sessions_max m"
    using eq by (simp_all add: m2_def assert_that_def)
  ultimately show ?thesis
    unfolding create_session_def using assms(2,4,5,10-14) by (simp add: assms(9) Let_def m2_def [symmetric])
qed

end
