(* ===== verification/Power_Run.thy ===== *)
theory Power_Run
  imports Polkit_Inv
begin

text \<open>
  Everything that starts, delays, ends or cancels a power operation: keys, lid and idle action, the requests on
  the bus, the schedule, the timeout of delay locks and the end of the helper. One operation at a time, whichever way
  it is asked for.
\<close>

subsection \<open>The schedule\<close>

text \<open>A timer that is set for a shutdown has an action that changes the power state.\<close>

definition armed_ok :: "manager \<Rightarrow> bool" where
  "armed_ok m \<longleftrightarrow> (sch_timeout_source (m_schedule m) \<longrightarrow> (\<exists>a. sch_action (m_schedule m) = Some a \<and> power_action a))"

definition same_armed :: "manager \<Rightarrow> manager \<Rightarrow> bool" where
  "same_armed m m' \<longleftrightarrow> sch_timeout_source (m_schedule m') = sch_timeout_source (m_schedule m) \<and>
     sch_action (m_schedule m') = sch_action (m_schedule m)"

text \<open>The invariant with the flag of a failed assertion, which stays what it was.\<close>

definition power_state :: "bool \<Rightarrow> manager \<Rightarrow> bool" where
  "power_state b m \<longleftrightarrow> power_ok m \<and> armed_ok m \<and> m_abort m = b"

lemma armed_same: "same_armed m m' \<Longrightarrow> armed_ok m' = armed_ok m"
  by (simp add: armed_ok_def same_armed_def)

lemma same_schedule: "m_schedule m' = m_schedule m \<Longrightarrow> same_armed m m'"
  by (simp add: same_armed_def)

lemma power_state_other: "same_power m m' \<Longrightarrow> same_armed m m' \<Longrightarrow> power_state b m' = power_state b m"
  using power_ok_same [of m m'] armed_same [of m m'] by (simp add: power_state_def same_power_fields)

lemma armed_frames [simp]:
  "m_schedule (snd (sys e m)) = m_schedule m" "m_schedule (emit e m) = m_schedule m"
  "m_schedule (assert_that c m) = m_schedule m" "m_schedule (manager_send_changed ps m) = m_schedule m"
  "m_schedule (upd_sch f m) = f (m_schedule m)"
  by (simp_all add: sys_def emit_def assert_that_def manager_send_changed_def upd_sch_def)

lemma schedule_power_only: "power_only m m' \<Longrightarrow> m_schedule m' = m_schedule m"
  by (erule power_only_field) (simp add: power_part_def)

text \<open>An operation that leaves all but the power state alone, and that state in order.\<close>

lemma power_state_only:
  assumes "power_state b m" "power_only m m'" "power_ok m' \<and> m_abort m' = m_abort m"
  shows "power_state b m'"
  using assms armed_same [OF same_schedule [OF schedule_power_only]] by (simp add: power_state_def)

subsection \<open>Operations on the schedule\<close>

lemma armed_reset [simp]:
  "sch_timeout_source (m_schedule (reset_scheduled_shutdown m)) = False"
  "sch_action (m_schedule (reset_scheduled_shutdown m)) = None"
  by (simp_all add: reset_scheduled_shutdown_def Let_def)

lemma power_state_reset: "power_state b m \<Longrightarrow> power_state b (reset_scheduled_shutdown m)"
  using power_ok_same [OF same_power_reset_schedule] same_power_fields(4) [OF same_power_reset_schedule]
  by (simp add: power_state_def armed_ok_def)

lemma power_state_sch: "same_armed m (upd_sch f m) \<Longrightarrow> power_state b (upd_sch f m) = power_state b m"
  by (rule power_state_other [OF same_power_sch])

lemma power_state_sys:
  "power_state b (snd (sys e m)) = power_state b m" "power_state b (emit e m) = power_state b m"
  by (rule power_state_other; simp add: same_power_sys same_schedule)+

lemma power_state_changed: "power_state b (manager_send_changed ps m) = power_state b m"
  by (simp add: manager_send_changed_def power_state_sys)

lemma power_state_warn_wall: "power_state b (snd (warn_wall n m)) = power_state b m"
  by (simp add: warn_wall_def power_state_sys split: option.split)

lemma power_state_wall_reset: "power_state b (snd (event_reset_time name t sch_wall_source_update m)) = power_state b m"
  by (simp add: event_reset_time_def case_prod_beta power_state_sys power_state_sch same_armed_def)

lemma power_state_wall_timer: "power_state b (snd (manager_setup_wall_message_timer m)) = power_state b m"
  by (simp add: manager_setup_wall_message_timer_def case_prod_beta Let_def power_state_warn_wall power_state_wall_reset
      power_state_sch same_armed_def)

lemma power_state_setup_wall: "power_state b (snd (setup_wall_message_timer msg m)) = power_state b m"
  by (simp add: setup_wall_message_timer_def power_state_wall_timer power_state_sch same_armed_def creds_uid_tty_def)

lemma power_state_wall_handler: "power_state b (snd (wall_message_timeout_handler m)) = power_state b m"
  by (simp add: wall_message_timeout_handler_def case_prod_beta Let_def power_state_warn_wall power_state_sys)

lemma power_state_nologin: "power_state b (nologin_timeout_handler m) = power_state b m"
  by (simp add: nologin_timeout_handler_def case_prod_beta power_state_sys power_state_sch same_armed_def)

lemma same_power_setup_wall: "same_power m (snd (setup_wall_message_timer msg m))"
  by (simp add: setup_wall_message_timer_def manager_setup_wall_message_timer_def warn_wall_def event_reset_time_def
      same_power_def sys_def emit_def upd_sch_def Let_def case_prod_beta split: option.split)

lemma action_setup_wall: "sch_action (m_schedule (snd (setup_wall_message_timer msg m))) = sch_action (m_schedule m)"
  by (simp add: setup_wall_message_timer_def manager_setup_wall_message_timer_def warn_wall_def event_reset_time_def
      creds_uid_tty_def Let_def case_prod_beta split: option.split)

lemma power_state_update_file:
  assumes "sch_action (m_schedule m) = Some a"
  shows "power_state b (snd (update_schedule_file m)) = power_state b m"
  unfolding update_schedule_file_def assms option.case case_prod_beta
  by (simp add: power_state_sys split: sum.split)

lemma delayed_schedule [simp]:
  "m_delayed_action (reset_scheduled_shutdown m) = m_delayed_action m" "m_delayed_action (upd_sch f m) = m_delayed_action m"
  using same_power_fields(3) [OF same_power_reset_schedule] same_power_fields(3) [OF same_power_sch] by auto

lemma power_state_now:
  assumes "power_state b m" "m_delayed_action m = None" "power_action a"
  shows "power_state b (snd (bus_manager_shutdown_or_sleep_now_or_later a m))"
  using power_state_only [OF assms(1) po_now_or_later [OF power_only_refl] power_now_or_later] assms
  by (simp add: power_state_def)

lemma power_state_cancel: "power_state b m \<Longrightarrow> power_state b (cancel_delayed_action m)"
  using power_state_only [OF _ po_cancel [OF power_only_refl] power_cancel] by (simp add: power_state_def)

lemma power_state_reply: "power_state b (snd (reply_return msg v m)) = power_state b m"
  by (simp add: reply_return_def case_prod_beta power_state_sys)

lemma power_state_finish: "power_state b (snd (finish msg x)) = power_state b (snd x)"
  by (simp add: finish_def case_prod_beta power_state_reply)

lemmas power_state_simps = power_state_sys power_state_changed power_state_warn_wall power_state_setup_wall
  power_state_reply power_state_finish

lemma power_state_scheduled:
  assumes "power_state b m" "sch_timeout_source (m_schedule m)"
  shows "power_state b (snd (manager_scheduled_shutdown_handler m))"
proof -
  obtain a where a: "sch_action (m_schedule m) = Some a" "power_action a"
    using assms by (auto simp: power_state_def armed_ok_def)
  show ?thesis
    unfolding manager_scheduled_shutdown_handler_def a(1) option.case case_prod_beta
    using assms(1) a(2) by (simp add: power_state_reset power_state_now bus_manager_log_shutdown_def power_state_sys)
qed

text \<open>With an action that changes the power state the timers may be set.\<close>

lemma power_state_armed:
  assumes "power_ok m" "m_abort m = b" "sch_action (m_schedule m) = Some a" "power_action a"
  shows "power_state b m"
  using assms by (simp add: power_state_def armed_ok_def)

lemma power_state_shutdown_timers:
  assumes "power_state b m" "sch_action (m_schedule m) = Some a" "power_action a"
  shows "power_state b (snd (manager_setup_shutdown_timers m))"
    "sch_action (m_schedule (snd (manager_setup_shutdown_timers m))) = Some a"
proof -
  have same: "same_power m (snd (manager_setup_shutdown_timers m))"
    by (simp add: manager_setup_shutdown_timers_def case_prod_beta Let_def same_power_def event_reset_time_def sys_def upd_sch_def)
  show act: "sch_action (m_schedule (snd (manager_setup_shutdown_timers m))) = Some a"
    using assms(2) by (simp add: manager_setup_shutdown_timers_def case_prod_beta Let_def event_reset_time_def)
  show "power_state b (snd (manager_setup_shutdown_timers m))"
    using assms(1,3) act power_ok_same [OF same] same_power_fields(4) [OF same]
    by (intro power_state_armed) (simp_all add: power_state_def)
qed

subsection \<open>Requests on the bus\<close>

text \<open>The requests about power. A sender that is asked about first, or refused, has no effect on it.\<close>

fun power_request :: "request \<Rightarrow> bool" where
  "power_request (Do_shutdown_or_sleep a arg) = True"
| "power_request (Schedule_shutdown type elapse) = True"
| "power_request Cancel_scheduled_shutdown = True"
| "power_request (Set_wall_message w enable) = True"
| "power_request (Can_shutdown_or_sleep a) = True"
| "power_request _ = False"

lemma asked_power:
  assumes "only_asked P i m m'" "P" "\<not> question_under_way i m"
  shows "power_state b m' = power_state b m"
proof (rule power_state_other)
  note outside = only_asked_outside [OF assms(1)]
  show "same_armed m m'" by (rule same_schedule) (rule same_but_asked_field [OF outside(1)], simp)
  have "m_action_job m' = m_action_job m" "m_sleep_fork_action m' = m_sleep_fork_action m" "m_delayed_action m' = m_delayed_action m"
    by (rule same_but_asked_field [OF outside(1)], simp)+
  then show "same_power m m'" using outside(3) [OF assms(2,3)] by (simp add: same_power_def)
qed

lemma power_state_authorised:
  assumes "power_state b m" "asks True (msg_id msg) m v" "\<not> question_under_way (msg_id msg) m"
    "power_state b m \<Longrightarrow> power_state b (snd (k m))"
  shows "power_state b (snd (authorised v k))"
proof (cases "fst v = Allowed")
  case True
  then have "v = (Allowed, m)" using asks_allowed [OF assms(2) True] checked_calm by (metis prod.collapse)
  then show ?thesis using assms(1,4) by (simp add: authorised_def)
next
  case False
  then show ?thesis using asked_power [OF authorised_refused [OF assms(2) False, of k] _ assms(3)] assms(1) by simp
qed

lemma power_state_shutdown_now:
  assumes "power_state b m" "power_action a"
  shows "power_state b (snd (shutdown_or_sleep_now msg action a m))"
proof -
  define m1 where "m1 = upd_sch (sch_sleep_uid_update (\<lambda>_. scheduled_sleep_uid msg m)) m"
  define m2 where "m2 = reset_scheduled_shutdown (upd_sch (sch_unlink_nologin_update (\<lambda>_. False)) m1)"
  define m3 where "m3 = upd_sch (\<lambda>x. x\<lparr>sch_timeout := 0, sch_action := Some action\<rparr>) m2"
  define m4 where "m4 = snd (setup_wall_message_timer msg m3)"
  have m1: "power_state b m1" using assms(1) by (simp add: m1_def power_state_sch same_armed_def)
  then have m2: "power_state b m2" by (simp add: m2_def power_state_reset power_state_sch same_armed_def)
  have "armed_ok m3" by (simp add: armed_ok_def m3_def m2_def)
  then have "power_state b m3"
    using m2 power_ok_same [OF same_power_sch] same_power_fields(4) [OF same_power_sch] by (simp add: m3_def power_state_def)
  then have m4: "power_state b m4" by (simp add: m4_def power_state_setup_wall)
  have idle: "m_delayed_action m4 = m_delayed_action m1"
    using same_power_fields(3) [OF same_power_setup_wall] by (simp add: m4_def m3_def m2_def)
  have "shutdown_or_sleep_now msg action a m =
      (if m_delayed_action m1 \<noteq> None then (Fail BUS_ERROR_OPERATION_IN_PROGRESS, m1)
       else finish msg (bus_manager_shutdown_or_sleep_now_or_later a m4))"
    by (simp only: shutdown_or_sleep_now_def Let_def m1_def m2_def m3_def m4_def)
  then show ?thesis using m1 power_state_now [OF m4 _ assms(2)] idle by (simp add: power_state_finish)
qed

lemma power_state_schedule_now:
  assumes "power_state b m" "power_action a"
  shows "power_state b (snd (schedule_now msg a dry_run elapse m))"
proof -
  define m1 where "m1 = upd_sch (\<lambda>x. x\<lparr>sch_action := Some a, sch_dry_run := dry_run, sch_timeout := elapse\<rparr>) m"
  obtain r2 m2 where m2: "manager_setup_shutdown_timers m1 = (r2, m2)" by force
  obtain r3 m3 where m3: "setup_wall_message_timer msg m2 = (r3, m3)" by force
  have m1: "power_state b m1" "sch_action (m_schedule m1) = Some a"
    using assms power_ok_same [OF same_power_sch] same_power_fields(4) [OF same_power_sch]
    by (simp_all add: m1_def power_state_def armed_ok_def)
  have 2: "power_state b m2" "sch_action (m_schedule m2) = Some a"
    using power_state_shutdown_timers [OF m1 assms(2)] by (simp_all add: m2)
  have 3: "power_state b m3" "sch_action (m_schedule m3) = Some a"
    using 2 power_state_setup_wall [of b msg m2] action_setup_wall [of msg m2] by (simp_all add: m3)
  then have "power_state b (snd (if r3 < 0 then (r3, m3) else update_schedule_file m3))"
    using power_state_update_file by simp
  then show ?thesis
    unfolding schedule_now_def Let_def m1_def [symmetric] m2 case_prod_beta prod.sel m3
    using 2 by (simp add: power_state_reset power_state_reply power_state_changed)
qed

text \<open>A request about power that is such as the vtable gives, for a message without a question under way.\<close>

lemma power_state_request:
  assumes "power_state b m" "power_request req" "calm req m" "\<not> question_under_way (msg_id msg) m"
  shows "power_state b (snd (dispatch msg req m))"
proof -
  note auth = power_state_authorised [OF assms(1) _ assms(4)]
  have unpriv: "dispatch msg req m = manager_dispatch msg req m"
    using assms(2) by (cases req) (simp_all add: dispatch_def check_access_def)
  have users: "\<forall>s \<in> set (m_sessions m). has_user s m" using assms(3) by (simp add: calm_def)
  show ?thesis
    unfolding unpriv
  proof (cases req)
    case (Do_shutdown_or_sleep a arg)
    then have a: "HANDLE_ACTION_IS_SHUTDOWN a \<or> HANDLE_ACTION_IS_SLEEP a" using assms(3) by (simp add: calm_def)
    have "power_state b (snd (authorised (verify_shutdown_creds msg x flags m) (shutdown_or_sleep_now msg a x)))"
      if "select_action a flags m = Inr x" for flags x
      using select_power_action [OF that a] users
      by (intro auth asks_shutdown power_state_shutdown_now assms(1)) (auto simp: power_action_what(1))
    then show "power_state b (snd (manager_dispatch msg req m))"
      using a assms(1)
      by (simp add: Do_shutdown_or_sleep method_do_shutdown_or_sleep_def Let_def assert_true found_def split: sum.split)
  next
    case (Schedule_shutdown type elapse)
    have "power_state b (snd (authorised (verify_shutdown_creds msg x 0 m)
        (\<lambda>m. found (schedule_time elapse m) m (\<lambda>t. schedule_now msg x dry t m))))"
      if "HANDLE_ACTION_IS_SHUTDOWN x" for x dry
      using power_action_of(1) [OF that] users assms(1)
      by (intro auth asks_shutdown) (auto simp: power_action_what(1) found_def power_state_schedule_now split: sum.split)
    then show "power_state b (snd (manager_dispatch msg req m))"
      using assms(1) by (simp add: Schedule_shutdown method_schedule_shutdown_def Let_def split: option.split)
  next
    case Cancel_scheduled_shutdown
    then show "power_state b (snd (manager_dispatch msg req m))"
      using assms(1) by (auto simp: method_cancel_scheduled_shutdown_def kind_def Let_def power_state_simps cancel_message_def
          power_state_reset power_state_cancel asks intro!: auth split: option.split)
  next
    case (Set_wall_message w enable)
    then show "power_state b (snd (manager_dispatch msg req m))"
      using assms(1) by (auto simp: method_set_wall_message_def Let_def power_state_simps power_state_sch same_armed_def asks
          intro!: auth)
  next
    case (Can_shutdown_or_sleep a)
    then have "only_asked (calm req m) (msg_id msg) m (snd (manager_dispatch msg req m))"
      using only_asked_can by (simp add: kind_def calm_def)
    from asked_power [OF this assms(3,4)] assms(1) show "power_state b (snd (manager_dispatch msg req m))" by blast
  qed (use assms(2) in simp_all)
qed

subsection \<open>All power events\<close>

text \<open>The events that touch the power state, and everything else, which leaves it alone. A factory reset fails an
  assertion (\<open>factory_reset_aborts\<close>), and so may a second question about the same message.\<close>

inductive power_step :: "manager \<Rightarrow> manager \<Rightarrow> bool" where
  handle: "handle \<noteq> HANDLE_FACTORY_RESET \<Longrightarrow> key \<le> 0 \<or> inhibit_what_is_valid key \<Longrightarrow>
    power_step m (snd (manager_handle_action key handle ignore_inhibited is_edge seat m))"
| request: "power_request req \<Longrightarrow> calm req m \<Longrightarrow> \<not> question_under_way (msg_id msg) m \<Longrightarrow>
    power_step m (snd (dispatch msg req m))"
| scheduled: "sch_timeout_source (m_schedule m) \<Longrightarrow> power_step m (snd (manager_scheduled_shutdown_handler m))"
| nologin: "power_step m (nologin_timeout_handler m)"
| wall: "power_step m (snd (wall_message_timeout_handler m))"
| delayed: "power_step m (snd (manager_dispatch_delayed timeout m))"
| cancel: "power_step m (cancel_delayed_action m)"
| child: "power_step m (elogind_sigchld_handler m)"
| idle: "m_idle_action m \<noteq> HANDLE_FACTORY_RESET \<Longrightarrow> power_step m (snd (manager_dispatch_idle_action m))"
| other: "same_power m m' \<Longrightarrow> same_armed m m' \<Longrightarrow> power_step m m'"

inductive_cases power_stepE: "power_step m m'"

lemma power_step_ok: "power_step m m' \<Longrightarrow> power_state b m \<Longrightarrow> power_state b m'"
proof (induction rule: power_step.induct)
  case (handle handle key m ignore_inhibited is_edge seat)
  then show ?case
    by (intro power_state_only [OF _ po_handle_action [OF power_only_refl]] power_handle_action) (simp_all add: power_state_def)
next
  case (delayed m timeout)
  then show ?case
    using power_dispatch_delayed [of m timeout]
    by (intro power_state_only [OF _ po_dispatch_delayed [OF power_only_refl]]) (simp_all add: power_state_def)
next
  case (child m)
  then show ?case
    using power_sigchld [of m] by (intro power_state_only [OF _ po_sigchld [OF power_only_refl]]) (simp_all add: power_state_def)
next
  case (idle m)
  then show ?case
    by (intro power_state_only [OF _ po_idle [OF power_only_refl]] power_idle_action) (simp_all add: power_state_def)
next
  case (other m m')
  then show ?case using power_state_other by blast
qed (simp_all add: power_state_request power_state_scheduled power_state_nologin power_state_wall_handler power_state_cancel)

interpretation power: step_invariant power_step "power_state b"
  for b
  by unfold_locales (rule power_step_ok)

lemma power_reachable:
  assumes "power_step\<^sup>*\<^sup>* m m'" "power_ok m" "armed_ok m"
  shows "power_ok m'" "armed_ok m'" "m_abort m' = m_abort m"
  using power.steps_keep [OF assms(1), of "m_abort m"] assms(2,3) by (simp_all add: power_state_def)

subsection \<open>While an action is recorded\<close>

lemma busy_execute:
  assumes "m_delayed_action m = Some b" "a \<notin> {HANDLE_IGNORE, HANDLE_LOCK, HANDLE_SLEEP}"
  shows "snd (handle_action_execute a ii e m) = m" "fst (handle_action_execute a ii e m) \<in> {- EALREADY, - EOPNOTSUPP}"
  using assms by (simp_all add: handle_action_execute_def assert_that_def)

lemma busy_sleep_one:
  assumes "m_delayed_action m = Some b" "power_action a" "HANDLE_ACTION_IS_SLEEP a"
  shows "snd (handle_action_sleep_one a ii e m) = m" "fst (handle_action_sleep_one a ii e m) \<in> {- EALREADY, - EOPNOTSUPP}"
proof -
  have a: "a \<notin> {HANDLE_IGNORE, HANDLE_LOCK, HANDLE_SLEEP}" using assms(2) by (auto simp: power_action_cases)
  show "snd (handle_action_sleep_one a ii e m) = m" "fst (handle_action_sleep_one a ii e m) \<in> {- EALREADY, - EOPNOTSUPP}"
    using busy_execute [OF assms(1) a] busy_execute [OF assms(1), of HANDLE_SUSPEND] assms(3)
    by (simp_all add: handle_action_sleep_one_def assert_that_def)
qed

text \<open>A key, the lid or idling: nothing happens, and a caller that is not ignored for its own locks is told.\<close>

lemma busy_handle:
  assumes "m_delayed_action m = Some b" "HANDLE_ACTION_IS_SHUTDOWN a \<or> HANDLE_ACTION_IS_SLEEP a"
    "key \<le> 0 \<or> inhibit_what_is_valid key"
  shows "snd (manager_handle_action key a ii e st m) = m \<and>
    fst (manager_handle_action key a ii e st m) \<in> {0, - EALREADY, - EOPNOTSUPP}"
proof -
  have s: "(if key > 0 then assert_that (inhibit_what_is_valid key) m else m) = m"
    using assms(3) by (auto simp: assert_that_def)
  have a: "a \<notin> {HANDLE_IGNORE, HANDLE_LOCK, HANDLE_SECURE_ATTENTION_KEY}"
    using assms(2) by (auto simp: HANDLE_ACTION_IS_SHUTDOWN_def HANDLE_ACTION_IS_SLEEP_def handle_action_number_def)
  have sleep: "snd (handle_action_sleep_execute a ii e m) = m \<and>
      fst (handle_action_sleep_execute a ii e m) \<in> {- EALREADY, - EOPNOTSUPP}" if "HANDLE_ACTION_IS_SLEEP a"
  proof (cases "a = HANDLE_SLEEP")
    case True
    then show ?thesis
      using sleep_select_power [of m] busy_sleep_one [OF assms(1)]
      by (auto simp: handle_action_sleep_execute_def split: option.split)
  next
    case False
    then show ?thesis
      using power_action_of(2) [OF that] busy_sleep_one [OF assms(1) _ that] by (simp add: handle_action_sleep_execute_def)
  qed
  have "a \<noteq> HANDLE_SLEEP" if "\<not> HANDLE_ACTION_IS_SLEEP a"
    using that by (auto simp: HANDLE_ACTION_IS_SLEEP_def handle_action_number_def)
  then show ?thesis
    using a sleep busy_execute [OF assms(1), of a ii e] unfolding manager_handle_action_def Let_def s by auto
qed

text \<open>A request on the bus that has passed polkit; what it leaves is the user remembered for sleep.\<close>

lemma busy_now:
  assumes "m_delayed_action m = Some b"
  shows "shutdown_or_sleep_now msg action a m =
    (Fail BUS_ERROR_OPERATION_IN_PROGRESS, upd_sch (sch_sleep_uid_update (\<lambda>_. scheduled_sleep_uid msg m)) m)"
  using assms by (simp add: shutdown_or_sleep_now_def Let_def)

definition same_operation :: "manager \<Rightarrow> manager \<Rightarrow> bool" where
  "same_operation m m' \<longleftrightarrow> m_delayed_action m' = m_delayed_action m \<and> m_action_job m' = m_action_job m \<and>
     m_sleep_fork_action m' = m_sleep_fork_action m \<and> m_sleep_fork_pid m' = m_sleep_fork_pid m \<and>
     m_inhibit_timeout_source m' = m_inhibit_timeout_source m"

lemma asked_operation: "same_but_asked m m' \<Longrightarrow> same_operation m m'"
  unfolding same_operation_def by (intro conjI; erule same_but_asked_field; simp)

text \<open>The whole method, asked or not: it does not succeed, and the operation that is recorded goes on as it was.\<close>

lemma busy_request:
  assumes "m_delayed_action m = Some b"
  shows "same_operation m (snd (method_do_shutdown_or_sleep msg a arg m))"
    "fst (method_do_shutdown_or_sleep msg a arg m) = Wait \<or> (\<exists>e. fst (method_do_shutdown_or_sleep msg a arg m) = Fail e)"
proof -
  let ?n = "assert_that (HANDLE_ACTION_IS_SHUTDOWN a \<or> HANDLE_ACTION_IS_SLEEP a) m"
  have n: "same_but_asked m ?n" by (rule oa_basic(3)) simp
  have auth: "same_operation m (snd (authorised v (shutdown_or_sleep_now msg a x))) \<and>
      (fst (authorised v (shutdown_or_sleep_now msg a x)) = Wait \<or> (\<exists>e. fst (authorised v (shutdown_or_sleep_now msg a x)) = Fail e))"
    if "same_but_asked m (snd v)" for v x
  proof -
    have o: "same_operation m (snd v)" by (rule asked_operation [OF that])
    then have "m_delayed_action (snd v) = Some b" using assms by (simp add: same_operation_def)
    from busy_now [OF this] o show ?thesis
      by (cases v; cases "fst v") (simp_all add: authorised_def same_operation_def upd_sch_def)
  qed
  have "same_but_asked m (snd (verify_shutdown_creds msg x flags ?n))" for x flags
    by (rule oa_shutdown [OF n])
  note auth = auth [OF this]
  let ?r = "method_do_shutdown_or_sleep msg a arg m"
  consider e where "?r = (Fail e, ?n)"
    | x flags where "?r = authorised (verify_shutdown_creds msg x flags ?n) (shutdown_or_sleep_now msg a x)"
    unfolding method_do_shutdown_or_sleep_def Let_def found_def
    by (cases "request_flags a arg"; cases "select_action a (projr (request_flags a arg)) ?n") simp_all
  then have "same_operation m (snd ?r) \<and> (fst ?r = Wait \<or> (\<exists>e. fst ?r = Fail e))"
    using auth asked_operation [OF n] by cases simp_all
  then show "same_operation m (snd ?r)" "fst ?r = Wait \<or> (\<exists>e. fst ?r = Fail e)" by blast+
qed

lemma busy_scheduled:
  assumes "m_delayed_action m = Some b" "sch_action (m_schedule m) = Some c"
  shows "manager_scheduled_shutdown_handler m = (- EALREADY, reset_scheduled_shutdown m)"
  using assms by (simp add: manager_scheduled_shutdown_handler_def)

end
