(* ===== verification/Sample.thy ===== *)
theory Sample
  imports Daemon_Run Create_Live Power_Run
begin

text \<open>
  A machine to evaluate the definitions on: a daemon that has just been configured, and one that runs, with
  one seat, a user with two sessions on it, a graphics card that both sessions hold, an inhibitor and a
  button. All calls to the system succeed with the value 0.
\<close>

definition sample_udev :: "string \<Rightarrow> udev" where
  "sample_udev sp = \<lparr>ud_syspath = Some sp, ud_devname = None, ud_sysname = None, ud_subsystem = None,
     ud_input_parent = None, ud_removed = False, ud_tags = [], ud_id_seat = None, ud_id_for_seat = None, ud_processed = True\<rparr>"

definition sample_record :: user_record where
  "sample_record = \<lparr>ur_user_name = Some ''joe'', ur_uid = 1000, ur_kill_processes = - 1, ur_stop_delay_usec = USEC_INFINITY,
     ur_removable = - 1\<rparr>"

definition sample_world :: world where
  "sample_world = \<lparr>w_dirs = (\<lambda>_. Inl (- ENOENT)), w_udev_by_tag = (\<lambda>_. Inr []), w_udev_by_syspath = sample_udev,
     w_drm = Inr [], w_userdb_by_name = (\<lambda>_. Inl (- ESRCH)), w_userdb_by_uid = (\<lambda>_. Inr sample_record),
     w_fd_names = Inr [], w_input_bits = (\<lambda>_ _. []), w_utmp = [],
     w_udev_by_sysname = (\<lambda>_ _. Inl (- ENODEV)), w_getpwuid = (\<lambda>_. Inl (- ESRCH)), w_get_uids = [],
     w_uid_get_sessions = (\<lambda>_. 0), w_ttyname = (\<lambda>_. Inl (- ENOTTY)), w_format_timestamp = dec\<rparr>"

definition sample_device :: device where
  "sample_device = \<lparr>d_seat = None, d_master = False, d_timestamp = DUAL_TIMESTAMP_NULL, d_session_devices = []\<rparr>"

definition sample_session_device :: session_device where
  "sample_session_device = \<lparr>sd_device = ''card0'', sd_node = ''/dev/dri/card0'', sd_fd = 7, sd_type = DEVICE_TYPE_DRM,
     sd_active = True, sd_pushed_fd = False\<rparr>"

definition sample_user :: user where
  "sample_user = new_user sample_record"

text \<open>The state before anything is known.\<close>

definition blank :: manager where
  "blank = \<lparr>ses = (\<lambda>_. new_session), sts = (\<lambda>_. new_seat), usr = (\<lambda>_. sample_user), dev = (\<lambda>_. sample_device),
     sdv = (\<lambda>_. sample_session_device), inh = (\<lambda>_. new_inhibitor), btn = (\<lambda>_. new_button), m_devices = [], m_seats = [],
     m_sessions = [], m_sessions_by_leader = [], m_users = [], m_inhibitors = [], m_buttons = [],
     m_seat_gc_queue = [], m_session_gc_queue = [], m_user_gc_queue = [], m_console_active_fd = - EBADF,
     m_do_interrupt = False, m_seat0 = None, m_kill_only_users = [], m_kill_exclude_users = [],
     m_kill_user_processes = False, m_delegate_session_cgroups = False, m_session_counter = 0, m_inhibit_counter = 0,
     m_inhibit_delay_max = 5000000, m_user_stop_delay = 0, m_delayed_action = None, m_action_job = None,
     m_inhibit_timeout_source = False, m_idle_action_usec = 0, m_idle_action_not_before_usec = 0,
     m_idle_action = HANDLE_IGNORE, m_was_idle = False, m_stop_idle_session_usec = USEC_INFINITY,
     m_handle_action_sleep_mask = 0, m_handle_power_key = HANDLE_POWEROFF, m_handle_power_key_long_press = HANDLE_IGNORE,
     m_handle_reboot_key = HANDLE_REBOOT, m_handle_reboot_key_long_press = HANDLE_POWEROFF,
     m_handle_suspend_key = HANDLE_SUSPEND, m_handle_suspend_key_long_press = HANDLE_HIBERNATE,
     m_handle_hibernate_key = HANDLE_HIBERNATE, m_handle_hibernate_key_long_press = HANDLE_IGNORE,
     m_handle_secure_attention_key = HANDLE_SECURE_ATTENTION_KEY, m_handle_lid_switch = HANDLE_SUSPEND,
     m_handle_lid_switch_ep = None, m_handle_lid_switch_docked = HANDLE_IGNORE, m_power_key_ignore_inhibited = False,
     m_suspend_key_ignore_inhibited = False, m_hibernate_key_ignore_inhibited = False,
     m_lid_switch_ignore_inhibited = True, m_reboot_key_ignore_inhibited = False, m_remove_ipc = False,
     m_holdoff_timeout_usec = 30000000, m_lid_switch_ignore_event_source = False,
     m_power_key_long_press_event_source = False, m_reboot_key_long_press_event_source = False,
     m_suspend_key_long_press_event_source = False, m_hibernate_key_long_press_event_source = False,
     m_runtime_dir_size = 0, m_runtime_dir_inodes = 0, m_sessions_max = 8192, m_inhibitors_max = 8192,
     m_eviocrevoke_warned = False, m_hidiocrevoke_warned = False, m_cgroup_inotify_fd = - EBADF,
     m_cgroup_control_inotify_wd_session = [], m_sleep_fork_action = None, m_sleep_fork_pid = 0, m_tool_fork_pid = 0,
     m_idle_action_event_source = False, m_brightness_writers = [], m_schedule = new_schedule, m_polkit_registry = [], m_utmp_event_source = False, m_world = sample_world, m_trace = [], m_env = (\<lambda>_ _. 0),
     m_console = (\<lambda>_. Inl (- ENOENT)), m_cgroup_session = (\<lambda>_. Inl (- ESRCH)), m_ctty = (\<lambda>_. Inl (- ENXIO)),
     m_udev = (\<lambda>_. None), m_files = (\<lambda>_. Inl (- ENOENT)), m_uninit_ts = DUAL_TIMESTAMP_NULL, m_uninit_unsigned = 0,
     m_malloc = (\<lambda>n. n), m_abort = False\<rparr>"

definition sample_session :: "nat \<Rightarrow> session" where
  "sample_session n = new_session\<lparr>s_user := Some 1000, s_seat := Some ''seat0'', s_position := n, s_vtnr := n,
     s_class := SESSION_USER, s_type := SESSION_TTY, s_started := True, s_devices := [(226, 0)]\<rparr>"

definition sample :: manager where
  "sample = blank\<lparr>ses := (\<lambda>_. new_session)(''c1'' := sample_session 1, ''c2'' := sample_session 2),
     sts := (\<lambda>_. new_seat)(''seat0'' := new_seat\<lparr>st_active := Some ''c1'', st_sessions := [''c1'', ''c2''],
       st_positions := [None, Some ''c1'', Some ''c2''], st_devices := [''card0''], st_started := True\<rparr>),
     usr := (\<lambda>_. sample_user\<lparr>u_sessions := [''c1'', ''c2''], u_display := Some ''c1'', u_started := True\<rparr>),
     dev := (\<lambda>_. sample_device\<lparr>d_seat := Some ''seat0'', d_master := True,
       d_session_devices := [(''c1'', (226, 0)), (''c2'', (226, 0))]\<rparr>),
     inh := (\<lambda>_. new_inhibitor\<lparr>i_started := True, i_what := INHIBIT_SHUTDOWN, i_mode := Some INHIBIT_BLOCK\<rparr>),
     m_devices := [''card0''], m_seats := [''seat0''], m_sessions := [''c1'', ''c2''], m_users := [1000],
     m_inhibitors := [''1''], m_buttons := [''event0''], m_seat0 := Some ''seat0''\<rparr>"

lemmas sample_objects = new_session_def new_seat_def sample_user_def sample_record_def new_user_def sample_device_def
  sample_session_device_def new_inhibitor_def new_button_def sample_session_def

lemmas sample_defs = sample_def blank_def

lemma sample_tables [simp]:
  "m_devices sample = [''card0'']" "m_seats sample = [''seat0'']" "m_sessions sample = [''c1'', ''c2'']"
  "m_users sample = [1000]" "m_inhibitors sample = [''1'']" "m_buttons sample = [''event0'']"
  "m_sessions_by_leader sample = []" "m_seat_gc_queue sample = []" "m_session_gc_queue sample = []"
  "m_user_gc_queue sample = []" "m_cgroup_inotify_fd sample = - EBADF" "m_seat0 sample = Some ''seat0''"
  "m_delayed_action sample = None" "m_action_job sample = None" "m_sleep_fork_action sample = None"
  "m_abort sample = False" "m_world sample = sample_world" "m_malloc sample = (\<lambda>n. n)" "m_env sample = (\<lambda>_ _. 0)"
  by (simp_all add: sample_defs)

lemma sample_heap [simp]:
  "ses sample ''c1'' = sample_session 1" "ses sample ''c2'' = sample_session 2"
  "s_user (sample_session n) = Some 1000" "s_seat (sample_session n) = Some ''seat0''" "s_position (sample_session n) = n"
  "s_devices (sample_session n) = [(226, 0)]" "s_controller (sample_session n) = None" "s_vtnr (sample_session n) = n"
  "st_sessions (sts sample ''seat0'') = [''c1'', ''c2'']" "st_active (sts sample ''seat0'') = Some ''c1''"
  "st_pending_switch (sts sample ''seat0'') = None" "st_positions (sts sample ''seat0'') = [None, Some ''c1'', Some ''c2'']"
  "st_devices (sts sample ''seat0'') = [''card0'']"
  "u_sessions (usr sample u) = [''c1'', ''c2'']" "u_display (usr sample u) = Some ''c1''"
  "d_seat (dev sample d) = Some ''seat0''" "d_master (dev sample d)"
  "d_session_devices (dev sample d) = [(''c1'', (226, 0)), (''c2'', (226, 0))]"
  "sdv sample sd = sample_session_device" "i_started (inh sample i)" "i_what (inh sample i) = INHIBIT_SHUTDOWN"
  "i_mode (inh sample i) = Some INHIBIT_BLOCK" "btn sample b = new_button"
  by (simp_all add: sample_defs sample_objects)

lemma sample_keys [simp]:
  "handle_key Power_key sample = HANDLE_POWEROFF" "handle_key_long_press Power_key sample = HANDLE_IGNORE"
  "\<not> key_timer k sample"
  by (cases k; simp add: sample_defs handle_key_def handle_key_long_press_def key_timer_def)+

lemma sample_config_ok: "config_ok sample"
  unfolding config_ok_def
proof (intro conjI allI)
  show "handle_key k sample \<noteq> HANDLE_FACTORY_RESET" "handle_key_long_press k sample \<noteq> HANDLE_FACTORY_RESET" for k
    by (cases k; simp add: sample_defs handle_key_def handle_key_long_press_def)+
qed (simp_all add: sample_defs)

lemma sample_armed_ok: "armed_ok sample"
  by (simp add: armed_ok_def new_schedule_def sample_defs)

lemma sample_power_ok: "power_ok sample"
  by (simp add: power_ok_def)

lemma sample_wf: "wf sample"
proof (rule wfI)
  show "inv_positions sample"
    by (auto simp: inv_positions_def less_Suc_eq numeral_3_eq_3 nth_Cons split: nat.splits)
  show "inv_sessions sample" by (auto simp: inv_sessions_def session_id_valid_def ascii_isalpha_def ascii_isdigit_def)
qed (auto simp: inv_defs sample_session_device_def)

lemma sample_udev_ok: "udev_ok sample"
  by (simp add: udev_ok_def sample_world_def sample_udev_def)

lemma sample_malloc_ok: "malloc_ok sample"
  by (simp add: malloc_ok_def)

lemma blank_ok: "system_ok blank"
  by (simp add: system_ok_def udev_ok_def session_files_ok_def blank_def sample_world_def sample_udev_def)

text \<open>Messages: of an unprivileged user with no session, and of root.\<close>

definition sample_message :: bus_message where
  "sample_message = \<lparr>msg_id = 7, msg_sender = Some '':1.7'', msg_expect_reply = True, msg_query_creds = (\<lambda>_. 0),
     msg_euid = Inr 1001, msg_euid_augmented = False, msg_uid = Inr 1001, msg_owner_uid = Inr 1001,
     msg_session = Inl (- ENXIO), msg_tty = Inl (- ENXIO),
     msg_pidref = Inr \<lparr>pid_pid = 77, pid_fd = - EBADF, pid_fd_id = None\<rparr>, msg_privilege = 0, msg_interactive = 0,
     msg_polkit = (\<lambda>_. Polkit_result False False)\<rparr>"

definition root_message :: bus_message where
  "root_message = sample_message\<lparr>msg_euid := Inr 0, msg_uid := Inr 0, msg_privilege := 1\<rparr>"

definition sample_args :: create_args where
  "sample_args = \<lparr>ca_uid = 1000, ca_leader_pid = 77, ca_leader_pidfd = - 1, ca_service = ''sshd'', ca_type = ''tty'',
     ca_class = ''user'', ca_desktop = [], ca_seat = [], ca_vtnr = 0, ca_tty = [], ca_display = [], ca_remote = True,
     ca_remote_user = [], ca_remote_host = ''host'', ca_flags = 0\<rparr>"

lemma sample_senders: "sender_known sample_message" "sender_known root_message"
  by (simp_all add: sender_known_def root_message_def sample_message_def pidref_is_set_def)

lemma sample_seat0: "seat0_known sample"
  by (simp add: seat0_known_def)

lemma sample_stranger: "stranger sample_message sample" "errors_negative sample_message"
  by (simp_all add: stranger_def errors_negative_def sample_message_def get_query_def session_uid_def sample_defs sample_objects)

lemma sample_calm [simp]: "calm (Lock_sessions b) sample" "calm (Terminate_session name) sample"
  by (simp_all add: calm_def has_user_def sample_defs sample_objects)

lemma sample_calm_power: "calm (Do_shutdown_or_sleep HANDLE_SUSPEND arg) sample"
  by (simp add: calm_def has_user_def HANDLE_ACTION_IS_SLEEP_def handle_action_number_def sample_defs sample_objects)

lemma sample_takes: "SESSION_CLASS_CAN_TAKE_DEVICE (s_class (ses sample ''c1''))" "s_devices (ses sample ''c1'') = [(226, 0)]"
    "m_sessions sample = [''c1'', ''c2'']"
  by (simp_all add: SESSION_CLASS_CAN_TAKE_DEVICE_def sample_defs sample_objects)

lemma sample_no_question [simp]: "\<not> question_under_way i sample"
  by (simp add: question_under_way_def get_query_def sample_defs)

lemma sample_obliging: "obliging sample"
  by (simp add: obliging_def)

lemma sample_leader:
  "create_session_leader root_message sample_args sample =
     (Inr \<lparr>pid_pid = 77, pid_fd = 0, pid_fd_id = Some 0\<rparr>, sample\<lparr>m_trace := [Sys_pidfd_open 77]\<rparr>)"
  by (simp add: create_session_leader_def sample_args_def pidref_set_pid_def sys_def ask_def sample_defs)

lemma sample_parse:
  "session_type_from_string (Some ''tty'') = Some SESSION_TTY" "session_class_from_string (Some ''user'') = Some SESSION_USER"
  "isl (vtnr_from_tty [])" "\<not> tty_is_console []"
  by code_simp+

lemma sample_check: "create_session_check sample_args m = Inr (SESSION_TTY, SESSION_USER, None, 0)"
proof -
  have a: "ca_type sample_args = ''tty''" "ca_class sample_args = ''user''" "ca_desktop sample_args = []"
    "ca_seat sample_args = []" "ca_tty sample_args = []" "ca_vtnr sample_args = 0"
    by (simp_all add: sample_args_def)
  show ?thesis
    using sample_parse
    by (auto simp: create_session_check_def a parse_or_def create_session_place_def create_session_vt_def
        create_session_type_def create_session_class_def isl_def)
qed

lemma sample_creates: "\<exists>y. fst (create_session root_message sample_args sample) = Reply y"
  by (rule create_session_ok [OF sample_obliging _ _ _ _ _ _ _ sample_leader _ _ _ sample_check])
    (simp_all add: sample_args_def sample_world_def sample_record_def uid_is_valid_def manager_get_session_by_pidref_def
      pidref_is_set_def vt_occupied_def ask_def, simp_all add: sample_defs)

end
