(* ===== verification/Bus_Label.thy ===== *)
theory Bus_Label
  imports Hexdecoct
begin

text \<open>
  \<^verbatim>\<open>src/basic/bus-label.c\<close>: names of any bytes as labels of object paths on the bus, and back. The paths of
  sessions and seats are made of such labels.
\<close>

definition UNDERSCORE :: char where
  "UNDERSCORE = CHR ''_''"

definition bus_label_plain :: "bool \<Rightarrow> char \<Rightarrow> bool" where
  "bus_label_plain first c \<longleftrightarrow> ascii_isalpha c \<or> (\<not> first \<and> ascii_isdigit c)"

text \<open>The loop; \<open>first\<close> is whether it is at the first character.\<close>

fun bus_label_escape_loop :: "bool \<Rightarrow> string \<Rightarrow> string" where
  "bus_label_escape_loop first [] = []"
| "bus_label_escape_loop first (c # s) =
     (if bus_label_plain first c then [c] else [UNDERSCORE, hexchar (int (code c) div 16), hexchar (int (code c))]) @
     bus_label_escape_loop False s"

definition bus_label_escape :: "string \<Rightarrow> string" where
  "bus_label_escape s = (if s = [] then [UNDERSCORE] else bus_label_escape_loop True s)"

fun bus_label_unescape_loop :: "string \<Rightarrow> string" where
  "bus_label_unescape_loop (c # x # y # s) =
     (if c \<noteq> UNDERSCORE then c # bus_label_unescape_loop (x # y # s)
      else if unhexchar x < 0 \<or> unhexchar y < 0 then UNDERSCORE # bus_label_unescape_loop (x # y # s)
      else char_of (nat (unhexchar x * 16 + unhexchar y)) # bus_label_unescape_loop s)"
| "bus_label_unescape_loop s = s"

definition bus_label_unescape :: "string \<Rightarrow> string" where
  "bus_label_unescape f = (if f = [UNDERSCORE] then [] else bus_label_unescape_loop f)"

subsection \<open>Labels are read back\<close>

lemma plain_not_underscore: "bus_label_plain first c \<Longrightarrow> c \<noteq> UNDERSCORE"
  by (auto simp: bus_label_plain_def UNDERSCORE_def ascii_isalpha_def ascii_isdigit_def)

lemma code_range: "code c < 256"
  by simp

lemma hex_pair: "char_of (nat (unhexchar (hexchar (int (code c) div 16)) * 16 + unhexchar (hexchar (int (code c))))) = c"
proof -
  have "int (code c) div 16 < 16" using code_range [of c] by linarith
  then have "int (code c) div 16 mod 16 = int (code c) div 16" by simp
  then have "int (code c) div 16 mod 16 * 16 + int (code c) mod 16 = int (code c)"
    using mult_div_mod_eq [of 16 "int (code c)"] by (simp add: mult.commute)
  then show ?thesis by simp
qed

lemma hex_digit: "\<not> unhexchar (hexchar x) < 0"
  by simp

text \<open>A character that is not the mark of an escape passes through.\<close>

lemma unescape_plain: "c \<noteq> UNDERSCORE \<Longrightarrow> bus_label_unescape_loop (c # s) = c # bus_label_unescape_loop s"
  by (cases s; cases "tl s") simp_all

lemma unescape_escape_loop: "bus_label_unescape_loop (bus_label_escape_loop first s) = s"
proof (induction s arbitrary: first)
  case (Cons c s)
  show ?case
  proof (cases "bus_label_plain first c")
    case True
    then show ?thesis using Cons by (simp add: unescape_plain plain_not_underscore)
  next
    case False
    then show ?thesis using Cons by (simp only: bus_label_escape_loop.simps if_False append_Cons append_Nil
        bus_label_unescape_loop.simps hex_pair hex_digit simp_thms not_True_eq_False if_True)
  qed
qed simp

lemma escape_not_bare:
  assumes "s \<noteq> []"
  shows "bus_label_escape_loop True s \<noteq> [UNDERSCORE]"
proof (cases s)
  case (Cons c t)
  then show ?thesis using plain_not_underscore [of True c] by simp
qed (use assms in simp)

lemma bus_label_roundtrip: "bus_label_unescape (bus_label_escape s) = s"
  by (simp add: bus_label_unescape_def bus_label_escape_def escape_not_bare unescape_escape_loop)

lemma bus_label_escape_inject: "bus_label_escape s = bus_label_escape t \<longleftrightarrow> s = t"
  using bus_label_roundtrip by metis

text \<open>A label is never empty, and every character of it is allowed in an object path.\<close>

lemma hexchar_alnum: "ascii_isalpha (hexchar x) \<or> ascii_isdigit (hexchar x)"
  using mod_16_cases [of x] unfolding hexchar_def and_masks
  by (elim insertE emptyE) (simp_all add: ascii_isalpha_def ascii_isdigit_def)

definition label_char :: "char \<Rightarrow> bool" where
  "label_char c \<longleftrightarrow> ascii_isalpha c \<or> ascii_isdigit c \<or> c = UNDERSCORE"

lemma escape_loop_chars: "\<forall>c \<in> set (bus_label_escape_loop first s). label_char c"
  using hexchar_alnum by (induction s arbitrary: first) (auto simp: label_char_def bus_label_plain_def)

lemma bus_label_escape_chars: "bus_label_escape s \<noteq> [] \<and> (\<forall>c \<in> set (bus_label_escape s). label_char c)"
proof -
  have "bus_label_escape_loop True s \<noteq> []" if "s \<noteq> []" using that by (cases s) simp_all
  then show ?thesis using escape_loop_chars by (auto simp: bus_label_escape_def label_char_def)
qed

interpretation bus_label: codec bus_label_escape "\<lambda>s. Some (bus_label_unescape s)" "\<lambda>_. True"
  by unfold_locales (simp add: bus_label_roundtrip)

end
