(* ===== verification/Spec2Isabelle.thy ===== *)
theory Spec2Isabelle
  imports Sample Power_Run Env_File Bus_Label
begin

text \<open>
  A verification of elogind, the login daemon of systemd as a program of its own. elogind keeps seats, sessions, users,
  devices and inhibitor locks; it hands devices to the session that is active on a seat, lets programs block or delay
  shutdown and sleep, acts on power keys and the lid, and offers all this on the system bus, where polkit decides who may
  do what. The state is one \<^verbatim>\<open>Manager\<close>, with tables of objects that point at each other.

  \<^bold>\<open>The model.\<close> \<^verbatim>\<open>Manager\<close> is the record \<open>manager\<close> of \<open>Logind_State\<close>. Objects are records in functions from their names
  (\<open>ses\<close>, \<open>sts\<close>, \<open>usr\<close>, \<open>dev\<close>, \<open>sdv\<close>, \<open>inh\<close>, \<open>btn\<close>), as the C structures are in memory, and the hash tables are lists of names;
  a pointer to an object is its name. A C function that changes something is a function from a manager to its result and
  a manager. What it asks of the kernel, of udev, of the bus or of a library is a \<open>syscall\<close>: it is recorded in \<open>m_trace\<close> and
  answered by \<open>m_env\<close>, which may answer anything and sees what was called before; so every error path is a branch. Contents of
  files, directories, the udev database and the user database are fields of \<open>m_world\<close> and its like, arbitrary as well. A failed
  assertion sets \<open>m_abort\<close>. Errors are negative numbers as in C, or the values of a sum; parsers work on strings as the code does, with
  numbers bounded by their widths; flags of the bus interface are 64-bit words.

  \<^bold>\<open>The theories\<close>, bottom up, with the files under \<^verbatim>\<open>src/src\<close> that they translate:
  \<^item> \<open>Prelude\<close>: characters, decimal numbers, string tables, and the interfaces of the development as locales: \<open>codec\<close> (printing
    and reading back), \<open>string_table\<close> (an enum and its names), \<open>step_frame\<close> (what an operation leaves alone, and so a loop over it),
    \<open>step_invariant\<close> (what every step keeps). Each is interpreted in the theories below on the definitions of the model.
  \<^item> \<open>Hexdecoct\<close>, \<open>Utf8\<close>, \<open>Escape\<close>, \<open>Extract_Word\<close>, \<open>Path_Util\<close>, \<open>Path_Check\<close>, \<open>Parse_Util\<close>, \<open>Time_Util\<close>, \<open>Env_File\<close>: the parts of
    \<^verbatim>\<open>basic/\<close> that the daemon's own formats rest on: escapes, words, paths, numbers, times, and the state machine that reads
    \<^verbatim>\<open>KEY=value\<close> files. \<open>Bus_Label\<close>: labels of object paths (\<^verbatim>\<open>libelogind/sd-bus/bus-label.c\<close>).
  \<^item> \<open>Login_Types\<close>, \<open>Logind_State\<close>, \<open>Login_Queries\<close>, \<open>State_Files\<close>: enumerations, the structures, questions about the state, and the
    files under \<^verbatim>\<open>/run/systemd\<close> (\<^verbatim>\<open>login/logind.h\<close>, \<^verbatim>\<open>logind-session.c\<close>, \<^verbatim>\<open>logind-seat.c\<close>, \<^verbatim>\<open>logind-user.c\<close>, \<^verbatim>\<open>logind-core.c\<close>).
  \<^item> \<open>Session_Device\<close>, \<open>Device\<close>, \<open>Seat\<close>, \<open>User\<close>, \<open>Session_Resources\<close>, \<open>Session\<close>: one theory per object (\<^verbatim>\<open>logind-session-device.c\<close>,
    \<^verbatim>\<open>logind-device.c\<close>, \<^verbatim>\<open>logind-seat.c\<close>, \<^verbatim>\<open>logind-user.c\<close>, \<^verbatim>\<open>logind-session.c\<close>), \<open>Lifecycle\<close>: stopping, freeing and the garbage collector.
  \<^item> \<open>Inhibit\<close>, \<open>Action\<close>, \<open>Button\<close>, \<open>Schedule\<close>, \<open>Brightness\<close>: inhibitor locks, power operations, keys and lid, the scheduled shutdown
    with its warnings, and the writers of brightness (\<^verbatim>\<open>logind-inhibit.c\<close>, \<^verbatim>\<open>logind-action.c\<close>, \<^verbatim>\<open>logind-button.c\<close>, \<^verbatim>\<open>logind-wall.c\<close>,
    \<^verbatim>\<open>logind-brightness.c\<close>, \<^verbatim>\<open>elogind.c\<close>, parts of \<^verbatim>\<open>logind-dbus.c\<close>).
  \<^item> \<open>Manager\<close>, \<open>Daemon\<close>: adding objects, udev devices, \<^verbatim>\<open>utmp\<close>, reading sessions back, start, one turn of the main loop, the end
    (\<^verbatim>\<open>logind-core.c\<close>, \<^verbatim>\<open>logind.c\<close>, \<^verbatim>\<open>elogind.c\<close>).
  \<^item> \<open>Polkit\<close>, \<open>Bus\<close>, \<open>Bus_Manager\<close>, \<open>Bus_Power\<close>, \<open>Bus_Dispatch\<close>: the questions to polkit (\<^verbatim>\<open>shared/bus-polkit.c\<close>, \<^verbatim>\<open>logind-polkit.c\<close>) and the
    methods of sessions, seats, users and the manager (\<^verbatim>\<open>logind-session-dbus.c\<close>, \<^verbatim>\<open>logind-seat-dbus.c\<close>, \<^verbatim>\<open>logind-user-dbus.c\<close>,
    \<^verbatim>\<open>logind-dbus.c\<close>). A message is a record of what the bus knows of its sender. A method fails, replies, leaves the reply for later, or waits
    for polkit; one that waits is dispatched again from its start, and finds the answers in the registry of the manager.

  \<^bold>\<open>What is shown.\<close> \<open>Login_Inv\<close> states the invariant of the object graph, \<open>wf\<close>: every link has its way back, lists have no
    element twice, the active session and the positions of a seat are sessions of it, queues hold known objects with their flags, the table of
    leaders agrees with the sessions. \<open>Session_Inv\<close>, \<open>Seat_Inv\<close>, \<open>Lifecycle_Inv\<close>, \<open>Manager_Inv\<close>, \<open>Daemon_Inv\<close> prove it for every operation, and
    that the garbage collector, the start and a turn of the main loop end. \<open>Bus_Inv\<close> proves it for every method on the bus. \<open>Daemon_Run\<close> puts all
    into one transition system of events, requests, methods, turns and changes of the surroundings, and gets the invariant in every state
    that is reached. \<open>Bus_Auth\<close>: a method that waits has sent one question to polkit and done nothing else, and a sender without
    rights gets at most a question or a reply out of the daemon; both are statements about the whole state with the calls in \<open>m_trace\<close>. \<open>Polkit_Inv\<close>: what is
    allowed was granted before, and when the daemon fails an assertion in this conversation. \<open>Power_Run\<close>: the transition system of everything that
    starts, delays, schedules, cancels or ends a power operation, from keys to requests on the bus, with its invariant, and what is refused while one is under way. \<open>Create_Live\<close>: creating a session succeeds
    when nothing fails. \<open>Button_Inv\<close>: the keys that are held as the abstract state of a keyboard, one action for one press, the lid. \<open>Schedule_Inv\<close>: the
    schedule is read back after a restart, and the times of warnings. \<open>Brightness\<close>: no request is lost. \<open>Sample\<close> has the concrete states, messages
    and arguments on which this theory evaluates the properties. The properties follow in the order of their weight: the daemon as a
    whole, the bus, seats and sessions, inhibitors and power and buttons, text formats.

  \<^bold>\<open>Bounds.\<close> The garbage collector is the only loop whose end depends on the state. It is written as a partial function whose
    result \<open>None\<close> would be not to end, and is proved to end from every state with \<open>wf\<close>. The loop that counts up to a free name for a session
    or an inhibitor, \<open>next_counter\<close>, has as fuel the number of names taken and one more: \<open>next_counter_free\<close> shows that this is enough, with the
    counter wrapping at 64 bits, for fewer than \<open>2 ^ 64\<close> names. The loop that tries to become DRM master has the bound of the source.
    All other recursion is over lists or strings that get shorter.

  \<^bold>\<open>Hypotheses.\<close> \<open>udev_ok\<close>: udev names a device by the path it was asked for. \<open>session_files_ok\<close>: no session file lists a device twice, which no file
    the daemon writes does. \<open>seat0_known\<close>: the seat that the manager remembers as \<^verbatim>\<open>seat0\<close> is in its table; the garbage collector never
    takes it out. \<open>sender_known\<close>, \<open>errors_negative\<close>: what \<^verbatim>\<open>sd-bus\<close> promises of a sender's process id and of errors. \<open>calm\<close>: the sessions have
    users, and a request is one the vtable can make; it is asked for only where a property says that no assertion fails. \<open>obliging\<close>: no call to the
    system fails; it is asked for only where a property says that something succeeds.

  \<^bold>\<open>Not modelled.\<close> Allocations succeed, except where a structure's layout matters. The build has polkit, \<^verbatim>\<open>utmp\<close>, and no audit or SELinux decisions
    beyond those named. Left out are: properties and listings on the bus, which only read; boot loader and EFI methods, compiled out of elogind; the
    parser of the configuration file, a generated table, for which any configuration stands; mounting and choosing control group hierarchies, and what
    the child processes do that sleep, shut down or run hooks: input and output without state of the daemon; \<^verbatim>\<open>sd-bus\<close>, \<^verbatim>\<open>sd-event\<close>,
    \<^verbatim>\<open>sd-device\<close> and the other libraries, which appear as the calls they answer; the PAM module and the command line tools, which are
    clients in other processes.
\<close>

section \<open>The daemon as a whole\<close>

text \<open>
  C1: The object graph. Start a new manager in any system whose udev database names devices by their own
  path and whose session files name no device twice, and let the daemon run: after every sequence of events,
  methods called on the bus, turns of the main loop and changes of the system around it, seats, sessions, users, devices, their
  links to each other, the positions, the queues and the table of leaders are consistent. Of the surroundings it
  is assumed throughout that udev names devices by their own path, that the manager's \<^verbatim>\<open>seat0\<close> is a seat it knows
  when a method is called, and that the bus knows the process of a sender by a positive number.
\<close>

theorem daemon_invariant:
  assumes "manager_startup (snd (manager_new k m)) = Some (r, m')" "daemon_step\<^sup>*\<^sup>* m' m''"
    "system_ok m"
  shows "wf m''"
proof -
  have "wf m'" using new_manager_starts [OF assms(3), of k] assms(1) by simp
  with assms(2) show ?thesis by (rule daemon.steps_keep)
qed

theorem daemon_invariant_witness:
  "\<exists>r m. manager_startup (snd (manager_new False blank)) = Some (r, m) \<and>
     wf (snd (manager_add_session ''c1'' (manager_dispatch_seat_udev (sample_udev ''card0'') m)))"
proof -
  obtain r m where m: "manager_startup (snd (manager_new False blank)) = Some (r, m)"
    using new_manager_starts [OF blank_ok] by blast
  let ?m = "manager_dispatch_seat_udev (sample_udev ''card0'') m"
  have "daemon_step m ?m" "daemon_step ?m (snd (manager_add_session ''c1'' ?m))"
    by (auto intro: daemon_step.intros event_step.intros request_step.intros)
  then have "daemon_step\<^sup>*\<^sup>* m (snd (manager_add_session ''c1'' ?m))" by (meson converse_rtranclp_into_rtranclp r_into_rtranclp)
  from daemon_invariant [OF m this blank_ok] m show ?thesis by blast
qed

text \<open>
  C2: The start returns. Whatever earlier runs have left in the state directories, \<^verbatim>\<open>manager_startup\<close> comes to
  an end on a new manager, and the object graph is consistent then.
\<close>

theorem startup_returns:
  assumes "system_ok m"
  shows "\<exists>r m'. manager_startup (snd (manager_new k m)) = Some (r, m') \<and> wf m'"
  using assms by (rule new_manager_starts)

theorem startup_returns_witness: "\<exists>r m'. manager_startup (snd (manager_new True blank)) = Some (r, m') \<and> wf m'"
  by (rule startup_returns) (rule blank_ok)

text \<open>
  C3: The garbage collector ends. Freeing an object may queue others again, but from a consistent state the three
  loops of \<^verbatim>\<open>manager_gc\<close> finish with all queues empty and the state consistent.
\<close>

theorem gc_terminates:
  assumes "wf m"
  shows "\<exists>m'. manager_gc drop_not_started m = Some m' \<and> wf m' \<and> m_seat_gc_queue m' = [] \<and> m_session_gc_queue m' = [] \<and>
    m_user_gc_queue m' = []"
  using assms by (rule manager_gc_ends)

theorem gc_terminates_witness: "\<exists>m'. manager_gc True sample = Some m' \<and> wf m'"
  using gc_terminates [OF sample_wf] by blast

text \<open>
  C4: A turn of the main loop returns, keeps the state consistent, and when it does not end the loop it has
  collected everything that was queued.
\<close>

theorem turn_collects:
  assumes "wf m"
  shows "\<exists>t m'. manager_run_turn m = Some (t, m') \<and> wf m' \<and>
    (t = Turn_again \<or> t = Turn_wait \<longrightarrow> m_seat_gc_queue m' = [] \<and> m_session_gc_queue m' = [] \<and> m_user_gc_queue m' = [])"
  using assms by (rule run_turn)

theorem turn_collects_witness: "\<exists>t m'. manager_run_turn sample = Some (t, m') \<and> wf m'"
  using turn_collects [OF sample_wf] by blast

text \<open>
  C5: A session that is freed is gone. No seat lists it, runs it, waits for it or has it in a position, no user
  lists it or shows it, no leader leads to it, and nothing has it queued.
\<close>

theorem session_free_gone:
  assumes "wf m" "s \<in> set (m_sessions m)"
  defines "m' \<equiv> session_free s m"
  shows "set (m_sessions m') = set (m_sessions m) - {s} \<and>
    (\<forall>st \<in> set (m_seats m'). s \<notin> set (st_sessions (sts m' st)) \<and> st_active (sts m' st) \<noteq> Some s \<and>
      st_pending_switch (sts m' st) \<noteq> Some s \<and> Some s \<notin> set (st_positions (sts m' st))) \<and>
    (\<forall>u \<in> set (m_users m'). s \<notin> set (u_sessions (usr m' u)) \<and> u_display (usr m' u) \<noteq> Some s) \<and>
    s \<notin> snd ` set (m_sessions_by_leader m') \<and> s \<notin> set (m_session_gc_queue m')"
proof -
  have wf': "wf m'" and gone: "set (m_sessions m') = set (m_sessions m) - {s}"
    using wf_session_free [OF assms(1,2)] wf_distinct(1) [OF assms(1)] by (simp_all add: m'_def set_remove1_distinct)
  then have s: "s \<notin> set (m_sessions m')" by simp
  note inv = wfD [OF wf']
  have "\<forall>st \<in> set (m_seats m'). s \<notin> set (st_sessions (sts m' st))"
    using inv(1) s unfolding inv_seats_def by blast
  moreover from this have "\<forall>st \<in> set (m_seats m'). st_active (sts m' st) \<noteq> Some s \<and> st_pending_switch (sts m' st) \<noteq> Some s"
    using inv(1) unfolding inv_seats_def by blast
  moreover have "\<forall>st \<in> set (m_seats m'). Some s \<notin> set (st_positions (sts m' st))"
    using calculation(1) inv(2) unfolding inv_positions_def in_set_conv_nth by metis
  moreover have "\<forall>u \<in> set (m_users m'). s \<notin> set (u_sessions (usr m' u)) \<and> u_display (usr m' u) \<noteq> Some s"
    using inv(4) s unfolding inv_users_def by blast
  moreover have "s \<notin> snd ` set (m_sessions_by_leader m')" using leaderD(1) [OF inv(8)] s by fastforce
  moreover have "s \<notin> set (m_session_gc_queue m')" using inv(7) s unfolding inv_queues_def by blast
  ultimately show ?thesis using gone by blast
qed

theorem session_free_gone_witness:
  "set (m_sessions (session_free ''c1'' sample)) = {''c2''}"
  using session_free_gone [OF sample_wf, of "''c1''"] by auto

text \<open>
  C6: A user that is freed goes with all of its sessions and with nobody else's.
\<close>

theorem user_free_sessions:
  assumes "wf m" "u \<in> set (m_users m)"
  shows "wf (user_free u m) \<and> m_users (user_free u m) = remove1 u (m_users m) \<and>
    set (m_sessions (user_free u m)) = {s \<in> set (m_sessions m). s_user (ses m s) \<noteq> Some u}"
  using wf_user_free [OF assms] by simp

theorem user_free_sessions_witness: "set (m_sessions (user_free 1000 sample)) = {} \<and> m_users (user_free 1000 sample) = []"
proof -
  have "s_user (ses sample s) = Some 1000" if "s \<in> set (m_sessions sample)" for s using that by auto
  then have none: "{s \<in> set (m_sessions sample). s_user (ses sample s) \<noteq> Some 1000} = {}" by blast
  show ?thesis using user_free_sessions [OF sample_wf, of 1000] unfolding none by simp
qed

text \<open>
  C7: The end of the daemon. From a consistent state \<^verbatim>\<open>manager_free\<close> frees every device, seat, session and user,
  and the table of leaders is empty, as the code asserts.
\<close>

theorem manager_free_empties:
  assumes "wf m"
  shows "m_devices (manager_free m) = [] \<and> m_seats (manager_free m) = [] \<and> m_sessions (manager_free m) = [] \<and>
    m_sessions_by_leader (manager_free m) = [] \<and> m_users (manager_free m) = []"
  using manager_free_all [OF assms] by simp

theorem manager_free_empties_witness: "m_sessions (manager_free sample) = []"
  using manager_free_empties [OF sample_wf] by simp

section \<open>The bus\<close>

text \<open>
  C8: Methods keep the object graph. Whatever method of the manager, a session, a seat or a user is called, by whomever
  and with whatever arguments, and whatever fails on the way, seats, sessions, users and devices are consistent
  afterwards: from the access check of the bus over the search for the object and the questions to polkit to the
  reply. It is assumed that udev names devices by their own path, that the seat the manager remembers as \<^verbatim>\<open>seat0\<close> is in its
  table, and that the bus knows the process of the sender by a positive number.
\<close>

theorem method_wf:
  assumes "wf m" "udev_ok m" "seat0_known m" "sender_known msg"
  shows "wf (snd (dispatch msg req m))"
  by (rule wf_dispatch [OF assms])

theorem method_wf_witness:
  "wf (snd (dispatch root_message (Create_session sample_args) sample)) \<and>
   wf (snd (dispatch sample_message (On_session ''c1'' (Take_control False)) sample))"
  using method_wf [OF sample_wf sample_udev_ok sample_seat0 sample_senders(1), of "On_session ''c1'' (Take_control False)"]
    method_wf [OF sample_wf sample_udev_ok sample_seat0 sample_senders(2), of "Create_session sample_args"]
  by simp

text \<open>
  C9: Creating a session. When \<^verbatim>\<open>create_session\<close> replies, the name in the reply was free and is now the one new
  session; it belongs to the user that the reply names, who lists it, and the object graph is consistent. The counter of
  64 bits that names sessions finds a free name however often it has wrapped, while there are fewer sessions than that.
\<close>

theorem session_created:
  assumes "wf m" "seat0_known m" "sender_known msg" "length (m_sessions m) < 2 ^ 64"
    "create_session msg a m = (Reply (s, u, fifo, seat, vtnr), m')"
  shows "s \<notin> set (m_sessions m) \<and> m_sessions m' = s # m_sessions m \<and> s_user (ses m' s) = Some u \<and>
    u \<in> set (m_users m') \<and> s \<in> set (u_sessions (usr m' u)) \<and> wf m'"
proof -
  have "new_session_made m (create_session msg a m)"
    using assms(3) by (intro wf_create_session assms) (simp add: sender_known_def)
  then have "s \<notin> set (m_sessions m)" "belongs s u (s # m_sessions m) m'"
    using assms(4,5) by (simp_all add: new_session_made_def)
  then show ?thesis using wf_session_user [of m' s u] by (simp add: belongs_def)
qed

theorem session_created_witness:
  "\<exists>s u m'. s \<notin> {''c1'', ''c2''} \<and> m_sessions m' = [s, ''c1'', ''c2''] \<and> s_user (ses m' s) = Some u \<and>
     snd (create_session root_message sample_args sample) = m'"
proof -
  obtain s u fifo seat vtnr m' where "create_session root_message sample_args sample = (Reply (s, u, fifo, seat, vtnr), m')"
    using sample_creates by (metis prod.exhaust fst_conv)
  moreover from session_created [OF sample_wf sample_seat0 sample_senders(2) _ this]
  have "s \<notin> {''c1'', ''c2''}" "m_sessions m' = [s, ''c1'', ''c2'']" "s_user (ses m' s) = Some u" by simp_all
  ultimately show ?thesis by auto
qed

text \<open>
  C10: Creating a session succeeds. When the arguments pass the checks, the leader is known and in no session, the
  limit on sessions is not reached, the virtual terminal is free, the user database knows the user, and no call to the
  system fails, \<^verbatim>\<open>create_session\<close> replies. (Whether an assertion has failed on the way is not part of the statement: a
  manager without \<^verbatim>\<open>seat0\<close>, which a started daemon has, would fail one for a session on a terminal.)
\<close>

theorem session_creation_succeeds:
  assumes "obliging m" "length (m_sessions m) < m_sessions_max m" "m_sessions_max m \<le> 2 ^ 64"
    "uid_is_valid (ca_uid a)" "ca_flags a = 0"
    "w_userdb_by_uid (m_world m) (ca_uid a) = Inr ur" "ur_user_name ur \<noteq> None" "uid_is_valid (ur_uid ur)"
    "create_session_leader msg a m = (Inr leader, m1)" "pid_pid leader \<noteq> 1" "int (pid_pid leader) \<noteq> ask Ask_getpid m1"
    "manager_get_session_by_pidref m1 leader = (0, None)"
    "create_session_check a m1 = Inr (t, c, seat, vtnr)" "\<not> vt_occupied c vtnr m1"
  shows "\<exists>y. fst (create_session msg a m) = Reply y"
  by (rule create_session_ok [OF assms])

theorem session_creation_succeeds_witness: "\<exists>y. fst (create_session root_message sample_args sample) = Reply y"
  by (rule session_creation_succeeds [OF sample_obliging _ _ _ _ _ _ _ sample_leader _ _ _ sample_check])
    (simp_all add: sample_args_def sample_world_def sample_record_def uid_is_valid_def manager_get_session_by_pidref_def
      pidref_is_set_def vt_occupied_def ask_def, simp_all add: sample_defs)

text \<open>
  C11: Waiting does nothing. A method that is interrupted until polkit has answered, and whose message will be
  dispatched again from the start, has sent one question about this message to polkit and done nothing else: its whole
  effect, the calls of the daemon included, is that of \<open>polkit_ask\<close>. No object, timer or other field has changed, and
  of the calls there is exactly the question. When the sessions have users and the request is one the vtable
  can make (\<open>calm\<close>), and no other question about the message is under way, no assertion has failed either.
\<close>

theorem waiting_harmless:
  fixes msg :: bus_message and req :: request and m :: manager
  defines "m' \<equiv> snd (dispatch msg req m)"
  assumes "wf m" "fst (dispatch msg req m) = Wait"
  shows "(\<exists>n a flags. checked (calm req m) m n \<and> polkit_ask (msg_id msg) a flags n = (Pending, m') \<and>
      m_trace m' = Sys_check_authorization (msg_id msg) (fst a) (snd a) (polkit_mask_public flags) # m_trace m) \<and>
    same_but_asked m m' \<and>
    (calm req m \<and> \<not> question_under_way (msg_id msg) m \<longrightarrow> m_abort m' = m_abort m)"
proof -
  obtain n a flags where n: "checked (calm req m) m n" and ask: "polkit_ask (msg_id msg) a flags n = (Pending, m')"
    using dispatch_waits [OF assms(2), of req msg] assms(3) unfolding m'_def waits_def by blast
  have m': "m' = snd (polkit_ask (msg_id msg) a flags n)" using ask by simp
  then have "only_asked (calm req m) (msg_id msg) m m'" using n unfolding only_asked_def by blast
  note outside = only_asked_outside [OF this]
  have "m_trace m' = Sys_check_authorization (msg_id msg) (fst a) (snd a) (polkit_mask_public flags) # m_trace m"
    using ask_trace [of "msg_id msg" a flags n] checked_trace [OF n] by (simp add: m')
  then show ?thesis using n ask outside(1,3) by blast
qed

theorem waiting_harmless_witness:
  "m_abort (snd (dispatch sample_message (Lock_sessions True) sample)) = m_abort sample \<and>
   fst (dispatch sample_message (Lock_sessions True) sample) = Wait"
proof -
  let ?a = "''org.freedesktop.login1.lock-sessions''"
  obtain f where "bus_verify_polkit_async_full sample_message (?a, []) UID_INVALID {} sample =
      polkit_ask (msg_id sample_message) (?a, []) f sample"
    using verify_unknown [of sample_message sample "(?a, [])" "{}"] by (auto simp: sample_message_def get_query_def sample_defs)
  then have "fst (bus_verify_polkit_async sample_message ?a sample) = Pending"
    using ask_pending(1) [OF sample_obliging] by (simp add: bus_verify_polkit_async_def)
  then have "fst (dispatch sample_message (Lock_sessions True) sample) = Wait"
    by (simp add: dispatch_def check_access_def method_lock_sessions_def authorised_def case_prod_beta)
  with waiting_harmless [OF sample_wf this] sample_calm sample_no_question show ?thesis by simp
qed



text \<open>
  C13: What is allowed was granted. In every run of questions, answers and releases that starts with no questions,
  a check of an authorisation succeeds only for the user it is meant for, for the privileged, after polkit has granted
  exactly this action with these details for exactly this message, or, where the caller takes an absent polkit for
  consent, after polkit was found absent; and it changes nothing.
\<close>

theorem allowed_was_granted:
  assumes "m_polkit_registry m0 = []" "polkit_step\<^sup>*\<^sup>* (m0, {}) (m, g)"
    "bus_verify_polkit_async_full msg a good flags m = (Allowed, m')"
  shows "m' = m \<and> (bus_message_check_good_user msg good > 0 \<or>
    (POLKIT_ALWAYS_QUERY \<notin> flags \<and> msg_privilege msg > 0) \<or> (msg_id msg, a) \<in> g \<or>
    (POLKIT_DEFAULT_ALLOW \<in> flags \<and> (\<exists>q. get_query (msg_id msg) m = Some q \<and> q_absent_action q \<noteq> None)))"
proof -
  have "granted_before (m0, {})" using assms(1) by (simp add: granted_before_def get_query_def)
  with assms(2) have "granted_before (m, g)" by (rule polkit.steps_keep)
  then show ?thesis using verify_allowed [OF assms(3)] by (auto simp: granted_before_def)
qed

theorem allowed_was_granted_witness:
  "\<exists>m g. polkit_step\<^sup>*\<^sup>* (sample, {}) (m, g) \<and> (7, (''a'', [])) \<in> g \<and>
     bus_verify_polkit_async_full sample_message (''a'', []) UID_INVALID {} m = (Allowed, m)"
proof -
  let ?a = "(''a'', []) :: action_details" and ?i = "msg_id sample_message"
  obtain f where v: "bus_verify_polkit_async_full sample_message ?a UID_INVALID {} sample = polkit_ask ?i ?a f sample"
    using verify_unknown [of sample_message sample ?a "{}"] by (auto simp: sample_message_def get_query_def sample_defs)
  define m1 where "m1 = snd (polkit_ask ?i ?a f sample)"
  define m2 where "m2 = snd (async_polkit_callback ?i (Polkit_result True False) m1)"
  have empty: "get_query ?i sample = None" "?i = 7" "bus_message_check_good_user sample_message UID_INVALID = 0"
      "msg_privilege sample_message = 0" "m_polkit_registry sample = []"
    by (simp_all add: get_query_def sample_defs sample_message_def bus_message_check_good_user_def)
  obtain q1 where q1: "get_query ?i m1 = Some q1" "q_slot q1" "q_action q1 = Some ?a" "obliging m1"
    using ask_pending(2,3) [OF sample_obliging, of ?i ?a f] empty(1) by (simp add: m1_def)
  obtain q2 where q2: "get_query ?i m2 = Some q2" "?a \<in> set (q_authorized_actions q2)"
    using callback_granted [OF q1] unfolding m2_def by blast
  have "polkit_step (sample, {}) (m1, {})"
    using polkit_step.Asks [of sample "{}" sample_message ?a UID_INVALID "{}"] by (simp add: v m1_def)
  moreover have "polkit_step (m1, {}) (m2, {(?i, ?a)})"
    using polkit_step.Replies [OF q1(1,3), of "{}" "Polkit_result True False"] by (simp add: m2_def)
  ultimately obtain g where run: "polkit_step\<^sup>*\<^sup>* (sample, {}) (m2, g)" by (meson converse_rtranclp_into_rtranclp r_into_rtranclp)
  note ok = verify_granted [OF q2, of "{}"]
  have "(?i, ?a) \<in> g" using allowed_was_granted [OF empty(5) run ok] empty by simp
  with run ok show ?thesis unfolding empty(2) by blast
qed

text \<open>
  C14: A second question after a refusal. When polkit has refused one action for a message and the method, dispatched
  again, asks for another one because what it looks at has changed in between, the daemon asks polkit once more and then
  fails an assertion on the answer, whatever it is: a sender who may not shut down past an inhibitor ends the daemon when
  the inhibitor goes away at the right moment.
\<close>

theorem second_question_aborts:
  fixes challenge :: bool and reply :: polkit_reply and flags :: "PolkitFlag set"
  assumes "get_query (msg_id msg) m = None" "fst a \<noteq> fst b" "obliging m"
    "msg_privilege msg = 0" "0 \<le> msg_interactive msg" "msg_sender msg \<noteq> None"
  defines "m1 \<equiv> snd (bus_verify_polkit_async_full msg a UID_INVALID flags m)"
  defines "m2 \<equiv> snd (async_polkit_callback (msg_id msg) (Polkit_result False challenge) m1)"
  defines "m3 \<equiv> snd (bus_verify_polkit_async_full msg b UID_INVALID flags m2)"
  shows "fst (bus_verify_polkit_async_full msg a UID_INVALID flags m) = Pending \<and>
    fst (bus_verify_polkit_async_full msg b UID_INVALID flags m2) = Pending \<and>
    m_abort (snd (async_polkit_callback (msg_id msg) reply m3))"
  unfolding m1_def m2_def m3_def using other_question_aborts [OF assms(1-6)] by simp

theorem second_question_aborts_witness:
  "let a = (polkit_action_ignore_inhibit HANDLE_POWEROFF, []); b = (polkit_action HANDLE_POWEROFF, []);
       m1 = snd (bus_verify_polkit_async_full sample_message a UID_INVALID {} sample);
       m2 = snd (async_polkit_callback 7 (Polkit_result False False) m1);
       m3 = snd (bus_verify_polkit_async_full sample_message b UID_INVALID {} m2)
   in m_abort (snd (async_polkit_callback 7 (Polkit_result True False) m3))"
  using second_question_aborts [of sample_message sample "(polkit_action_ignore_inhibit HANDLE_POWEROFF, [])"
      "(polkit_action HANDLE_POWEROFF, [])" "{}" False "Polkit_result True False"] sample_obliging
  by (simp add: Let_def sample_message_def sample_defs get_query_def polkit_action_def polkit_action_ignore_inhibit_def
      handle_action_polkit_def)



text \<open>
  C16: Requests for brightness. Every request that is accepted waits until it is answered, and none is lost: writing
  adds the request to those that wait, and when a writer ends those it wrote for are answered, those that came in
  meanwhile are answered too or a new writer is at work with the newest value. Every writer has a child that is watched.
\<close>

theorem brightness_requests:
  assumes "bw_ok m"
  shows "(case manager_write_brightness d v message m of (r, m') \<Rightarrow> bw_ok m' \<and> answered m' = answered m \<and>
       waiting m' = waiting m \<union> (if r < 0 then {} else set (set_add_message message []))) \<and>
    (\<forall>w. get_bw p m = Some w \<longrightarrow> exit_result p w m (on_brightness_writer_exit p exited m))"
  using write_brightness [OF assms] writer_exit [OF assms] by (auto split: prod.split)

theorem brightness_requests_witness:
  "bw_ok (snd (manager_write_brightness (sample_udev ''led'') 5 (Some (7, True)) sample))"
proof -
  have "bw_ok sample" by (simp add: bw_ok_def get_bw_def sample_defs)
  from brightness_requests [OF this, where d = "sample_udev ''led''" and v = 5 and message = "Some (7, True)"] show ?thesis by (simp add: case_prod_beta)
qed

section \<open>Seats, sessions and devices\<close>

lemma sdv_set_active_other:
  assumes "st_active (sts m st) = Some a" "x \<noteq> Some a"
  shows "sdv (seat_set_active st x m) (a, d) = sdv (session_device_pause_all a m) (a, d)"
proof -
  note frame = same_objects_fields(5) [OF session_send_changed_same] same_objects_fields(5) [OF seat_send_changed_same]
    same_objects_fields(5) [OF seat_apply_acls_same] same_objects_fields(5) [OF session_user_save_same]
    same_objects_fields(5) [OF seat_save_same] same_objects_fields(5) [OF session_save_same]
  define m1 where "m1 = upd_seat st (st_active_update (\<lambda>_. x))
    (assert_that (case x of None \<Rightarrow> True | Some y \<Rightarrow> s_seat (ses m y) = Some st) m)"
  define m2 where "m2 = snd (seat_apply_acls st (Some a) (session_send_changed a [''Active''] (session_device_pause_all a m1)))"
  define m3 where "m3 = (case x of None \<Rightarrow> m2 | Some y \<Rightarrow> if s_started (ses m2 y)
    then session_device_resume_all y (session_send_changed y [''Active''] m2) else m2)"
  have "ses m1 = ses m" "sdv m1 = sdv m" by (simp_all add: m1_def upd_seat_def assert_that_def)
  then have "sdv m2 (a, d) = sdv (session_device_pause_all a m) (a, d)"
    by (simp add: m2_def frame sdv_pause_all)
  moreover have "sdv (session_device_resume_all y m') (a, d) = sdv m' (a, d)" if "y \<noteq> a" for y m'
    by (rule sdv_resume_all_other) (use that in simp)
  ultimately have m3: "sdv m3 (a, d) = sdv (session_device_pause_all a m) (a, d)"
    using assms(2) by (cases x) (simp_all add: m3_def frame)
  have active: "st_active (sts (assert_that b m) st) = Some a" for b using assms(1) by (simp add: assert_that_def)
  have "sdv (seat_set_active st x m) = sdv m3"
    unfolding seat_set_active_def Let_def active option.case m1_def [symmetric] m2_def [symmetric] m3_def [symmetric]
    using assms(2) by (cases x) (simp_all add: frame)
  with m3 show ?thesis by simp
qed

text \<open>
  C17: Switching takes the devices away. When another session, or none, becomes active on a seat, no device of the
  session that was active there stays active; only a graphics card whose descriptor is lost cannot be stopped.
\<close>

theorem switch_stops_devices:
  assumes "st_active (sts m st) = Some a" "x \<noteq> Some a" "d \<in> set (s_devices (ses m a))"
    "\<not> (sd_type (sdv m (a, d)) = DEVICE_TYPE_DRM \<and> sd_fd (sdv m (a, d)) < 0)"
  shows "\<not> sd_active (sdv (seat_set_active st x m) (a, d))"
  using assms sdv_set_active_other [OF assms(1,2)] by (simp add: sdv_pause_all sd_lost_def)

theorem switch_stops_devices_witness:
  "\<not> sd_active (sdv (seat_set_active ''seat0'' (Some ''c2'') sample) (''c1'', (226, 0)))"
  by (rule switch_stops_devices) (simp_all add: sample_session_device_def)

lemma st_devices_detach:
  assumes "d_seat (dev m d) = Some st'" "st' \<noteq> st"
  shows "st_devices (sts (device_detach d m) st) = st_devices (sts m st)"
  using assms by (auto simp: device_detach_unfold Let_def same_objects_fields [OF seat_send_changed_same]
      seat_add_to_gc_queue_def upd_seat_def)

text \<open>
  C18: Master devices first. A seat keeps its master devices at the head of its list when a device joins it, and so
  looking at the first device, as \<^verbatim>\<open>seat_has_master_device\<close> does, tells whether there is a master among all of them.
\<close>

theorem attach_masters_first:
  assumes "masters_first (\<lambda>i. d_master (dev m i)) (st_devices (sts m st))" "d_seat (dev m d) \<noteq> Some st"
  defines "m' \<equiv> device_attach d st m"
  shows "masters_first (\<lambda>i. d_master (dev m' i)) (st_devices (sts m' st)) \<and>
    set (st_devices (sts m' st)) = insert d (set (st_devices (sts m st))) \<and>
    (seat_has_master_device st m' \<longleftrightarrow> (\<exists>i \<in> set (st_devices (sts m' st)). d_master (dev m' i)))"
proof -
  define m1 where "m1 = (if d_seat (dev m d) \<noteq> None then device_detach d m else m)"
  have m1: "st_devices (sts m1 st) = st_devices (sts m st)" "\<And>i. d_master (dev m1 i) = d_master (dev m i)"
    using assms(2) st_devices_detach [of m d _ st] by (auto simp: m1_def)
  have m': "st_devices (sts m' st) = place_device (\<lambda>i. d_master (dev m i)) d (st_devices (sts m st))"
    "\<And>i. d_master (dev m' i) = d_master (dev m i)"
    using assms(2) m1 unfolding m'_def device_attach_unfold m1_def [symmetric] Let_def
    by (simp_all add: same_objects_fields [OF seat_send_changed_same] same_objects_fields [OF seat_save_same])
  have first: "masters_first (\<lambda>i. d_master (dev m' i)) (st_devices (sts m' st))"
    unfolding m' by (rule place_device_masters_first) (rule assms(1))
  have "seat_has_master_device st m' \<longleftrightarrow> (\<exists>i \<in> set (st_devices (sts m' st)). d_master (dev m' i))"
    unfolding masters_first_head [OF first] by (auto simp: seat_has_master_device_def split: list.split)
  with first show ?thesis by (simp add: m'(1) place_device_set)
qed

theorem attach_masters_first_witness:
  "set (st_devices (sts (device_attach ''card0'' ''seat1'' sample) ''seat1'')) = {''card0''}"
proof -
  have seat1: "sts sample ''seat1'' = new_seat" by (simp add: sample_defs)
  have "masters_first (\<lambda>i. d_master (dev sample i)) (st_devices (sts sample ''seat1''))"
    "d_seat (dev sample ''card0'') \<noteq> Some ''seat1''"
    by (simp_all add: masters_first_def seat1 new_seat_def)
  from attach_masters_first [OF this] show ?thesis by (simp add: seat1 new_seat_def)
qed

text \<open>
  C19: Positions. A session that claims a position on its seat gets it: it is found in that slot, whoever held the
  slot before, nothing is written past the end of the array of slots, and the graph stays consistent. On a seat
  with virtual terminals the position is the number of the terminal.
\<close>

theorem claim_position_taken:
  assumes "wf m" "malloc_ok m" "st \<in> set (m_seats m)" "s \<in> set (st_sessions (sts m st))"
    "0 < claimed_position st s pos m" "claimed_position st s pos m + 1 < 2 ^ 32"
  shows "wf (seat_claim_position st s pos m) \<and>
    seat_get_position st (claimed_position st s pos m) (seat_claim_position st s pos m) = Some s \<and>
    s_position (ses (seat_claim_position st s pos m) s) = claimed_position st s pos m \<and>
    m_abort (seat_claim_position st s pos m) = m_abort m"
  using wf_claim [OF assms(1,3,4)] claim_position [OF assms(2,6)] assms(5) by simp

theorem claim_position_taken_witness:
  "seat_get_position ''seat0'' 5 (seat_claim_position ''seat0'' ''c2'' 5 sample) = Some ''c2''"
proof -
  have "claimed_position ''seat0'' ''c2'' 5 sample = 5"
    by (simp add: claimed_position_def seat_has_vts_def sample_defs)
  with claim_position_taken [OF sample_wf sample_malloc_ok, of "''seat0''" "''c2''" 5] show ?thesis by simp
qed

text \<open>
  C20: The display of a user. The session that \<^verbatim>\<open>user_elect_display\<close> chooses is no worse than any eligible session of
  the user, by class, type and state, and the display is not changed for a session that is only as good.
\<close>

theorem display_is_best:
  "\<exists>x. usr (user_elect_display u m) = (usr m)(u := (usr m u)\<lparr>u_display := x\<rparr>) \<and>
    (\<forall>s \<in> set (u_sessions (usr m u)). elect_display_filter (ses m s) \<longrightarrow>
       \<not> elect_display_compare (Some (ses m s)) (map_option (ses m) x) < 0) \<and>
    (x \<noteq> u_display (usr m u) \<longrightarrow> (\<exists>s \<in> set (u_sessions (usr m u)). x = Some s \<and> elect_display_filter (ses m s) \<and>
       elect_display_compare (Some (ses m s)) (map_option (ses m) (u_display (usr m u))) < 0))"
proof (rule user_elect_display_result [of u m])
  fix x
  assume "usr (user_elect_display u m) = (usr m)(u := (usr m u)\<lparr>u_display := x\<rparr>)"
    and "\<And>s. s \<in> set (u_sessions (usr m u)) \<Longrightarrow> elect_display_filter (ses m s) \<Longrightarrow>
       display_rank (map_option (ses m) x) \<le> display_rank (Some (ses m s))"
    and "x = u_display (usr m u) \<or>
     (\<exists>s \<in> set (u_sessions (usr m u)). elect_display_filter (ses m s) \<and> x = Some s \<and>
        display_rank (Some (ses m s)) < display_rank (map_option (ses m) (u_display (usr m u))))"
  then show ?thesis unfolding elect_display_compare_rank by (intro exI [of _ x]) (auto simp: not_less)
qed

theorem display_is_best_witness:
  "\<exists>x. u_display (usr (user_elect_display 1000 sample) 1000) = x \<and>
     \<not> elect_display_compare (Some (ses sample ''c2'')) (map_option (ses sample) x) < 0"
proof -
  have "''c2'' \<in> set (u_sessions (usr sample 1000))" "elect_display_filter (ses sample ''c2'')"
    by (simp_all add: elect_display_filter_def SESSION_CLASS_CAN_DISPLAY_def sample_session_def new_session_def)
  moreover obtain x where "usr (user_elect_display 1000 sample) = (usr sample)(1000 := (usr sample 1000)\<lparr>u_display := x\<rparr>)"
    "\<forall>s \<in> set (u_sessions (usr sample 1000)). elect_display_filter (ses sample s) \<longrightarrow>
       \<not> elect_display_compare (Some (ses sample s)) (map_option (ses sample) x) < 0"
    using display_is_best [of 1000 sample] by blast
  ultimately show ?thesis by (intro exI [of _ x]) (simp del: sample_heap)
qed

lemma prepare_vt_controller:
  "s_controller (ses (snd (session_prepare_vt s m)) x) = s_controller (ses m x)"
proof -
  have "s_controller (ses (snd (session_open_vt s b m)) x) = s_controller (ses m x)" for b m x
    by (simp add: session_open_vt_def case_prod_beta safe_close_def upd_ses_def)
  moreover from this have "s_controller (ses (session_restore_vt s m) x) = s_controller (ses m x)" for m
    by (simp add: session_restore_vt_def case_prod_beta Let_def safe_close_def upd_ses_def)
  ultimately show ?thesis by (simp add: session_prepare_vt_def case_prod_beta assert_that_def)
qed

lemma set_controller_saved:
  "s_controller (ses (snd (session_save s (upd_ses s (s_controller_update (\<lambda>_. x)) m))) s) = x"
  by (simp add: same_objects_fields [OF session_save_same] upd_ses_def)

text \<open>
  C21: One controller. Taking control of a session that somebody else controls fails with EBUSY and changes
  nothing, unless the caller may force it; a call that succeeds makes the sender the controller, and one that
  fails leaves the controller as it was.
\<close>

theorem set_controller_exclusive:
  "(session_is_controller s sender m \<longrightarrow> session_set_controller s sender force prepare m = (0, m)) \<and>
   (s_controller (ses m s) \<notin> {None, Some sender} \<and> \<not> force \<longrightarrow>
      session_set_controller s sender force prepare m = (- EBUSY, m)) \<and>
   (0 \<le> fst (session_set_controller s sender force prepare m) \<longrightarrow>
      session_is_controller s sender (snd (session_set_controller s sender force prepare m))) \<and>
   (fst (session_set_controller s sender force prepare m) < 0 \<longrightarrow>
      s_controller (ses (snd (session_set_controller s sender force prepare m)) s) = s_controller (ses m s))"
  by (auto simp: session_set_controller_def session_is_controller_def Let_def case_prod_beta set_controller_saved
      prepare_vt_controller upd_ses_def)

theorem set_controller_exclusive_witness:
  "let m = snd (session_set_controller ''c1'' '':1.5'' False False sample)
   in session_is_controller ''c1'' '':1.5'' m \<and> session_set_controller ''c1'' '':1.9'' False False m = (- EBUSY, m)"
proof -
  let ?r = "session_set_controller ''c1'' '':1.5'' False False sample"
  have "fst ?r = 0"
    by (simp add: session_set_controller_def session_is_controller_def case_prod_beta Let_def sys_def ask_def upd_ses_def
        sample_defs)
  then have ctl: "session_is_controller ''c1'' '':1.5'' (snd ?r)"
    using set_controller_exclusive [of "''c1''" "'':1.5''" sample False False] by simp
  then have "session_set_controller ''c1'' '':1.9'' False False (snd ?r) = (- EBUSY, snd ?r)"
    using set_controller_exclusive [of "''c1''" "'':1.9''" "snd ?r" False False] by (simp add: session_is_controller_def)
  with ctl show ?thesis by (simp add: Let_def)
qed

text \<open>
  C22: Taking a device. For a device that the session does not hold yet, \<^verbatim>\<open>session_device_new\<close> keeps the object graph
  consistent whatever fails on the way; when it succeeds the session holds the device, which is on the seat of the
  session and lists the session among its holders; when it fails the devices of the session are as before. A device
  that the session holds already is a different matter: \<^verbatim>\<open>TakeDevice\<close> of the controller then answers that it is taken,
  and takes it away from the session.
\<close>

theorem take_device:
  fixes open_device :: bool and msg :: bus_message and n :: devt
  assumes "wf m" "udev_ok m" "s \<in> set (m_sessions m)"
  defines "r \<equiv> fst (session_device_new s n open_device m)" and "m' \<equiv> snd (session_device_new s n open_device m)"
  shows "(n \<notin> set (s_devices (ses m s)) \<longrightarrow>
      wf m' \<and> r \<le> 0 \<and> (r < 0 \<longrightarrow> s_devices (ses m' s) = s_devices (ses m s)) \<and>
      (r = 0 \<longrightarrow> s_devices (ses m' s) = n # s_devices (ses m s) \<and> s_seat (ses m' s) \<noteq> None \<and>
         d_seat (dev m' (sd_device (sdv m' (s, n)))) = s_seat (ses m' s) \<and>
         (s, n) \<in> set (d_session_devices (dev m' (sd_device (sdv m' (s, n))))))) \<and>
    (n \<in> set (s_devices (ses m s)) \<and> devnum_valid n \<and> SESSION_CLASS_CAN_TAKE_DEVICE (s_class (ses m s)) \<and> in_control msg s m \<longrightarrow>
      fst (method_take_device msg s n m) = Fail BUS_ERROR_DEVICE_IS_TAKEN \<and>
      n \<notin> set (s_devices (ses (snd (method_take_device msg s n m)) s)))"
proof (cases "n \<in> set (s_devices (ses m s))")
  case True
  then show ?thesis using take_device_twice [OF assms(1,3)] by blast
next
  case False
  note taken = device_new_taken [OF assms(1,2) False, of open_device, folded r_def m'_def]
  have wf': "wf m'" unfolding m'_def by (rule wf_session_device_new [OF assms(1-3) False])
  have s: "s \<in> set (m_sessions m')" unfolding m'_def device_new_frame(1) [OF assms(1,2)] by (rule assms(3))
  have "s_seat (ses m' s) \<noteq> None \<and> d_seat (dev m' (sd_device (sdv m' (s, n)))) = s_seat (ses m' s) \<and>
     (s, n) \<in> set (d_session_devices (dev m' (sd_device (sdv m' (s, n)))))" if "r = 0"
  proof -
    have "n \<in> set (s_devices (ses m' s))" using taken(1) that by simp
    with wfD(6) [OF wf'] s show ?thesis unfolding inv_session_devices_def by blast
  qed
  with wf' taken False show ?thesis by simp
qed

theorem take_device_witness:
  "(let (r, m) = session_device_new ''c1'' (13, 64) True sample in r = - ENODEV \<and> s_devices (ses m ''c1'') = [(226, 0)]) \<and>
   fst (method_take_device (sample_message\<lparr>msg_sender := s_controller (ses sample ''c1'')\<rparr>) ''c1'' (226, 0) sample) =
     Fail BUS_ERROR_DEVICE_IS_TAKEN"
proof -
  have "fst (session_device_new ''c1'' (13, 64) True sample) = - ENODEV"
    by (simp add: session_device_new_def session_device_verify_def sample_defs sample_session_def)
  with take_device [OF sample_wf sample_udev_ok, of "''c1''" "(13, 64)" True sample_message]
    take_device [OF sample_wf sample_udev_ok, of "''c1''" "(226, 0)" True "sample_message\<lparr>msg_sender := s_controller (ses sample ''c1'')\<rparr>"]
  show ?thesis
    by (simp add: case_prod_beta devnum_valid_def in_control_def sample_takes SESSION_CLASS_CAN_TAKE_DEVICE_def sample_session_def)
qed

text \<open>
  C23: Names of stored descriptors. The name under which the descriptor of a device or of a leader is kept over a
  restart is read back to its session and device number, so that no two devices share a name.
\<close>

theorem fd_name_roundtrip:
  assumes "session_id_valid s" "x < 2 ^ 32" "y < 2 ^ 32"
  shows "parse_fdname (session_device_fd_name (s, (x, y))) = Some (Inr (s, (x, y))) \<and>
    parse_fdname (leader_fd_name s) = Some (Inr (s, (0, 0))) \<and>
    (\<forall>s' x' y'. session_id_valid s' \<and> x' < 2 ^ 32 \<and> y' < 2 ^ 32 \<longrightarrow>
       (session_device_fd_name (s', (x', y')) = session_device_fd_name (s, (x, y)) \<longleftrightarrow> (s', x', y') = (s, x, y)))"
  using parse_fdname_device [OF assms] parse_fdname_leader [OF assms(1)] fd_name.print_eq_iff [of "(_, _, _)" "(s, x, y)"] assms
  by simp

theorem fd_name_roundtrip_witness:
  "parse_fdname (session_device_fd_name (''c1'', (226, 0))) = Some (Inr (''c1'', (226, 0)))"
proof -
  have "session_id_valid ''c1''" by (simp add: session_id_valid_def ascii_isalpha_def ascii_isdigit_def)
  from fd_name_roundtrip [OF this, of 226 0] show ?thesis by simp
qed

section \<open>Inhibitors, power and buttons\<close>



text \<open>
  C25: Blocking inhibitors hold. While a started inhibitor blocks what the action is, and inhibitors are not to
  be ignored, \<^verbatim>\<open>handle_action_execute\<close> does nothing at all: no helper is started, no signal is sent, nothing is delayed.
\<close>

theorem blocked_action_harmless:
  assumes "i \<in> set (m_inhibitors m)" "i_started (inh m i)" "i_mode (inh m i) \<in> {Some INHIBIT_BLOCK, Some INHIBIT_BLOCK_WEAK}"
    "i_what (inh m i) AND inhibit_what_of a \<noteq> 0" "power_action a"
  shows "snd (handle_action_execute a False is_edge m) = m \<and> fst (handle_action_execute a False is_edge m) \<le> 0"
  using handle_execute_blocked [OF assms] by simp

theorem blocked_action_harmless_witness: "snd (handle_action_execute HANDLE_POWEROFF False True sample) = sample"
  using blocked_action_harmless [of "''1''" sample HANDLE_POWEROFF True]
  by (simp add: power_action_cases handle_action_lookup_def)

text \<open>
  C26: Outcome of a power action. Started from rest, \<^verbatim>\<open>execute_shutdown_or_sleep\<close> fails no assertion; on success the
  helper, the job and the delayed action all are the action; on an error none of them has changed.
\<close>

theorem execute_outcome:
  assumes "m_action_job m = None" "m_sleep_fork_action m = None" "power_action a"
  defines "r \<equiv> fst (execute_shutdown_or_sleep a m)" and "m' \<equiv> snd (execute_shutdown_or_sleep a m)"
  shows "m_abort m' = m_abort m \<and>
    (r < 0 \<longrightarrow> m_action_job m' = None \<and> m_sleep_fork_action m' = None \<and> m_delayed_action m' = m_delayed_action m) \<and>
    (0 \<le> r \<longrightarrow> m_action_job m' = Some (handle_action_to_string a) \<and> m_sleep_fork_action m' = Some a \<and>
       m_delayed_action m' = Some a)"
  using execute_result [OF assms(1-3)] by (simp add: r_def m'_def)

theorem execute_outcome_witness:
  "\<not> m_abort (snd (execute_shutdown_or_sleep HANDLE_SUSPEND sample))"
  using execute_outcome [of sample HANDLE_SUSPEND] by (simp add: power_action_cases)

text \<open>
  C27: Busy. While an action is delayed or under way, no shutdown or sleep that is asked for starts or disturbs it.
  Asked for by a key, the lid or idling, nothing at all changes, and the result is EALREADY, EOPNOTSUPP for an operation the
  machine does not support, or zero where locks or the hold-off time of the lid stand in the way before. A request on the bus
  fails or waits for polkit, whoever sends it, and leaves the operation, its helper and its timer alone; once polkit has
  allowed it the error is \<^verbatim>\<open>OperationInProgress\<close>, and all that has changed is the user remembered for sleep. A scheduled
  shutdown whose time has come is given up with EALREADY and the schedule is reset.
\<close>

theorem busy_action_refused:
  assumes "m_delayed_action m = Some b" "HANDLE_ACTION_IS_SHUTDOWN a \<or> HANDLE_ACTION_IS_SLEEP a"
    "key \<le> 0 \<or> inhibit_what_is_valid key"
  shows "(snd (manager_handle_action key a ignore_inhibited is_edge seat m) = m \<and>
      fst (manager_handle_action key a ignore_inhibited is_edge seat m) \<in> {0, - EALREADY, - EOPNOTSUPP}) \<and>
    (a \<in> {HANDLE_POWEROFF, HANDLE_REBOOT, HANDLE_HALT} \<longrightarrow>
      handle_action_execute a ignore_inhibited is_edge m = (- EALREADY, m)) \<and>
    same_operation m (snd (method_do_shutdown_or_sleep msg a arg m)) \<and>
    (fst (method_do_shutdown_or_sleep msg a arg m) = Wait \<or> (\<exists>e. fst (method_do_shutdown_or_sleep msg a arg m) = Fail e)) \<and>
    shutdown_or_sleep_now msg a x m =
      (Fail BUS_ERROR_OPERATION_IN_PROGRESS, upd_sch (sch_sleep_uid_update (\<lambda>_. scheduled_sleep_uid msg m)) m) \<and>
    (\<forall>c. sch_action (m_schedule m) = Some c \<longrightarrow>
      manager_scheduled_shutdown_handler m = (- EALREADY, reset_scheduled_shutdown m))"
proof -
  have "handle_action_execute a ignore_inhibited is_edge m = (- EALREADY, m)" if "a \<in> {HANDLE_POWEROFF, HANDLE_REBOOT, HANDLE_HALT}"
    by (rule handle_execute_busy [OF assms(1)]) (use that in auto)
  then show ?thesis
    using busy_handle [OF assms] busy_request [OF assms(1)] busy_now [OF assms(1)] busy_scheduled [OF assms(1)] by blast
qed

theorem busy_action_refused_witness:
  "let m = sample\<lparr>m_delayed_action := Some HANDLE_SUSPEND\<rparr> in
   handle_action_execute HANDLE_REBOOT True False m = (- EALREADY, m) \<and>
   same_operation m (snd (method_do_shutdown_or_sleep root_message HANDLE_REBOOT (Inl 0) m))"
proof -
  let ?m = "sample\<lparr>m_delayed_action := Some HANDLE_SUSPEND\<rparr>"
  have "m_delayed_action ?m = Some HANDLE_SUSPEND" "HANDLE_ACTION_IS_SHUTDOWN HANDLE_REBOOT \<or> HANDLE_ACTION_IS_SLEEP HANDLE_REBOOT"
    by (simp_all add: HANDLE_ACTION_IS_SHUTDOWN_def handle_action_number_def)
  from busy_action_refused [OF this, of 0 True False None root_message "Inl 0" HANDLE_REBOOT] show ?thesis
    unfolding Let_def by blast
qed

text \<open>
  C28: What an inhibitor query answers. \<^verbatim>\<open>manager_is_inhibited\<close> answers yes exactly when some inhibitor counts; then the
  time it reports is the earliest of those that count, and the offender is one of the strongest mode among them.
\<close>

theorem is_inhibited_spec:
  "(\<nexists>i. i \<in> set (m_inhibitors m) \<and> inhibitor_counts m w block ii iu uid i) \<and>
     manager_is_inhibited w block ii iu uid m = (False, DUAL_TIMESTAMP_NULL, None) \<or>
   (\<exists>i \<in> set (inhibitors_counting w block ii iu uid m). \<exists>o' \<in> set (inhibitors_counting w block ii iu uid m).
     manager_is_inhibited w block ii iu uid m = (True, i_since (inh m i), Some o') \<and>
     (\<forall>x \<in> set (inhibitors_counting w block ii iu uid m).
        ts_monotonic (i_since (inh m i)) \<le> ts_monotonic (i_since (inh m x)) \<and>
        mode_rank (the (i_mode (inh m o'))) \<le> mode_rank (the (i_mode (inh m x)))))"
proof -
  have "set (inhibitors_counting w block ii iu uid m) = {} \<longleftrightarrow>
    (\<nexists>i. i \<in> set (m_inhibitors m) \<and> inhibitor_counts m w block ii iu uid i)"
    by (auto simp: inhibitors_counting_def)
  with manager_is_inhibited_spec [OF refl, of w block ii iu uid m] show ?thesis by blast
qed

theorem is_inhibited_spec_witness:
  "manager_is_inhibited INHIBIT_SHUTDOWN True False False 0 sample =
     (True, i_since (inh sample ''1''), Some ''1'')"
proof -
  have "inhibitors_counting INHIBIT_SHUTDOWN True False False 0 sample = [''1'']"
    by (simp add: inhibitors_counting_def inhibitor_counts_def)
  moreover from this have "inhibitor_counts sample INHIBIT_SHUTDOWN True False False 0 ''1''"
    by (simp add: inhibitors_counting_def split: if_splits)
  ultimately show ?thesis using is_inhibited_spec [of sample INHIBIT_SHUTDOWN True False False 0] by auto
qed

text \<open>
  C29: Masks of inhibitors as text. What \<^verbatim>\<open>inhibit_what_to_string\<close> prints, \<^verbatim>\<open>inhibit_what_from_string\<close> reads back to the
  same mask, and there is a text for every valid mask.
\<close>

theorem inhibit_what_text:
  assumes "inhibit_what_is_valid w"
  shows "\<exists>s. inhibit_what_to_string w = Some s \<and> inhibit_what_from_string s = w"
  using inhibit_what.read_print [OF assms] by auto

theorem inhibit_what_text_witness: "\<exists>s. inhibit_what_to_string 0x13 = Some s \<and> inhibit_what_from_string s = 0x13"
  by (rule inhibit_what_text) (simp add: inhibit_what_is_valid_def)

text \<open>
  C30: The static buffer of \<^verbatim>\<open>inhibit_what_to_string\<close> holds the text of every valid mask but the one with all bits set,
  whose text goes one byte over its end.
\<close>

theorem inhibit_what_buffer_fits:
  assumes "inhibit_what_is_valid w"
  shows "inhibit_what_bytes_written w \<le> inhibit_what_buffer_size \<longleftrightarrow> w \<noteq> 255"
proof -
  consider "w \<in> set [1..254]" "w \<noteq> 255" | "w = 255"
    using assms unfolding inhibit_what_is_valid_def set_upto atLeastAtMost_iff by fastforce
  then show ?thesis
  proof cases
    case 1
    from bspec [OF inhibit_written this(1)] 1(2) show ?thesis by blast
  next
    case 2
    show ?thesis unfolding 2 inhibit_written_all by simp
  qed
qed

theorem inhibit_what_buffer_fits_witness:
  "inhibit_what_bytes_written 254 \<le> inhibit_what_buffer_size \<and> \<not> inhibit_what_bytes_written 255 \<le> inhibit_what_buffer_size"
  using inhibit_what_buffer_fits [of 254] inhibit_what_buffer_fits [of 255] by (simp add: inhibit_what_is_valid_def)

lemma inhibited_offender:
  assumes "snd (snd (manager_is_inhibited w block ii iu uid m)) = Some i"
  shows "i \<in> set (inhibitors_counting w block ii iu uid m)"
  using manager_is_inhibited_spec [OF refl, of w block ii iu uid m] assms by (elim disjE conjE bexE) simp_all

text \<open>
  C31: An inhibitor ends with its holder. When the pipe of an inhibitor is closed the inhibitor is gone, all
  others stay, and it blocks and delays nothing any more.
\<close>

theorem closed_fifo_releases:
  assumes "distinct (m_inhibitors m)"
  shows "set (m_inhibitors (inhibitor_dispatch_fifo i m)) = set (m_inhibitors m) - {i} \<and>
    snd (snd (manager_is_inhibited w block ii iu uid (inhibitor_dispatch_fifo i m))) \<noteq> Some i"
proof -
  let ?m = "inhibitor_dispatch_fifo i m"
  have rel: "set (m_inhibitors ?m) = set (m_inhibitors m) - {i}" using assms by (rule dispatch_fifo_releases)
  then have "i \<notin> set (inhibitors_counting w block ii iu uid ?m)" by (simp add: inhibitors_counting_def)
  then have "snd (snd (manager_is_inhibited w block ii iu uid ?m)) \<noteq> Some i"
    using inhibited_offender [of w block ii iu uid ?m i] by blast
  with rel show ?thesis by simp
qed

theorem closed_fifo_releases_witness: "set (m_inhibitors (inhibitor_dispatch_fifo ''1'' sample)) = {}"
  using closed_fifo_releases [of sample "''1''"] by simp

text \<open>
  C32: A delayed action comes to its end. Once nothing delays it, and in any case when the time limit is over,
  \<^verbatim>\<open>manager_dispatch_delayed\<close> carries the action out: its helper runs, or it has failed and is forgotten.
\<close>

theorem delayed_action_done:
  assumes "power_ok m" "m_delayed_action m = Some a" "m_action_job m = None" "timeout \<or> \<not> delay_inhibited a m"
  defines "m' \<equiv> snd (manager_dispatch_delayed timeout m)"
  shows "fst (manager_dispatch_delayed timeout m) = 1 \<and>
    (m_sleep_fork_action m' = Some a \<and> m_action_job m' = Some (handle_action_to_string a) \<or>
     m_sleep_fork_action m' = None \<and> m_delayed_action m' = None)"
proof -
  have a: "power_action a" "m_sleep_fork_action m = None" using assms(1-3) by (auto simp: power_ok_def)
  have m: "assert_that (inhibit_what_is_valid (inhibit_what_of a)) m = m"
    using power_action_what(1) [OF a(1)] by (simp add: assert_that_def)
  note res = execute_result [OF assms(3) a(2,1)]
  have "manager_dispatch_delayed timeout m =
    (1, if fst (execute_shutdown_or_sleep a m) < 0 then snd (execute_shutdown_or_sleep a m)\<lparr>m_delayed_action := None\<rparr>
        else snd (execute_shutdown_or_sleep a m))"
    using assms(2-4) m by (auto simp: manager_dispatch_delayed_def case_prod_beta Let_def)
  then show ?thesis unfolding m'_def using res(2,3) by (cases "fst (execute_shutdown_or_sleep a m) < 0") simp_all
qed

theorem delayed_action_done_witness:
  "fst (manager_dispatch_delayed True (sample\<lparr>m_delayed_action := Some HANDLE_SUSPEND\<rparr>)) = 1"
  using delayed_action_done [of "sample\<lparr>m_delayed_action := Some HANDLE_SUSPEND\<rparr>" HANDLE_SUSPEND True]
  by (simp add: power_ok_def power_action_cases)

text \<open>
  Factory reset. The action has no inhibitor bit and no sleep operation of its own, and a request for it that gets as
  far as being executed fails an assertion.
\<close>

lemma factory_reset_asserts:
  assumes "m_delayed_action m = None" "m_action_job m = None" "m_sleep_fork_action m = None"
    "0 \<le> ask (Ask_sleep_config ''parse'') m"
  shows "m_abort (snd (handle_action_execute HANDLE_FACTORY_RESET ignore_inhibited is_edge m))"
  using assms by (rule factory_reset_aborts)

text \<open>
  C33: Modifier keys. The mask a button device keeps is, after any sequence of events, the abstract set of keys that
  are held down, seen through the table of modifier keys: presses, repetitions and releases of other keys, switches,
  failed and interrupted reads leave it alone.
\<close>

theorem modifiers_track_keys:
  assumes "b_modifier_mask (btn m b) = mask_of_held H"
  shows "b_modifier_mask (btn (fold (\<lambda>x m. snd (button_dispatch b x m)) xs m) b) = mask_of_held (fold held_step xs H)"
  using assms by (induction xs arbitrary: m H) (simp_all add: modifiers_refine)

theorem modifiers_track_keys_witness:
  "b_modifier_mask (btn (snd (button_dispatch ''event0'' (Read_event \<lparr>ev_type = EV_KEY, ev_code = KEY_LEFTCTRL, ev_value = 1\<rparr>) sample))
     ''event0'') = mask_of_held {KEY_LEFTCTRL}"
proof -
  have "b_modifier_mask (btn sample ''event0'') = mask_of_held {}"
    by (simp add: new_button_def mask_of_held_def keycode_modifier_table_def)
  from modifiers_track_keys [OF this, of "[Read_event \<lparr>ev_type = EV_KEY, ev_code = KEY_LEFTCTRL, ev_value = 1\<rparr>]"]
  show ?thesis by (simp add: held_step_def)
qed

text \<open>
  C34: The secure attention key. Escape announces secure attention on the seat of the device exactly while a shift, a
  control and an alt key are held, whichever side they are on; otherwise it does nothing. This is for the default
  action of the key, \<^verbatim>\<open>HandleSecureAttentionKey=secure-attention-key\<close>, and a device on a seat that the daemon knows.
\<close>

theorem secure_attention_exactly:
  assumes "b_modifier_mask (btn m b) = mask_of_held H" "m_handle_secure_attention_key m = HANDLE_SECURE_ATTENTION_KEY"
    "b_seat (btn m b) = Some st" "st \<in> set (m_seats m)"
  shows "button_key_down b KEY_ESC m =
    (if (KEY_LEFTSHIFT \<in> H \<or> KEY_RIGHTSHIFT \<in> H) \<and> (KEY_LEFTCTRL \<in> H \<or> KEY_RIGHTCTRL \<in> H) \<and>
        (KEY_LEFTALT \<in> H \<or> KEY_RIGHTALT \<in> H)
     then emit (Sys_emit (''SecureAttentionKey '' @ st)) m else m)"
  using secure_attention_held [OF assms] by simp

theorem secure_attention_exactly_witness:
  "let m = upd_btn ''event0'' (\<lambda>x. x\<lparr>b_seat := Some ''seat0'', b_modifier_mask := mask_of_held {KEY_LEFTSHIFT, KEY_RIGHTCTRL, KEY_LEFTALT}\<rparr>) sample
   in button_key_down ''event0'' KEY_ESC m = emit (Sys_emit ''SecureAttentionKey seat0'') m"
proof -
  let ?H = "{KEY_LEFTSHIFT, KEY_RIGHTCTRL, KEY_LEFTALT}"
  let ?m = "upd_btn ''event0'' (\<lambda>x. x\<lparr>b_seat := Some ''seat0'', b_modifier_mask := mask_of_held ?H\<rparr>) sample"
  have "m_handle_secure_attention_key ?m = HANDLE_SECURE_ATTENTION_KEY" "m_seats ?m = [''seat0'']"
    by (simp_all add: upd_btn_def sample_defs)
  then show ?thesis using secure_attention_exactly [of ?m "''event0''" ?H "''seat0''"] by (simp add: Let_def)
qed

text \<open>
  C35: One press of a key is one action. Where no long press is configured the action is taken on the press; where
  one is and the timer can be armed, a short press takes the short action and a press until the timer elapses the
  long one, each once. This is for a key whose long-press timer is not already running when it is pressed.
\<close>

theorem key_press_acts_once:
  assumes "\<not> key_timer k m"
  defines "long \<equiv> handle_key_long_press k m"
    and "m1 \<equiv> snd (sys (Sys_add_time ''long-press'' (5 * USEC_PER_SEC)) m)"
  shows "(long = HANDLE_IGNORE \<or> long = handle_key k m \<longrightarrow>
      key_released k b (key_pressed k b m) = key_action k (handle_key k m) b m) \<and>
    (long \<noteq> HANDLE_IGNORE \<and> long \<noteq> handle_key k m \<and> 0 \<le> ask (Sys_add_time ''long-press'' (5 * USEC_PER_SEC)) m \<longrightarrow>
      key_released k b (key_pressed k b m) = key_action k (handle_key k m) b m1 \<and>
      key_released k b (long_press_handler k b (key_pressed k b m)) = key_action k long b m1)"
  using key_press_once [OF assms(1), of b] by (simp add: long_def m1_def)

theorem key_press_acts_once_witness:
  "key_released Power_key ''event0'' (key_pressed Power_key ''event0'' sample) = key_action Power_key HANDLE_POWEROFF ''event0'' sample"
  using key_press_acts_once [of Power_key sample "''event0''"] by simp

text \<open>
  Timers of long presses outlive their device. Freeing a button device, as when it is unplugged, leaves an armed
  timer armed although its handler still refers to the device.
\<close>

lemma long_press_timer_dangles:
  assumes "key_timer k m" "distinct (m_buttons m)"
  shows "key_timer k (button_free b m) \<and> b \<notin> set (m_buttons (button_free b m))"
  using long_press_outlives_button [OF assms] by simp

text \<open>
  C36: The lid. A recheck is only ever pending on a device whose lid is closed, whatever events arrive, and so a recheck
  that fires takes the lid action and never ends early.
\<close>

theorem lid_recheck_closed:
  fixes evs :: "(string \<times> event_read) list"
  assumes "lid_ok m"
  defines "m' \<equiv> fold (\<lambda>(b, x) m. snd (button_dispatch b x m)) evs m"
  shows "lid_ok m' \<and> (\<forall>b \<in> set (m_buttons m'). b_check_event_source (btn m' b) \<longrightarrow>
    button_recheck b m' = button_lid_switch_handle_action False (b_seat (btn m' b)) m')"
proof -
  have "lid_ok m'" unfolding m'_def using assms(1)
    by (induction evs arbitrary: m) (auto simp: lid_ok_dispatch)
  then show ?thesis using recheck_closed by blast
qed

theorem lid_recheck_closed_witness:
  "lid_ok (snd (button_dispatch ''event0'' (Read_event \<lparr>ev_type = EV_SW, ev_code = SW_LID, ev_value = 1\<rparr>) sample))"
  using lid_recheck_closed [of sample "[(''event0'', Read_event \<lparr>ev_type = EV_SW, ev_code = SW_LID, ev_value = 1\<rparr>)]"]
  by (simp add: lid_ok_def new_button_def)

text \<open>
  C37: Input is harmless. With no key or switch bound to a factory reset, no event read from a button device, except
  a key event of code 0, fails an assertion or breaks the state of the power actions.
\<close>

theorem button_events_safe:
  assumes "config_ok m" "power_ok m" "\<forall>ev. x = Read_event ev \<and> ev_type ev = EV_KEY \<longrightarrow> 0 < ev_code ev"
  shows "power_ok (snd (button_dispatch b x m)) \<and> m_abort (snd (button_dispatch b x m)) = m_abort m"
  using dispatch_safe [OF assms(1), of x b] assms(2,3) by (simp add: power_safe_def)

theorem button_events_safe_witness:
  "\<not> m_abort (snd (button_dispatch ''event0'' (Read_event \<lparr>ev_type = EV_KEY, ev_code = KEY_POWER, ev_value = 1\<rparr>) sample))"
  using button_events_safe [OF sample_config_ok sample_power_ok,
      of "Read_event \<lparr>ev_type = EV_KEY, ev_code = KEY_POWER, ev_value = 1\<rparr>" "''event0''"] by simp

section \<open>Text formats\<close>

text \<open>
  C38: State files. A file of plain lines \<^verbatim>\<open>KEY=value\<close>, whose values are not empty, are on one line and do not
  begin with a quote or a blank, and without lines of comments, is read back entirely:
  every wanted variable holds the value of the last line with its key, with backslashes removed
  and trailing blanks cut, and no other variable changes.
\<close>

theorem env_file_read_back:
  assumes "\<forall>kv \<in> set kvs. plain_entry kv"
  shows "\<exists>vars'. parse_env_file wanted (env_file kvs) vars = Inr vars' \<and>
    (\<forall>k. vars' k = (if k \<in> set wanted then
        (case map_of (rev kvs) k of None \<Rightarrow> vars k | Some v \<Rightarrow> Some (unquoted_value v))
      else vars k))"
  using parse_env_file_lines [OF assms] by (auto simp: read_back_lookup)

theorem env_file_read_back_witness:
  "\<exists>vars'. parse_env_file [''UID''] (env_file [(''UID'', ''1000''), (''USER'', ''joe'')]) (\<lambda>_. None) =
     Inr vars' \<and> vars' ''UID'' = Some ''1000''"
proof -
  have "\<forall>kv \<in> set [(''UID'', ''1000''), (''USER'', ''joe'')]. plain_entry kv"
    by code_simp
  from env_file_read_back [OF this, of "[''UID'']" "\<lambda>_. None"] show ?thesis
    by (auto simp: WHITESPACE_def)
qed

text \<open>
  C39: Escaping. Whatever a string without NUL holds, \<^verbatim>\<open>cunescape\<close> gives it back from what
  \<^verbatim>\<open>cescape\<close> makes of it.
\<close>

theorem cescape_roundtrip:
  "\<forall>c \<in> set s. code c \<noteq> 0 \<Longrightarrow> cunescape (cescape s) = Some s"
  by (rule cunescape_cescape)

theorem cescape_roundtrip_witness:
  "cunescape (cescape [NL, CHR ''a'', CHR 0xFF]) = Some [NL, CHR ''a'', CHR 0xFF]"
  by (rule cescape_roundtrip) simp

text \<open>
  C40: Prefixes of paths. Walking two valid paths component by component, \<^verbatim>\<open>path_startswith\<close> finds a prefix exactly
  when both are absolute or both are relative and the components of the one begin the components of the other.
\<close>

theorem path_startswith_components:
  assumes "path_components True path = Some cs" "path_components True pre = Some ds"
  shows "path_startswith path pre \<noteq> None \<longleftrightarrow>
    path_is_absolute path = path_is_absolute pre \<and> take (length ds) cs = ds"
  using path_startswith_loop_components [OF assms]
  by (auto simp: path_startswith_def path_startswith_full_def path_is_absolute_def)

theorem path_startswith_components_witness: "path_startswith ''/run//user'' ''/run/./'' \<noteq> None"
proof -
  have cs: "path_components True ''/run//user'' = Some [''run'', ''user'']" by code_simp
  have ds: "path_components True ''/run/./'' = Some [''run'']" by code_simp
  show ?thesis unfolding path_startswith_components [OF cs ds] by (simp add: path_is_absolute_def)
qed

end
